(* ===== verification/Prelude.thy ===== *)
theory Prelude
  imports Complex_Main "HOL-Library.Multiset" "HOL-Library.Word"
    "HOL-Library.Code_Target_Int" "HOL-Library.Code_Target_Nat"
begin

text \<open>
  Shared vocabulary of the development: fixed-width reading of C++ integers, bounds-checked
  array access, the collections of facts the components share, and generic lemmas on lists
  and multisets.

  A C++ array or vector is a list. Reading or writing it outside its bounds is undefined
  behaviour; every model operation that indexes an array therefore returns an \<open>option\<close>,
  with \<open>None\<close> for the out-of-bounds access, and sequences such accesses with
  \<^const>\<open>Option.bind\<close>.
\<close>

section \<open>Collections of facts\<close>

named_theorems conserve \<open>operations neither create, duplicate nor destroy cards\<close>
named_theorems keeps \<open>operations preserve a well-formedness invariant\<close>
named_theorems frame \<open>state components an operation does not touch\<close>

section \<open>Integers at their width\<close>

type_synonym u8 = "8 word"
type_synonym u16 = "16 word"
type_synonym u32 = "32 word"
type_synonym u64 = "64 word"

definition to_u8 :: "int \<Rightarrow> nat" where
  "to_u8 x = nat (x mod 256)"

definition to_u32 :: "int \<Rightarrow> int" where
  "to_u32 x = x mod 2 ^ 32"

definition to_i32 :: "int \<Rightarrow> int" where
  "to_i32 x = (x + 2 ^ 31) mod 2 ^ 32 - 2 ^ 31"

lemma to_u8_less: "to_u8 x < 256"
  by (simp add: to_u8_def)

lemma to_u8_id [simp]: "0 \<le> x \<Longrightarrow> x < 256 \<Longrightarrow> to_u8 x = nat x"
  by (simp add: to_u8_def)

lemma to_i32_id: "- (2 ^ 31) \<le> x \<Longrightarrow> x < 2 ^ 31 \<Longrightarrow> to_i32 x = x"
  by (simp add: to_i32_def)

lemma to_i32_range: "- (2 ^ 31) \<le> to_i32 x \<and> to_i32 x < 2 ^ 31"
proof -
  have "0 \<le> (x + 2 ^ 31) mod 2 ^ 32" and "(x + 2 ^ 31) mod 2 ^ 32 < (2 :: int) ^ 32"
    by (simp_all only: pos_mod_sign pos_mod_bound zero_less_power zero_less_numeral)
  then show ?thesis
    unfolding to_i32_def by simp
qed

lemma to_i32_to_u32 [simp]: "to_i32 (to_u32 x) = to_i32 x"
  by (simp add: to_i32_def to_u32_def mod_simps)

section \<open>Bounds-checked arrays\<close>

definition arr_get :: "'a list \<Rightarrow> nat \<Rightarrow> 'a option" where
  "arr_get xs i = (if i < length xs then Some (xs ! i) else None)"

definition arr_set :: "'a list \<Rightarrow> nat \<Rightarrow> 'a \<Rightarrow> 'a list option" where
  "arr_set xs i x = (if i < length xs then Some (xs[i := x]) else None)"

lemma arr_get_Some_iff: "arr_get xs i = Some x \<longleftrightarrow> i < length xs \<and> xs ! i = x"
  by (auto simp: arr_get_def)

lemma arr_set_Some_iff: "arr_set xs i x = Some ys \<longleftrightarrow> i < length xs \<and> ys = xs[i := x]"
  by (auto simp: arr_set_def)

lemma arr_get_less [simp]: "i < length xs \<Longrightarrow> arr_get xs i = Some (xs ! i)"
  by (simp add: arr_get_def)

lemma arr_set_less [simp]: "i < length xs \<Longrightarrow> arr_set xs i x = Some (xs[i := x])"
  by (simp add: arr_set_def)

text \<open>A loop over the first \<open>n\<close> elements of an array.\<close>

definition for_first :: "nat \<Rightarrow> ('a \<Rightarrow> 'a) \<Rightarrow> 'a list \<Rightarrow> 'a list" where
  "for_first n f xs = map f (take n xs) @ drop n xs"

lemma length_for_first [simp]: "length (for_first n f xs) = length xs"
  by (simp add: for_first_def)

lemma take_for_first [simp]: "take n (for_first n f xs) = map f (take n xs)"
  by (simp add: for_first_def min_def)

section \<open>Lists and multisets\<close>

lemma mset_concat_update:
  "i < length xss \<Longrightarrow> mset (concat (xss[i := ys])) + mset (xss ! i) = mset (concat xss) + mset ys"
proof (induction xss arbitrary: i)
  case Nil
  then show ?case by simp
next
  case (Cons zs xss)
  then show ?case by (cases i) (auto simp: ac_simps)
qed

lemma mset_removeAll_distinct:
  "distinct xs \<Longrightarrow> x \<in> set xs \<Longrightarrow> add_mset x (mset (removeAll x xs)) = mset xs"
  by (simp add: distinct_remove1_removeAll [symmetric])

lemma count_list_distinct: "distinct xs \<Longrightarrow> count_list xs x = (if x \<in> set xs then 1 else 0)"
  by (induction xs) auto

lemma distinct_iff_count_list: "distinct xs \<longleftrightarrow> (\<forall>x \<in> set xs. count_list xs x = 1)"
proof (induction xs)
  case Nil
  then show ?case by simp
next
  case (Cons a xs)
  have "count_list xs a = 0 \<longleftrightarrow> a \<notin> set xs"
    by (simp add: count_list_0_iff)
  with Cons show ?case by auto
qed

end
