(* ===== verification/Gcm.thy ===== *)
theory Gcm
  imports Prelude
begin

text \<open>
  The authenticated encryption of the frames (mbedtls, library/gcm.c, the portable code): Galois counter
  mode over a block cipher. Bytes are words of eight bits. The block cipher with its key, which
  \<open>mbedtls_cipher_update\<close> runs on one block and which does not fail, is a field of the context. Input
  and output buffers do not overlap. A routine returns its code first, then what it writes.
\<close>

unbundle bit_operations_syntax

type_synonym bytes = "u8 list"

section \<open>Words in memory\<close>

definition GET_UINT32_BE :: "bytes \<Rightarrow> nat \<Rightarrow> u32" where
  "GET_UINT32_BE data offset =
     push_bit 24 (ucast (data ! offset)) OR push_bit 16 (ucast (data ! (offset + 1))) OR
     push_bit 8 (ucast (data ! (offset + 2))) OR ucast (data ! (offset + 3))"

definition PUT_UINT32_BE :: "u32 \<Rightarrow> bytes" where
  "PUT_UINT32_BE n = [ucast (drop_bit 24 n), ucast (drop_bit 16 n), ucast (drop_bit 8 n), ucast n]"

text \<open>The words of 64 bits are put and got as two halves.\<close>

definition get64 :: "bytes \<Rightarrow> nat \<Rightarrow> u64" where
  "get64 h offset = push_bit 32 (ucast (GET_UINT32_BE h offset)) OR ucast (GET_UINT32_BE h (offset + 4))"

definition put64 :: "u64 \<Rightarrow> bytes" where
  "put64 z = PUT_UINT32_BE (ucast (drop_bit 32 z)) @ PUT_UINT32_BE (ucast z)"

text \<open>\<open>mbedtls_xor\<close> of the bytes of \<open>p\<close> into a buffer at an offset, in place.\<close>

definition xor_bytes :: "bytes \<Rightarrow> bytes \<Rightarrow> bytes" where
  "xor_bytes a b = map2 (XOR) a b"

definition xor_into :: "nat \<Rightarrow> bytes \<Rightarrow> bytes \<Rightarrow> bytes" where
  "xor_into offset p b = take offset b @ xor_bytes (drop offset b) p @ drop (offset + length p) b"

section \<open>Context\<close>

datatype gcm_mode = MBEDTLS_GCM_ENCRYPT | MBEDTLS_GCM_DECRYPT

record gcm_context =
  cipher_ctx :: "bytes \<Rightarrow> bytes"
  HL :: "u64 list"
  HH :: "u64 list"
  gcm_len :: nat
  add_len :: nat
  base_ectr :: bytes
  gcm_y :: bytes
  gcm_buf :: bytes
  gcm_mode :: gcm_mode

definition BAD_INPUT :: int where "BAD_INPUT = - 20"
definition AUTH_FAILED :: int where "AUTH_FAILED = - 18"
definition BUFFER_TOO_SMALL :: int where "BUFFER_TOO_SMALL = - 22"

definition zeros :: "nat \<Rightarrow> bytes" where
  "zeros n = replicate n 0"

definition mbedtls_gcm_init :: gcm_context where
  "mbedtls_gcm_init =
     \<lparr>cipher_ctx = (\<lambda>b. b), HL = replicate 16 0, HH = replicate 16 0, gcm_len = 0, add_len = 0,
      base_ectr = zeros 16, gcm_y = zeros 16, gcm_buf = zeros 16, gcm_mode = MBEDTLS_GCM_DECRYPT\<rparr>"

section \<open>The table of multiples\<close>

text \<open>One round of the loop over \<open>i = 4, 2, 1\<close>: half of the value, and its place in the tables.\<close>

definition half_step :: "nat \<Rightarrow> u64 \<times> u64 \<times> u64 list \<times> u64 list \<Rightarrow> u64 \<times> u64 \<times> u64 list \<times> u64 list" where
  "half_step i = (\<lambda>(vh, vl, hh, hl).
     let t = (ucast (vl AND 1) :: u32) * 0xe1000000;
         vl' = push_bit 63 vh OR drop_bit 1 vl;
         vh' = drop_bit 1 vh XOR push_bit 32 (ucast t)
     in (vh', vl', hh[i := vh'], hl[i := vl']))"

text \<open>The loop over \<open>i = 2, 4, 8\<close> and \<open>j\<close> below \<open>i\<close>: sums of the values so far.\<close>

definition sum_step :: "nat \<Rightarrow> u64 list \<Rightarrow> u64 list" where
  "sum_step i t = fold (\<lambda>j t. t[i + j := t ! i XOR t ! j]) [1..<i] t"

definition gcm_gen_table :: "gcm_context \<Rightarrow> gcm_context" where
  "gcm_gen_table ctx =
     (let h = cipher_ctx ctx (zeros 16);
          vh = get64 h 0;
          vl = get64 h 8;
          hl = (HL ctx)[8 := vl, 0 := 0];
          hh = (HH ctx)[8 := vh, 0 := 0];
          (_, _, hh, hl) = fold half_step [4, 2, 1] (vh, vl, hh, hl)
      in ctx\<lparr>HH := fold sum_step [2, 4, 8] hh, HL := fold sum_step [2, 4, 8] hl\<rparr>)"

text \<open>The block cipher is an argument: a function of the key and a block.\<close>

definition mbedtls_gcm_setkey :: "(bytes \<Rightarrow> bytes \<Rightarrow> bytes) \<Rightarrow> bytes \<Rightarrow> nat \<Rightarrow> gcm_context \<Rightarrow> int \<times> gcm_context" where
  "mbedtls_gcm_setkey aes key keybits ctx =
     (if keybits \<noteq> 128 \<and> keybits \<noteq> 192 \<and> keybits \<noteq> 256 then (BAD_INPUT, ctx)
      else (0, gcm_gen_table (ctx\<lparr>cipher_ctx := aes (take (keybits div 8) key)\<rparr>)))"

section \<open>Multiplication\<close>

definition last4 :: "u64 list" where
  "last4 =
    [0x0000, 0x1c20, 0x3840, 0x2460,
     0x7080, 0x6ca0, 0x48c0, 0x54e0,
     0xe100, 0xfd20, 0xd940, 0xc560,
     0x9180, 0x8da0, 0xa9c0, 0xb5e0]"

text \<open>Four places to the right with the bits that fall out folded in, then the table's entry added.\<close>

definition nibble_step :: "gcm_context \<Rightarrow> u8 \<Rightarrow> u64 \<times> u64 \<Rightarrow> u64 \<times> u64" where
  "nibble_step ctx nib = (\<lambda>(zh, zl).
     let r = zl AND 0xf;
         zl' = push_bit 60 zh OR drop_bit 4 zl;
         zh' = drop_bit 4 zh XOR push_bit 48 (last4 ! unat r)
     in (zh' XOR HH ctx ! unat nib, zl' XOR HL ctx ! unat nib))"

definition low_nibble :: "u8 \<Rightarrow> u8" where "low_nibble b = b AND 0xf"
definition high_nibble :: "u8 \<Rightarrow> u8" where "high_nibble b = drop_bit 4 b AND 0xf"

definition byte_step :: "gcm_context \<Rightarrow> bytes \<Rightarrow> nat \<Rightarrow> u64 \<times> u64 \<Rightarrow> u64 \<times> u64" where
  "byte_step ctx x i z =
     (let z1 = (if i \<noteq> 15 then nibble_step ctx (low_nibble (x ! i)) z else z)
      in nibble_step ctx (high_nibble (x ! i)) z1)"

definition gcm_mult :: "gcm_context \<Rightarrow> bytes \<Rightarrow> bytes" where
  "gcm_mult ctx x =
     (let lo = low_nibble (x ! 15);
          (zh, zl) = fold (byte_step ctx x) (rev [0..<16]) (HH ctx ! unat lo, HL ctx ! unat lo)
      in put64 zh @ put64 zl)"

section \<open>The operation\<close>

text \<open>The loop over an initial value that has not twelve bytes.\<close>

function iv_blocks :: "gcm_context \<Rightarrow> bytes \<Rightarrow> bytes \<Rightarrow> bytes" where
  "iv_blocks ctx y p =
     (if p = [] then y else iv_blocks ctx (gcm_mult ctx (xor_into 0 (take 16 p) y)) (drop 16 p))"
  by pat_completeness auto
termination
  by (relation "measure (\<lambda>(ctx, y, p). length p)") auto

declare iv_blocks.simps [simp del]

definition mbedtls_gcm_starts :: "gcm_mode \<Rightarrow> bytes \<Rightarrow> gcm_context \<Rightarrow> int \<times> gcm_context" where
  "mbedtls_gcm_starts mode iv ctx =
     (if length iv = 0 \<or> 2 ^ 61 \<le> length iv then (BAD_INPUT, ctx)
      else
        (let ctx1 = ctx\<lparr>gcm_y := zeros 16, gcm_buf := zeros 16, gcm_mode := mode, gcm_len := 0, add_len := 0\<rparr>;
             y = (if length iv = 12 then (iv @ drop 12 (gcm_y ctx1))[15 := 1]
                  else gcm_mult ctx1 (xor_into 0 (zeros 8 @ put64 (of_nat (length iv * 8))) (iv_blocks ctx1 (gcm_y ctx1) iv)))
         in (0, ctx1\<lparr>gcm_y := y, base_ectr := cipher_ctx ctx1 y\<rparr>)))"

text \<open>The whole blocks of the additional data, then the bytes that are left.\<close>

function ad_blocks :: "gcm_context \<Rightarrow> bytes \<Rightarrow> bytes \<Rightarrow> bytes" where
  "ad_blocks ctx b p =
     (if 16 \<le> length p then ad_blocks ctx (gcm_mult ctx (xor_into 0 (take 16 p) b)) (drop 16 p)
      else if 0 < length p then xor_into 0 p b else b)"
  by pat_completeness auto
termination
  by (relation "measure (\<lambda>(ctx, b, p). length p)") auto

declare ad_blocks.simps [simp del]

definition mbedtls_gcm_update_ad :: "bytes \<Rightarrow> gcm_context \<Rightarrow> int \<times> gcm_context" where
  "mbedtls_gcm_update_ad add ctx =
     (if 2 ^ 61 \<le> length add then (BAD_INPUT, ctx)
      else
        (let offset = add_len ctx mod 16;
             use_len = (if offset \<noteq> 0 then min (16 - offset) (length add) else 0);
             b1 = (if offset \<noteq> 0 then xor_into offset (take use_len add) (gcm_buf ctx) else gcm_buf ctx);
             b2 = (if offset \<noteq> 0 \<and> offset + use_len = 16 then gcm_mult ctx b1 else b1);
             p = drop use_len add
         in (0, ctx\<lparr>gcm_buf := ad_blocks ctx b2 p, add_len := (add_len ctx + length add) mod 2 ^ 64\<rparr>)))"

text \<open>The counter in the last four bytes; the loop stops at a byte that does not wrap.\<close>

fun incr_from :: "nat list \<Rightarrow> bytes \<Rightarrow> bytes" where
  "incr_from [] y = y"
| "incr_from (i # is) y =
     (let y' = y[i - 1 := y ! (i - 1) + 1] in if y' ! (i - 1) \<noteq> 0 then y' else incr_from is y')"

definition gcm_incr :: "bytes \<Rightarrow> bytes" where
  "gcm_incr y = incr_from [16, 15, 14, 13] y"

text \<open>The output and the context.\<close>

definition gcm_mask :: "nat \<Rightarrow> bytes \<Rightarrow> gcm_context \<Rightarrow> bytes \<times> gcm_context" where
  "gcm_mask offset input ctx =
     (let ectr = cipher_ctx ctx (gcm_y ctx);
          b1 = (if gcm_mode ctx = MBEDTLS_GCM_DECRYPT then xor_into offset input (gcm_buf ctx) else gcm_buf ctx);
          output = xor_bytes (drop offset ectr) input;
          b2 = (if gcm_mode ctx = MBEDTLS_GCM_ENCRYPT then xor_into offset output b1 else b1)
      in (output, ctx\<lparr>gcm_buf := b2\<rparr>))"

definition mult_buf :: "gcm_context \<Rightarrow> gcm_context" where
  "mult_buf ctx = ctx\<lparr>gcm_buf := gcm_mult ctx (gcm_buf ctx)\<rparr>"

function data_blocks :: "bytes \<Rightarrow> gcm_context \<Rightarrow> bytes \<times> gcm_context" where
  "data_blocks p ctx =
     (if 16 \<le> length p then
        (let (out, ctx1) = gcm_mask 0 (take 16 p) (ctx\<lparr>gcm_y := gcm_incr (gcm_y ctx)\<rparr>);
             (rest, ctx2) = data_blocks (drop 16 p) (mult_buf ctx1)
         in (out @ rest, ctx2))
      else if 0 < length p then gcm_mask 0 p (ctx\<lparr>gcm_y := gcm_incr (gcm_y ctx)\<rparr>)
      else ([], ctx))"
  by pat_completeness auto
termination
  by (relation "measure (\<lambda>(p, ctx). length p)") auto

declare data_blocks.simps [simp del]

definition mbedtls_gcm_update :: "bytes \<Rightarrow> nat \<Rightarrow> gcm_context \<Rightarrow> int \<times> bytes \<times> gcm_context" where
  "mbedtls_gcm_update input output_size ctx =
     (if output_size < length input then (BUFFER_TOO_SMALL, [], ctx)
      else if length input = 0 then (0, [], ctx)
      else if (gcm_len ctx + length input) mod 2 ^ 64 < gcm_len ctx \<or>
        0xFFFFFFFE0 < (gcm_len ctx + length input) mod 2 ^ 64 then (BAD_INPUT, [], ctx)
      else
        (let ctx1 = (if gcm_len ctx = 0 \<and> add_len ctx mod 16 \<noteq> 0 then mult_buf ctx else ctx);
             offset = gcm_len ctx1 mod 16;
             use_len = (if offset \<noteq> 0 then min (16 - offset) (length input) else 0);
             (out1, ctx2) = (if offset \<noteq> 0 then gcm_mask offset (take use_len input) ctx1 else ([], ctx1));
             ctx3 = (if offset \<noteq> 0 \<and> offset + use_len = 16 then mult_buf ctx2 else ctx2);
             ctx4 = ctx3\<lparr>gcm_len := (gcm_len ctx3 + length input) mod 2 ^ 64\<rparr>;
             (out2, ctx5) = data_blocks (drop use_len input) ctx4
         in (0, out1 @ out2, ctx5)))"

definition mbedtls_gcm_finish :: "nat \<Rightarrow> gcm_context \<Rightarrow> int \<times> bytes \<times> gcm_context" where
  "mbedtls_gcm_finish tag_len ctx =
     (let orig_len = gcm_len ctx * 8 mod 2 ^ 64;
          orig_add_len = add_len ctx * 8 mod 2 ^ 64;
          ctx1 = (if gcm_len ctx = 0 \<and> add_len ctx mod 16 \<noteq> 0 then mult_buf ctx else ctx)
      in if 16 < tag_len \<or> tag_len < 4 then (BAD_INPUT, [], ctx1)
         else
           (let ctx2 = (if gcm_len ctx mod 16 \<noteq> 0 then mult_buf ctx1 else ctx1);
                tag = take tag_len (base_ectr ctx2)
            in if orig_len \<noteq> 0 \<or> orig_add_len \<noteq> 0 then
                 (let work_buf = put64 (of_nat orig_add_len) @ put64 (of_nat orig_len);
                      ctx3 = mult_buf (ctx2\<lparr>gcm_buf := xor_into 0 work_buf (gcm_buf ctx2)\<rparr>)
                  in (0, xor_bytes tag (take tag_len (gcm_buf ctx3)), ctx3))
               else (0, tag, ctx2)))"

text \<open>The output is \<open>None\<close> where the buffer is left as it was.\<close>

definition mbedtls_gcm_crypt_and_tag ::
  "gcm_mode \<Rightarrow> bytes \<Rightarrow> bytes \<Rightarrow> bytes \<Rightarrow> nat \<Rightarrow> gcm_context \<Rightarrow> int \<times> bytes option \<times> bytes \<times> gcm_context" where
  "mbedtls_gcm_crypt_and_tag mode iv add input tag_len ctx =
     (let (ret, ctx1) = mbedtls_gcm_starts mode iv ctx
      in if ret \<noteq> 0 then (ret, None, [], ctx1)
         else (let (ret, ctx2) = mbedtls_gcm_update_ad add ctx1
               in if ret \<noteq> 0 then (ret, None, [], ctx2)
                  else (let (ret, output, ctx3) = mbedtls_gcm_update input (length input) ctx2
                        in if ret \<noteq> 0 then (ret, None, [], ctx3)
                           else (let (ret, tag, ctx4) = mbedtls_gcm_finish tag_len ctx3
                                 in (ret, Some output, tag, ctx4)))))"

definition mbedtls_gcm_auth_decrypt ::
  "bytes \<Rightarrow> bytes \<Rightarrow> bytes \<Rightarrow> bytes \<Rightarrow> gcm_context \<Rightarrow> int \<times> bytes option \<times> gcm_context" where
  "mbedtls_gcm_auth_decrypt iv add tag input ctx =
     (let (ret, output, check_tag, ctx1) =
            mbedtls_gcm_crypt_and_tag MBEDTLS_GCM_DECRYPT iv add input (length tag) ctx
      in if ret \<noteq> 0 then (ret, output, ctx1)
         else if fold (OR) (xor_bytes tag check_tag) 0 \<noteq> 0 then
           (AUTH_FAILED, Some (zeros (length input)), ctx1)
         else (0, output, ctx1))"

end
