(* ===== verification/Gcm_Facts.thy ===== *)
theory Gcm_Facts
  imports Gcm "HOL-Library.Sublist"
begin

text \<open>
  The arithmetic of the mode: the field of the standard, the table and the product, the counter, the
  hash and the key stream, and the code's loops over blocks as folds of them.
\<close>
section \<open>The field\<close>

text \<open>
  The specification of the mode (NIST SP 800-38D, 6.3): a block is a polynomial whose constant term
  is the highest bit of its first byte; \<open>times_p\<close> multiplies by the unknown, and \<open>field_mult\<close> adds
  up the multiples of \<open>v\<close> that the bits of the other factor select.
\<close>

type_synonym block = "128 word"

definition times_p :: "block \<Rightarrow> block" where
  "times_p v = drop_bit 1 v XOR (if bit v 0 then push_bit 120 0xe1 else 0)"

fun field_mult :: "bool list \<Rightarrow> block \<Rightarrow> block" where
  "field_mult [] v = 0"
| "field_mult (b # bs) v = (if b then v else 0) XOR field_mult bs (times_p v)"

lemma times_p_xor: "times_p (a XOR b) = times_p a XOR times_p b"
  by (rule bit_word_eqI) (auto simp: times_p_def bit_simps)

lemma times_p_0 [simp]: "times_p 0 = 0"
  by (simp add: times_p_def)

lemma field_mult_xor: "field_mult bs (a XOR b) = field_mult bs a XOR field_mult bs b"
  by (induction bs arbitrary: a b) (simp_all add: times_p_xor ac_simps)

lemma field_mult_times_p: "field_mult bs (times_p v) = times_p (field_mult bs v)"
  by (induction bs arbitrary: v) (simp_all add: times_p_xor)

lemma field_mult_Cons: "field_mult (b # bs) v = (if b then v else 0) XOR times_p (field_mult bs v)"
  by (simp add: field_mult_times_p)

subsection \<open>Four places at once\<close>

definition times_p4 :: "block \<Rightarrow> block" where
  "times_p4 v = times_p (times_p (times_p (times_p v)))"

lemma times_p4_xor: "times_p4 (a XOR b) = times_p4 a XOR times_p4 b"
  by (simp add: times_p4_def times_p_xor)

lemma times_p_even: "\<not> bit v 0 \<Longrightarrow> times_p v = drop_bit 1 v"
  by (simp add: times_p_def)

lemma times_p4_high: "times_p4 (v AND NOT 15) = drop_bit 4 v"
proof -
  have m: "bit (- 16 :: block) n \<longleftrightarrow> n < 128 \<and> 4 \<le> n" for n
  proof -
    have "(- 16 :: block) = NOT (mask 4)" by (simp add: mask_eq_decr_exp)
    then show ?thesis by (simp only: bit_not_iff bit_mask_iff) (auto simp: not_less)
  qed
  define w where "w = v AND NOT 15"
  have wb: "bit w n \<longleftrightarrow> bit v n \<and> 4 \<le> n" for n
    using m [of n] bit_imp_le_length [of v n] by (auto simp: w_def bit_and_iff)
  then have w: "\<not> bit w n" if "n < 4" for n using that by simp
  have "times_p w = drop_bit 1 w" by (rule times_p_even) (simp add: w)
  moreover have "times_p (drop_bit 1 w) = drop_bit 1 (drop_bit 1 w)"
    by (rule times_p_even) (simp add: bit_drop_bit_eq w)
  moreover have "times_p (drop_bit 1 (drop_bit 1 w)) = drop_bit 1 (drop_bit 1 (drop_bit 1 w))"
    by (rule times_p_even) (simp add: bit_drop_bit_eq w)
  moreover have "times_p (drop_bit 1 (drop_bit 1 (drop_bit 1 w))) = drop_bit 1 (drop_bit 1 (drop_bit 1 (drop_bit 1 w)))"
    by (rule times_p_even) (simp add: bit_drop_bit_eq w)
  moreover have "drop_bit 1 (drop_bit 1 (drop_bit 1 (drop_bit 1 w))) = drop_bit 4 v"
    by (rule bit_word_eqI) (simp add: bit_drop_bit_eq wb eval_nat_numeral)
  ultimately show ?thesis by (simp only: times_p4_def w_def [symmetric])
qed

lemma below_16: "[0..<16] = [0, 1, 2, 3, 4, 5, 6, 7, 8, 9, 10, 11, 12, 13, 14, 15]"
  by code_simp

lemma times_p4_low:
  "list_all (\<lambda>n. times_p4 (of_nat n) = push_bit 112 (ucast (last4 ! n))) [0..<16]"
  unfolding below_16 list.pred_inject
  by (intro conjI TrueI) (simp_all add: times_p4_def times_p_def last4_def)

lemma and_15_less: "unat (v AND 15 :: 'a :: len word) < 16"
proof -
  have "v AND 15 = v AND mask 4" by (simp add: mask_eq_decr_exp)
  also have "\<dots> = take_bit 4 v" by (simp add: take_bit_eq_mask)
  finally have "unat (v AND 15) = take_bit 4 (unat v)" by (simp add: unsigned_take_bit_eq)
  then show ?thesis using take_bit_nat_less_exp [of 4 "unat v"] by simp
qed

lemma times_p4_split: "times_p4 v = drop_bit 4 v XOR push_bit 112 (ucast (last4 ! unat (v AND 15)))"
proof -
  have "v = (v AND NOT 15) XOR (v AND 15)"
    by (rule bit_word_eqI) (auto simp: bit_simps)
  then have "times_p4 v = drop_bit 4 v XOR times_p4 (v AND 15)"
    by (metis times_p4_xor times_p4_high)
  moreover have "times_p4 (v AND 15) = push_bit 112 (ucast (last4 ! unat (v AND 15)))"
    using times_p4_low and_15_less [of v] unfolding list_all_iff
    by (auto dest!: bspec [where x = "unat (v AND 15)"])
  ultimately show ?thesis by simp
qed

section \<open>The table\<close>

text \<open>The two halves of a field element.\<close>

definition joined :: "u64 \<times> u64 \<Rightarrow> block" where
  "joined z = word_cat (fst z) (snd z)"

lemma bit_joined: "bit (joined (zh, zl)) n \<longleftrightarrow> (if n < 64 then bit zl n else bit zh (n - 64))"
  using bit_imp_le_length [of zh "n - 64"] by (auto simp: joined_def bit_word_cat_iff)

lemma joined_xor: "joined (a XOR b, c XOR d) = joined (a, c) XOR joined (b, d)"
  by (rule bit_word_eqI) (simp add: bit_joined bit_xor_iff)

lemma joined_0 [simp]: "joined (0, 0) = 0"
  by (rule bit_word_eqI) (simp add: bit_joined)

lemma joined_shift:
  assumes "0 < k" "k < 64"
  shows "joined (drop_bit k zh, push_bit (64 - k) zh OR drop_bit k zl) = drop_bit k (joined (zh, zl))"
proof (rule bit_word_eqI)
  fix n :: nat
  assume "n < LENGTH(128)"
  consider "n < 64 - k" | "64 - k \<le> n" "n < 64" | "64 \<le> n" by linarith
  then show "bit (joined (drop_bit k zh, push_bit (64 - k) zh OR drop_bit k zl)) n = bit (drop_bit k (joined (zh, zl))) n"
  proof cases
    case 1
    with assms have "n < 64" "k + n < 64" by simp_all
    with 1 show ?thesis using assms by (simp add: bit_joined bit_drop_bit_eq bit_or_iff bit_push_bit_iff)
  next
    case 2
    with assms have "\<not> bit zl (k + n)" using bit_imp_le_length [of zl "k + n"] by auto
    moreover from 2 assms have "k + n - 64 = n - (64 - k)" "\<not> k + n < 64" by simp_all
    ultimately show ?thesis using 2 assms
      by (simp add: bit_joined bit_drop_bit_eq bit_or_iff bit_push_bit_iff)
  next
    case 3
    then have "k + (n - 64) = k + n - 64" by simp
    with 3 show ?thesis using assms by (simp add: bit_joined bit_drop_bit_eq)
  qed
qed

lemma joined_half:
  "joined (drop_bit 1 vh XOR push_bit 32 (ucast ((ucast (vl AND 1) :: u32) * 0xe1000000)), push_bit 63 vh OR drop_bit 1 vl)
   = times_p (joined (vh, vl))"
proof -
  define r :: u64 where "r = push_bit 32 (ucast ((ucast (vl AND 1) :: u32) * 0xe1000000))"
  have "joined (r, 0) = (if bit vl 0 then push_bit 120 0xe1 else 0)"
  proof (cases "bit vl 0")
    case True
    then have "vl AND 1 = 1" by (simp add: and_one_eq mod_2_eq_odd bit_0)
    with True show ?thesis by (simp add: r_def joined_def word_cat_eq)
  next
    case False
    then have "vl AND 1 = 0" by (simp add: and_one_eq mod_2_eq_odd bit_0)
    with False show ?thesis by (simp add: r_def)
  qed
  moreover have "joined (drop_bit 1 vh XOR r, (push_bit 63 vh OR drop_bit 1 vl) XOR 0) =
      drop_bit 1 (joined (vh, vl)) XOR joined (r, 0)"
    unfolding joined_xor using joined_shift [of 1 vh vl] by simp
  ultimately show ?thesis by (simp add: times_p_def bit_joined r_def)
qed

lemma joined_high: "joined (push_bit 48 r, 0) = push_bit 112 (ucast r)"
proof (rule bit_word_eqI)
  fix n :: nat
  assume "n < LENGTH(128)"
  then show "bit (joined (push_bit 48 r, 0)) n = bit (push_bit 112 (ucast r) :: block) n"
    by (auto simp: bit_joined bit_push_bit_iff bit_ucast_iff dest: bit_imp_le_length)
qed

lemma joined_shift4:
  "joined (drop_bit 4 zh XOR push_bit 48 (last4 ! unat (zl AND 15)), push_bit 60 zh OR drop_bit 4 zl)
   = times_p4 (joined (zh, zl))"
proof -
  have "joined (zh, zl) AND 15 = ucast (zl AND 15)"
  proof (rule bit_word_eqI)
    fix n :: nat
    assume "n < LENGTH(128)"
    have "(15 :: block) = mask 4" "(15 :: u64) = mask 4" by (simp_all add: mask_eq_decr_exp)
    then show "bit (joined (zh, zl) AND 15) n = bit (ucast (zl AND 15) :: block) n"
      by (simp only: bit_and_iff bit_joined bit_ucast_iff bit_mask_iff) (auto dest: bit_imp_le_length)
  qed
  then have "unat (joined (zh, zl) AND 15) = unat (zl AND 15)"
    using and_15_less [of zl] by (simp add: unsigned_ucast_eq take_bit_nat_eq_self)
  moreover have "joined (drop_bit 4 zh XOR push_bit 48 r, (push_bit 60 zh OR drop_bit 4 zl) XOR 0) =
      drop_bit 4 (joined (zh, zl)) XOR joined (push_bit 48 r, 0)" for r
    unfolding joined_xor using joined_shift [of 4 zh zl] by simp
  ultimately show ?thesis by (simp add: times_p4_split joined_high)
qed

lemma list_16:
  assumes "length xs = 16"
  obtains a0 a1 a2 a3 a4 a5 a6 a7 a8 a9 a10 a11 a12 a13 a14 a15
  where "xs = [a0, a1, a2, a3, a4, a5, a6, a7, a8, a9, a10, a11, a12, a13, a14, a15]"
  using assms by (auto simp: length_Suc_conv numeral_eq_Suc)

lemma sum_steps:
  assumes "length t = 16"
  shows "fold sum_step [2, 4, 8] t =
    [t ! 0, t ! 1, t ! 2, t ! 2 XOR t ! 1,
     t ! 4, t ! 4 XOR t ! 1, t ! 4 XOR t ! 2, t ! 4 XOR (t ! 2 XOR t ! 1),
     t ! 8, t ! 8 XOR t ! 1, t ! 8 XOR t ! 2, t ! 8 XOR (t ! 2 XOR t ! 1),
     t ! 8 XOR t ! 4, t ! 8 XOR (t ! 4 XOR t ! 1), t ! 8 XOR (t ! 4 XOR t ! 2),
     t ! 8 XOR (t ! 4 XOR (t ! 2 XOR t ! 1))]"
proof -
  have upt: "[Suc 0..<2] = [1 :: nat]" "[Suc 0..<4] = [1, 2, 3 :: nat]" "[Suc 0..<8] = [1, 2, 3, 4, 5, 6, 7 :: nat]"
    by code_simp+
  from assms obtain a0 a1 a2 a3 a4 a5 a6 a7 a8 a9 a10 a11 a12 a13 a14 a15
    where "t = [a0, a1, a2, a3, a4, a5, a6, a7, a8, a9, a10, a11, a12, a13, a14, a15]"
    by (rule list_16)
  then show ?thesis by (simp add: sum_step_def upt)
qed

definition nibble_bits :: "nat \<Rightarrow> bool list" where
  "nibble_bits n = [bit n 3, bit n 2, bit n 1, bit n 0]"

definition table_ok :: "gcm_context \<Rightarrow> block \<Rightarrow> bool" where
  "table_ok ctx h = (length (HH ctx) = 16 \<and> length (HL ctx) = 16 \<and>
     (\<forall>n < 16. joined (HH ctx ! n, HL ctx ! n) = field_mult (nibble_bits n) h))"

lemma table_entry: "table_ok ctx h \<Longrightarrow> n < 16 \<Longrightarrow> joined (HH ctx ! n, HL ctx ! n) = field_mult (nibble_bits n) h"
  by (simp add: table_ok_def)

lemma joined_half_step:
  "half_step i (vh, vl, hh, hl) = (vh', vl', hh', hl') \<Longrightarrow>
   joined (vh', vl') = times_p (joined (vh, vl)) \<and> hh' = hh[i := vh'] \<and> hl' = hl[i := vl']"
  unfolding joined_half [symmetric] by (auto simp: half_step_def Let_def)

lemma less_16_cases: "(\<forall>n < 16. P n) \<longleftrightarrow> list_all P [0..<16]"
  by (auto simp: list_all_iff)

lemma gcm_gen_table_ok:
  assumes "length (HH ctx) = 16" "length (HL ctx) = 16"
  shows "table_ok (gcm_gen_table ctx) (joined (get64 (cipher_ctx ctx (zeros 16)) 0, get64 (cipher_ctx ctx (zeros 16)) 8))"
proof -
  define vh where "vh = get64 (cipher_ctx ctx (zeros 16)) 0"
  define vl where "vl = get64 (cipher_ctx ctx (zeros 16)) 8"
  let ?hh = "(HH ctx)[8 := vh, 0 := 0]" and ?hl = "(HL ctx)[8 := vl, 0 := 0]"
  obtain h4 l4 hh4 hl4 where s4: "half_step 4 (vh, vl, ?hh, ?hl) = (h4, l4, hh4, hl4)" by (metis surj_pair)
  obtain h2 l2 hh2 hl2 where s2: "half_step 2 (h4, l4, hh4, hl4) = (h2, l2, hh2, hl2)" by (metis surj_pair)
  obtain h1 l1 hh1 hl1 where s1: "half_step 1 (h2, l2, hh2, hl2) = (h1, l1, hh1, hl1)" by (metis surj_pair)
  note j = joined_half_step [OF s4] joined_half_step [OF s2] joined_half_step [OF s1]
  have ctx': "HH (gcm_gen_table ctx) = fold sum_step [2, 4, 8] hh1" "HL (gcm_gen_table ctx) = fold sum_step [2, 4, 8] hl1"
    using s4 s2 s1 by (simp_all add: gcm_gen_table_def vh_def vl_def Let_def)
  have len: "length hh1 = 16" "length hl1 = 16" using j assms by simp_all
  have nth: "hh1 ! 0 = 0" "hl1 ! 0 = 0" "hh1 ! 8 = vh" "hl1 ! 8 = vl" "hh1 ! 4 = h4" "hl1 ! 4 = l4"
    "hh1 ! 2 = h2" "hl1 ! 2 = l2" "hh1 ! 1 = h1" "hl1 ! 1 = l1"
    using j assms by (simp_all add: nth_list_update)
  have "list_all (\<lambda>n. joined (HH (gcm_gen_table ctx) ! n, HL (gcm_gen_table ctx) ! n) = field_mult (nibble_bits n) (joined (vh, vl))) [0..<16]"
    unfolding below_16 list.pred_inject ctx' sum_steps [OF len(1)] sum_steps [OF len(2)] nth
    by (intro conjI TrueI) (simp_all add: nibble_bits_def joined_xor j bit_numeral_rec bit_Suc_0_iff)
  moreover have "length (HH (gcm_gen_table ctx)) = 16" "length (HL (gcm_gen_table ctx)) = 16"
    unfolding ctx' sum_steps [OF len(1)] sum_steps [OF len(2)] by simp_all
  ultimately show ?thesis
    unfolding table_ok_def less_16_cases vh_def [symmetric] vl_def [symmetric] by simp
qed

section \<open>The product\<close>

definition byte_bits :: "u8 \<Rightarrow> bool list" where
  "byte_bits b = map (bit b) [7, 6, 5, 4, 3, 2, 1, 0]"

definition bits_of :: "bytes \<Rightarrow> bool list" where
  "bits_of x = concat (map byte_bits x)"

definition block_bytes :: "block \<Rightarrow> bytes" where
  "block_bytes w = map (\<lambda>i. ucast (drop_bit (120 - 8 * i) w)) [0..<16]"

lemma field_mult_nibble: "field_mult (nibble_bits n @ bs) h = field_mult (nibble_bits n) h XOR times_p4 (field_mult bs h)"
  by (simp add: nibble_bits_def times_p4_def field_mult_times_p times_p_xor ac_simps)

lemma nibble_step_joined:
  assumes "table_ok ctx h" "unat nib < 16"
  shows "joined (nibble_step ctx nib z) = field_mult (nibble_bits (unat nib)) h XOR times_p4 (joined z)"
  by (cases z) (simp add: nibble_step_def joined_xor joined_shift4 table_entry [OF assms] xor.commute)

lemma nibbles_less: "unat (low_nibble b) < 16" "unat (high_nibble b) < 16"
  by (simp_all add: low_nibble_def high_nibble_def and_15_less)

lemma byte_bits_nibbles: "byte_bits b = nibble_bits (unat (high_nibble b)) @ nibble_bits (unat (low_nibble b))"
proof -
  have m: "(15 :: u8) = mask 4" by (simp add: mask_eq_decr_exp)
  have "bit (unat (b AND mask 4)) n \<longleftrightarrow> n < 4 \<and> bit b n" "bit (unat (drop_bit 4 b AND mask 4)) n \<longleftrightarrow> n < 4 \<and> bit b (n + 4)" for n
    by (auto simp: bit_unsigned_iff bit_and_iff bit_mask_iff bit_drop_bit_eq add.commute dest: bit_imp_le_length)
  then show ?thesis
    unfolding high_nibble_def low_nibble_def m by (simp add: byte_bits_def nibble_bits_def)
qed

lemma product_loop:
  assumes ok: "table_ok ctx h" and x: "length x = 16" and k: "k \<le> 15"
  shows "joined (fold (byte_step ctx x) (rev [k..<16]) (HH ctx ! unat (low_nibble (x ! 15)), HL ctx ! unat (low_nibble (x ! 15))))
    = field_mult (bits_of (drop k x)) h"
  using k
proof (induction k rule: inc_induct)
  case base
  have "drop 15 x = [x ! 15]" using Cons_nth_drop_Suc [of 15 x] x by simp
  moreover have "rev [15..<16] = [15 :: nat]" by code_simp
  ultimately show ?case
    using nibbles_less [of "x ! 15"] ok
    by (simp add: byte_step_def nibble_step_joined table_entry bits_of_def byte_bits_nibbles field_mult_nibble)
next
  case (step k)
  then have "[k..<16] = k # [Suc k..<16]" by (simp add: upt_conv_Cons)
  moreover have "drop k x = x ! k # drop (Suc k) x" using Cons_nth_drop_Suc [of k x] x step by simp
  ultimately show ?case
    using step nibbles_less [of "x ! k"] ok
    by (simp add: byte_step_def nibble_step_joined bits_of_def byte_bits_nibbles field_mult_nibble)
qed

lemma block_bytes_joined: "block_bytes (joined (zh, zl)) = put64 zh @ put64 zl"
proof -
  have b: "ucast (drop_bit k (joined (zh, zl))) = (ucast (drop_bit k zl) :: u8)" if "k + 8 \<le> 64" for k
    using that by (intro bit_word_eqI) (auto simp: bit_ucast_iff bit_drop_bit_eq bit_joined)
  have c: "ucast (drop_bit k (joined (zh, zl))) = (ucast (drop_bit (k - 64) zh) :: u8)" if "64 \<le> k" for k
    using that by (intro bit_word_eqI) (auto simp: bit_ucast_iff bit_drop_bit_eq bit_joined)
  have d: "ucast (drop_bit k (ucast (z :: u64) :: u32)) = (ucast (drop_bit k z) :: u8)" if "k + 8 \<le> 32" for k z
    using that by (intro bit_word_eqI) (auto simp: bit_ucast_iff bit_drop_bit_eq)
  show ?thesis
    using b [of 0] d [of 0]
    by (simp add: block_bytes_def below_16 b c put64_def PUT_UINT32_BE_def d drop_bit_drop_bit)
qed

text \<open>The value of the block cipher on the zero block, as a field element.\<close>

definition hash_key :: "gcm_context \<Rightarrow> block" where
  "hash_key ctx = joined (get64 (cipher_ctx ctx (zeros 16)) 0, get64 (cipher_ctx ctx (zeros 16)) 8)"

lemma gcm_mult_field:
  assumes "table_ok ctx h" "length x = 16"
  shows "gcm_mult ctx x = block_bytes (field_mult (bits_of x) h)"
proof -
  obtain zh zl where z: "fold (byte_step ctx x) (rev [0..<16]) (HH ctx ! unat (low_nibble (x ! 15)), HL ctx ! unat (low_nibble (x ! 15))) = (zh, zl)"
    by (metis surj_pair)
  from product_loop [OF assms, of 0] have "joined (zh, zl) = field_mult (bits_of x) h" by (simp add: z)
  then show ?thesis by (simp add: gcm_mult_def z Let_def block_bytes_joined [symmetric])
qed

text \<open>
  C33. The multiplication with the table of sixteen multiples and the table of reductions is the
  bit by bit multiplication in the field of the standard, by the block cipher's value on zero.
\<close>

theorem table_multiplication_is_the_field:
  assumes "length (HH ctx) = 16" "length (HL ctx) = 16" "length x = 16"
  shows "gcm_mult (gcm_gen_table ctx) x = block_bytes (field_mult (bits_of x) (hash_key ctx))"
  using gcm_mult_field [OF gcm_gen_table_ok] assms by (simp add: hash_key_def)

lemma table_multiplication_is_the_field_witness:
  "let ctx = mbedtls_gcm_init\<lparr>cipher_ctx := (\<lambda>b. replicate 16 0x66)\<rparr>
   in gcm_mult (gcm_gen_table ctx) [0, 1, 2, 3, 4, 5, 6, 7, 8, 9, 10, 11, 12, 13, 14, 15] =
      block_bytes (field_mult (bits_of [0, 1, 2, 3, 4, 5, 6, 7, 8, 9, 10, 11, 12, 13, 14, 15]) (hash_key ctx))"
  unfolding Let_def by (rule table_multiplication_is_the_field) (simp_all add: mbedtls_gcm_init_def)

section \<open>The specification of the mode\<close>

text \<open>NIST SP 800-38D: the counter, the key stream, the hash and the authenticated encryption.\<close>

definition inc32 :: "bytes \<Rightarrow> bytes" where
  "inc32 y = take 12 y @ PUT_UINT32_BE (GET_UINT32_BE y 12 + 1)"

function gctr :: "(bytes \<Rightarrow> bytes) \<Rightarrow> bytes \<Rightarrow> bytes \<Rightarrow> bytes" where
  "gctr e y s = (if s = [] then [] else xor_bytes (e y) (take 16 s) @ gctr e (gcm_incr y) (drop 16 s))"
  by pat_completeness auto
termination
  by (relation "measure (\<lambda>(e, y, s). length s)") auto

declare gctr.simps [simp del]

definition pad16 :: "bytes \<Rightarrow> bytes" where
  "pad16 s = s @ zeros ((16 - length s mod 16) mod 16)"

definition block_times :: "block \<Rightarrow> bytes \<Rightarrow> bytes" where
  "block_times h x = block_bytes (field_mult (bits_of x) h)"

function ghash :: "block \<Rightarrow> bytes \<Rightarrow> bytes \<Rightarrow> bytes" where
  "ghash h y s = (if s = [] then y else ghash h (block_times h (xor_bytes y (take 16 s))) (drop 16 s))"
  by pat_completeness auto
termination
  by (relation "measure (\<lambda>(h, y, s). length s)") auto

declare ghash.simps [simp del]

definition bit_count :: "bytes \<Rightarrow> bytes" where
  "bit_count s = put64 (of_nat (length s * 8))"

definition first_counter :: "block \<Rightarrow> bytes \<Rightarrow> bytes" where
  "first_counter h iv =
     (if length iv = 12 then iv @ [0, 0, 0, 1] else ghash h (zeros 16) (pad16 iv @ zeros 8 @ bit_count iv))"

definition gcm_tag :: "(bytes \<Rightarrow> bytes) \<Rightarrow> block \<Rightarrow> bytes \<Rightarrow> bytes \<Rightarrow> bytes \<Rightarrow> nat \<Rightarrow> bytes" where
  "gcm_tag e h iv add c t =
     take t (xor_bytes (e (first_counter h iv)) (ghash h (zeros 16) (pad16 add @ pad16 c @ bit_count add @ bit_count c)))"

definition gcm_stream :: "(bytes \<Rightarrow> bytes) \<Rightarrow> block \<Rightarrow> bytes \<Rightarrow> bytes \<Rightarrow> bytes" where
  "gcm_stream e h iv s = gctr e (gcm_incr (first_counter h iv)) s"

section \<open>Bytes\<close>

lemma length_zeros [simp]: "length (zeros n) = n"
  by (simp add: zeros_def)

lemma length_xor_bytes [simp]: "length (xor_bytes a b) = min (length a) (length b)"
  by (simp add: xor_bytes_def)

lemma length_xor_into [simp]: "offset + length p \<le> length b \<Longrightarrow> length (xor_into offset p b) = length b"
  by (simp add: xor_into_def)

lemma length_block_bytes [simp]: "length (block_bytes w) = 16"
  by (simp add: block_bytes_def)

lemma length_block_times [simp]: "length (block_times h x) = 16"
  by (simp add: block_times_def)

lemma length_put64 [simp]: "length (put64 z) = 8"
  by (simp add: put64_def PUT_UINT32_BE_def)

lemma length_bit_count [simp]: "length (bit_count s) = 8"
  by (simp add: bit_count_def)

lemma length_pad16: "16 dvd length (pad16 s)"
proof (cases "length s mod 16 = 0")
  case True
  then show ?thesis by (simp add: pad16_def dvd_eq_mod_eq_0)
next
  case False
  then have "(16 - length s mod 16) mod 16 = 16 - length s mod 16" by simp
  moreover have "length s + (16 - length s mod 16) = 16 * (length s div 16) + 16"
    using mult_div_mod_eq [of 16 "length s"] mod_less_divisor [of 16 "length s"] by linarith
  ultimately show ?thesis by (simp add: pad16_def)
qed

lemma xor_bytes_zeros: "length b \<le> n \<Longrightarrow> xor_bytes b (zeros n) = b"
  by (rule nth_equalityI) (simp_all add: xor_bytes_def zeros_def)

lemma xor_bytes_cancel: "length b \<le> length a \<Longrightarrow> xor_bytes a (xor_bytes a b) = b"
  by (rule nth_equalityI) (simp_all add: xor_bytes_def bit.xor_left_self)

lemma xor_bytes_append: "length a = length c \<Longrightarrow> xor_bytes (a @ b) (c @ d) = xor_bytes a c @ xor_bytes b d"
  by (simp add: xor_bytes_def)

lemma take_xor_bytes: "take n (xor_bytes a b) = xor_bytes (take n a) (take n b)"
  by (simp add: xor_bytes_def take_map take_zip)

lemma xor_bytes_take: "xor_bytes (take (length p) b) p = xor_bytes b p"
  by (rule nth_equalityI) (simp_all add: xor_bytes_def)

lemma xor_into_padded: "length b = 16 \<Longrightarrow> length p \<le> 16 \<Longrightarrow> xor_into 0 p b = xor_bytes b (p @ zeros (16 - length p))"
proof -
  assume b: "length b = 16" and p: "length p \<le> 16"
  have "xor_bytes b (p @ zeros (16 - length p)) = xor_bytes (take (length p) b @ drop (length p) b) (p @ zeros (16 - length p))"
    by simp
  also have "\<dots> = xor_bytes (take (length p) b) p @ drop (length p) b"
    using b p by (subst xor_bytes_append) (simp_all add: xor_bytes_zeros)
  finally show ?thesis using b p
    by (simp add: xor_into_def xor_bytes_take)
qed

lemma xor_into_whole: "length b = 16 \<Longrightarrow> length p = 16 \<Longrightarrow> xor_into 0 p b = xor_bytes b p"
  using xor_into_padded [of b p] by (simp add: zeros_def)

lemma block_times_zeros: "block_times h (zeros 16) = zeros 16"
proof -
  have "field_mult (map (\<lambda>i. False) is) v = 0" for "is" :: "nat list" and v by (induction "is" arbitrary: v) simp_all
  moreover have "bits_of (zeros 16) = map (\<lambda>i. False) [0..<128]"
    by (simp add: bits_of_def zeros_def byte_bits_def numeral_eq_Suc)
  ultimately have "block_times h (zeros 16) = block_bytes 0" by (simp add: block_times_def)
  then show ?thesis by (simp add: block_bytes_def zeros_def map_replicate_const)
qed

section \<open>The counter\<close>

lemma GET_UINT32_BE_nat:
  "GET_UINT32_BE data i =
     of_nat (unat (data ! i) * 2 ^ 24 + unat (data ! (i + 1)) * 2 ^ 16 + unat (data ! (i + 2)) * 2 ^ 8 + unat (data ! (i + 3)))"
proof -
  have p: "push_bit k (ucast (b :: u8)) = (of_nat (unat b * 2 ^ k) :: u32)" for k b
    by (simp add: push_bit_eq_mult)
  let ?a = "push_bit 24 (ucast (data ! i)) :: u32" and ?b = "push_bit 16 (ucast (data ! (i + 1))) :: u32"
  let ?c = "push_bit 8 (ucast (data ! (i + 2))) :: u32" and ?d = "ucast (data ! (i + 3)) :: u32"
  have byte: "bit (b :: u8) n \<Longrightarrow> n < 8" for b n using bit_imp_le_length [of b n] by simp
  have "GET_UINT32_BE data i = ((?a OR ?b) OR ?c) OR ?d"
    by (simp only: GET_UINT32_BE_def or.assoc)
  also have "\<dots> = ((?a OR ?b) OR ?c) + ?d"
    by (rule disjunctive_add [symmetric]) (auto simp: bit_or_iff bit_push_bit_iff bit_ucast_iff dest!: byte)
  also have "(?a OR ?b) OR ?c = (?a OR ?b) + ?c"
    by (rule disjunctive_add [symmetric]) (auto simp: bit_or_iff bit_push_bit_iff bit_ucast_iff dest!: byte)
  also have "?a OR ?b = ?a + ?b"
    by (rule disjunctive_add [symmetric]) (auto simp: bit_push_bit_iff bit_ucast_iff dest!: byte)
  finally show ?thesis using p [of 0 "data ! (i + 3)"] by (simp add: p)
qed

lemma PUT_UINT32_BE_nat:
  "PUT_UINT32_BE (of_nat n) = [of_nat (n div 2 ^ 24), of_nat (n div 2 ^ 16), of_nat (n div 2 ^ 8), of_nat n]"
proof -
  have "ucast (drop_bit k (of_nat n :: u32)) = (of_nat (n div 2 ^ k) :: u8)" if "k + 8 \<le> 32" for k
    unfolding drop_bit_eq_div [symmetric] using that
    by (intro bit_word_eqI) (simp add: bit_simps bit_drop_bit_eq)
  from this [of 24] this [of 16] this [of 8] this [of 0] show ?thesis
    by (simp add: PUT_UINT32_BE_def)
qed

lemma bytes_of_sum:
  assumes "m = a * 2 ^ 24 + b * 2 ^ 16 + c * 2 ^ 8 + d" "b < 256" "c < 256" "d < 256"
  shows "[of_nat (m div 2 ^ 24), of_nat (m div 2 ^ 16), of_nat (m div 2 ^ 8), of_nat m :: u8] =
    [of_nat a, of_nat b, of_nat c, of_nat d]"
proof -
  have "m div 2 ^ 24 = a" "m div 2 ^ 16 = a * 256 + b" "m div 2 ^ 8 = (a * 256 + b) * 256 + c" "m = ((a * 256 + b) * 256 + c) * 256 + d"
    using assms by auto
  moreover have "x * 256 = 0" "65536 * x = 0" "16777216 * x = 0" for x :: u8
    using arg_cong [of "256 :: u8" 0 "\<lambda>y. x * y"] arg_cong [of "65536 :: u8" 0 "\<lambda>y. y * x"]
      arg_cong [of "16777216 :: u8" 0 "\<lambda>y. y * x"] by simp_all
  ultimately show ?thesis by simp
qed

lemma byte_succ: "x + 1 \<noteq> 0 \<Longrightarrow> unat x + 1 < 256" "x + 1 = 0 \<Longrightarrow> unat x = 255" for x :: u8
proof -
  show "unat x + 1 < 256" if "x + 1 \<noteq> 0"
  proof (rule ccontr)
    assume "\<not> unat x + 1 < 256"
    with unsigned_less [of x, where 'a = nat] have "unat x = 255" by simp
    then have "x = 255" by (simp add: word_unat_eq_iff)
    with that show False by simp
  qed
  show "unat x = 255" if "x + 1 = 0"
  proof -
    from that have "x = - 1" by (simp add: eq_neg_iff_add_eq_0)
    then show ?thesis by (simp add: unsigned_minus_1_eq_mask mask_eq_exp_minus_1)
  qed
qed

lemma incr_is_inc32:
  assumes "length y = 16"
  shows "gcm_incr y = inc32 y"
proof -
  define p where "p = take 12 y"
  obtain a b c d where y: "y = p @ [a, b, c, d]"
  proof -
    have "length (drop 12 y) = Suc (Suc (Suc (Suc 0)))" using assms by simp
    then obtain a b c d where "drop 12 y = [a, b, c, d]" unfolding length_Suc_conv by auto
    then show thesis using that append_take_drop_id [of 12 y] unfolding p_def by metis
  qed
  have p: "length p = 12" using assms by (simp add: p_def)
  define n where "n = unat a * 2 ^ 24 + unat b * 2 ^ 16 + unat c * 2 ^ 8 + unat d"
  have inc: "inc32 y = p @ [of_nat ((n + 1) div 2 ^ 24), of_nat ((n + 1) div 2 ^ 16), of_nat ((n + 1) div 2 ^ 8), of_nat (n + 1)]"
  proof -
    have "GET_UINT32_BE y 12 = of_nat n" using p by (simp add: GET_UINT32_BE_nat y n_def nth_append)
    then have "inc32 y = p @ PUT_UINT32_BE (of_nat (n + 1))" using p by (simp add: inc32_def y add.commute)
    then show ?thesis by (simp only: PUT_UINT32_BE_nat)
  qed
  note less = unsigned_less [of a, where 'a = nat, simplified] unsigned_less [of b, where 'a = nat, simplified]
    unsigned_less [of c, where 'a = nat, simplified] unsigned_less [of d, where 'a = nat, simplified]
  consider "d + 1 \<noteq> 0" | "d + 1 = 0" "c + 1 \<noteq> 0" | "d + 1 = 0" "c + 1 = 0" "b + 1 \<noteq> 0" | "d + 1 = 0" "c + 1 = 0" "b + 1 = 0"
    by blast
  then show ?thesis
  proof cases
    case 1
    then have "gcm_incr y = p @ [a, b, c, d + 1]" using p by (simp add: gcm_incr_def y Let_def nth_append list_update_append)
    moreover have "inc32 y = p @ [a, b, c, d + 1]"
      unfolding inc using less byte_succ (1) [OF 1] by (subst bytes_of_sum [of _ "unat a" "unat b" "unat c" "unat d + 1"]) (simp_all add: n_def)
    ultimately show ?thesis by simp
  next
    case 2
    then have "gcm_incr y = p @ [a, b, c + 1, 0]" using p by (simp add: gcm_incr_def y Let_def nth_append list_update_append)
    moreover have "inc32 y = p @ [a, b, c + 1, 0]"
      unfolding inc using less byte_succ (1) [OF 2(2)] byte_succ (2) [OF 2(1)]
      by (subst bytes_of_sum [of _ "unat a" "unat b" "unat c + 1" 0]) (simp_all add: n_def)
    ultimately show ?thesis by simp
  next
    case 3
    then have "gcm_incr y = p @ [a, b + 1, 0, 0]" using p by (simp add: gcm_incr_def y Let_def nth_append list_update_append)
    moreover have "inc32 y = p @ [a, b + 1, 0, 0]"
      unfolding inc using less byte_succ (1) [OF 3(3)] byte_succ (2) [OF 3(1)] byte_succ (2) [OF 3(2)]
      by (subst bytes_of_sum [of _ "unat a" "unat b + 1" 0 0]) (simp_all add: n_def)
    ultimately show ?thesis by simp
  next
    case 4
    then have "gcm_incr y = p @ [a + 1, 0, 0, 0]" using p by (simp add: gcm_incr_def y Let_def nth_append list_update_append)
    moreover have "inc32 y = p @ [a + 1, 0, 0, 0]"
      unfolding inc using less byte_succ (2) [OF 4(3)] byte_succ (2) [OF 4(1)] byte_succ (2) [OF 4(2)]
      by (subst bytes_of_sum [of _ "unat a + 1" 0 0 0]) (simp_all add: n_def)
    ultimately show ?thesis by simp
  qed
qed

lemma length_incr_from [simp]: "length (incr_from is y) = length y"
  by (induction "is" arbitrary: y) (simp_all add: Let_def)

lemma length_gcm_incr [simp]: "length (gcm_incr y) = length y"
  unfolding gcm_incr_def by (rule length_incr_from)

section \<open>The loops over the blocks\<close>

lemma table_ok_update [simp]:
  "table_ok (ctx\<lparr>gcm_y := v\<rparr>) h = table_ok ctx h" "table_ok (ctx\<lparr>gcm_buf := v\<rparr>) h = table_ok ctx h"
  "table_ok (ctx\<lparr>gcm_len := n\<rparr>) h = table_ok ctx h" "table_ok (ctx\<lparr>add_len := n\<rparr>) h = table_ok ctx h"
  "table_ok (ctx\<lparr>gcm_mode := m\<rparr>) h = table_ok ctx h" "table_ok (ctx\<lparr>base_ectr := v\<rparr>) h = table_ok ctx h"
  by (simp_all add: table_ok_def)

lemma gcm_mult_times: "table_ok ctx h \<Longrightarrow> length x = 16 \<Longrightarrow> gcm_mult ctx x = block_times h x"
  by (simp add: gcm_mult_field block_times_def)

lemma ghash_Nil [simp]: "ghash h y [] = y"
  by (simp add: ghash.simps)

lemma ghash_block: "length p = 16 \<Longrightarrow> ghash h y (p @ s) = ghash h (block_times h (xor_bytes y p)) s"
  by (subst ghash.simps) auto

lemma ghash_append: "16 dvd length s \<Longrightarrow> ghash h y (s @ t) = ghash h (ghash h y s) t"
proof (induction s arbitrary: y rule: length_induct)
  case (1 s)
  show ?case
  proof (cases "s = []")
    case False
    with "1.prems" have "16 \<le> length s" by (simp add: dvd_imp_le)
    then obtain p r where s: "s = p @ r" "length p = 16"
      using append_take_drop_id [of 16 s] by (metis length_take min.absorb2)
    moreover from s "1.prems" have "16 dvd length r" by (simp add: dvd_add_right_iff)
    moreover from s have "length r < length s" by simp
    ultimately show ?thesis using 1 by (simp add: ghash_block)
  qed simp
qed

lemma pad16_Nil [simp]: "pad16 [] = []"
  by (simp add: pad16_def zeros_def)

lemma pad16_block: "length p = 16 \<Longrightarrow> pad16 (p @ s) = p @ pad16 s"
  by (simp add: pad16_def)

lemma pad16_short: "0 < length p \<Longrightarrow> length p < 16 \<Longrightarrow> pad16 p = p @ zeros (16 - length p)"
  by (simp add: pad16_def)

lemma first_block:
  assumes "16 \<le> length p"
  obtains q r where "p = q @ r" "length q = 16"
  using append_take_drop_id [of 16 p] assms by (metis length_take min.absorb2)

text \<open>A partial block is folded in by a multiplication later.\<close>

definition settled :: "block \<Rightarrow> bytes \<Rightarrow> bytes \<Rightarrow> bytes" where
  "settled h p b = (if length p mod 16 \<noteq> 0 then block_times h b else b)"

lemma settled_block: "length p = 16 \<Longrightarrow> settled h (p @ s) b = settled h s b"
  by (simp add: settled_def)

lemma ad_blocks_ghash:
  "table_ok ctx h \<Longrightarrow> length b = 16 \<Longrightarrow>
   length (ad_blocks ctx b p) = 16 \<and> settled h p (ad_blocks ctx b p) = ghash h b (pad16 p)"
proof (induction ctx b p rule: ad_blocks.induct)
  case (1 ctx b p)
  consider "16 \<le> length p" | "0 < length p" "length p < 16" | "p = []"
    using length_greater_0_conv [of p] by linarith
  then show ?case
  proof cases
    case 1
    then obtain q r where p: "p = q @ r" "length q = 16" by (rule first_block)
    let ?b = "block_times h (xor_bytes b q)"
    have "gcm_mult ctx (xor_into 0 q b) = ?b"
      using "1.prems" p by (simp add: gcm_mult_times xor_into_whole)
    then have "ad_blocks ctx b p = ad_blocks ctx ?b r"
      using p by (subst ad_blocks.simps) simp
    with "1.IH" 1 "1.prems" \<open>gcm_mult ctx (xor_into 0 q b) = ?b\<close> p show ?thesis
      by (simp add: pad16_block ghash_block settled_block)
  next
    case 2
    then have "ad_blocks ctx b p = xor_into 0 p b" by (subst ad_blocks.simps) simp
    with 2 "1.prems" show ?thesis
      by (simp add: pad16_short xor_into_padded settled_def ghash_block [where s = "[]", simplified])
  next
    case 3
    then show ?thesis using "1.prems" by (subst ad_blocks.simps, subst (2) ad_blocks.simps) (simp add: settled_def)
  qed
qed

text \<open>A block cipher keeps the length of a block.\<close>

definition block_cipher :: "(bytes \<Rightarrow> bytes) \<Rightarrow> bool" where
  "block_cipher e = (\<forall>b. length b = 16 \<longrightarrow> length (e b) = 16)"

lemma block_cipher_length: "block_cipher e \<Longrightarrow> length b = 16 \<Longrightarrow> length (e b) = 16"
  by (simp add: block_cipher_def)

text \<open>The bytes that are hashed: the output when encrypting, the input when decrypting.\<close>

definition hashed :: "gcm_mode \<Rightarrow> bytes \<Rightarrow> bytes \<Rightarrow> bytes" where
  "hashed m input output = (if m = MBEDTLS_GCM_ENCRYPT then output else input)"

lemma hashed_append: "hashed m (a @ b) (c @ d) = hashed m a c @ hashed m b d"
  by (simp add: hashed_def)

lemma length_hashed: "length a = length b \<Longrightarrow> length (hashed m a b) = length a"
  by (simp add: hashed_def)

lemma gcm_mask_start:
  assumes "length (gcm_buf ctx) = 16" "length p \<le> 16" "length (cipher_ctx ctx (gcm_y ctx)) = 16"
  shows "gcm_mask 0 p ctx =
    (xor_bytes (cipher_ctx ctx (gcm_y ctx)) p,
     ctx\<lparr>gcm_buf := xor_into 0 (hashed (gcm_mode ctx) p (xor_bytes (cipher_ctx ctx (gcm_y ctx)) p)) (gcm_buf ctx)\<rparr>)"
  by (cases "gcm_mode ctx") (simp_all add: gcm_mask_def hashed_def Let_def)

lemma gctr_Nil [simp]: "gctr e y [] = []"
  by (simp add: gctr.simps)

lemma gctr_block: "length p = 16 \<Longrightarrow> gctr e y (p @ s) = xor_bytes (e y) p @ gctr e (gcm_incr y) s"
  by (subst gctr.simps) auto

lemma gctr_short: "0 < length p \<Longrightarrow> length p \<le> 16 \<Longrightarrow> gctr e y p = xor_bytes (e y) p"
  by (subst gctr.simps) auto

lemma data_blocks_spec:
  assumes "table_ok ctx h" "length (gcm_buf ctx) = 16" "length (gcm_y ctx) = 16" "block_cipher (cipher_ctx ctx)"
  shows "\<exists>y b. data_blocks p ctx = (gctr (cipher_ctx ctx) (gcm_incr (gcm_y ctx)) p, ctx\<lparr>gcm_y := y, gcm_buf := b\<rparr>) \<and>
    length b = 16 \<and> length y = 16 \<and> length (gctr (cipher_ctx ctx) (gcm_incr (gcm_y ctx)) p) = length p \<and>
    settled h p b = ghash h (gcm_buf ctx) (pad16 (hashed (gcm_mode ctx) p (gctr (cipher_ctx ctx) (gcm_incr (gcm_y ctx)) p)))"
  using assms
proof (induction p arbitrary: ctx rule: length_induct)
  case (1 p)
  let ?e = "cipher_ctx ctx" and ?y = "gcm_incr (gcm_y ctx)" and ?m = "gcm_mode ctx"
  have e: "length (?e ?y) = 16" using 1 by (simp add: block_cipher_length)
  consider "16 \<le> length p" | "0 < length p" "length p < 16" | "p = []"
    using length_greater_0_conv [of p] by linarith
  then show ?case
  proof cases
    case 1
    then obtain q r where p: "p = q @ r" "length q = 16" by (rule first_block)
    let ?o = "xor_bytes (?e ?y) q"
    let ?c = "ctx\<lparr>gcm_y := ?y, gcm_buf := block_times h (xor_bytes (gcm_buf ctx) (hashed ?m q ?o))\<rparr>"
    have l: "length (hashed ?m q ?o) = 16" using e p by (simp add: length_hashed)
    have step: "data_blocks p ctx = (let (rest, ctx2) = data_blocks r ?c in (?o @ rest, ctx2))"
      using p e l "1.prems"
      by (subst data_blocks.simps) (simp add: gcm_mask_start mult_buf_def gcm_mult_times xor_into_whole)
    from p have "length r < length p" by simp
    with "1.IH" have "\<exists>y b. data_blocks r ?c = (gctr ?e (gcm_incr ?y) r, ?c\<lparr>gcm_y := y, gcm_buf := b\<rparr>) \<and>
      length b = 16 \<and> length y = 16 \<and> length (gctr ?e (gcm_incr ?y) r) = length r \<and>
      settled h r b = ghash h (gcm_buf ?c) (pad16 (hashed ?m r (gctr ?e (gcm_incr ?y) r)))"
      using "1.prems" by (elim allE [where x = r] allE [where x = ?c] impE) simp_all
    then obtain y b where IH: "data_blocks r ?c = (gctr ?e (gcm_incr ?y) r, ?c\<lparr>gcm_y := y, gcm_buf := b\<rparr>)"
      "length b = 16" "length y = 16" "length (gctr ?e (gcm_incr ?y) r) = length r"
      "settled h r b = ghash h (gcm_buf ?c) (pad16 (hashed ?m r (gctr ?e (gcm_incr ?y) r)))" by blast
    show ?thesis
      using step IH p e l by (intro exI [of _ y] exI [of _ b])
        (simp add: gctr_block hashed_append pad16_block ghash_block settled_block)
  next
    case 2
    let ?o = "xor_bytes (?e ?y) p"
    have l: "length (hashed ?m p ?o) = length p" using e 2 by (simp add: length_hashed)
    have "data_blocks p ctx = (?o, ctx\<lparr>gcm_y := ?y, gcm_buf := xor_into 0 (hashed ?m p ?o) (gcm_buf ctx)\<rparr>)"
      using 2 e "1.prems" by (subst data_blocks.simps) (simp add: gcm_mask_start)
    then show ?thesis
      using 2 e l "1.prems"
      by (intro exI [of _ ?y] exI [of _ "xor_into 0 (hashed ?m p ?o) (gcm_buf ctx)"])
        (simp add: gctr_short settled_def pad16_short xor_into_padded ghash_block [where s = "[]", simplified])
  next
    case 3
    then show ?thesis using "1.prems"
      by (intro exI [of _ "gcm_y ctx"] exI [of _ "gcm_buf ctx"]) (simp add: data_blocks.simps settled_def hashed_def)
  qed
qed

section \<open>The whole operation\<close>

lemma iv_blocks_ghash:
  "table_ok ctx h \<Longrightarrow> length y = 16 \<Longrightarrow> iv_blocks ctx y p = ghash h y (pad16 p)"
proof (induction ctx y p rule: iv_blocks.induct)
  case (1 ctx y p)
  consider "16 \<le> length p" | "0 < length p" "length p < 16" | "p = []"
    using length_greater_0_conv [of p] by linarith
  then show ?case
  proof cases
    case 1
    then obtain q r where p: "p = q @ r" "length q = 16" by (rule first_block)
    then have "q \<noteq> []" by auto
    moreover have "gcm_mult ctx (xor_into 0 q y) = block_times h (xor_bytes y q)"
      using "1.prems" p by (simp add: gcm_mult_times xor_into_whole)
    ultimately show ?thesis
      using p "1.IH" "1.prems" by (subst iv_blocks.simps) (simp add: pad16_block ghash_block)
  next
    case 2
    then have "iv_blocks ctx y p = gcm_mult ctx (xor_into 0 p y)"
      by (subst iv_blocks.simps, subst iv_blocks.simps) auto
    with 2 "1.prems" show ?thesis
      by (simp add: gcm_mult_times pad16_short xor_into_padded ghash_block [where s = "[]", simplified])
  next
    case 3
    then show ?thesis by (simp add: iv_blocks.simps)
  qed
qed

lemma length_ghash: "length y = 16 \<Longrightarrow> length (ghash h y s) = 16"
proof (induction h y s rule: ghash.induct)
  case (1 h y s)
  then show ?case by (subst ghash.simps) simp
qed

lemma length_first_counter: "length (first_counter h iv) = 16"
  by (simp add: first_counter_def length_ghash)

lemma starts_spec:
  assumes "table_ok ctx h" "0 < length iv" "length iv < 2 ^ 61"
  shows "mbedtls_gcm_starts mode iv ctx =
    (0, ctx\<lparr>gcm_y := first_counter h iv, base_ectr := cipher_ctx ctx (first_counter h iv),
        gcm_buf := zeros 16, gcm_mode := mode, gcm_len := 0, add_len := 0\<rparr>)"
proof (cases "length iv = 12")
  case True
  then have "(iv @ drop 12 (zeros 16))[15 := 1] = iv @ [0, 0, 0, 1]"
    by (simp add: zeros_def list_update_append numeral_eq_Suc)
  with True assms show ?thesis by (simp add: mbedtls_gcm_starts_def first_counter_def Let_def)
next
  case False
  let ?b = "zeros 8 @ put64 (of_nat (length iv * 8))"
  have "gcm_mult c (xor_into 0 ?b (iv_blocks c (zeros 16) iv)) = first_counter h iv" if "table_ok c h" for c
  proof -
    have "length (iv_blocks c (zeros 16) iv) = 16" using that by (simp add: iv_blocks_ghash length_ghash)
    then have "gcm_mult c (xor_into 0 ?b (iv_blocks c (zeros 16) iv)) = block_times h (xor_bytes (ghash h (zeros 16) (pad16 iv)) ?b)"
      using that by (simp add: gcm_mult_times xor_into_whole iv_blocks_ghash)
    also have "\<dots> = ghash h (zeros 16) (pad16 iv @ ?b)"
      by (simp add: ghash_append [OF length_pad16] ghash_block [where s = "[]", simplified])
    finally show ?thesis using False by (simp add: first_counter_def bit_count_def)
  qed
  with False assms show ?thesis by (simp add: mbedtls_gcm_starts_def Let_def not_le)
qed

lemma update_ad_spec:
  assumes "table_ok ctx h" "length (gcm_buf ctx) = 16" "add_len ctx = 0" "length add < 2 ^ 61"
  shows "\<exists>b. mbedtls_gcm_update_ad add ctx = (0, ctx\<lparr>gcm_buf := b, add_len := length add\<rparr>) \<and>
    length b = 16 \<and> settled h add b = ghash h (gcm_buf ctx) (pad16 add)"
proof -
  have "length add < 2 ^ 64" using assms(4) by simp
  then show ?thesis
    using ad_blocks_ghash [OF assms(1,2), of add] assms(3,4)
    by (intro exI [of _ "ad_blocks ctx (gcm_buf ctx) add"]) (simp add: mbedtls_gcm_update_ad_def not_le)
qed

text \<open>
  What the data is hashed onto: the additional data settled. Without data it is settled at the end.
\<close>

lemma update_spec:
  assumes ok: "table_ok ctx h" "length (gcm_buf ctx) = 16" "length (gcm_y ctx) = 16" "block_cipher (cipher_ctx ctx)"
    and start: "gcm_len ctx = 0" and size: "length p \<le> 0xFFFFFFFE0" and add: "add_len ctx = length add"
  shows "\<exists>y b. mbedtls_gcm_update p (length p) ctx =
      (0, gctr (cipher_ctx ctx) (gcm_incr (gcm_y ctx)) p, ctx\<lparr>gcm_y := y, gcm_buf := b, gcm_len := length p\<rparr>) \<and>
    length b = 16 \<and> length (gctr (cipher_ctx ctx) (gcm_incr (gcm_y ctx)) p) = length p \<and>
    settled h p (if p = [] then settled h add b else b) =
      ghash h (settled h add (gcm_buf ctx)) (pad16 (hashed (gcm_mode ctx) p (gctr (cipher_ctx ctx) (gcm_incr (gcm_y ctx)) p)))"
proof (cases "p = []")
  case True
  then show ?thesis using ok start
    by (intro exI [of _ "gcm_y ctx"] exI [of _ "gcm_buf ctx"])
      (simp add: mbedtls_gcm_update_def settled_def hashed_def)
next
  case False
  let ?c = "ctx\<lparr>gcm_buf := settled h add (gcm_buf ctx), gcm_len := length p\<rparr>"
  have l: "length (settled h add (gcm_buf ctx)) = 16" using ok by (simp add: settled_def)
  have small: "length p < 2 ^ 64" using size by simp
  have "mult_buf ctx = ctx\<lparr>gcm_buf := block_times h (gcm_buf ctx)\<rparr>"
    using ok by (simp add: mult_buf_def gcm_mult_times)
  then have "mbedtls_gcm_update p (length p) ctx = (let (out, c) = data_blocks p ?c in (0, out, c))"
    using False start size small add by (simp add: mbedtls_gcm_update_def settled_def Let_def)
  moreover from data_blocks_spec [of ?c h p] ok l obtain y b where
    "data_blocks p ?c = (gctr (cipher_ctx ctx) (gcm_incr (gcm_y ctx)) p, ?c\<lparr>gcm_y := y, gcm_buf := b\<rparr>)"
    "length b = 16" "length (gctr (cipher_ctx ctx) (gcm_incr (gcm_y ctx)) p) = length p"
    "settled h p b = ghash h (settled h add (gcm_buf ctx)) (pad16 (hashed (gcm_mode ctx) p (gctr (cipher_ctx ctx) (gcm_incr (gcm_y ctx)) p)))"
    by auto
  ultimately show ?thesis using False by (intro exI [of _ y] exI [of _ b]) simp
qed

lemma finish_spec:
  assumes ok: "table_ok ctx h" "length (gcm_buf ctx) = 16"
    and len: "gcm_len ctx = length c" "add_len ctx = length add" "length c \<le> 0xFFFFFFFE0" "length add < 2 ^ 61"
    and t: "4 \<le> t" "t \<le> 16"
    and hash: "settled h c (if c = [] then settled h add (gcm_buf ctx) else gcm_buf ctx) = g"
    and zero: "c = [] \<Longrightarrow> add = [] \<Longrightarrow> g = zeros 16" and base: "length (base_ectr ctx) = 16"
  shows "\<exists>ctx'. mbedtls_gcm_finish t ctx =
    (0, take t (xor_bytes (base_ectr ctx) (ghash h g (bit_count add @ bit_count c))), ctx')"
proof -
  have small: "length c * 8 mod 2 ^ 64 = length c * 8" "length add * 8 mod 2 ^ 64 = length add * 8"
    using len by simp_all
  have mult: "mult_buf d = d\<lparr>gcm_buf := block_times h (gcm_buf d)\<rparr>" if "table_ok d h" "length (gcm_buf d) = 16" for d
    using that by (simp add: mult_buf_def gcm_mult_times)
  define ctx1 where "ctx1 = (if length c = 0 \<and> length add mod 16 \<noteq> 0 then mult_buf ctx else ctx)"
  define ctx2 where "ctx2 = (if length c mod 16 \<noteq> 0 then mult_buf ctx1 else ctx1)"
  have ctx2: "table_ok ctx2 h" "gcm_buf ctx2 = g" "length g = 16" "base_ectr ctx2 = base_ectr ctx"
    using ok hash by (auto simp: ctx2_def ctx1_def mult settled_def split: if_splits)
  have g1: "ghash h g (bit_count add @ bit_count c) = block_times h (xor_into 0 (bit_count add @ bit_count c) g)"
    using ctx2(3) by (simp add: xor_into_whole ghash_block [where s = "[]", simplified])
  show ?thesis
  proof (cases "c = [] \<and> add = []")
    case True
    then have "bit_count add @ bit_count c = zeros 16"
      by (simp add: bit_count_def put64_def PUT_UINT32_BE_def zeros_def numeral_eq_Suc)
    with True zero have "ghash h g (bit_count add @ bit_count c) = zeros 16"
      by (simp add: ghash_block [where s = "[]", simplified] xor_bytes_zeros block_times_zeros)
    with True t ctx2(4) base show ?thesis
      by (simp add: mbedtls_gcm_finish_def len small ctx1_def [symmetric] ctx2_def [symmetric] Let_def take_xor_bytes
        xor_bytes_zeros ctx1_def ctx2_def)
  next
    case False
    then have "length c * 8 \<noteq> 0 \<or> length add * 8 \<noteq> 0" by simp
    then have "mbedtls_gcm_finish t ctx = (let ctx3 = mult_buf (ctx2\<lparr>gcm_buf := xor_into 0 (bit_count add @ bit_count c) (gcm_buf ctx2)\<rparr>)
        in (0, xor_bytes (take t (base_ectr ctx2)) (take t (gcm_buf ctx3)), ctx3))"
      using t unfolding mbedtls_gcm_finish_def len small ctx1_def [symmetric] Let_def ctx2_def [symmetric] bit_count_def
      by simp
    then show ?thesis
      using ctx2 by (simp add: mult Let_def g1 take_xor_bytes)
  qed
qed

lemma crypt_spec:
  assumes ok: "table_ok ctx h" "block_cipher (cipher_ctx ctx)"
    and iv: "0 < length iv" "length iv < 2 ^ 61" and size: "length add < 2 ^ 61" "length p \<le> 0xFFFFFFFE0"
    and t: "4 \<le> t" "t \<le> 16"
  defines "out \<equiv> gcm_stream (cipher_ctx ctx) h iv p"
  shows "length out = length p \<and>
    (\<exists>ctx'. mbedtls_gcm_crypt_and_tag mode iv add p t ctx =
      (0, Some out, gcm_tag (cipher_ctx ctx) h iv add (hashed mode p out) t, ctx'))"
proof -
  let ?e = "cipher_ctx ctx" and ?y0 = "first_counter h iv"
  let ?c1 = "ctx\<lparr>gcm_y := ?y0, base_ectr := ?e ?y0, gcm_buf := zeros 16, gcm_mode := mode, gcm_len := 0, add_len := 0\<rparr>"
  have 1: "mbedtls_gcm_starts mode iv ctx = (0, ?c1)" using starts_spec ok iv by simp
  obtain b2 where 2: "mbedtls_gcm_update_ad add ?c1 = (0, ?c1\<lparr>gcm_buf := b2, add_len := length add\<rparr>)" "length b2 = 16"
    "settled h add b2 = ghash h (zeros 16) (pad16 add)"
    using update_ad_spec [of ?c1 h add] ok size by auto
  let ?c2 = "?c1\<lparr>gcm_buf := b2, add_len := length add\<rparr>"
  obtain y b where 3: "mbedtls_gcm_update p (length p) ?c2 = (0, out, ?c2\<lparr>gcm_y := y, gcm_buf := b, gcm_len := length p\<rparr>)"
    "length b = 16" "length out = length p"
    "settled h p (if p = [] then settled h add b else b) = ghash h (settled h add b2) (pad16 (hashed mode p out))"
    using update_spec [of ?c2 h p add] ok size 2 by (auto simp: length_first_counter out_def gcm_stream_def)
  let ?c3 = "?c2\<lparr>gcm_y := y, gcm_buf := b, gcm_len := length p\<rparr>" and ?x = "hashed mode p out"
  have x: "length ?x = length p" using 3 by (simp add: length_hashed)
  from x have s: "settled h ?x b' = settled h p b'" and e: "?x = [] \<longleftrightarrow> p = []" for b' by (auto simp: settled_def)
  have g: "ghash h (settled h add b2) (pad16 ?x) = ghash h (zeros 16) (pad16 add @ pad16 ?x)"
    by (simp add: 2 ghash_append [OF length_pad16])
  have "\<exists>ctx'. mbedtls_gcm_finish t ?c3 =
    (0, take t (xor_bytes (base_ectr ?c3) (ghash h (ghash h (zeros 16) (pad16 add @ pad16 ?x)) (bit_count add @ bit_count ?x))), ctx')"
  proof (rule finish_spec)
    show "settled h ?x (if ?x = [] then settled h add (gcm_buf ?c3) else gcm_buf ?c3) = ghash h (zeros 16) (pad16 add @ pad16 ?x)"
      using 3(4) unfolding s e g by (simp split: if_split_asm)
    show "length (base_ectr ?c3) = 16" using ok by (simp add: block_cipher_length length_first_counter)
  qed (use ok 3 x size t in simp_all)
  moreover have "16 dvd length (pad16 add @ pad16 ?x)" using length_pad16 by simp
  then have "ghash h (ghash h (zeros 16) (pad16 add @ pad16 ?x)) (bit_count add @ bit_count ?x) =
      ghash h (zeros 16) (pad16 add @ pad16 ?x @ bit_count add @ bit_count ?x)"
    using ghash_append [of "pad16 add @ pad16 ?x"] by simp
  ultimately obtain ctx' where "mbedtls_gcm_finish t ?c3 = (0, gcm_tag ?e h iv add ?x t, ctx')"
    by (auto simp: gcm_tag_def)
  with 1 2 3 show ?thesis by (auto simp: mbedtls_gcm_crypt_and_tag_def)
qed

section \<open>The tag check\<close>

lemma fold_or_zero: "fold (OR) xs (a :: u8) = 0 \<longleftrightarrow> a = 0 \<and> (\<forall>x \<in> set xs. x = 0)"
proof (induction xs arbitrary: a)
  case (Cons x xs)
  have "x OR a = 0 \<longleftrightarrow> x = 0 \<and> a = 0" by (auto simp: or_eq_0_iff)
  with Cons show ?case by auto
qed simp

lemma xor_bytes_all_zero: "length a = length b \<Longrightarrow> (\<forall>x \<in> set (xor_bytes a b). x = 0) \<longleftrightarrow> a = b"
proof (induction a b rule: list_induct2)
  case (Cons x xs y ys)
  have "x XOR y = 0 \<longleftrightarrow> x = y" by (metis bit.xor_left_self xor.right_neutral xor_self_eq)
  with Cons show ?case by (simp add: xor_bytes_def)
qed (simp add: xor_bytes_def)

lemma diff_zero: "length a = length b \<Longrightarrow> fold (OR) (xor_bytes a b) 0 = 0 \<longleftrightarrow> a = b"
  by (simp add: fold_or_zero xor_bytes_all_zero)

lemma length_gcm_tag: "block_cipher e \<Longrightarrow> t \<le> 16 \<Longrightarrow> length (gcm_tag e h iv add c t) = t"
  by (simp add: gcm_tag_def block_cipher_length length_first_counter length_ghash)

lemma gctr_involution:
  assumes "block_cipher e" "length y = 16"
  shows "gctr e y (gctr e y s) = s"
  using assms
proof (induction e y s rule: gctr.induct)
  case (1 e y s)
  have e: "length (e y) = 16" using "1.prems" by (rule block_cipher_length)
  consider "16 \<le> length s" | "0 < length s" "length s < 16" | "s = []"
    using length_greater_0_conv [of s] by linarith
  then show ?case
  proof cases
    case 1
    then obtain q r where s: "s = q @ r" "length q = 16" by (rule first_block)
    then have "q \<noteq> []" by auto
    then have "gctr e (gcm_incr y) (gctr e (gcm_incr y) r) = r" using "1.IH" "1.prems" s by simp
    with s e show ?thesis by (simp add: gctr_block xor_bytes_cancel)
  next
    case 2
    with e show ?thesis by (simp add: gctr_short xor_bytes_cancel)
  qed simp
qed

lemma gcm_stream_involution:
  "block_cipher e \<Longrightarrow> gcm_stream e h iv (gcm_stream e h iv s) = s"
  by (simp add: gcm_stream_def gctr_involution length_first_counter)

lemma auth_decrypt_spec:
  assumes "table_ok ctx h" "block_cipher (cipher_ctx ctx)" "0 < length iv" "length iv < 2 ^ 61"
    "length add < 2 ^ 61" "length c \<le> 0xFFFFFFFE0" "4 \<le> length tag" "length tag \<le> 16"
  shows "\<exists>ctx'. mbedtls_gcm_auth_decrypt iv add tag c ctx =
    (if tag = gcm_tag (cipher_ctx ctx) h iv add c (length tag)
     then (0, Some (gcm_stream (cipher_ctx ctx) h iv c), ctx') else (AUTH_FAILED, Some (zeros (length c)), ctx'))"
proof -
  from crypt_spec [OF assms, of MBEDTLS_GCM_DECRYPT] obtain ctx' where
    "mbedtls_gcm_crypt_and_tag MBEDTLS_GCM_DECRYPT iv add c (length tag) ctx =
      (0, Some (gcm_stream (cipher_ctx ctx) h iv c), gcm_tag (cipher_ctx ctx) h iv add c (length tag), ctx')"
    by (auto simp: hashed_def)
  moreover have "length (gcm_tag (cipher_ctx ctx) h iv add c (length tag)) = length tag"
    using assms by (simp add: length_gcm_tag)
  ultimately show ?thesis
    by (intro exI [of _ ctx']) (simp add: mbedtls_gcm_auth_decrypt_def diff_zero)
qed

lemma encrypt_spec:
  assumes "table_ok ctx h" "block_cipher (cipher_ctx ctx)" "0 < length iv" "length iv < 2 ^ 61"
    "length add < 2 ^ 61" "length p \<le> 0xFFFFFFFE0" "4 \<le> t" "t \<le> 16"
  shows "\<exists>ctx'. mbedtls_gcm_crypt_and_tag MBEDTLS_GCM_ENCRYPT iv add p t ctx =
    (0, Some (gcm_stream (cipher_ctx ctx) h iv p), gcm_tag (cipher_ctx ctx) h iv add (gcm_stream (cipher_ctx ctx) h iv p) t, ctx')"
  and "length (gcm_stream (cipher_ctx ctx) h iv p) = length p"
  using crypt_spec [OF assms, of MBEDTLS_GCM_ENCRYPT] by (auto simp: hashed_def)

section \<open>A key\<close>

lemma setkey_spec:
  assumes "length (HH ctx) = 16" "length (HL ctx) = 16" "keybits \<in> {128, 192, 256}"
    and "mbedtls_gcm_setkey aes key keybits ctx = (ret, ctx')"
  shows "ret = 0" "cipher_ctx ctx' = aes (take (keybits div 8) key)" "table_ok ctx' (hash_key ctx')"
proof -
  let ?c = "ctx\<lparr>cipher_ctx := aes (take (keybits div 8) key)\<rparr>"
  have c: "cipher_ctx (gcm_gen_table d) = cipher_ctx d" for d
    by (simp add: gcm_gen_table_def Let_def split: prod.split)
  have "mbedtls_gcm_setkey aes key keybits ctx = (0, gcm_gen_table ?c)"
    using assms(3) by (auto simp: mbedtls_gcm_setkey_def)
  with assms(4) have r: "ret = 0" "ctx' = gcm_gen_table ?c" by simp_all
  then show "ret = 0" "cipher_ctx ctx' = aes (take (keybits div 8) key)" by (simp_all add: c)
  from gcm_gen_table_ok [of ?c] assms(1,2) show "table_ok ctx' (hash_key ctx')"
    by (simp add: r hash_key_def c)
qed

text \<open>The hash key of a block cipher.\<close>

definition hash_key_of :: "(bytes \<Rightarrow> bytes) \<Rightarrow> block" where
  "hash_key_of e = joined (get64 (e (zeros 16)) 0, get64 (e (zeros 16)) 8)"

lemma hash_key_of_ctx: "hash_key ctx = hash_key_of (cipher_ctx ctx)"
  by (simp add: hash_key_def hash_key_of_def)

lemma length_init: "length (HH mbedtls_gcm_init) = 16" "length (HL mbedtls_gcm_init) = 16"
  by (simp_all add: mbedtls_gcm_init_def)

end
