(* ===== verification/Cards.thy ===== *)
theory Cards
  imports Prelude
begin

text \<open>
  The playing card (Card.h, Card.cpp): construction from a value and a suit or from a
  name such as "07-H", validity, the fool, card points, and printing.

  A suit and a value are \<open>uint8_t\<close> in the code; here they are naturals, and the one
  place where a wider number is narrowed (the value read from a name) reduces it modulo 256.
  Card points are \<open>float\<close> in the code; every one of them is a multiple of one half and
  small, hence represented exactly, so the model uses exact rationals.
\<close>

section \<open>Data\<close>

record card =
  mSuit :: nat
  mValue :: nat

definition SPADES :: nat where "SPADES = 0"
definition HEARTS :: nat where "HEARTS = 1"
definition DIAMONDS :: nat where "DIAMONDS = 2"
definition CLUBS :: nat where "CLUBS = 3"
definition TRUMPS :: nat where "TRUMPS = 4"
definition INVALID :: nat where "INVALID = 255"

definition KING :: nat where "KING = 14"
definition QUEEN :: nat where "QUEEN = 13"
definition KNIGHT :: nat where "KNIGHT = 12"
definition JACK :: nat where "JACK = 11"

lemmas suit_defs = SPADES_def HEARTS_def DIAMONDS_def CLUBS_def TRUMPS_def INVALID_def
lemmas rank_defs = KING_def QUEEN_def KNIGHT_def JACK_def

definition suits :: string where
  "suits = ''SHDCT''"

section \<open>Operations\<close>

text \<open>\<open>Card::Card(uint8_t value, uint8_t suit)\<close> and the default constructor.\<close>

definition mk_card :: "nat \<Rightarrow> nat \<Rightarrow> card" where
  "mk_card value suit = \<lparr>mSuit = suit, mValue = value\<rparr>"

definition Card_default :: card where
  "Card_default = \<lparr>mSuit = INVALID, mValue = INVALID\<rparr>"

definition Card_IsValid :: "card \<Rightarrow> bool" where
  "Card_IsValid c =
     (if mSuit c = TRUMPS then mValue c \<le> 21
      else if mSuit c < TRUMPS then 0 < mValue c \<and> mValue c \<le> 14
      else False)"

definition Card_IsFool :: "card \<Rightarrow> bool" where
  "Card_IsFool c = (mSuit c = TRUMPS \<and> mValue c = 0)"

definition Card_GetPoints :: "card \<Rightarrow> rat" where
  "Card_GetPoints c =
     (if mSuit c = TRUMPS
      then (if mValue c = 0 \<or> mValue c = 1 \<or> mValue c = 21 then 9 / 2 else 1 / 2)
      else (if 10 < mValue c then 1 / 2 + of_nat (mValue c - 10) else 1 / 2))"

text \<open>
  \<open>Card::SuitFromName\<close>: the loop tries every letter and keeps the last match;
  \<open>Card::SuitName\<close> is empty for an unknown suit.
\<close>

definition Card_SuitFromName :: "string \<Rightarrow> nat" where
  "Card_SuitFromName name =
     fold (\<lambda>i suit. if name = [suits ! i] then i else suit) [0..<5] INVALID"

definition Card_SuitName :: "nat \<Rightarrow> string" where
  "Card_SuitName suit = (if suit \<le> TRUMPS then [suits ! suit] else [])"

text \<open>
  Decimal output of an unsigned integer, and \<open>setfill('0') << setw(2)\<close>.
\<close>

fun dec_string :: "nat \<Rightarrow> string" where
  "dec_string n = (if n < 10 then [char_of (48 + n)] else dec_string (n div 10) @ [char_of (48 + n mod 10)])"

declare dec_string.simps [simp del]

definition pad0 :: "nat \<Rightarrow> string \<Rightarrow> string" where
  "pad0 w s = replicate (w - length s) (CHR ''0'') @ s"

definition Card_ToString :: "card \<Rightarrow> string" where
  "Card_ToString c = pad0 2 (dec_string (mValue c)) @ ''-'' @ Card_SuitName (mSuit c)"

text \<open>
  \<open>stringstream >> uint32_t\<close>: leading white space is skipped, an optional sign is read,
  then the longest run of digits; a minus sign negates modulo \<open>2 ^ 32\<close>; when there is no
  digit the extraction fails and the value is set to zero; too large a number is clamped. When
  there is nothing but white space the extraction fails before it writes anything, and the
  variable keeps what it held: the first argument. \<open>Card\<close> reads into a variable that nothing
  initialises, so its value is \<open>uninitialised_u32\<close>, of which nothing is known.
\<close>

definition uninitialised_u32 :: nat where
  "uninitialised_u32 = undefined"

definition is_space :: "char \<Rightarrow> bool" where
  "is_space ch = (ch = CHR '' '' \<or> 9 \<le> (of_char ch :: nat) \<and> (of_char ch :: nat) \<le> 13)"

definition is_digit :: "char \<Rightarrow> bool" where
  "is_digit ch = (48 \<le> (of_char ch :: nat) \<and> (of_char ch :: nat) \<le> 57)"

fun dec_value :: "nat \<Rightarrow> string \<Rightarrow> nat" where
  "dec_value acc [] = acc"
| "dec_value acc (ch # s) = (if is_digit ch then dec_value (acc * 10 + (of_char ch - 48)) s else acc)"

definition read_u32 :: "nat \<Rightarrow> string \<Rightarrow> nat" where
  "read_u32 old s =
     (let s1 = dropWhile is_space s;
          neg = (s1 \<noteq> [] \<and> hd s1 = CHR ''-'');
          s2 = (if s1 \<noteq> [] \<and> (hd s1 = CHR ''-'' \<or> hd s1 = CHR ''+'') then tl s1 else s1);
          v = min (dec_value 0 s2) (2 ^ 32 - 1)
      in if s1 = [] then old
         else if neg then (2 ^ 32 - v) mod 2 ^ 32 else v)"

text \<open>\<open>Card::Card(const std::string &name)\<close>.\<close>

definition Card_FromName :: "string \<Rightarrow> card" where
  "Card_FromName name =
     (if length name = 4
      then \<lparr>mSuit = Card_SuitFromName [name ! 3], mValue = read_u32 uninitialised_u32 (take 2 name) mod 256\<rparr>
      else Card_default)"

section \<open>The 78 cards\<close>

text \<open>The order in which \<open>Deck::CreateTarotDeck\<close> appends the cards (Deck.cpp).\<close>

definition tarot_cards :: "card list" where
  "tarot_cards =
     concat (map (\<lambda>i. map (\<lambda>j. mk_card j i) [1..<15]) [0..<4]) @
     map (\<lambda>i. mk_card i TRUMPS) [0..<22]"

lemma card_eqI: "mSuit c = mSuit d \<Longrightarrow> mValue c = mValue d \<Longrightarrow> (c :: card) = d"
  by simp

lemma valid_card_in_tarot:
  assumes "Card_IsValid c"
  shows "c \<in> set tarot_cards"
proof (cases "mSuit c = TRUMPS")
  case True
  with assms have "mValue c \<in> {0..<22}" by (simp add: Card_IsValid_def)
  moreover from True have "c = mk_card (mValue c) TRUMPS" by (simp add: mk_card_def)
  ultimately show ?thesis unfolding tarot_cards_def by auto
next
  case False
  with assms have "mValue c \<in> {1..<15}" "mSuit c \<in> {0..<4}"
    by (auto simp: Card_IsValid_def TRUMPS_def split: if_splits)
  moreover have "c = mk_card (mValue c) (mSuit c)" by (simp add: mk_card_def)
  ultimately show ?thesis unfolding tarot_cards_def by (auto intro!: bexI)
qed

lemma tarot_cards_valid: "c \<in> set tarot_cards \<Longrightarrow> Card_IsValid c"
  by (auto simp: tarot_cards_def mk_card_def Card_IsValid_def TRUMPS_def)

lemma tarot_cards_iff: "c \<in> set tarot_cards \<longleftrightarrow> Card_IsValid c"
  using valid_card_in_tarot tarot_cards_valid by blast

lemma length_tarot_cards: "length tarot_cards = 78"
  by (simp add: tarot_cards_def upt_rec)

lemma distinct_tarot_cards: "distinct tarot_cards"
  by code_simp

text \<open>A fact about all valid cards is checked card by card.\<close>

lemma all_valid_cards:
  assumes "list_all P tarot_cards" and "Card_IsValid c"
  shows "P c"
  using assms valid_card_in_tarot by (auto simp: list_all_iff)

lemma name_roundtrip_all: "list_all (\<lambda>c. Card_FromName (Card_ToString c) = c) tarot_cards"
  by code_simp

lemma points_bounds: "1 / 2 \<le> Card_GetPoints c"
  by (simp add: Card_GetPoints_def)

lemma points_half_integral: "\<exists>k :: nat. Card_GetPoints c = of_nat (2 * k + 1) / 2"
proof -
  define k where "k = (if mSuit c = TRUMPS
    then (if mValue c = 0 \<or> mValue c = 1 \<or> mValue c = 21 then 4 else 0)
    else (if 10 < mValue c then mValue c - 10 else 0))"
  have "Card_GetPoints c = of_nat (2 * k + 1) / 2"
    by (simp add: k_def Card_GetPoints_def add_divide_distrib)
  then show ?thesis by (rule exI)
qed

end
