(* ===== verification/Tarot_Rules.thy ===== *)
theory Tarot_Rules
  imports Cards
begin

text \<open>
  Teams, places around the table, contracts, bids and the tables of the Tarot rules
  (Common.h, Common.cpp).

  \<open>Place\<close> and \<open>Contract\<close> wrap a \<open>uint8_t\<close> that every constructor and every assignment
  clamps to the enumerated values, so here they are enumerations; \<open>Place_of\<close> and
  \<open>Contract_of\<close> are the clamping assignments, and the comparison operators of the classes
  are the \<^verbatim>\<open>linorder\<close> instances below.
\<close>

section \<open>Teams\<close>

datatype team = ATTACK | DEFENSE | NO_TEAM

section \<open>Places\<close>

datatype place = SOUTH | EAST | NORTH | WEST | FIFTH | NOWHERE

fun Place_Value :: "place \<Rightarrow> nat" where
  "Place_Value SOUTH = 0"
| "Place_Value EAST = 1"
| "Place_Value NORTH = 2"
| "Place_Value WEST = 3"
| "Place_Value FIFTH = 4"
| "Place_Value NOWHERE = 5"

definition Place_of :: "nat \<Rightarrow> place" where
  "Place_of n =
     (if 5 < n then SOUTH
      else [SOUTH, EAST, NORTH, WEST, FIFTH, NOWHERE] ! n)"

definition Place_of_u32 :: "int \<Rightarrow> place" where
  "Place_of_u32 n = Place_of (to_u8 n)"

definition Place_strings :: "string list" where
  "Place_strings = [''South'', ''East'', ''North'', ''West'', ''Fifth'', ''Nowhere'']"

definition Place_FromString :: "string \<Rightarrow> place" where
  "Place_FromString s =
     fold (\<lambda>i p. if s = Place_strings ! i then Place_of i else p) [0..<6] NOWHERE"

definition Place_ToString :: "place \<Rightarrow> string" where
  "Place_ToString p = Place_strings ! Place_Value p"

text \<open>The operators \<open><\<close> and \<open>>\<close> of the class order the places by their values.\<close>

definition Place_less :: "place \<Rightarrow> place \<Rightarrow> bool" where
  [simp]: "Place_less p q \<longleftrightarrow> Place_Value p < Place_Value q"

definition Place_greater :: "place \<Rightarrow> place \<Rightarrow> bool" where
  [simp]: "Place_greater p q \<longleftrightarrow> Place_Value q < Place_Value p"

instantiation place :: linorder
begin

definition less_eq_place :: "place \<Rightarrow> place \<Rightarrow> bool" where
  "less_eq_place p q \<longleftrightarrow> \<not> Place_greater p q"

definition less_place :: "place \<Rightarrow> place \<Rightarrow> bool" where
  "less_place p q \<longleftrightarrow> Place_less p q"

instance
proof
  fix p q r :: place
  show "(p < q) = (p \<le> q \<and> \<not> q \<le> p)"
    by (auto simp: less_eq_place_def less_place_def)
  show "p \<le> p" by (simp add: less_eq_place_def)
  show "p \<le> q \<Longrightarrow> q \<le> r \<Longrightarrow> p \<le> r" by (simp add: less_eq_place_def)
  show "p \<le> q \<Longrightarrow> q \<le> p \<Longrightarrow> p = q"
    by (cases p; cases q) (simp_all add: less_eq_place_def)
  show "p \<le> q \<or> q \<le> p" by (auto simp: less_eq_place_def)
qed

end

definition Place_IsValid :: "place \<Rightarrow> bool" where
  "Place_IsValid p = (p < NOWHERE)"

definition Place_Next :: "nat \<Rightarrow> place \<Rightarrow> place" where
  "Place_Next numberOfPlayers p =
     (let place = Place_Value p + 1
      in if numberOfPlayers \<le> place \<or> Place_Value NOWHERE \<le> place then SOUTH
         else Place_of place)"

definition Place_Previous :: "nat \<Rightarrow> place \<Rightarrow> place" where
  "Place_Previous numberOfPlayers p =
     (if p = SOUTH then Place_of (to_u8 (int numberOfPlayers - 1))
      else Place_of (Place_Value p - 1))"

text \<open>
  \<open>Place::Relative\<close> computes on \<open>int\<close>, where \<open>%\<close> truncates towards zero; a divisor of zero is
  undefined.
\<close>

definition Place_Relative :: "nat \<Rightarrow> place \<Rightarrow> place \<Rightarrow> place option" where
  "Place_Relative numberOfPlayers self absolute =
     (if numberOfPlayers = 0 then None
      else let d = int (Place_Value absolute) + int numberOfPlayers - int (Place_Value self)
           in Some (Place_of_u32 (sgn d * (\<bar>d\<bar> mod int numberOfPlayers))))"

section \<open>Contracts\<close>

datatype contract = NO_ANY | PASS | TAKE | GUARD | GUARD_WITHOUT | GUARD_AGAINST

fun Contract_Value :: "contract \<Rightarrow> nat" where
  "Contract_Value NO_ANY = 0"
| "Contract_Value PASS = 1"
| "Contract_Value TAKE = 2"
| "Contract_Value GUARD = 3"
| "Contract_Value GUARD_WITHOUT = 4"
| "Contract_Value GUARD_AGAINST = 5"

definition Contract_of :: "nat \<Rightarrow> contract" where
  "Contract_of n =
     (if 5 < n then PASS
      else [NO_ANY, PASS, TAKE, GUARD, GUARD_WITHOUT, GUARD_AGAINST] ! n)"

definition Contract_strings :: "string list" where
  "Contract_strings =
     [[], ''Pass'', ''Take'', ''Guard'', ''Guard without'', ''Guard against'']"

definition Contract_FromString :: "string \<Rightarrow> contract" where
  "Contract_FromString s =
     fold (\<lambda>i c. if s = Contract_strings ! i then Contract_of i else c) [0..<6] PASS"

definition Contract_ToString :: "contract \<Rightarrow> string" where
  "Contract_ToString c = Contract_strings ! Contract_Value c"

text \<open>The operators \<open><\<close> and \<open><=\<close> of the class order the contracts by their values.\<close>

definition Contract_less :: "contract \<Rightarrow> contract \<Rightarrow> bool" where
  [simp]: "Contract_less c d \<longleftrightarrow> Contract_Value c < Contract_Value d"

definition Contract_less_eq :: "contract \<Rightarrow> contract \<Rightarrow> bool" where
  [simp]: "Contract_less_eq c d \<longleftrightarrow> Contract_Value c \<le> Contract_Value d"

instantiation contract :: linorder
begin

definition less_eq_contract :: "contract \<Rightarrow> contract \<Rightarrow> bool" where
  "less_eq_contract c d \<longleftrightarrow> Contract_less_eq c d"

definition less_contract :: "contract \<Rightarrow> contract \<Rightarrow> bool" where
  "less_contract c d \<longleftrightarrow> Contract_less c d"

instance
proof
  fix c d e :: contract
  show "(c < d) = (c \<le> d \<and> \<not> d \<le> c)"
    by (auto simp: less_eq_contract_def less_contract_def)
  show "c \<le> c" by (simp add: less_eq_contract_def)
  show "c \<le> d \<Longrightarrow> d \<le> e \<Longrightarrow> c \<le> e" by (simp add: less_eq_contract_def)
  show "c \<le> d \<Longrightarrow> d \<le> c \<Longrightarrow> c = d"
    by (cases c; cases d) (simp_all add: less_eq_contract_def)
  show "c \<le> d \<or> d \<le> c" by (auto simp: less_eq_contract_def)
qed

end

definition Contract_IsValid :: "contract \<Rightarrow> bool" where
  "Contract_IsValid c = (NO_ANY < c \<and> c \<le> GUARD_AGAINST)"

section \<open>Bids\<close>

record bid =
  taker :: place
  partner :: place
  contract :: contract
  slam :: bool

definition Bid_Initialize :: bid where
  "Bid_Initialize = \<lparr>taker = NOWHERE, partner = NOWHERE, contract = NO_ANY, slam = False\<rparr>"

definition Bid_HasPartner :: "bid \<Rightarrow> bool" where
  "Bid_HasPartner b =
     (Place_IsValid (taker b) \<and> Place_IsValid (partner b) \<and> partner b \<noteq> taker b)"

section \<open>Distributions and games\<close>

record distribution =
  mType :: nat
  mFile :: string
  mSeed :: nat

definition RANDOM_DEAL :: nat where "RANDOM_DEAL = 0"
definition NUMBERED_DEAL :: nat where "NUMBERED_DEAL = 1"
definition CUSTOM_DEAL :: nat where "CUSTOM_DEAL = 2"

lemmas deal_defs = RANDOM_DEAL_def NUMBERED_DEAL_def CUSTOM_DEAL_def

definition Distribution_Initialize :: distribution where
  "Distribution_Initialize = \<lparr>mType = RANDOM_DEAL, mFile = [], mSeed = 0\<rparr>"

definition TypeFromString :: "string \<Rightarrow> distribution \<Rightarrow> distribution" where
  "TypeFromString type d =
     d\<lparr>mType := (if type = ''Random'' then RANDOM_DEAL
                else if type = ''Numbered'' then NUMBERED_DEAL
                else CUSTOM_DEAL)\<rparr>"

definition TypeToString :: "distribution \<Rightarrow> string" where
  "TypeToString d =
     (if mType d = RANDOM_DEAL then ''Random''
      else if mType d = NUMBERED_DEAL then ''Numbered''
      else ''Custom'')"

record game =
  mode :: nat
  deals :: "distribution list"

definition cQuickDeal :: nat where "cQuickDeal = 1"
definition cSimpleTournament :: nat where "cSimpleTournament = 2"
definition cCustom :: nat where "cCustom = 3"

definition Game_default :: game where
  "Game_default = \<lparr>mode = cQuickDeal, deals = [Distribution_Initialize]\<rparr>"

definition Game_Set :: "string \<Rightarrow> game \<Rightarrow> game" where
  "Game_Set modeTxt g =
     g\<lparr>mode := (if modeTxt = ''Custom'' then cCustom
               else if modeTxt = ''SimpleTournament'' then cSimpleTournament
               else cQuickDeal)\<rparr>"

definition Game_Get :: "game \<Rightarrow> string" where
  "Game_Get g =
     (if mode g = cCustom then ''Custom''
      else if mode g = cSimpleTournament then ''SimpleTournament''
      else ''QuickDeal'')"

section \<open>The tables of the rules\<close>

definition NO_HANDLE :: nat where "NO_HANDLE = 0"
definition SIMPLE_HANDLE :: nat where "SIMPLE_HANDLE = 1"
definition DOUBLE_HANDLE :: nat where "DOUBLE_HANDLE = 2"
definition TRIPLE_HANDLE :: nat where "TRIPLE_HANDLE = 3"

lemmas handle_defs = NO_HANDLE_def SIMPLE_HANDLE_def DOUBLE_HANDLE_def TRIPLE_HANDLE_def

definition NumberOfCardsInHand :: "nat \<Rightarrow> nat" where
  "NumberOfCardsInHand numberOfPlayers =
     (if numberOfPlayers = 3 then 24 else if numberOfPlayers = 5 then 15 else 18)"

definition NumberOfDogCards :: "nat \<Rightarrow> nat" where
  "NumberOfDogCards numberOfPlayers =
     to_u8 (78 - int (NumberOfCardsInHand numberOfPlayers) * int numberOfPlayers)"

definition IsDealFinished :: "nat \<Rightarrow> nat \<Rightarrow> bool" where
  "IsDealFinished trickCounter numberOfPlayers =
     (NumberOfCardsInHand numberOfPlayers \<le> trickCounter)"

definition GetHandlePoints :: "nat \<Rightarrow> nat \<Rightarrow> int" where
  "GetHandlePoints nbPlayers handle =
     (if nbPlayers = 4 then
        (if handle = SIMPLE_HANDLE then 20 else if handle = DOUBLE_HANDLE then 30
         else if handle = TRIPLE_HANDLE then 40 else 0)
      else if nbPlayers = 3 then
        (if handle = SIMPLE_HANDLE then 13 else if handle = DOUBLE_HANDLE then 15
         else if handle = TRIPLE_HANDLE then 18 else 0)
      else if nbPlayers = 5 then
        (if handle = SIMPLE_HANDLE then 8 else if handle = DOUBLE_HANDLE then 10
         else if handle = TRIPLE_HANDLE then 13 else 0)
      else 0)"

definition GetHandleType :: "nat \<Rightarrow> nat" where
  "GetHandleType n =
     (if n = 10 then SIMPLE_HANDLE else if n = 13 then DOUBLE_HANDLE
      else if n = 15 then TRIPLE_HANDLE else NO_HANDLE)"

definition PointsToDo :: "nat \<Rightarrow> int" where
  "PointsToDo numberOfOudlers =
     (if numberOfOudlers = 0 then 56 else if numberOfOudlers = 1 then 51
      else if numberOfOudlers = 2 then 41 else 36)"

definition GetMultiplier :: "contract \<Rightarrow> int" where
  "GetMultiplier c =
     (if c = TAKE then 1 else if c = GUARD then 2 else if c = GUARD_WITHOUT then 4
      else if c = GUARD_AGAINST then 6 else 0)"

section \<open>Lemmas\<close>

lemma Place_of_Value [simp]: "Place_of (Place_Value p) = p"
  by (cases p) (simp_all add: Place_of_def)

lemma Place_Value_le: "Place_Value p \<le> 5"
  by (cases p) simp_all

lemma Place_Value_of [simp]: "n \<le> 5 \<Longrightarrow> Place_Value (Place_of n) = n"
  by (auto simp: Place_of_def numeral_eq_Suc le_Suc_eq)

lemma Place_Value_inject [simp]: "Place_Value p = Place_Value q \<longleftrightarrow> p = q"
  by (metis Place_of_Value)

lemma Place_IsValid_iff: "Place_IsValid p \<longleftrightarrow> Place_Value p < 5"
  by (cases p) (simp_all add: Place_IsValid_def less_place_def)

lemma Contract_of_Value [simp]: "Contract_of (Contract_Value c) = c"
  by (cases c) (simp_all add: Contract_of_def)

lemma Place_string_roundtrip: "Place_FromString (Place_ToString p) = p"
  by (cases p) (simp_all add: Place_FromString_def Place_ToString_def Place_strings_def
      Place_of_def upt_rec)

lemma Contract_string_roundtrip: "Contract_FromString (Contract_ToString c) = c"
  by (cases c) (simp_all add: Contract_FromString_def Contract_ToString_def
      Contract_strings_def Contract_of_def upt_rec)

text \<open>Walking around the table: \<open>Place_Next\<close> is addition modulo the number of players.\<close>

lemma Place_Value_Next:
  assumes "Place_Value p < n" "n \<le> 5"
  shows "Place_Value (Place_Next n p) = (Place_Value p + 1) mod n"
proof (cases "Place_Value p + 1 = n")
  case True
  then show ?thesis by (auto simp: Place_Next_def Let_def)
next
  case False
  with assms show ?thesis by (simp add: Place_Next_def Let_def)
qed

lemma Place_Next_less:
  assumes "0 < n"
  shows "Place_Value (Place_Next n p) < n"
  using assms Place_Value_le [of p] by (auto simp: Place_Next_def Let_def)

lemma Place_Value_Next_funpow:
  assumes "Place_Value p < n" "n \<le> 5"
  shows "Place_Value ((Place_Next n ^^ k) p) = (Place_Value p + k) mod n"
proof (induction k)
  case 0
  with assms show ?case by simp
next
  case (Suc k)
  have "Place_Value ((Place_Next n ^^ k) p) < n"
    using Suc.IH assms by simp
  with Suc.IH assms(2) show ?case
    by (simp add: Place_Value_Next mod_simps)
qed

lemma contract_le_iff: "c \<le> d \<longleftrightarrow> Contract_Value c \<le> Contract_Value d"
  by (simp add: less_eq_contract_def)

lemma contract_less_iff: "c < d \<longleftrightarrow> Contract_Value c < Contract_Value d"
  by (simp add: less_contract_def)

lemma NO_ANY_least [simp]: "NO_ANY \<le> c"
  by (simp add: less_eq_contract_def)

lemma players_cases:
  assumes "n \<in> {3, 4, 5 :: nat}"
  obtains "n = 3" | "n = 4" | "n = 5"
  using assms by auto

lemma NumberOfDogCards_values [simp]:
  "NumberOfDogCards 3 = 6" "NumberOfDogCards 4 = 6" "NumberOfDogCards 5 = 3"
  by (simp_all add: NumberOfDogCards_def NumberOfCardsInHand_def)

lemma NumberOfCardsInHand_values [simp]:
  "NumberOfCardsInHand 3 = 24" "NumberOfCardsInHand 4 = 18" "NumberOfCardsInHand 5 = 15"
  by (simp_all add: NumberOfCardsInHand_def)

lemma PointsToDo_range: "36 \<le> PointsToDo n" "PointsToDo n \<le> 56"
  by (simp_all add: PointsToDo_def)

lemma GetMultiplier_range: "0 \<le> GetMultiplier c" "GetMultiplier c \<le> 6"
  by (cases c; simp add: GetMultiplier_def)+

lemma GetHandlePoints_range: "0 \<le> GetHandlePoints n h" "GetHandlePoints n h \<le> 40"
  by (simp_all add: GetHandlePoints_def)

end
