(* ===== verification/Decks.thy ===== *)
theory Decks
  imports Tarot_Rules
begin

text \<open>
  Decks of cards (Deck.h, Deck.cpp): the container operations, the scans for the highest
  trump and the highest card of the lead suit, the statistics, and the three rule checks a
  deck answers: may this card be played, is this handle valid, is this discard valid.

  A deck is its owner and its vector of cards. A \<open>const\<close> loop that sets a flag is a
  \<^const>\<open>list_ex\<close>; a loop that carries several variables is a \<^const>\<open>fold\<close> over a record of
  them with the loop body as its step function. Counters of type \<open>uint8_t\<close> are incremented
  modulo 256.
\<close>

section \<open>Data\<close>

record deck =
  mOwner :: team
  mDeck :: "card list"

definition Deck_empty :: deck where
  "Deck_empty = \<lparr>mOwner = NO_TEAM, mDeck = []\<rparr>"

abbreviation deck_mset :: "deck \<Rightarrow> card multiset" where
  "deck_mset d \<equiv> mset (mDeck d)"

record statistics =
  nbCards :: nat
  trumps :: nat
  oudlers :: nat
  majorTrumps :: nat
  kings :: nat
  queens :: nat
  knights :: nat
  jacks :: nat
  weddings :: nat
  longSuits :: nat
  cuts :: nat
  singletons :: nat
  sequences :: nat
  suitCounts :: "nat list"
  littleTrump :: bool
  bigTrump :: bool
  fool :: bool
  points :: rat

definition Statistics_Reset :: statistics where
  "Statistics_Reset =
     \<lparr>nbCards = 0, trumps = 0, oudlers = 0, majorTrumps = 0, kings = 0, queens = 0,
      knights = 0, jacks = 0, weddings = 0, longSuits = 0, cuts = 0, singletons = 0,
      sequences = 0, suitCounts = [0, 0, 0, 0], littleTrump = False, bigTrump = False,
      fool = False, points = 0\<rparr>"

definition inc8 :: "nat \<Rightarrow> nat" where
  "inc8 n = (n + 1) mod 256"

definition dec8 :: "nat \<Rightarrow> nat" where
  "dec8 n = (n + 255) mod 256"

section \<open>Raw deck management\<close>

definition Deck_Size :: "deck \<Rightarrow> nat" where
  "Deck_Size d = length (mDeck d)"

definition Deck_Clear :: "deck \<Rightarrow> deck" where
  "Deck_Clear d = d\<lparr>mDeck := []\<rparr>"

definition Deck_AppendCard :: "card \<Rightarrow> deck \<Rightarrow> deck" where
  "Deck_AppendCard c d = d\<lparr>mDeck := mDeck d @ [c]\<rparr>"

definition Deck_Append :: "deck \<Rightarrow> deck \<Rightarrow> deck" where
  "Deck_Append other d = fold Deck_AppendCard (mDeck other) d"

definition Deck_SetOwner :: "team \<Rightarrow> deck \<Rightarrow> deck" where
  "Deck_SetOwner t d = d\<lparr>mOwner := t\<rparr>"

definition Deck_CreateTarotDeck :: "deck \<Rightarrow> deck" where
  "Deck_CreateTarotDeck d = (Deck_Clear d)\<lparr>mDeck := tarot_cards\<rparr>"

definition Deck_Mid :: "nat \<Rightarrow> nat \<Rightarrow> deck \<Rightarrow> deck" where
  "Deck_Mid from_pos n d =
     (let from1 = (if Deck_Size d \<le> from_pos then 0 else from_pos);
          n1 = (if Deck_Size d < n then Deck_Size d - from1 else n);
          to_pos = (from1 + n1) mod 2 ^ 32
      in Deck_empty\<lparr>mDeck := map fst (filter (\<lambda>(c, counter). from1 \<le> counter \<and> counter < to_pos)
             (zip (mDeck d) [0..<Deck_Size d]))\<rparr>)"

definition Deck_MidFrom :: "nat \<Rightarrow> deck \<Rightarrow> deck" where
  "Deck_MidFrom from_pos d =
     Deck_Mid from_pos (nat (to_u32 (int (Deck_Size d) - int from_pos))) d"

definition Deck_At :: "nat \<Rightarrow> deck \<Rightarrow> card" where
  "Deck_At pos d = (if pos < Deck_Size d then mDeck d ! pos else Card_default)"

definition Deck_Count :: "card \<Rightarrow> deck \<Rightarrow> nat" where
  "Deck_Count cd d = fold (\<lambda>c counter. if c = cd then counter + 1 else counter) (mDeck d) 0"

definition Deck_Remove :: "card \<Rightarrow> deck \<Rightarrow> nat \<times> deck" where
  "Deck_Remove cd d = (Deck_Count cd d, d\<lparr>mDeck := filter (\<lambda>c. c \<noteq> cd) (mDeck d)\<rparr>)"

definition Deck_HasCard :: "card \<Rightarrow> deck \<Rightarrow> bool" where
  "Deck_HasCard cd d = list_ex (\<lambda>c. cd = c) (mDeck d)"

definition RemoveDuplicates_step :: "card \<Rightarrow> nat \<times> deck \<Rightarrow> nat \<times> deck" where
  "RemoveDuplicates_step c = (\<lambda>(cardsRemoved, d).
     if Deck_HasCard c d then (cardsRemoved + 1, snd (Deck_Remove c d)) else (cardsRemoved, d))"

definition Deck_RemoveDuplicates :: "deck \<Rightarrow> deck \<Rightarrow> nat \<times> deck" where
  "Deck_RemoveDuplicates other d = fold RemoveDuplicates_step (mDeck other) (0, d)"

fun join_semi :: "string list \<Rightarrow> string" where
  "join_semi [] = []"
| "join_semi [s] = s"
| "join_semi (s # t # ss) = s @ ('';'' @ join_semi (t # ss))"

definition Deck_ToString :: "deck \<Rightarrow> string" where
  "Deck_ToString d = join_semi (map Card_ToString (mDeck d))"

text \<open>
  \<open>Deck::SetCards\<close>: the text is cut at every semicolon (there is always at least one, possibly
  empty, piece); the pieces that name a valid card are appended, and the number of pieces is
  returned as a \<open>uint8_t\<close>.
\<close>

fun split_semi :: "string \<Rightarrow> string list" where
  "split_semi [] = [[]]"
| "split_semi (ch # s) =
     (if ch = CHR '';'' then [] # split_semi s
      else (case split_semi s of [] \<Rightarrow> [[ch]] | w # ws \<Rightarrow> (ch # w) # ws))"

definition Deck_SetCards :: "string \<Rightarrow> deck \<Rightarrow> nat \<times> deck" where
  "Deck_SetCards cards d =
     fold (\<lambda>cardName (count, d').
             let card = Card_FromName cardName
             in (inc8 count, if Card_IsValid card then Deck_AppendCard card d' else d'))
       (split_semi cards) (0, Deck_Clear d)"

definition Deck_FromString :: "string \<Rightarrow> deck" where
  "Deck_FromString cards = snd (Deck_SetCards cards Deck_empty)"

definition Deck_GetCard :: "string \<Rightarrow> deck \<Rightarrow> card" where
  "Deck_GetCard i_name d =
     fold (\<lambda>c card. if Card_ToString c = i_name then c else card) (mDeck d) Card_default"

text \<open>\<open>std::shuffle\<close> with a seeded engine is a parameter: a function of the seed and the cards.\<close>

definition Deck_Shuffle :: "(nat \<Rightarrow> card list \<Rightarrow> card list) \<Rightarrow> nat \<Rightarrow> deck \<Rightarrow> deck" where
  "Deck_Shuffle std_shuffle seed d = d\<lparr>mDeck := std_shuffle seed (mDeck d)\<rparr>"

section \<open>Scans\<close>

definition Deck_HasOneOfTrump :: "deck \<Rightarrow> bool" where
  "Deck_HasOneOfTrump d = list_ex (\<lambda>c. mSuit c = TRUMPS \<and> mValue c = 1) (mDeck d)"

definition Deck_HasFool :: "deck \<Rightarrow> bool" where
  "Deck_HasFool d = list_ex (\<lambda>c. mSuit c = TRUMPS \<and> mValue c = 0) (mDeck d)"

definition Deck_HighestTrump :: "deck \<Rightarrow> card" where
  "Deck_HighestTrump d =
     fst (fold (\<lambda>c (card, value). if mSuit c = TRUMPS \<and> value < mValue c then (c, mValue c)
                                  else (card, value))
            (mDeck d) (Card_default, 0))"

definition Deck_HasOnlyOneOfTrump :: "deck \<Rightarrow> bool" where
  "Deck_HasOnlyOneOfTrump d = (mValue (Deck_HighestTrump d) = 1 \<and> \<not> Deck_HasFool d)"

record lead_scan =
  ls_card :: card
  ls_value :: nat
  ls_suit :: nat
  ls_hasLead :: bool

definition lead_step :: "card \<Rightarrow> lead_scan \<Rightarrow> lead_scan" where
  "lead_step c s =
     (if mSuit c \<noteq> TRUMPS \<and> ls_value s < mValue c
      then (if \<not> ls_hasLead s
            then \<lparr>ls_card = c, ls_value = mValue c, ls_suit = mSuit c, ls_hasLead = True\<rparr>
            else if mSuit c = ls_suit s then s\<lparr>ls_value := mValue c, ls_card := c\<rparr>
            else s)
      else s)"

text \<open>The variable \<open>suit\<close> is not initialised in the code; it is only read once \<open>hasLead\<close> is set.\<close>

definition Deck_HighestSuit :: "deck \<Rightarrow> card" where
  "Deck_HighestSuit d =
     ls_card (fold lead_step (mDeck d)
       \<lparr>ls_card = Card_default, ls_value = 0, ls_suit = 0, ls_hasLead = False\<rparr>)"

section \<open>Statistics\<close>

definition AnalyzeTrumps_step :: "card \<Rightarrow> statistics \<Rightarrow> statistics" where
  "AnalyzeTrumps_step c st =
     (let st1 =
        (if mSuit c = TRUMPS then
           (let st2 = st\<lparr>trumps := inc8 (trumps st)\<rparr>;
                val = mValue c;
                st3 = (if 15 \<le> val then st2\<lparr>majorTrumps := inc8 (majorTrumps st2)\<rparr> else st2);
                st4 = (if val = 21 then st3\<lparr>bigTrump := True, oudlers := inc8 (oudlers st3)\<rparr> else st3);
                st5 = (if val = 1 then st4\<lparr>littleTrump := True, oudlers := inc8 (oudlers st4)\<rparr> else st4)
            in if val = 0 then st5\<lparr>fool := True, oudlers := inc8 (oudlers st5)\<rparr> else st5)
         else st)
      in st1\<lparr>points := points st1 + Card_GetPoints c\<rparr>)"

definition Deck_AnalyzeTrumps :: "deck \<Rightarrow> statistics \<Rightarrow> statistics" where
  "Deck_AnalyzeTrumps d st =
     fold AnalyzeTrumps_step (mDeck d) (st\<lparr>nbCards := Deck_Size d mod 256\<rparr>)"

text \<open>
  \<open>Deck::AnalyzeSuits\<close>. The array \<open>distr\<close> has 14 entries and is written at \<open>val - 1\<close>, so a card
  of a plain suit whose value is not in 1..14 is an out-of-bounds write.
\<close>

definition suit_card_step :: "nat \<Rightarrow> card \<Rightarrow> (nat \<times> bool list \<times> statistics) option
                              \<Rightarrow> (nat \<times> bool list \<times> statistics) option" where
  "suit_card_step suit c r =
     Option.bind r (\<lambda>(count, distr, st).
       if mSuit c = suit then
         (let val = mValue c;
              st1 = (if val = 11 then st\<lparr>jacks := inc8 (jacks st)\<rparr> else st);
              st2 = (if val = 12 then st1\<lparr>knights := inc8 (knights st1)\<rparr> else st1);
              st3 = (if val = 13 then st2\<lparr>queens := inc8 (queens st2)\<rparr> else st2);
              st4 = (if val = 14 then st3\<lparr>kings := inc8 (kings st3)\<rparr> else st3)
          in if val = 0 then None
             else Option.bind (arr_set distr (val - 1) True)
                    (\<lambda>distr'. Some (inc8 count, distr', st4)))
       else Some (count, distr, st))"

definition sequence_step :: "bool list \<Rightarrow> nat \<Rightarrow> nat \<times> bool \<times> nat \<Rightarrow> nat \<times> bool \<times> nat" where
  "sequence_step distr k = (\<lambda>(count, detected, seqs).
     if distr ! k then
       (let count1 = inc8 count
        in if \<not> detected \<and> 5 \<le> count1 then (count1, True, inc8 seqs)
           else (count1, detected, seqs))
     else (0, False, seqs))"

definition AnalyzeSuit :: "deck \<Rightarrow> nat \<Rightarrow> statistics \<Rightarrow> statistics option" where
  "AnalyzeSuit d suit st =
     Option.bind (fold (suit_card_step suit) (mDeck d) (Some (0, replicate 14 False, st)))
       (\<lambda>(count, distr, st1).
          let st2 = st1\<lparr>suitCounts := (suitCounts st1)[suit := count]\<rparr>;
              st3 = (if 5 \<le> count then st2\<lparr>longSuits := inc8 (longSuits st2)\<rparr> else st2);
              st4 = (if count = 1 then st3\<lparr>singletons := inc8 (singletons st3)\<rparr> else st3);
              st5 = (if count = 0 then st4\<lparr>cuts := inc8 (cuts st4)\<rparr> else st4);
              st6 = (if distr ! 13 \<and> distr ! 12 then st5\<lparr>weddings := inc8 (weddings st5)\<rparr> else st5)
          in Some (st6\<lparr>sequences :=
                 snd (snd (fold (sequence_step distr) [0..<14] (0, False, sequences st6)))\<rparr>))"

definition Deck_AnalyzeSuits :: "deck \<Rightarrow> statistics \<Rightarrow> statistics option" where
  "Deck_AnalyzeSuits d st = fold (\<lambda>suit r. Option.bind r (AnalyzeSuit d suit)) [0..<4] (Some st)"

section \<open>Rule checks\<close>

record play_stats =
  hasSuit :: bool
  hasTrump :: bool
  highestTrumpValue :: nat
  previousTrump :: bool
  maxPreviousTrump :: nat

definition Stats_init :: play_stats where
  "Stats_init = \<lparr>hasSuit = False, hasTrump = False, highestTrumpValue = 0,
                 previousTrump = False, maxPreviousTrump = 0\<rparr>"

definition trick_step :: "card \<Rightarrow> play_stats \<Rightarrow> play_stats" where
  "trick_step c st =
     (if mSuit c = TRUMPS
      then (let st1 = st\<lparr>previousTrump := True\<rparr>
            in if maxPreviousTrump st1 < mValue c then st1\<lparr>maxPreviousTrump := mValue c\<rparr> else st1)
      else st)"

definition hand_step :: "nat \<Rightarrow> card \<Rightarrow> play_stats \<Rightarrow> play_stats" where
  "hand_step suit c st =
     (if mSuit c = TRUMPS
      then (let st1 = st\<lparr>hasTrump := True\<rparr>
            in if highestTrumpValue st1 < mValue c then st1\<lparr>highestTrumpValue := mValue c\<rparr> else st1)
      else if mSuit c = suit then st\<lparr>hasSuit := True\<rparr> else st)"

definition TestPlayTrump :: "card \<Rightarrow> play_stats \<Rightarrow> bool" where
  "TestPlayTrump cd st =
     (if mSuit cd = TRUMPS
      then (if previousTrump st
            then (if maxPreviousTrump st < mValue cd then True
                  else if maxPreviousTrump st < highestTrumpValue st then False
                  else True)
            else True)
      else (if hasTrump st
            then (if highestTrumpValue st = 0 then True else False)
            else True))"

definition Deck_CanPlayCard :: "deck \<Rightarrow> card \<Rightarrow> deck \<Rightarrow> bool" where
  "Deck_CanPlayCard d cd trick =
     (if \<not> Deck_HasCard cd d then False
      else if Deck_Size trick = 0 then True
      else if Card_IsFool cd then True
      else if Card_IsFool (Deck_At 0 trick) \<and> Deck_Size trick = 1 then True
      else
        (let c = (if Card_IsFool (Deck_At 0 trick) then Deck_At 1 trick else Deck_At 0 trick);
             suit = mSuit c;
             st = fold (hand_step suit) (mDeck d) (fold trick_step (mDeck trick) Stats_init)
         in if suit = TRUMPS then TestPlayTrump cd st
            else if mSuit cd = suit then True
            else if hasSuit st then False
            else TestPlayTrump cd st))"

definition Deck_TestHandle :: "deck \<Rightarrow> deck \<Rightarrow> bool" where
  "Deck_TestHandle d handle =
     (let ret1 = (GetHandleType (Deck_Size handle) \<noteq> NO_HANDLE);
          st1 = Deck_AnalyzeTrumps handle Statistics_Reset;
          ret2 = (if Deck_Size handle \<noteq> trumps st1 then False else ret1);
          ret3 = (if list_ex (\<lambda>c. \<not> Deck_HasCard c d) (mDeck handle) then False else ret2);
          st2 = Deck_AnalyzeTrumps d Statistics_Reset
      in if Deck_HasFool handle \<and> Deck_Size handle < trumps st2 then False else ret3)"

definition Deck_TestDiscard :: "deck \<Rightarrow> deck \<Rightarrow> deck \<Rightarrow> nat \<Rightarrow> bool" where
  "Deck_TestDiscard d discard dog numberOfPlayers =
     (if Deck_Size discard = NumberOfDogCards numberOfPlayers
      then list_all (\<lambda>c. (Deck_HasCard c d \<or> Deck_HasCard c dog) \<and>
                         \<not> (mSuit c = TRUMPS \<or> mSuit c \<noteq> TRUMPS \<and> mValue c = 14) \<and>
                         Deck_Count c discard = 1)
             (mDeck discard)
      else False)"

text \<open>
  \<open>Deck::AutoDiscard\<close> appends the dog to the player's deck and collects discardable cards until
  there are enough: the loop stops right after the append that reaches the number.
\<close>

fun auto_discard :: "nat \<Rightarrow> card list \<Rightarrow> deck \<Rightarrow> deck" where
  "auto_discard n [] discard = discard"
| "auto_discard n (c # cs) discard =
     (if mSuit c \<noteq> TRUMPS \<and> mValue c \<noteq> 14
      then (let discard' = Deck_AppendCard c discard
            in if Deck_Size discard' = n then discard' else auto_discard n cs discard')
      else auto_discard n cs discard)"

definition Deck_AutoDiscard :: "deck \<Rightarrow> nat \<Rightarrow> deck \<Rightarrow> deck \<times> deck" where
  "Deck_AutoDiscard dog nbPlayers d =
     (let d' = Deck_Append dog d
      in (auto_discard (NumberOfDogCards nbPlayers) (mDeck d') Deck_empty, d'))"

end
