(* ===== verification/Deck_Facts.thy ===== *)
theory Deck_Facts
  imports Decks
begin

text \<open>
  Facts about decks: the container operations in terms of lists and multisets, the loops of the
  rule checks as quantified statements, the rule of the game for playing a card and the proof
  that the code decides it, discards, handles, the trick leader, and the text form of a deck.
\<close>

section \<open>Container operations\<close>

lemma HasCard_iff [simp]: "Deck_HasCard c d \<longleftrightarrow> c \<in> set (mDeck d)"
  by (auto simp: Deck_HasCard_def list_ex_iff)

lemma Count_fold: "fold (\<lambda>c counter. if c = cd then counter + 1 else counter) xs n = n + count_list xs cd"
  by (induction xs arbitrary: n) auto

lemma Count_eq [simp]: "Deck_Count c d = count_list (mDeck d) c"
  by (simp add: Deck_Count_def Count_fold)

lemma Append_eq [simp]: "Deck_Append other d = d\<lparr>mDeck := mDeck d @ mDeck other\<rparr>"
proof -
  have "fold Deck_AppendCard cs d = d\<lparr>mDeck := mDeck d @ cs\<rparr>" for cs
    by (induction cs arbitrary: d) (simp_all add: Deck_AppendCard_def)
  then show ?thesis by (simp add: Deck_Append_def)
qed

lemma Remove_cards [simp]: "mDeck (snd (Deck_Remove c d)) = removeAll c (mDeck d)"
  by (simp add: Deck_Remove_def removeAll_filter_not_eq) (metis (no_types, lifting))

lemma Remove_owner [simp]: "mOwner (snd (Deck_Remove c d)) = mOwner d"
  by (simp add: Deck_Remove_def)

lemma HasFool_iff: "Deck_HasFool d \<longleftrightarrow> (\<exists>c \<in> set (mDeck d). Card_IsFool c)"
  by (auto simp: Deck_HasFool_def list_ex_iff Card_IsFool_def)

section \<open>Scans as quantifiers\<close>

lemma fold_hand_step:
  "hasTrump (fold (hand_step s) xs st) \<longleftrightarrow> hasTrump st \<or> (\<exists>c \<in> set xs. mSuit c = TRUMPS)"
  "hasSuit (fold (hand_step s) xs st) \<longleftrightarrow>
     hasSuit st \<or> (\<exists>c \<in> set xs. mSuit c \<noteq> TRUMPS \<and> mSuit c = s)"
  "n < highestTrumpValue (fold (hand_step s) xs st) \<longleftrightarrow>
     n < highestTrumpValue st \<or> (\<exists>c \<in> set xs. mSuit c = TRUMPS \<and> n < mValue c)"
  "previousTrump (fold (hand_step s) xs st) = previousTrump st"
  "maxPreviousTrump (fold (hand_step s) xs st) = maxPreviousTrump st"
  by (induction xs arbitrary: st) (auto simp: hand_step_def Let_def)

lemma fold_trick_step:
  "previousTrump (fold trick_step xs st) \<longleftrightarrow> previousTrump st \<or> (\<exists>c \<in> set xs. mSuit c = TRUMPS)"
  "n < maxPreviousTrump (fold trick_step xs st) \<longleftrightarrow>
     n < maxPreviousTrump st \<or> (\<exists>c \<in> set xs. mSuit c = TRUMPS \<and> n < mValue c)"
  "hasTrump (fold trick_step xs st) = hasTrump st"
  "hasSuit (fold trick_step xs st) = hasSuit st"
  "highestTrumpValue (fold trick_step xs st) = highestTrumpValue st"
  by (induction xs arbitrary: st) (auto simp: trick_step_def Let_def)

section \<open>The rule for playing a card\<close>

text \<open>
  The rule of the game, independently of the code: a card of the hand may be played when no suit
  is requested yet, when it is the fool, or when it follows the requested suit; a player who cannot
  follow must trump, and overtrump when possible, unless the fool is the only trump.
\<close>

definition overtrumps :: "card \<Rightarrow> deck \<Rightarrow> bool" where
  "overtrumps c trick \<longleftrightarrow> (\<forall>t \<in> set (mDeck trick). mSuit t = TRUMPS \<longrightarrow> mValue t < mValue c)"

definition may_trump :: "card list \<Rightarrow> card \<Rightarrow> deck \<Rightarrow> bool" where
  "may_trump hand c trick \<longleftrightarrow>
     (if mSuit c = TRUMPS
      then overtrumps c trick \<or> (\<forall>h \<in> set hand. mSuit h = TRUMPS \<longrightarrow> \<not> overtrumps h trick)
      else (\<forall>h \<in> set hand. mSuit h = TRUMPS \<longrightarrow> Card_IsFool h))"

fun requested_suit :: "card list \<Rightarrow> nat option" where
  "requested_suit [] = None"
| "requested_suit [c] = (if Card_IsFool c then None else Some (mSuit c))"
| "requested_suit (c # c' # cs) = Some (mSuit (if Card_IsFool c then c' else c))"

definition legal_play :: "card list \<Rightarrow> card \<Rightarrow> deck \<Rightarrow> bool" where
  "legal_play hand c trick \<longleftrightarrow>
     c \<in> set hand \<and>
     (case requested_suit (mDeck trick) of
        None \<Rightarrow> True
      | Some s \<Rightarrow>
          Card_IsFool c \<or>
          (if s = TRUMPS then may_trump hand c trick
           else mSuit c = s \<or> (\<forall>h \<in> set hand. mSuit h \<noteq> s) \<and> may_trump hand c trick))"

lemma TestPlayTrump_iff:
  assumes "st = fold (hand_step s) hand (fold trick_step (mDeck trick) Stats_init)"
    and "c \<in> set hand"
  shows "TestPlayTrump c st \<longleftrightarrow> may_trump hand c trick"
proof (cases "mSuit c = TRUMPS")
  case True
  define m where "m = maxPreviousTrump st"
  have prev: "previousTrump st \<longleftrightarrow> (\<exists>t \<in> set (mDeck trick). mSuit t = TRUMPS)"
    by (simp add: assms fold_hand_step fold_trick_step Stats_init_def)
  have less_m: "n < m \<longleftrightarrow> (\<exists>t \<in> set (mDeck trick). mSuit t = TRUMPS \<and> n < mValue t)" for n
    by (simp add: m_def assms fold_hand_step fold_trick_step Stats_init_def)
  have high: "n < highestTrumpValue st \<longleftrightarrow> (\<exists>h \<in> set hand. mSuit h = TRUMPS \<and> n < mValue h)" for n
    by (simp add: assms fold_hand_step fold_trick_step Stats_init_def)
  have over: "overtrumps h trick \<longleftrightarrow> \<not> previousTrump st \<or> m < mValue h" for h
  proof
    assume over: "overtrumps h trick"
    have "m < mValue h" if t: "t \<in> set (mDeck trick)" "mSuit t = TRUMPS" for t
    proof (cases m)
      case 0
      with over t show ?thesis by (auto simp: overtrumps_def)
    next
      case (Suc k)
      then obtain u where "u \<in> set (mDeck trick)" "mSuit u = TRUMPS" "k < mValue u"
        using less_m [of k] by auto
      with over have "mValue u < mValue h" by (simp add: overtrumps_def)
      with \<open>k < mValue u\<close> Suc show ?thesis by simp
    qed
    with prev show "\<not> previousTrump st \<or> m < mValue h" by blast
  next
    assume "\<not> previousTrump st \<or> m < mValue h"
    with less_m [of m] prev show "overtrumps h trick"
      by (auto simp: overtrumps_def)
  qed
  from True assms(2) show ?thesis
    by (auto simp: TestPlayTrump_def may_trump_def over m_def [symmetric] high not_less)
next
  case False
  have trump: "hasTrump st \<longleftrightarrow> (\<exists>h \<in> set hand. mSuit h = TRUMPS)"
    by (simp add: assms fold_hand_step fold_trick_step Stats_init_def)
  have "0 < highestTrumpValue st \<longleftrightarrow> (\<exists>h \<in> set hand. mSuit h = TRUMPS \<and> 0 < mValue h)"
    by (simp add: assms fold_hand_step fold_trick_step Stats_init_def)
  then have "highestTrumpValue st = 0 \<longleftrightarrow> (\<forall>h \<in> set hand. mSuit h = TRUMPS \<longrightarrow> mValue h = 0)"
    by auto
  with False trump show ?thesis
    by (auto simp: TestPlayTrump_def may_trump_def Card_IsFool_def)
qed

lemma requested_suit_cases:
  "mDeck trick \<noteq> [] \<Longrightarrow>
   requested_suit (mDeck trick) =
     (if Card_IsFool (Deck_At 0 trick)
      then (if Deck_Size trick = 1 then None else Some (mSuit (Deck_At 1 trick)))
      else Some (mSuit (Deck_At 0 trick)))"
  by (cases "mDeck trick" rule: requested_suit.cases) (auto simp: Deck_At_def Deck_Size_def)

lemma CanPlayCard_legal:
  "Deck_CanPlayCard d c trick \<longleftrightarrow> legal_play (mDeck d) c trick"
proof (cases "c \<in> set (mDeck d) \<and> mDeck trick \<noteq> [] \<and> \<not> Card_IsFool c")
  case True
  then have size: "Deck_Size trick \<noteq> 0" by (simp add: Deck_Size_def)
  show ?thesis
  proof (cases "requested_suit (mDeck trick)")
    case None
    with True size show ?thesis
      by (auto simp: Deck_CanPlayCard_def legal_play_def requested_suit_cases split: if_splits)
  next
    case (Some s)
    define st where "st = fold (hand_step s) (mDeck d) (fold trick_step (mDeck trick) Stats_init)"
    have has: "hasSuit st \<longleftrightarrow> (\<exists>h \<in> set (mDeck d). mSuit h \<noteq> TRUMPS \<and> mSuit h = s)"
      by (simp add: st_def fold_hand_step fold_trick_step Stats_init_def)
    have "Deck_CanPlayCard d c trick \<longleftrightarrow>
        (if s = TRUMPS then TestPlayTrump c st else if mSuit c = s then True
         else if hasSuit st then False else TestPlayTrump c st)"
      using True size Some
      by (auto simp: Deck_CanPlayCard_def requested_suit_cases st_def Let_def split: if_splits)
    also have "\<dots> \<longleftrightarrow> legal_play (mDeck d) c trick"
      using True Some has by (auto simp: legal_play_def TestPlayTrump_iff [OF st_def])
    finally show ?thesis .
  qed
next
  case False
  then show ?thesis
    by (auto simp: Deck_CanPlayCard_def legal_play_def Deck_Size_def split: option.splits)
qed

lemma may_trump_exists:
  assumes "hand \<noteq> []"
  shows "\<exists>c \<in> set hand. Card_IsFool c \<or> may_trump hand c trick"
proof (cases "\<exists>h \<in> set hand. mSuit h = TRUMPS \<and> \<not> Card_IsFool h")
  case True
  show ?thesis
  proof (cases "\<exists>h \<in> set hand. mSuit h = TRUMPS \<and> overtrumps h trick")
    case True
    then show ?thesis by (auto simp: may_trump_def)
  next
    case False
    with True show ?thesis by (auto simp: may_trump_def)
  qed
next
  case False
  show ?thesis
  proof (cases "\<exists>h \<in> set hand. Card_IsFool h")
    case True
    then show ?thesis by blast
  next
    case no_fool: False
    obtain c where "c \<in> set hand" using assms by (cases hand) auto
    with False no_fool show ?thesis by (auto simp: may_trump_def)
  qed
qed

lemma playable_exists:
  assumes "mDeck d \<noteq> []"
  shows "\<exists>c \<in> set (mDeck d). Deck_CanPlayCard d c trick"
proof (cases "requested_suit (mDeck trick)")
  case None
  with assms show ?thesis
    by (cases "mDeck d") (auto simp: CanPlayCard_legal legal_play_def)
next
  case (Some s)
  then show ?thesis
  proof (cases "s \<noteq> TRUMPS \<and> (\<exists>h \<in> set (mDeck d). mSuit h = s)")
    case True
    with Some show ?thesis by (auto simp: CanPlayCard_legal legal_play_def)
  next
    case False
    with may_trump_exists [OF assms, of trick] Some show ?thesis
      by (auto simp: CanPlayCard_legal legal_play_def) 
  qed
qed

section \<open>Discards and handles\<close>

lemma TestDiscard_iff:
  "Deck_TestDiscard d discard dog n \<longleftrightarrow>
     length (mDeck discard) = NumberOfDogCards n \<and> distinct (mDeck discard) \<and>
     (\<forall>c \<in> set (mDeck discard).
        (c \<in> set (mDeck d) \<or> c \<in> set (mDeck dog)) \<and> mSuit c \<noteq> TRUMPS \<and> mValue c \<noteq> KING)"
  by (auto simp: Deck_TestDiscard_def Deck_Size_def list_all_iff distinct_iff_count_list KING_def)

section \<open>Removing the cards of another deck\<close>

lemma RemoveDuplicates_fold:
  "mDeck (snd (fold RemoveDuplicates_step cs (n, d))) = filter (\<lambda>c. c \<notin> set cs) (mDeck d)"
proof (induction cs arbitrary: n d)
  case Nil
  then show ?case by simp
next
  case (Cons a cs)
  obtain n' d' where step: "RemoveDuplicates_step a (n, d) = (n', d')"
    by (cases "RemoveDuplicates_step a (n, d)") auto
  have cards: "mDeck d' = filter (\<lambda>c. c \<noteq> a) (mDeck d)"
  proof (cases "a \<in> set (mDeck d)")
    case True
    with step show ?thesis by (auto simp: RemoveDuplicates_step_def Deck_Remove_def)
  next
    case False
    then have "filter (\<lambda>c. c \<noteq> a) (mDeck d) = mDeck d" by (intro filter_True) auto
    with False step show ?thesis by (simp add: RemoveDuplicates_step_def)
  qed
  have "filter (\<lambda>c. c \<notin> set cs) (filter (\<lambda>c. c \<noteq> a) (mDeck d)) = filter (\<lambda>c. c \<notin> set (a # cs)) (mDeck d)"
    unfolding filter_filter by (rule filter_cong) auto
  with step cards show ?case by (simp only: fold_simps comp_apply Cons.IH)
qed

lemma RemoveDuplicates_cards [simp]:
  "mDeck (snd (Deck_RemoveDuplicates other d)) = filter (\<lambda>c. c \<notin> set (mDeck other)) (mDeck d)"
  by (simp add: Deck_RemoveDuplicates_def RemoveDuplicates_fold)

lemma distinct_filter_split:
  assumes "distinct xs" "distinct ys" "set ys \<subseteq> set xs"
  shows "mset (filter (\<lambda>c. c \<notin> set ys) xs) + mset ys = mset xs"
proof -
  have "mset ys = mset (filter (\<lambda>c. c \<in> set ys) xs)"
    using assms by (intro set_eq_iff_mset_eq_distinct [THEN iffD1]) auto
  moreover have "mset xs = filter_mset (\<lambda>c. c \<notin> set ys) (mset xs) + filter_mset (\<lambda>c. \<not> c \<notin> set ys) (mset xs)"
    by (rule multiset_partition)
  ultimately show ?thesis by simp
qed

section \<open>The text form of a deck\<close>

lemma split_semi_nonempty [simp]: "split_semi s \<noteq> []"
  by (induction s rule: split_semi.induct) (auto split: list.splits)

lemma split_semi_word: "CHR '';'' \<notin> set w \<Longrightarrow> split_semi w = [w]"
  by (induction w) auto

lemma split_semi_append:
  "CHR '';'' \<notin> set w \<Longrightarrow> split_semi (w @ CHR '';'' # s) = w # split_semi s"
  by (induction w) auto

lemma split_join_semi:
  "ws \<noteq> [] \<Longrightarrow> \<forall>w \<in> set ws. CHR '';'' \<notin> set w \<Longrightarrow> split_semi (join_semi ws) = ws"
  by (induction ws rule: join_semi.induct) (auto simp: split_semi_word split_semi_append)

lemma card_names_plain: "list_all (\<lambda>c. CHR '';'' \<notin> set (Card_ToString c)) tarot_cards"
  by code_simp

lemma SetCards_fold:
  "mDeck (snd (fold (\<lambda>cardName (count, d').
             let card = Card_FromName cardName
             in (inc8 count, if Card_IsValid card then Deck_AppendCard card d' else d')) ws (n, d)))
   = mDeck d @ filter Card_IsValid (map Card_FromName ws)"
  by (induction ws arbitrary: n d) (auto simp: Let_def Deck_AppendCard_def)

lemma SetCards_cards:
  "mDeck (snd (Deck_SetCards s d)) = filter Card_IsValid (map Card_FromName (split_semi s))"
  by (simp add: Deck_SetCards_def SetCards_fold Deck_Clear_def)

lemma SetCards_valid: "c \<in> set (mDeck (snd (Deck_SetCards s d))) \<Longrightarrow> Card_IsValid c"
  by (auto simp: SetCards_cards)

lemma FromString_ToString:
  assumes "\<forall>c \<in> set (mDeck d). Card_IsValid c"
  shows "mDeck (Deck_FromString (Deck_ToString d)) = mDeck d"
proof (cases "mDeck d = []")
  case True
  then show ?thesis
    by (simp add: Deck_FromString_def SetCards_cards Deck_ToString_def Card_FromName_def Card_default_def
        Card_IsValid_def suit_defs)
next
  case False
  let ?ws = "map Card_ToString (mDeck d)"
  have "split_semi (join_semi ?ws) = ?ws"
    using False assms all_valid_cards [OF card_names_plain] by (intro split_join_semi) auto
  moreover have "map (\<lambda>c. Card_FromName (Card_ToString c)) (mDeck d) = mDeck d"
    using assms all_valid_cards [OF name_roundtrip_all] by (intro map_idI) auto
  ultimately show ?thesis
    using assms by (simp add: Deck_FromString_def SetCards_cards Deck_ToString_def comp_def)
qed

section \<open>The leader of a trick\<close>

definition is_trump :: "card \<Rightarrow> bool" where
  "is_trump c \<longleftrightarrow> mSuit c = TRUMPS \<and> 0 < mValue c"

definition leads :: "card list \<Rightarrow> card \<Rightarrow> bool" where
  "leads trick c \<longleftrightarrow> c \<in> set trick \<and>
     (if \<exists>x \<in> set trick. is_trump x
      then is_trump c \<and> (\<forall>x \<in> set trick. is_trump x \<longrightarrow> mValue x \<le> mValue c)
      else mSuit c = mSuit (hd (filter (\<lambda>x. mSuit x \<noteq> TRUMPS) trick)) \<and> mSuit c \<noteq> TRUMPS \<and>
           (\<forall>x \<in> set trick. mSuit x = mSuit c \<longrightarrow> mValue x \<le> mValue c))"

lemma highest_trump_fold:
  "let r = fold (\<lambda>c (cd, value). if mSuit c = TRUMPS \<and> value < mValue c then (c, mValue c)
                                 else (cd, value)) xs (c0, v0)
   in if \<exists>x \<in> set xs. mSuit x = TRUMPS \<and> v0 < mValue x
      then fst r \<in> set xs \<and> mSuit (fst r) = TRUMPS \<and> snd r = mValue (fst r) \<and> v0 < snd r \<and>
           (\<forall>x \<in> set xs. mSuit x = TRUMPS \<longrightarrow> mValue x \<le> snd r)
      else r = (c0, v0)"
proof (induction xs arbitrary: c0 v0)
  case Nil
  then show ?case by simp
next
  case (Cons a xs)
  show ?case
  proof (cases "mSuit a = TRUMPS \<and> v0 < mValue a")
    case True
    with Cons.IH [of a "mValue a"] show ?thesis
      by (auto simp: Let_def split: if_splits dest: less_trans)
  next
    case False
    with Cons.IH [of c0 v0] show ?thesis
      by (auto simp: Let_def split: if_splits)
  qed
qed

lemma HighestTrump_found:
  assumes "\<exists>x \<in> set (mDeck d). is_trump x"
  shows "Deck_HighestTrump d \<in> set (mDeck d)" "is_trump (Deck_HighestTrump d)"
    "\<forall>x \<in> set (mDeck d). is_trump x \<longrightarrow> mValue x \<le> mValue (Deck_HighestTrump d)"
  using highest_trump_fold [of "mDeck d" Card_default 0] assms
  by (auto simp: Deck_HighestTrump_def Let_def is_trump_def)

lemma HighestTrump_none:
  assumes "\<not> (\<exists>x \<in> set (mDeck d). is_trump x)"
  shows "Deck_HighestTrump d = Card_default"
proof -
  from assms have "\<not> (\<exists>x \<in> set (mDeck d). mSuit x = TRUMPS \<and> 0 < mValue x)"
    by (simp add: is_trump_def)
  with highest_trump_fold [of "mDeck d" Card_default 0] show ?thesis
    by (simp add: Deck_HighestTrump_def Let_def)
qed

lemma lead_fold_led:
  assumes "ls_hasLead s" "ls_suit s \<noteq> TRUMPS"
  shows "let r = fold lead_step xs s
   in (ls_card r = ls_card s \<and> ls_value r = ls_value s \<or>
       ls_card r \<in> set xs \<and> mSuit (ls_card r) = ls_suit s \<and> ls_value r = mValue (ls_card r)) \<and>
      ls_value s \<le> ls_value r \<and>
      (\<forall>x \<in> set xs. mSuit x = ls_suit s \<longrightarrow> mValue x \<le> ls_value r)"
  using assms
proof (induction xs arbitrary: s)
  case Nil
  then show ?case by simp
next
  case (Cons a xs)
  let ?s = "lead_step a s"
  have s: "ls_hasLead ?s" "ls_suit ?s = ls_suit s"
    "?s = s \<and> (mSuit a = ls_suit s \<longrightarrow> mValue a \<le> ls_value s) \<or>
     mSuit a = ls_suit s \<and> ls_value s < mValue a \<and> ls_card ?s = a \<and> ls_value ?s = mValue a"
    using Cons.prems by (auto simp: lead_step_def)
  with Cons.IH [of ?s] Cons.prems show ?case
    by (auto simp: Let_def)
qed

lemma lead_fold_unled:
  assumes "\<not> ls_hasLead s" "ls_value s = 0" "\<forall>x \<in> set xs. mSuit x \<noteq> TRUMPS \<longrightarrow> 0 < mValue x"
    and "\<exists>x \<in> set xs. mSuit x \<noteq> TRUMPS"
  shows "let r = fold lead_step xs s; s0 = mSuit (hd (filter (\<lambda>x. mSuit x \<noteq> TRUMPS) xs))
   in ls_card r \<in> set xs \<and> mSuit (ls_card r) = s0 \<and> s0 \<noteq> TRUMPS \<and>
      (\<forall>x \<in> set xs. mSuit x = s0 \<longrightarrow> mValue x \<le> mValue (ls_card r))"
  using assms
proof (induction xs arbitrary: s)
  case Nil
  then show ?case by simp
next
  case (Cons a xs)
  show ?case
  proof (cases "mSuit a = TRUMPS")
    case True
    then have step: "lead_step a s = s" by (simp add: lead_step_def)
    have "\<forall>x \<in> set xs. mSuit x \<noteq> TRUMPS \<longrightarrow> 0 < mValue x" "\<exists>x \<in> set xs. mSuit x \<noteq> TRUMPS"
      using Cons.prems True by auto
    from Cons.IH [OF Cons.prems(1,2) this] True step show ?thesis
      by (auto simp: Let_def)
  next
    case False
    with Cons.prems have step: "lead_step a s =
      \<lparr>ls_card = a, ls_value = mValue a, ls_suit = mSuit a, ls_hasLead = True\<rparr>"
      by (simp add: lead_step_def)
    from lead_fold_led [of "lead_step a s" xs] False show ?thesis
      by (auto simp: step Let_def)
  qed
qed

lemma HighestSuit_found:
  assumes "\<forall>x \<in> set (mDeck d). Card_IsValid x" "\<exists>x \<in> set (mDeck d). mSuit x \<noteq> TRUMPS"
  shows "Deck_HighestSuit d \<in> set (mDeck d)"
    "mSuit (Deck_HighestSuit d) = mSuit (hd (filter (\<lambda>x. mSuit x \<noteq> TRUMPS) (mDeck d)))"
    "mSuit (Deck_HighestSuit d) \<noteq> TRUMPS"
    "\<forall>x \<in> set (mDeck d). mSuit x = mSuit (Deck_HighestSuit d) \<longrightarrow> mValue x \<le> mValue (Deck_HighestSuit d)"
proof -
  have "\<forall>x \<in> set (mDeck d). mSuit x \<noteq> TRUMPS \<longrightarrow> 0 < mValue x"
    using assms(1) by (auto simp: Card_IsValid_def split: if_splits)
  from lead_fold_unled [OF _ _ this assms(2),
      of "\<lparr>ls_card = Card_default, ls_value = 0, ls_suit = 0, ls_hasLead = False\<rparr>"]
  show "Deck_HighestSuit d \<in> set (mDeck d)"
    "mSuit (Deck_HighestSuit d) = mSuit (hd (filter (\<lambda>x. mSuit x \<noteq> TRUMPS) (mDeck d)))"
    "mSuit (Deck_HighestSuit d) \<noteq> TRUMPS"
    "\<forall>x \<in> set (mDeck d). mSuit x = mSuit (Deck_HighestSuit d) \<longrightarrow> mValue x \<le> mValue (Deck_HighestSuit d)"
    by (auto simp: Deck_HighestSuit_def Let_def)
qed

lemma Card_default_invalid [simp]: "\<not> Card_IsValid Card_default"
  by (simp add: Card_IsValid_def Card_default_def suit_defs)

text \<open>The card \<open>TarotContext::SetTrick\<close> takes as the leader of a trick.\<close>

definition trick_leader :: "deck \<Rightarrow> card" where
  "trick_leader trick =
     (let cLeader = Deck_HighestTrump trick
      in if \<not> Card_IsValid cLeader then Deck_HighestSuit trick else cLeader)"

lemma trick_leader_leads:
  assumes valid: "\<forall>x \<in> set (mDeck trick). Card_IsValid x"
    and "\<exists>x \<in> set (mDeck trick). \<not> Card_IsFool x"
  shows "leads (mDeck trick) (trick_leader trick)"
proof (cases "\<exists>x \<in> set (mDeck trick). is_trump x")
  case True
  with HighestTrump_found [OF True] valid show ?thesis
    by (auto simp: trick_leader_def leads_def Let_def)
next
  case False
  with assms(2) have "\<exists>x \<in> set (mDeck trick). mSuit x \<noteq> TRUMPS"
    by (auto simp: is_trump_def Card_IsFool_def)
  from HighestSuit_found [OF valid this] False show ?thesis
    by (auto simp: trick_leader_def leads_def HighestTrump_none Let_def)
qed

lemma leads_in: "leads cs c \<Longrightarrow> c \<in> set cs"
  by (simp add: leads_def)

section \<open>Statistics\<close>

lemma AnalyzeTrumps_step_points [simp]:
  "points (AnalyzeTrumps_step c st) = points st + Card_GetPoints c"
  by (simp add: AnalyzeTrumps_step_def Let_def)

lemma AnalyzeTrumps_points:
  "points (Deck_AnalyzeTrumps d st) = points st + sum_list (map Card_GetPoints (mDeck d))"
proof -
  have "points (fold AnalyzeTrumps_step cs st) = points st + sum_list (map Card_GetPoints cs)" for cs st
    by (induction cs arbitrary: st) auto
  then show ?thesis by (simp add: Deck_AnalyzeTrumps_def)
qed

definition is_oudler :: "card \<Rightarrow> bool" where
  "is_oudler c \<longleftrightarrow> mSuit c = TRUMPS \<and> mValue c \<in> {0, 1, 21}"

definition count_if :: "('a \<Rightarrow> bool) \<Rightarrow> 'a list \<Rightarrow> nat" where
  "count_if P xs = length (filter P xs)"

lemma AnalyzeTrumps_step_oudlers [simp]:
  "oudlers (AnalyzeTrumps_step c st) = (if is_oudler c then inc8 (oudlers st) else oudlers st)"
  by (auto simp: AnalyzeTrumps_step_def Let_def is_oudler_def)

lemma AnalyzeTrumps_step_trumps [simp]:
  "trumps (AnalyzeTrumps_step c st) = (if mSuit c = TRUMPS then inc8 (trumps st) else trumps st)"
  by (auto simp: AnalyzeTrumps_step_def Let_def)

lemma AnalyzeTrumps_oudlers:
  assumes "oudlers st < 256"
  shows "oudlers (Deck_AnalyzeTrumps d st) = (oudlers st + count_if is_oudler (mDeck d)) mod 256"
proof -
  have "oudlers (fold AnalyzeTrumps_step cs s) = (oudlers s + count_if is_oudler cs) mod 256"
    if "oudlers s < 256" for cs s
    using that by (induction cs arbitrary: s) (auto simp: count_if_def inc8_def mod_simps)
  from this [of "st\<lparr>nbCards := Deck_Size d mod 256\<rparr>"] assms show ?thesis
    by (simp add: Deck_AnalyzeTrumps_def)
qed

lemma AnalyzeTrumps_trumps:
  assumes "trumps st < 256"
  shows "trumps (Deck_AnalyzeTrumps d st) = (trumps st + count_if (\<lambda>c. mSuit c = TRUMPS) (mDeck d)) mod 256"
proof -
  have "trumps (fold AnalyzeTrumps_step cs s) = (trumps s + count_if (\<lambda>c. mSuit c = TRUMPS) cs) mod 256"
    if "trumps s < 256" for cs s
    using that by (induction cs arbitrary: s) (auto simp: count_if_def inc8_def mod_simps)
  from this [of "st\<lparr>nbCards := Deck_Size d mod 256\<rparr>"] assms show ?thesis
    by (simp add: Deck_AnalyzeTrumps_def)
qed

lemma full_deck_points: "sum_list (map Card_GetPoints tarot_cards) = 91"
  by code_simp

lemma full_deck_oudlers: "count_if is_oudler tarot_cards = 3"
  by code_simp

lemma full_deck_trumps: "count_if (\<lambda>c. mSuit c = TRUMPS) tarot_cards = 22"
  by code_simp

end
