(* ===== verification/Scores.thy ===== *)
theory Scores
  imports Deck_Facts
begin

text \<open>
  The score of one deal and of a tournament (Score.h, Score.cpp).

  The score of a deal is computed by the code in \<open>int32_t\<close>, passing through \<open>uint32_t\<close> where it
  multiplies by the contract's factor; the model writes these conversions out, and every signed sum,
  difference, product and absolute value goes through \<open>i32\<close>, which is \<open>None\<close> when the result does not
  fit (signed overflow is undefined). The split of the attack's points between the taker and the
  called partner goes through a \<open>float\<close>; the magnitudes that occur (below \<open>2 ^ 18\<close>) leave at least
  \<open>1/15\<close> between the exact value and the nearest integer, far more than the rounding error, so the
  truncation of the exact rational gives the same integer. An index outside the score table is an
  out-of-bounds access, hence \<open>None\<close> too.
\<close>

section \<open>Points of a deal\<close>

record deal_points =
  pointsAttack :: int
  cardsPointsAttack :: rat
  oudlersAttack :: int
  handlePoints :: int
  slamDone :: bool
  littleEndianOwner :: team

text \<open>\<open>Points::Clear\<close> does not touch \<open>cardsPointsAttack\<close>.\<close>

definition Points_Clear :: "deal_points \<Rightarrow> deal_points" where
  "Points_Clear p =
     p\<lparr>pointsAttack := 0, oudlersAttack := 0, handlePoints := 0, slamDone := False,
       littleEndianOwner := NO_TEAM\<rparr>"

definition points_to_do :: "deal_points \<Rightarrow> int" where
  "points_to_do p = PointsToDo (to_u8 (oudlersAttack p))"

definition Points_Winner :: "deal_points \<Rightarrow> team" where
  "Points_Winner p = (if points_to_do p \<le> pointsAttack p then ATTACK else DEFENSE)"

text \<open>The result of a signed operation of 32 bits.\<close>

definition i32 :: "int \<Rightarrow> int option" where
  "i32 x = (if - (2 ^ 31) \<le> x \<and> x < 2 ^ 31 then Some x else None)"

definition Points_Difference :: "deal_points \<Rightarrow> int option" where
  "Points_Difference p = i32 (pointsAttack p - points_to_do p)"

definition GetSlamPoints :: "bid \<Rightarrow> deal_points \<Rightarrow> int" where
  "GetSlamPoints b p =
     (if slamDone p then
        (if Points_Winner p = ATTACK then (if slam b then 400 else 200) else 200)
      else if slam b then (if Points_Winner p = ATTACK then - 200 else 200)
      else 0)"

definition GetLittleEndianPoints :: "deal_points \<Rightarrow> int" where
  "GetLittleEndianPoints p =
     (if littleEndianOwner p = ATTACK then (if Points_Winner p = ATTACK then 10 else - 10)
      else if littleEndianOwner p = DEFENSE then (if Points_Winner p = ATTACK then - 10 else 10)
      else 0)"

definition base_score :: "bid \<Rightarrow> deal_points \<Rightarrow> int option" where
  "base_score b p =
     Option.bind (Points_Difference p) (\<lambda>difference.
     Option.bind (i32 \<bar>difference\<bar>) (\<lambda>distance.
     Option.bind (i32 (25 + distance)) (\<lambda>base.
     Option.bind (i32 (base + GetLittleEndianPoints p)) (\<lambda>stake.
       Some (to_i32 (to_u32 (stake * GetMultiplier (contract b) + handlePoints p + GetSlamPoints b p)))))))"

definition GetPoints :: "team \<Rightarrow> bid \<Rightarrow> nat \<Rightarrow> deal_points \<Rightarrow> int option" where
  "GetPoints team b nbPlayers p =
     Option.bind (base_score b p) (\<lambda>score.
     if team = ATTACK then
        (let sign = (if Points_Winner p = DEFENSE then - 1 else 1);
             multiplier = int nbPlayers - 1;
             multiplier' = (if Bid_HasPartner b then multiplier - 1 else multiplier)
         in Option.bind (i32 (score * sign)) (\<lambda>signed. i32 (signed * multiplier')))
     else
        (let sign = (if Points_Winner p = ATTACK then - 1 else 1)
         in Option.bind (i32 (score * sign)) (\<lambda>signed. i32 (signed * 1))))"

section \<open>Scores of a tournament\<close>

record entry =
  entryPoints :: deal_points
  entryBid :: bid
  entryPlayers :: nat

record score =
  dealCounter :: nat
  scores :: "int list list"
  mNumberOfTurns :: nat
  mHistory :: "entry list"

definition DEFAULT_NUMBER_OF_TURNS :: nat where "DEFAULT_NUMBER_OF_TURNS = 5"
definition MAX_NUMBER_OF_TURNS :: nat where "MAX_NUMBER_OF_TURNS = 40"

definition Score_NewGame :: "nat \<Rightarrow> score" where
  "Score_NewGame numberOfTurns =
     \<lparr>dealCounter = 0, scores = replicate MAX_NUMBER_OF_TURNS (replicate 5 0),
      mNumberOfTurns = numberOfTurns, mHistory = []\<rparr>"

definition Score_new :: score where
  "Score_new = Score_NewGame DEFAULT_NUMBER_OF_TURNS"

definition Score_NewDeal :: "score \<Rightarrow> score" where
  "Score_NewDeal s = (if mNumberOfTurns s \<le> dealCounter s then s\<lparr>dealCounter := 0\<rparr> else s)"

definition trunc_rat :: "rat \<Rightarrow> int" where
  "trunc_rat x = (if x < 0 then \<lceil>x\<rceil> else \<lfloor>x\<rfloor>)"

text \<open>The points of the taker and of the partner.\<close>

definition split_points :: "bid \<Rightarrow> nat \<Rightarrow> int \<Rightarrow> int \<times> int" where
  "split_points b numberOfPlayers attackPoints =
     (if numberOfPlayers = 5 \<and> Bid_HasPartner b then
        (let deuxTiers = of_int attackPoints * 2 / 3 + 2 / 5;
             takerPoints = trunc_rat deuxTiers
         in (takerPoints, attackPoints - takerPoints))
      else (attackPoints, 0))"

text \<open>The points of the taker, the partner and each defender.\<close>

definition deal_shares :: "deal_points \<Rightarrow> bid \<Rightarrow> nat \<Rightarrow> (int \<times> int \<times> int) option" where
  "deal_shares p b numberOfPlayers =
     Option.bind (GetPoints ATTACK b numberOfPlayers p) (\<lambda>attackPoints.
     Option.bind (GetPoints DEFENSE b numberOfPlayers p) (\<lambda>defensePoints.
       let (takerPoints, partnerPoints) = split_points b numberOfPlayers attackPoints
       in Some (takerPoints, partnerPoints, defensePoints)))"

text \<open>The points \<open>Score::AddPoints\<close> writes for the player at place \<open>i\<close>.\<close>

definition player_points :: "int \<times> int \<times> int \<Rightarrow> bid \<Rightarrow> nat \<Rightarrow> nat \<Rightarrow> int" where
  "player_points shares b numberOfPlayers i =
     (let (takerPoints, partnerPoints, defensePoints) = shares
      in if numberOfPlayers = 5 then
           (if Place_of_u32 (int i) = taker b then takerPoints
            else if Place_of_u32 (int i) = partner b \<and> Bid_HasPartner b then partnerPoints
            else defensePoints)
         else (if Place_of_u32 (int i) = taker b then takerPoints else defensePoints))"

definition AddPoints :: "deal_points \<Rightarrow> bid \<Rightarrow> nat \<Rightarrow> score \<Rightarrow> (bool \<times> score) option" where
  "AddPoints p b numberOfPlayers s =
     (let s1 = s\<lparr>mHistory := mHistory s @
                 [\<lparr>entryPoints = p, entryBid = b, entryPlayers = numberOfPlayers\<rparr>]\<rparr>
      in Option.bind (deal_shares p b numberOfPlayers) (\<lambda>shares.
         Option.bind
           (fold (\<lambda>i r. Option.bind r (\<lambda>tbl.
                    Option.bind (arr_get tbl (dealCounter s)) (\<lambda>row.
                    Option.bind (arr_set row i (player_points shares b numberOfPlayers i)) (\<lambda>row'.
                      arr_set tbl (dealCounter s) row'))))
              [0..<numberOfPlayers] (Some (scores s1)))
           (\<lambda>tbl.
              let s2 = s1\<lparr>scores := tbl, dealCounter := dealCounter s + 1\<rparr>
              in Some (dealCounter s2 < mNumberOfTurns s2, s2))))"

definition GetTotalPoints :: "place \<Rightarrow> score \<Rightarrow> int option" where
  "GetTotalPoints p s =
     fold (\<lambda>i r. Option.bind r (\<lambda>total.
             Option.bind (arr_get (scores s) i) (\<lambda>row.
             Option.bind (arr_get row (Place_Value p)) (\<lambda>v. i32 (total + v)))))
       [0..<dealCounter s] (Some 0)"

text \<open>A \<open>std::map\<close> is a list of pairs with increasing keys.\<close>

fun smap_put :: "'k :: linorder \<Rightarrow> 'v \<Rightarrow> ('k \<times> 'v) list \<Rightarrow> ('k \<times> 'v) list" where
  "smap_put k v [] = [(k, v)]"
| "smap_put k v ((k', v') # m) =
     (if k < k' then (k, v) # (k', v') # m
      else if k = k' then (k, v) # m
      else (k', v') # smap_put k v m)"

definition GetPodium :: "score \<Rightarrow> (int \<times> place) list option" where
  "GetPodium s =
     (if 0 < dealCounter s then
        Option.bind (arr_get (scores s) (dealCounter s - 1)) (\<lambda>row.
          fold (\<lambda>i r. Option.bind r (\<lambda>podium.
                  Option.bind (arr_get row i) (\<lambda>v. Some (smap_put v (Place_of_u32 (int i)) podium))))
            [0..<5] (Some []))
      else Some [])"

text \<open>Reading the last entry of an empty map is undefined.\<close>

definition GetWinner :: "score \<Rightarrow> place option" where
  "GetWinner s = Option.bind (GetPodium s) (\<lambda>m. if m = [] then None else Some (snd (last m)))"

section \<open>Lemmas\<close>

lemma Points_Winner_cases: "Points_Winner p = ATTACK \<or> Points_Winner p = DEFENSE"
  by (simp add: Points_Winner_def)

lemma i32_Some [simp]: "\<bar>x\<bar> < 2 ^ 31 \<Longrightarrow> i32 x = Some x"
  by (auto simp: i32_def)

lemma split_points_sum: "fst (split_points b n a) + snd (split_points b n a) = a"
  by (simp add: split_points_def Let_def)

lemma Place_of_index [simp]: "i < 5 \<Longrightarrow> Place_of_u32 (int i) = p \<longleftrightarrow> i = Place_Value p"
proof -
  assume "i < 5"
  then have "Place_of_u32 (int i) = Place_of i" "Place_Value (Place_of i) = i"
    by (simp_all add: Place_of_u32_def)
  then show ?thesis by (metis Place_of_Value)
qed

lemma upt_players: "[0..<3] = [0, 1, 2]" "[0..<4] = [0, 1, 2, 3]" "[0..<5] = [0, 1, 2, 3, 4 :: nat]"
  by (simp_all add: upt_rec)

definition valid_deal :: "bid \<Rightarrow> nat \<Rightarrow> bool" where
  "valid_deal b n \<longleftrightarrow>
     n \<in> {3, 4, 5} \<and> Place_Value (taker b) < n \<and>
     (Bid_HasPartner b \<longrightarrow> n = 5)"

section \<open>The account of the rules\<close>

text \<open>Points of a deal within the range of the game: no operation loses anything.\<close>

definition sane_points :: "deal_points \<Rightarrow> bool" where
  "sane_points p \<longleftrightarrow> 0 \<le> pointsAttack p \<and> pointsAttack p \<le> 92 \<and>
     0 \<le> handlePoints p \<and> handlePoints p \<le> 80"

text \<open>
  What each defender owes the attack by the rules, written down without the code's helpers: the
  attack wins with 56, 51, 41 or 36 points according to its oudlers; 25 and the margin count times
  the factor of the contract and, with the handles, for the winner; the trick that holds the Petit at
  the end counts 10 times the factor for the side that won it; a slam counts for the side that made
  it, 400 when the attack had announced it, and an announced slam that fails costs the attack 200.
\<close>

definition points_needed :: "int \<Rightarrow> int" where
  "points_needed k = (if k \<le> 0 then 56 else if k = 1 then 51 else if k = 2 then 41 else 36)"

definition attack_wins :: "deal_points \<Rightarrow> bool" where
  "attack_wins p \<longleftrightarrow> points_needed (oudlersAttack p) \<le> pointsAttack p"

fun contract_factor :: "contract \<Rightarrow> int" where
  "contract_factor TAKE = 1"
| "contract_factor GUARD = 2"
| "contract_factor GUARD_WITHOUT = 4"
| "contract_factor GUARD_AGAINST = 6"
| "contract_factor _ = 0"

definition petit_account :: "deal_points \<Rightarrow> int" where
  "petit_account p = (case littleEndianOwner p of ATTACK \<Rightarrow> 10 | DEFENSE \<Rightarrow> - 10 | NO_TEAM \<Rightarrow> 0)"

definition slam_account :: "bid \<Rightarrow> deal_points \<Rightarrow> int" where
  "slam_account b p =
     (case (slamDone p, attack_wins p, slam b) of
        (True, True, True) \<Rightarrow> 400 | (True, True, False) \<Rightarrow> 200 | (True, False, _) \<Rightarrow> - 200
      | (False, _, True) \<Rightarrow> - 200 | (False, _, False) \<Rightarrow> 0)"

definition rule_account :: "bid \<Rightarrow> deal_points \<Rightarrow> int" where
  "rule_account b p =
     (let margin = \<bar>pointsAttack p - points_needed (oudlersAttack p)\<bar>;
          won = (25 + margin) * contract_factor (contract b) + handlePoints p
      in (if attack_wins p then won else - won)
         + petit_account p * contract_factor (contract b) + slam_account b p)"

definition attackers_share :: "bid \<Rightarrow> nat \<Rightarrow> int" where
  "attackers_share b n = int n - 1 - (if Bid_HasPartner b then 1 else 0)"

lemma mult_range: "0 \<le> x \<Longrightarrow> x \<le> a \<Longrightarrow> 0 \<le> m \<Longrightarrow> m \<le> b \<Longrightarrow> 0 \<le> x * m \<and> x * m \<le> a * (b :: int)"
  by (simp add: mult_mono)

definition raw_score :: "bid \<Rightarrow> deal_points \<Rightarrow> int" where
  "raw_score b p =
     (25 + \<bar>pointsAttack p - points_to_do p\<bar> + GetLittleEndianPoints p) * GetMultiplier (contract b)
       + handlePoints p + GetSlamPoints b p"

lemma sane_distance: "sane_points p \<Longrightarrow> \<bar>pointsAttack p - points_to_do p\<bar> \<le> 56"
  using PointsToDo_range [of "to_u8 (oudlersAttack p)"] by (auto simp: sane_points_def points_to_do_def)

lemma little_endian_range: "\<bar>GetLittleEndianPoints p\<bar> \<le> 10"
  by (simp add: GetLittleEndianPoints_def)

lemma raw_score_range:
  assumes "sane_points p"
  shows "- 200 \<le> raw_score b p" "raw_score b p \<le> 1026"
proof -
  let ?sum = "25 + \<bar>pointsAttack p - points_to_do p\<bar> + GetLittleEndianPoints p"
  have s: "- 200 \<le> GetSlamPoints b p" "GetSlamPoints b p \<le> 400"
    by (simp_all add: GetSlamPoints_def)
  have "0 \<le> ?sum" "?sum \<le> 91"
    using sane_distance [OF assms] little_endian_range [of p] by linarith+
  from mult_range [OF this GetMultiplier_range [of "contract b"]] s assms
  show "- 200 \<le> raw_score b p" "raw_score b p \<le> 1026"
    by (auto simp: sane_points_def raw_score_def)
qed

lemma base_score_exact:
  assumes "sane_points p"
  shows "base_score b p = Some (raw_score b p)"
proof -
  let ?d = "pointsAttack p - points_to_do p"
  have "\<bar>?d\<bar> < 2 ^ 31" "\<bar>25 + \<bar>?d\<bar>\<bar> < 2 ^ 31" "\<bar>25 + \<bar>?d\<bar> + GetLittleEndianPoints p\<bar> < 2 ^ 31"
    using sane_distance [OF assms] little_endian_range [of p] by (simp_all, linarith?)
  then have "i32 ?d = Some ?d" "i32 \<bar>?d\<bar> = Some \<bar>?d\<bar>" "i32 (25 + \<bar>?d\<bar>) = Some (25 + \<bar>?d\<bar>)"
    "i32 (25 + \<bar>?d\<bar> + GetLittleEndianPoints p) = Some (25 + \<bar>?d\<bar> + GetLittleEndianPoints p)"
    by (simp_all only: i32_Some abs_abs)
  moreover have "to_i32 (raw_score b p) = raw_score b p"
    using raw_score_range [OF assms, of b] by (intro to_i32_id) simp_all
  ultimately show ?thesis
    by (simp add: base_score_def Points_Difference_def raw_score_def)
qed

lemma attackers_share_range: "valid_deal b n \<or> n \<in> {3, 4, 5} \<Longrightarrow> 1 \<le> attackers_share b n \<and> attackers_share b n \<le> 4"
  by (auto simp: attackers_share_def valid_deal_def)

lemma GetPoints_sane:
  fixes b :: bid
  assumes "sane_points p" "n \<in> {3, 4, 5}"
  defines "d \<equiv> (if Points_Winner p = ATTACK then - raw_score b p else raw_score b p)"
  shows "GetPoints DEFENSE b n p = Some d" "GetPoints ATTACK b n p = Some (- attackers_share b n * d)"
    "\<bar>d\<bar> \<le> 1026" "\<bar>attackers_share b n * d\<bar> \<le> 4104"
proof -
  show d: "\<bar>d\<bar> \<le> 1026"
    using raw_score_range [OF assms(1), of b] by (simp add: d_def)
  then have "\<bar>d\<bar> < 2 ^ 31" by simp
  then have i: "i32 d = Some d" "i32 (- d) = Some (- d)" by (simp_all only: i32_Some abs_minus_cancel)
  then show "GetPoints DEFENSE b n p = Some d"
    by (simp add: GetPoints_def base_score_exact [OF assms(1)] d_def Let_def split: if_splits)
  have "\<bar>attackers_share b n\<bar> * \<bar>d\<bar> \<le> 4 * 1026"
    using attackers_share_range [of b n] assms(2) d by (intro mult_mono) auto
  then show share: "\<bar>attackers_share b n * d\<bar> \<le> 4104" by (simp add: abs_mult)
  have "GetPoints ATTACK b n p = i32 (- d * attackers_share b n)"
    using i Points_Winner_cases [of p]
    by (auto simp: GetPoints_def base_score_exact [OF assms(1)] d_def Let_def attackers_share_def)
  moreover have "\<bar>- d * attackers_share b n\<bar> < 2 ^ 31" using share by (simp add: abs_mult mult.commute)
  ultimately show "GetPoints ATTACK b n p = Some (- attackers_share b n * d)"
    by (simp only: i32_Some) (simp add: mult.commute)
qed

lemma split_points_range:
  assumes "\<bar>a\<bar> \<le> 4104"
  shows "\<bar>fst (split_points b n a)\<bar> \<le> 4104" "\<bar>snd (split_points b n a)\<bar> \<le> 4104"
proof -
  define x :: rat where "x = of_int a * 2 / 3 + 2 / 5"
  have x: "x * 15 = of_int (10 * a + 6)" by (simp add: x_def)
  have t: "\<bar>trunc_rat x\<bar> \<le> 4104 \<and> \<bar>a - trunc_rat x\<bar> \<le> 4104"
  proof (cases "x < 0")
    case True
    then have "(of_int (10 * a + 6) :: rat) < 0" using x by linarith
    then have neg: "10 * a + 6 < 0" by (simp only: of_int_less_0_iff)
    have "of_int \<lceil>x\<rceil> < x + 1" "x \<le> of_int \<lceil>x\<rceil>" by linarith+
    then have "(of_int (15 * \<lceil>x\<rceil>) :: rat) < of_int (10 * a + 21)" "(of_int (10 * a + 6) :: rat) \<le> of_int (15 * \<lceil>x\<rceil>)"
      using x unfolding of_int_mult of_int_add of_int_numeral by linarith+
    then have "15 * \<lceil>x\<rceil> < 10 * a + 21" "10 * a + 6 \<le> 15 * \<lceil>x\<rceil>" by (simp_all only: of_int_less_iff of_int_le_iff)
    with neg assms True show ?thesis by (simp add: trunc_rat_def)
  next
    case False
    then have "0 \<le> (of_int (10 * a + 6) :: rat)" using x by linarith
    then have pos: "0 \<le> 10 * a + 6" by (simp only: of_int_0_le_iff)
    have "of_int \<lfloor>x\<rfloor> \<le> x" "x < of_int \<lfloor>x\<rfloor> + 1" by linarith+
    then have "(of_int (15 * \<lfloor>x\<rfloor>) :: rat) \<le> of_int (10 * a + 6)" "(of_int (10 * a + 6) :: rat) < of_int (15 * \<lfloor>x\<rfloor> + 15)"
      using x unfolding of_int_mult of_int_add of_int_numeral by linarith+
    then have "15 * \<lfloor>x\<rfloor> \<le> 10 * a + 6" "10 * a + 6 < 15 * \<lfloor>x\<rfloor> + 15" by (simp_all only: of_int_less_iff of_int_le_iff)
    with pos assms have "\<bar>\<lfloor>x\<rfloor>\<bar> \<le> 4104 \<and> \<bar>a - \<lfloor>x\<rfloor>\<bar> \<le> 4104" by linarith
    with False show ?thesis by (simp only: trunc_rat_def if_False)
  qed
  with assms show "\<bar>fst (split_points b n a)\<bar> \<le> 4104" "\<bar>snd (split_points b n a)\<bar> \<le> 4104"
    by (simp_all add: split_points_def Let_def x_def)
qed

lemma deal_shares_sane:
  assumes "sane_points p" "valid_deal b n"
  shows "\<exists>tp pp d. deal_shares p b n = Some (tp, pp, d) \<and> tp + pp + attackers_share b n * d = 0 \<and>
     (\<not> Bid_HasPartner b \<longrightarrow> pp = 0) \<and> \<bar>tp\<bar> \<le> 4104 \<and> \<bar>pp\<bar> \<le> 4104 \<and> \<bar>d\<bar> \<le> 4104"
proof -
  have n: "n \<in> {3, 4, 5}" using assms(2) by (simp add: valid_deal_def)
  define d where "d = (if Points_Winner p = ATTACK then - raw_score b p else raw_score b p)"
  define a where "a = - attackers_share b n * d"
  note g = GetPoints_sane [OF assms(1) n, of b, folded d_def]
  have "\<bar>a\<bar> \<le> 4104" using g(4) by (simp add: a_def)
  from split_points_range [OF this] split_points_sum [of b n a] g
  show ?thesis
    by (intro exI [of _ "fst (split_points b n a)"] exI [of _ "snd (split_points b n a)"] exI [of _ d])
      (auto simp: deal_shares_def a_def split_beta split_points_def)
qed

text \<open>Every deal's row is zero-sum, and its entries are small.\<close>

lemma player_points_zero_sum:
  assumes "valid_deal b n" "tp + pp + attackers_share b n * d = 0" "\<not> Bid_HasPartner b \<longrightarrow> pp = 0"
  shows "sum_list (map (player_points (tp, pp, d) b n) [0..<n]) = 0"
proof -
  let ?row = "\<lambda>i. if i = Place_Value (taker b) then tp
       else if n = 5 \<and> i = Place_Value (partner b) \<and> Bid_HasPartner b then pp else d"
  have "player_points (tp, pp, d) b n i = ?row i" if "i < n" for i
    using that assms(1) by (auto simp: player_points_def valid_deal_def Let_def)
  then have row: "map (player_points (tp, pp, d) b n) [0..<n] = map ?row [0..<n]" by simp
  show ?thesis
  proof (cases "Bid_HasPartner b")
    case True
    with assms have n: "n = 5" and "Place_Value (taker b) < 5" "Place_Value (partner b) < 5"
      "taker b \<noteq> partner b"
      by (auto simp: valid_deal_def Bid_HasPartner_def Place_IsValid_iff)
    then have t: "Place_Value (taker b) \<in> {0, 1, 2, 3, 4}" and q: "Place_Value (partner b) \<in> {0, 1, 2, 3, 4}"
      and tq: "Place_Value (taker b) \<noteq> Place_Value (partner b)"
      by auto
    have five: "tp + (pp + (d + (d + d))) = 0" using True assms(2) n by (simp add: attackers_share_def)
    show ?thesis unfolding row using five t q tq True
      by (elim insertE emptyE; simp add: n upt_players)
  next
    case False
    then have n: "n \<in> {3, 4, 5}" and t: "Place_Value (taker b) < n"
      and sum: "tp + (int n - 1) * d = 0"
      using assms by (auto simp: valid_deal_def attackers_share_def)
    from n consider "n = 3" | "n = 4" | "n = 5" by auto
    then show ?thesis
      unfolding row by cases (use t sum False in \<open>auto simp: upt_players less_Suc_eq numeral_eq_Suc\<close>)
  qed
qed

lemma player_points_range:
  "\<bar>tp\<bar> \<le> k \<Longrightarrow> \<bar>pp\<bar> \<le> k \<Longrightarrow> \<bar>d\<bar> \<le> k \<Longrightarrow> \<bar>player_points (tp, pp, d) b n i\<bar> \<le> k"
  by (simp add: player_points_def)

text \<open>The code's score of a deal is the account of the rules.\<close>

lemma points_needed_code: "0 \<le> oudlersAttack p \<Longrightarrow> oudlersAttack p \<le> 3 \<Longrightarrow> points_to_do p = points_needed (oudlersAttack p)"
  by (auto simp: points_to_do_def points_needed_def PointsToDo_def)

lemma contract_factor_code: "GetMultiplier c = contract_factor c"
  by (cases c) (simp_all add: GetMultiplier_def)

lemma rule_account_code:
  assumes "points_to_do p = points_needed (oudlersAttack p)"
  shows "(if Points_Winner p = ATTACK then - raw_score b p else raw_score b p) = - rule_account b p"
    and "Points_Winner p = (if attack_wins p then ATTACK else DEFENSE)"
proof -
  show w: "Points_Winner p = (if attack_wins p then ATTACK else DEFENSE)"
    by (simp add: Points_Winner_def attack_wins_def assms)
  show "(if Points_Winner p = ATTACK then - raw_score b p else raw_score b p) = - rule_account b p"
    by (cases "littleEndianOwner p")
      (simp_all add: w raw_score_def rule_account_def Let_def petit_account_def slam_account_def assms
        GetLittleEndianPoints_def GetSlamPoints_def contract_factor_code algebra_simps)
qed

section \<open>The score board\<close>

definition wf_score :: "score \<Rightarrow> bool" where
  "wf_score s \<longleftrightarrow> length (scores s) = MAX_NUMBER_OF_TURNS \<and> (\<forall>row \<in> set (scores s). length row = 5)"

lemma write_row:
  assumes "k < length tbl" "length (tbl ! k) = 5" "m \<le> 5"
  shows "fold (\<lambda>i r. Option.bind r (\<lambda>tbl.
                    Option.bind (arr_get tbl k) (\<lambda>row.
                    Option.bind (arr_set row i (f i)) (\<lambda>row'. arr_set tbl k row'))))
              [0..<m] (Some tbl)
         = Some (tbl[k := map f [0..<m] @ drop m (tbl ! k)])"
  using assms(3)
proof (induction m)
  case 0
  then show ?case by simp
next
  case (Suc m)
  let ?row = "map f [0..<m] @ drop m (tbl ! k)"
  have "?row[m := f m] = map f [0..<Suc m] @ drop (Suc m) (tbl ! k)"
    using assms(2) Suc.prems
    by (simp add: list_update_append Cons_nth_drop_Suc [symmetric])
  with Suc assms show ?case by simp
qed

lemma AddPoints_eq:
  assumes "wf_score s" "dealCounter s < MAX_NUMBER_OF_TURNS" "n \<le> 5" "deal_shares p b n = Some shares"
  shows "AddPoints p b n s =
     Some (dealCounter s + 1 < mNumberOfTurns s,
       s\<lparr>mHistory := mHistory s @ [\<lparr>entryPoints = p, entryBid = b, entryPlayers = n\<rparr>],
         scores := (scores s)[dealCounter s :=
            map (player_points shares b n) [0..<n] @ drop n (scores s ! dealCounter s)],
         dealCounter := dealCounter s + 1\<rparr>)"
proof -
  have "dealCounter s < length (scores s)" "length (scores s ! dealCounter s) = 5"
    using assms by (auto simp: wf_score_def)
  from write_row [OF this assms(3), of "player_points shares b n"] show ?thesis
    by (simp add: AddPoints_def Let_def assms(4))
qed

lemma AddPoints_overflow:
  assumes "length (scores s) \<le> dealCounter s" "0 < n"
  shows "AddPoints p b n s = None"
proof -
  have none: "fold (\<lambda>i r. Option.bind r (F i)) xs None = None" for F :: "nat \<Rightarrow> 'a \<Rightarrow> 'a option" and xs
    by (induction xs) auto
  from assms show ?thesis
    by (cases "deal_shares p b n") (simp_all add: AddPoints_def Let_def upt_rec arr_get_def none)
qed

lemma total_fold:
  assumes "\<forall>i < k. i < length tbl \<and> q < length (tbl ! i) \<and> \<bar>tbl ! i ! q\<bar> \<le> 4104" "k \<le> MAX_NUMBER_OF_TURNS"
  shows "fold (\<lambda>i r. Option.bind r (\<lambda>total.
             Option.bind (arr_get tbl i) (\<lambda>row.
             Option.bind (arr_get row q) (\<lambda>v. i32 (total + v))))) [0..<k] (Some 0)
         = Some (\<Sum>i < k. tbl ! i ! q) \<and> \<bar>\<Sum>i < k. tbl ! i ! q\<bar> \<le> 4104 * int k"
  using assms
proof (induction k)
  case 0
  then show ?case by simp
next
  case (Suc k)
  then have k: "\<bar>\<Sum>i < k. tbl ! i ! q\<bar> \<le> 4104 * int k" "\<bar>tbl ! k ! q\<bar> \<le> 4104" "int k < 40"
    by (auto simp: MAX_NUMBER_OF_TURNS_def)
  then have "\<bar>(\<Sum>i < k. tbl ! i ! q) + tbl ! k ! q\<bar> \<le> 4104 * int (Suc k)" by simp
  moreover from this k(3) have "\<bar>(\<Sum>i < k. tbl ! i ! q) + tbl ! k ! q\<bar> < 2 ^ 31" by simp
  ultimately show ?case using Suc by simp
qed

definition small_rows :: "score \<Rightarrow> bool" where
  "small_rows s \<longleftrightarrow> (\<forall>row \<in> set (scores s). \<forall>v \<in> set row. \<bar>v\<bar> \<le> 4104)"

lemma GetTotalPoints_eq:
  assumes "wf_score s" "small_rows s" "dealCounter s \<le> MAX_NUMBER_OF_TURNS" "Place_IsValid q"
  shows "GetTotalPoints q s = Some (\<Sum>i < dealCounter s. scores s ! i ! Place_Value q)"
proof -
  have "\<forall>i < dealCounter s. i < length (scores s) \<and> Place_Value q < length (scores s ! i) \<and>
      \<bar>scores s ! i ! Place_Value q\<bar> \<le> 4104"
  proof (intro allI impI)
    fix i assume "i < dealCounter s"
    with assms have i: "i < length (scores s)" and row: "scores s ! i \<in> set (scores s)"
      by (simp_all add: wf_score_def)
    from row assms have q: "Place_Value q < length (scores s ! i)" by (simp add: wf_score_def Place_IsValid_iff)
    with row assms(2) have "\<bar>scores s ! i ! Place_Value q\<bar> \<le> 4104"
      unfolding small_rows_def by (meson nth_mem)
    with i q show "i < length (scores s) \<and> Place_Value q < length (scores s ! i) \<and>
      \<bar>scores s ! i ! Place_Value q\<bar> \<le> 4104" by blast
  qed
  from total_fold [OF this assms(3)] show ?thesis by (simp add: GetTotalPoints_def)
qed

text \<open>A tournament: the deals are added one after the other.\<close>

fun run_deals :: "(deal_points \<times> bid \<times> nat) list \<Rightarrow> score \<Rightarrow> score option" where
  "run_deals [] s = Some s"
| "run_deals ((p, b, n) # ds) s = Option.bind (AddPoints p b n s) (\<lambda>(cont, s'). run_deals ds s')"

definition balanced :: "score \<Rightarrow> bool" where
  "balanced s \<longleftrightarrow> wf_score s \<and> small_rows s \<and> dealCounter s \<le> MAX_NUMBER_OF_TURNS \<and>
     (\<forall>i < dealCounter s. sum_list (scores s ! i) = 0) \<and>
     (\<forall>i. dealCounter s \<le> i \<longrightarrow> i < MAX_NUMBER_OF_TURNS \<longrightarrow> scores s ! i = replicate 5 0)"

lemma balanced_NewGame [keeps]: "balanced (Score_NewGame n)"
  by (auto simp: balanced_def Score_NewGame_def wf_score_def small_rows_def)

lemma balanced_AddPoints [keeps]:
  assumes "balanced s" "dealCounter s < MAX_NUMBER_OF_TURNS" "valid_deal b n" "sane_points p"
  shows "\<exists>cont s'. AddPoints p b n s = Some (cont, s') \<and> balanced s' \<and> dealCounter s' = dealCounter s + 1"
proof -
  from deal_shares_sane [OF assms(4,3)] obtain tp pp d where sh: "deal_shares p b n = Some (tp, pp, d)"
    "tp + pp + attackers_share b n * d = 0" "\<not> Bid_HasPartner b \<longrightarrow> pp = 0"
    "\<bar>tp\<bar> \<le> 4104" "\<bar>pp\<bar> \<le> 4104" "\<bar>d\<bar> \<le> 4104" by blast
  let ?row = "map (player_points (tp, pp, d) b n) [0..<n] @ drop n (scores s ! dealCounter s)"
  have n: "n \<le> 5" using assms(3) by (auto simp: valid_deal_def)
  have zero: "scores s ! dealCounter s = replicate 5 0"
    using assms by (simp add: balanced_def)
  then have row: "sum_list ?row = 0" "length ?row = 5"
    using player_points_zero_sum [OF assms(3) sh(2,3)] n by (simp_all add: sum_list_replicate)
  have small: "\<forall>v \<in> set ?row. \<bar>v\<bar> \<le> 4104"
    using player_points_range [OF sh(4-6)] by (auto simp: zero)
  have wf: "wf_score s" using assms(1) by (simp add: balanced_def)
  define s' where "s' = s\<lparr>mHistory := mHistory s @ [\<lparr>entryPoints = p, entryBid = b, entryPlayers = n\<rparr>],
         scores := (scores s)[dealCounter s := ?row], dealCounter := dealCounter s + 1\<rparr>"
  have "small_rows s'"
    using assms(1) small unfolding balanced_def small_rows_def s'_def
    by (auto dest!: set_update_subset_insert [THEN subsetD] simp del: set_append)
  then have "balanced s'"
    using assms(1,2) row wf
    by (auto simp: balanced_def s'_def wf_score_def nth_list_update less_Suc_eq
        dest!: set_update_subset_insert [THEN subsetD])
  moreover have "AddPoints p b n s = Some (dealCounter s + 1 < mNumberOfTurns s, s')"
    using AddPoints_eq [OF wf assms(2) n sh(1)] by (simp add: s'_def)
  ultimately show ?thesis by (simp add: s'_def)
qed

lemma balanced_run_deals:
  assumes "balanced s" "dealCounter s + length ds \<le> MAX_NUMBER_OF_TURNS"
    and "\<forall>(p, b, n) \<in> set ds. sane_points p \<and> valid_deal b n"
  shows "\<exists>s'. run_deals ds s = Some s' \<and> balanced s' \<and> dealCounter s' = dealCounter s + length ds"
  using assms
proof (induction ds arbitrary: s)
  case Nil
  then show ?case by simp
next
  case (Cons d ds)
  obtain p b n where d: "d = (p, b, n)" by (cases d) auto
  with Cons.prems have "dealCounter s < MAX_NUMBER_OF_TURNS" "valid_deal b n" "sane_points p" by auto
  then obtain cont s1 where s1: "AddPoints p b n s = Some (cont, s1)" "balanced s1"
    "dealCounter s1 = dealCounter s + 1"
    using balanced_AddPoints [OF Cons.prems(1)] by blast
  with Cons.IH [of s1] Cons.prems show ?case by (auto simp: d)
qed

lemma sum_places: "length row = 5 \<Longrightarrow>
  (\<Sum>q \<leftarrow> [SOUTH, EAST, NORTH, WEST, FIFTH]. row ! Place_Value q) = sum_list (row :: int list)"
  by (auto simp: numeral_eq_Suc length_Suc_conv)

lemma sum_swap_places:
  "(\<Sum>q \<leftarrow> ps. \<Sum>i < (k :: nat). f i q) = (\<Sum>i < k. \<Sum>q \<leftarrow> ps. f i (q :: place) :: int)"
  by (induction ps) (simp_all add: sum.distrib)

lemma balanced_totals:
  assumes "balanced s"
  shows "\<exists>t. (\<forall>q. Place_IsValid q \<longrightarrow> GetTotalPoints q s = Some (t q) \<and>
        t q = (\<Sum>i < dealCounter s. scores s ! i ! Place_Value q)) \<and>
     (\<Sum>q \<leftarrow> [SOUTH, EAST, NORTH, WEST, FIFTH]. t q) = 0"
proof -
  let ?ps = "[SOUTH, EAST, NORTH, WEST, FIFTH]"
  define t where "t q = (\<Sum>i < dealCounter s. scores s ! i ! Place_Value q)" for q
  have row: "(\<Sum>q \<leftarrow> ?ps. scores s ! i ! Place_Value q) = 0" if "i < dealCounter s" for i
  proof -
    from assms that have "length (scores s ! i) = 5" "sum_list (scores s ! i) = 0"
      by (auto simp: balanced_def wf_score_def)
    then show ?thesis using sum_places by metis
  qed
  have "(\<Sum>q \<leftarrow> ?ps. t q) = (\<Sum>i < dealCounter s. \<Sum>q \<leftarrow> ?ps. scores s ! i ! Place_Value q)"
    unfolding t_def by (rule sum_swap_places)
  also have "\<dots> = 0" by (rule sum.neutral) (use row in blast)
  finally have "(\<Sum>q \<leftarrow> ?ps. t q) = 0" .
  moreover have "GetTotalPoints q s = Some (t q)" if "Place_IsValid q" for q
    using GetTotalPoints_eq [of s q] assms that by (simp add: balanced_def t_def)
  ultimately show ?thesis using t_def by blast
qed

section \<open>The podium\<close>

text \<open>
  The podium is the map from the points of the last deal to a place; its last entry is the largest
  key. Two players with the same points share one entry, so the podium may name fewer than five
  players.
\<close>

lemma smap_put_keys: "set (map fst (smap_put k v m)) = insert k (set (map fst m))"
  by (induction m rule: smap_put.induct) auto

lemma smap_put_sorted: "sorted_wrt (<) (map fst m) \<Longrightarrow> sorted_wrt (<) (map fst (smap_put k v m))"
proof (induction k v m rule: smap_put.induct)
  case (1 k v)
  then show ?case by simp
next
  case (2 k v k' v' m)
  from 2 smap_put_keys [of k v m] show ?case
    by (auto simp: set_map [symmetric] simp del: set_map)
qed

lemma smap_put_in: "(k', v') \<in> set (smap_put k v m) \<Longrightarrow> k' = k \<and> v' = v \<or> (k', v') \<in> set m"
  by (induction k v m rule: smap_put.induct) (auto split: if_splits)

lemma smap_put_nonempty [simp]: "smap_put k v m \<noteq> []"
  by (cases "(k, v, m)" rule: smap_put.cases) auto

lemma last_sorted_max:
  "sorted_wrt (<) (map fst m) \<Longrightarrow> m \<noteq> [] \<Longrightarrow> k \<in> set (map fst m) \<Longrightarrow> k \<le> (fst (last m) :: 'k :: linorder)"
  by (induction m) (auto simp: less_imp_le)

lemma podium_fold:
  assumes "length row = 5" "k \<le> 5"
  shows "\<exists>m. fold (\<lambda>i r. Option.bind r (\<lambda>podium.
                  Option.bind (arr_get row i) (\<lambda>v. Some (smap_put v (Place_of_u32 (int i)) podium))))
            [0..<k] (Some []) = Some m \<and>
     sorted_wrt (<) (map fst m) \<and> set (map fst m) = (\<lambda>i. row ! i) ` {..<k} \<and>
     (\<forall>(v, q) \<in> set m. Place_IsValid q \<and> row ! Place_Value q = v)"
  using assms(2)
proof (induction k)
  case 0
  then show ?case by simp
next
  case (Suc k)
  then obtain m where m: "fold (\<lambda>i r. Option.bind r (\<lambda>podium.
                  Option.bind (arr_get row i) (\<lambda>v. Some (smap_put v (Place_of_u32 (int i)) podium))))
            [0..<k] (Some []) = Some m" "sorted_wrt (<) (map fst m)"
     "set (map fst m) = (\<lambda>i. row ! i) ` {..<k}"
     "\<forall>(v, q) \<in> set m. Place_IsValid q \<and> row ! Place_Value q = v"
    by auto
  have q: "Place_Value (Place_of_u32 (int k)) = k"
    using Suc.prems Place_of_index [of k "Place_of_u32 (int k)"] by simp
  let ?m = "smap_put (row ! k) (Place_of_u32 (int k)) m"
  have "set (map fst ?m) = (\<lambda>i. row ! i) ` {..<Suc k}"
    by (simp only: smap_put_keys m(3) lessThan_Suc image_insert)
  moreover have "\<forall>(v, q) \<in> set ?m. Place_IsValid q \<and> row ! Place_Value q = v"
    using m(4) q Suc.prems smap_put_in by (fastforce simp: Place_IsValid_iff)
  ultimately show ?case
    using m(1) smap_put_sorted [OF m(2)] Suc.prems assms(1) by auto
qed

lemma GetWinner_max:
  assumes "wf_score s" "0 < dealCounter s" "dealCounter s \<le> MAX_NUMBER_OF_TURNS"
  shows "\<exists>w. GetWinner s = Some w \<and> Place_IsValid w \<and>
     (\<forall>q. Place_IsValid q \<longrightarrow>
        scores s ! (dealCounter s - 1) ! Place_Value q \<le> scores s ! (dealCounter s - 1) ! Place_Value w)"
proof -
  let ?row = "scores s ! (dealCounter s - 1)"
  have idx: "dealCounter s - 1 < length (scores s)" and row: "length ?row = 5"
    using assms by (auto simp: wf_score_def)
  from podium_fold [OF row order.refl] obtain m where m:
    "fold (\<lambda>i r. Option.bind r (\<lambda>podium.
                  Option.bind (arr_get ?row i) (\<lambda>v. Some (smap_put v (Place_of_u32 (int i)) podium))))
            [0..<5] (Some []) = Some m"
    "sorted_wrt (<) (map fst m)" "set (map fst m) = (\<lambda>i. ?row ! i) ` {..<5}"
    "\<forall>(v, q) \<in> set m. Place_IsValid q \<and> ?row ! Place_Value q = v"
    by blast
  from m(3) have ne: "m \<noteq> []" by (auto simp: lessThan_empty_iff)
  then have last: "last m \<in> set m" by simp
  let ?w = "snd (last m)"
  have w: "Place_IsValid ?w" "?row ! Place_Value ?w = fst (last m)"
    using m(4) last by (auto simp: split_beta)
  have "?row ! Place_Value q \<le> fst (last m)" if "Place_IsValid q" for q
    using that by (intro last_sorted_max [OF m(2) ne]) (auto simp: m(3) Place_IsValid_iff simp del: set_map)
  moreover have "GetWinner s = Some ?w"
    using assms(2) idx m(1) ne by (simp add: GetWinner_def GetPodium_def)
  ultimately show ?thesis using w by auto
qed

section \<open>Properties\<close>

definition example_points :: "int \<Rightarrow> deal_points" where
  "example_points n =
     \<lparr>pointsAttack = n, cardsPointsAttack = of_int n, oudlersAttack = 2, handlePoints = 0,
      slamDone = False, littleEndianOwner = NO_TEAM\<rparr>"

definition example_bid :: "place \<Rightarrow> contract \<Rightarrow> bid" where
  "example_bid p c = \<lparr>taker = p, partner = NOWHERE, contract = c, slam = False\<rparr>"

text \<open>
  C9. A tournament is zero-sum: after any sequence of at most 40 deals, each with 3, 4 or 5 players,
  a seated taker, a called partner only with 5 players, and points in the range of the game (0 to 92
  points of the attack, handle bonuses of 0 to 80), nothing overflows, the score board has one row per
  deal, every row is zero-sum, every total is defined (no access outside the score board) and is the
  sum of its column, and the totals of the five places add up to zero. In particular the split of
  the attack's points between taker and partner neither gains nor loses a point.
\<close>

theorem tournament_zero_sum:
  assumes "length ds \<le> MAX_NUMBER_OF_TURNS"
    and "\<forall>(p, b, n) \<in> set ds. sane_points p \<and> valid_deal b n"
  shows "\<exists>s t. run_deals ds (Score_NewGame turns) = Some s \<and>
     dealCounter s = length ds \<and>
     (\<forall>i < length ds. length (scores s ! i) = 5 \<and> sum_list (scores s ! i) = 0) \<and>
     (\<forall>q. Place_IsValid q \<longrightarrow> GetTotalPoints q s = Some (t q) \<and>
        t q = (\<Sum>i < length ds. scores s ! i ! Place_Value q)) \<and>
     (\<Sum>q \<leftarrow> [SOUTH, EAST, NORTH, WEST, FIFTH]. t q) = 0"
proof -
  have z: "dealCounter (Score_NewGame turns) = 0" by (simp add: Score_NewGame_def)
  with balanced_run_deals [OF balanced_NewGame, of turns ds] assms
  obtain s where s: "run_deals ds (Score_NewGame turns) = Some s" "balanced s" "dealCounter s = length ds" by auto
  then have "\<forall>i < length ds. length (scores s ! i) = 5 \<and> sum_list (scores s ! i) = 0"
    using assms(1) by (auto simp: balanced_def wf_score_def)
  with balanced_totals [OF s(2)] s show ?thesis by auto
qed

theorem tournament_zero_sum_witness:
  "\<exists>s t. run_deals [(example_points 60, example_bid EAST GUARD, 4)] (Score_NewGame 1) = Some s \<and>
     dealCounter s = 1 \<and> sum_list (scores s ! 0) = 0 \<and>
     (\<forall>q. Place_IsValid q \<longrightarrow> GetTotalPoints q s = Some (t q)) \<and>
     (\<Sum>q \<leftarrow> [SOUTH, EAST, NORTH, WEST, FIFTH]. t q) = 0"
  using tournament_zero_sum [of "[(example_points 60, example_bid EAST GUARD, 4)]" 1]
  by (auto simp: MAX_NUMBER_OF_TURNS_def valid_deal_def example_bid_def Bid_HasPartner_def
       Place_IsValid_def sane_points_def example_points_def)

text \<open>
  C15. The score of a deal is the account of the rules, written down on its own above (thresholds,
  factors, Petit at the end, slam): when the attack's points are between 0 and 92 (91 and the half
  point given to the winner), the handle bonuses between 0 and 80, the oudlers between 0 and 3, and
  3, 4 or 5 play, nothing overflows, each defender gets minus the account, the attack gets the
  account once for each defender, within 4104 in absolute value, and the winner is the side that the
  threshold makes the winner.
\<close>

theorem deal_score_exact:
  assumes "sane_points p" "0 \<le> oudlersAttack p" "oudlersAttack p \<le> 3" "n \<in> {3, 4, 5}"
  shows "Points_Winner p = (if attack_wins p then ATTACK else DEFENSE) \<and>
     GetPoints DEFENSE b n p = Some (- rule_account b p) \<and>
     GetPoints ATTACK b n p =
       Some ((int n - 1 - (if Bid_HasPartner b then 1 else 0)) * rule_account b p) \<and>
     \<bar>(int n - 1 - (if Bid_HasPartner b then 1 else 0)) * rule_account b p\<bar> \<le> 4104"
proof -
  note code = rule_account_code [OF points_needed_code [OF assms(2,3)]]
  show ?thesis
    using GetPoints_sane [OF assms(1,4), of b, unfolded code(1)] code(2)
    by (simp add: attackers_share_def algebra_simps)
qed

theorem deal_score_exact_witness:
  "GetPoints DEFENSE (example_bid EAST GUARD) 4 (example_points 60) = Some (- 88) \<and>
   GetPoints ATTACK (example_bid EAST GUARD) 4 (example_points 60) = Some 264 \<and>
   Points_Winner (example_points 60) = ATTACK"
  using deal_score_exact [of "example_points 60" 4 "example_bid EAST GUARD"]
  by (simp add: sane_points_def example_points_def example_bid_def attack_wins_def points_needed_def
      rule_account_def petit_account_def slam_account_def Bid_HasPartner_def Place_IsValid_def)

text \<open>A slam that was announced and lost, with the Petit won by the defense: the account of each defender.\<close>

lemma announced_slam_lost:
  "rule_account \<lparr>taker = EAST, partner = NOWHERE, contract = GUARD, slam = True\<rparr>
     ((example_points 30)\<lparr>littleEndianOwner := DEFENSE\<rparr>) = - 292"
  by code_simp

text \<open>Far outside the range of the game the code's sum overflows.\<close>

lemma huge_points_overflow: "GetPoints DEFENSE b 4 (example_points (- (2 ^ 31))) = None"
  by (simp add: GetPoints_def base_score_def Points_Difference_def i32_def example_points_def
      points_to_do_def PointsToDo_def)

text \<open>
  The winner the code announces is a seated player whose score in the most recent deal is the
  best of that deal (not of the whole tournament: earlier deals do not count).
\<close>

theorem winner_of_last_deal:
  assumes "wf_score s" "0 < dealCounter s" "dealCounter s \<le> MAX_NUMBER_OF_TURNS"
  shows "\<exists>w. GetWinner s = Some w \<and> Place_IsValid w \<and>
     (\<forall>q. Place_IsValid q \<longrightarrow>
        scores s ! (dealCounter s - 1) ! Place_Value q \<le> scores s ! (dealCounter s - 1) ! Place_Value w)"
  using assms by (rule GetWinner_max)

theorem winner_of_last_deal_witness:
  "\<exists>w. GetWinner ((Score_NewGame 2)\<lparr>dealCounter := 1\<rparr>) = Some w \<and> Place_IsValid w"
  using winner_of_last_deal [of "(Score_NewGame 2)\<lparr>dealCounter := 1\<rparr>"]
  by (auto simp: Score_NewGame_def wf_score_def MAX_NUMBER_OF_TURNS_def)

text \<open>
  A tournament of two deals in which the announced winner is not the player with the most points:
  South wins the first deal by far, East the second one narrowly.
\<close>

definition example_tournament :: "score option" where
  "example_tournament =
     run_deals [(example_points 80, example_bid SOUTH GUARD_AGAINST, 4),
                (example_points 41, example_bid EAST TAKE, 4)] (Score_NewGame 2)"

lemma winner_ignores_earlier_deals:
  "Option.bind example_tournament GetWinner = Some EAST"
  "Option.bind example_tournament (GetTotalPoints SOUTH) = Some 1127"
  "Option.bind example_tournament (GetTotalPoints EAST) = Some (- 309)"
  by code_simp+

text \<open>
  The comment asks for two thirds of the attack's points for the taker, rounded up; on a loss the
  truncation of a negative number gives the taker one point less to pay than two thirds.
\<close>

lemma taker_share_of_a_loss:
  "split_points \<lparr>taker = SOUTH, partner = NORTH, contract = GUARD, slam = False\<rparr> 5 (- 300) = (- 199, - 101)"
  by code_simp

text \<open>The score table has 40 rows: the deal after the fortieth is written outside it.\<close>

lemma forty_first_deal_out_of_bounds:
  "AddPoints p b 4 ((Score_NewGame 255)\<lparr>dealCounter := 40\<rparr>) = None"
  by (rule AddPoints_overflow) (simp_all add: Score_NewGame_def MAX_NUMBER_OF_TURNS_def)

end
