(* ===== verification/Json_Values.thy ===== *)
theory Json_Values
  imports Scores "HOL-Library.Char_ord" "HOL-Library.List_Lexorder"
begin

text \<open>
  JSON documents (JsonValue.h, JsonValue.cpp, the string helpers of Util.cpp they use, and
  JsonWriter.cpp's text form).

  A \<open>JsonValue\<close> carries one field per type and a tag; only the field of the tag is ever set by its
  constructors, so it is a tagged union here and the untagged getters return the default of the
  other fields. An object is a \<open>std::map\<close>: a list of entries sorted by key, \<^const>\<open>smap_put\<close> being
  \<open>operator[]\<close> and assignment. The value of a double is a rational; no rounding of the machine's
  floating point is modelled.
\<close>

section \<open>Values\<close>

datatype json =
  JInvalid
| JNull
| JBool bool
| JInt int
| JDouble rat
| JString string
| JArr "json list"
| JObj "(string \<times> json) list"

fun IsValid :: "json \<Rightarrow> bool" where
  "IsValid JInvalid = False"
| "IsValid _ = True"

fun GetString :: "json \<Rightarrow> string" where
  "GetString (JString s) = s"
| "GetString _ = []"

fun GetBool :: "json \<Rightarrow> bool" where
  "GetBool (JBool b) = b"
| "GetBool _ = False"

fun GetInteger64 :: "json \<Rightarrow> int" where
  "GetInteger64 (JInt i) = i"
| "GetInteger64 _ = 0"

definition GetInteger :: "json \<Rightarrow> int" where
  "GetInteger v = to_i32 (GetInteger64 v)"

fun GetArray :: "json \<Rightarrow> json list" where
  "GetArray (JArr vs) = vs"
| "GetArray _ = []"

fun GetObj :: "json \<Rightarrow> (string \<times> json) list" where
  "GetObj (JObj m) = m"
| "GetObj _ = []"

definition AddValue :: "string \<Rightarrow> json \<Rightarrow> (string \<times> json) list \<Rightarrow> (string \<times> json) list" where
  "AddValue name v m = smap_put name v m"

definition make_object :: "(string \<times> json) list \<Rightarrow> (string \<times> json) list" where
  "make_object kvs = fold (\<lambda>(k, v) m. AddValue k v m) kvs []"

definition GetEntry :: "nat \<Rightarrow> json list \<Rightarrow> json" where
  "GetEntry index vs = (if index < length vs then vs ! index else JInvalid)"

definition DeleteEntry :: "nat \<Rightarrow> json list \<Rightarrow> bool \<times> json list" where
  "DeleteEntry index vs =
     (if index < length vs then (True, take index vs @ drop (Suc index) vs) else (False, vs))"

section \<open>Key paths\<close>

text \<open>\<open>Util::Split\<close> and \<open>Util::Join\<close> with a delimiter of one character.\<close>

fun split_on :: "char \<Rightarrow> string \<Rightarrow> string list" where
  "split_on d [] = [[]]"
| "split_on d (ch # s) =
     (if ch = d then [] # split_on d s
      else (case split_on d s of [] \<Rightarrow> [[ch]] | w # ws \<Rightarrow> (ch # w) # ws))"

fun join_on :: "string \<Rightarrow> string list \<Rightarrow> string" where
  "join_on d [] = []"
| "join_on d [w] = w"
| "join_on d (w # w' # ws) = w @ d @ join_on d (w' # ws)"

text \<open>
  The loop of \<open>FindValue\<close> over the keys: in an object without the key, or an array without an
  object that has it, the search goes on with the next key from the same value.
\<close>

fun array_lookup :: "string \<Rightarrow> json list \<Rightarrow> json option" where
  "array_lookup k [] = None"
| "array_lookup k (JObj m # vs) = (case map_of m k of Some v \<Rightarrow> Some v | None \<Rightarrow> array_lookup k vs)"
| "array_lookup k (_ # vs) = array_lookup k vs"

fun find_keys :: "string list \<Rightarrow> bool \<Rightarrow> json \<Rightarrow> bool \<times> json" where
  "find_keys [] found v = (found, v)"
| "find_keys (k # ks) found (JObj m) =
     (case map_of m k of Some v \<Rightarrow> find_keys ks True v | None \<Rightarrow> find_keys ks found (JObj m))"
| "find_keys (k # ks) found (JArr vs) =
     (case array_lookup k vs of Some v \<Rightarrow> find_keys ks True v | None \<Rightarrow> find_keys ks found (JArr vs))"
| "find_keys (k # ks) found v = (found, v)"

definition FindValue :: "string \<Rightarrow> json \<Rightarrow> json" where
  "FindValue keyPath v =
     (let (found, r) = find_keys (split_on (CHR '':'') keyPath) False v
      in if found then r else JInvalid)"

definition HasValue :: "string \<Rightarrow> json \<Rightarrow> bool" where
  "HasValue keyPath v = IsValid (FindValue keyPath v)"

definition Object_HasValue :: "string \<Rightarrow> (string \<times> json) list \<Rightarrow> bool" where
  "Object_HasValue keyPath m =
     (let keys = split_on (CHR '':'') keyPath
      in case map_of m (hd keys) of
           None \<Rightarrow> False
         | Some v \<Rightarrow> if tl keys = [] then True else HasValue (join_on '':'' (tl keys)) v)"

definition Object_GetValue :: "string \<Rightarrow> (string \<times> json) list \<Rightarrow> json" where
  "Object_GetValue keyPath m =
     (let keys = split_on (CHR '':'') keyPath
      in case map_of m (hd keys) of
           None \<Rightarrow> JInvalid
         | Some v \<Rightarrow> if tl keys = [] then v else FindValue (join_on '':'' (tl keys)) v)"

definition GetKeys :: "(string \<times> json) list \<Rightarrow> string list" where
  "GetKeys m = map fst m"

text \<open>\<open>JsonValue::GetValue\<close> into a string: the result and whether a string was found.\<close>

definition GetValue_string :: "string \<Rightarrow> json \<Rightarrow> string option" where
  "GetValue_string nodePath v =
     (case FindValue nodePath v of JString s \<Rightarrow> Some s | _ \<Rightarrow> None)"

definition GetValue_int32 :: "string \<Rightarrow> json \<Rightarrow> int option" where
  "GetValue_int32 nodePath v =
     (case FindValue nodePath v of JInt i \<Rightarrow> Some (to_i32 i) | _ \<Rightarrow> None)"

definition GetValue_uint32 :: "string \<Rightarrow> json \<Rightarrow> int option" where
  "GetValue_uint32 nodePath v =
     (case FindValue nodePath v of JInt i \<Rightarrow> Some (to_u32 (to_i32 i)) | _ \<Rightarrow> None)"

definition GetValue_bool :: "string \<Rightarrow> json \<Rightarrow> bool option" where
  "GetValue_bool nodePath v =
     (case FindValue nodePath v of JBool b \<Rightarrow> Some b | _ \<Rightarrow> None)"

text \<open>\<open>ReplaceValue\<close> on the keys of a path; an array index that does not parse reads as 0.\<close>

function replace_keys :: "string list \<Rightarrow> json \<Rightarrow> json \<Rightarrow> bool \<times> json" where
  "replace_keys [] new v = (False, v)"
| "replace_keys (k # ks) new (JObj m) =
     (case map_of m k of
        None \<Rightarrow> (False, JObj m)
      | Some v \<Rightarrow>
          (let (ret, v') = (if ks = [] then (True, new) else replace_keys ks new v)
           in (ret, JObj (smap_put k v' m))))"
| "replace_keys (k # ks) new (JArr vs) =
     (let index = read_u32 0 k
      in if index < length vs then
           (let (ret, v') = (if ks = [] then (True, new) else replace_keys ks new (vs ! index))
            in (ret, JArr (vs[index := v'])))
         else (False, JArr vs))"
| "replace_keys (k # ks) new JInvalid = (False, JInvalid)"
| "replace_keys (k # ks) new JNull = (False, JNull)"
| "replace_keys (k # ks) new (JBool b) = (False, JBool b)"
| "replace_keys (k # ks) new (JInt i) = (False, JInt i)"
| "replace_keys (k # ks) new (JDouble x) = (False, JDouble x)"
| "replace_keys (k # ks) new (JString s) = (False, JString s)"
  by pat_completeness auto

termination
  by (relation "measure (\<lambda>(ks, _, _). length ks)") auto

definition ReplaceValue :: "string \<Rightarrow> json \<Rightarrow> json \<Rightarrow> bool \<times> json" where
  "ReplaceValue keyPath new v = replace_keys (split_on (CHR '':'') keyPath) new v"

section \<open>Text form\<close>

definition CreateIndent :: "int \<Rightarrow> string" where
  "CreateIndent level = replicate (nat (4 * level)) (CHR '' '')"

definition int_string :: "int \<Rightarrow> string" where
  "int_string i = (if i < 0 then ''-'' @ dec_string (nat (- i)) else dec_string (nat i))"

text \<open>\<open>std::to_string\<close> of a double: six decimals, rounded to the nearest, ties to even.\<close>

definition round_even :: "rat \<Rightarrow> int" where
  "round_even x =
     (let f = \<lfloor>x\<rfloor>; r = x - of_int f
      in if r < 1 / 2 then f else if 1 / 2 < r then f + 1 else if even f then f else f + 1)"

definition double_string :: "rat \<Rightarrow> string" where
  "double_string x =
     (let n = nat (round_even (\<bar>x\<bar> * 1000000))
      in (if x < 0 then ''-'' else []) @ dec_string (n div 1000000) @ ''.'' @ pad0 6 (dec_string (n mod 1000000)))"

text \<open>Only the backslash is escaped: a quote or a control character is written as it is.\<close>

definition escape_string :: "string \<Rightarrow> string" where
  "escape_string s = concat (map (\<lambda>ch. if ch = CHR 92 then [CHR 92, CHR 92] else [ch]) s)"

definition crlf_of :: "int \<Rightarrow> string" where
  "crlf_of level = (if 0 \<le> level then [CHR 10] else [])"

definition indent_of :: "int \<Rightarrow> string" where
  "indent_of level = (if 0 \<le> level then CreateIndent (level + 1) else [])"

definition next_level :: "int \<Rightarrow> int" where
  "next_level level = (if 0 \<le> level then level + 1 else - 1)"

text \<open>Entries are separated by a comma and a line end.\<close>

fun separated :: "string \<Rightarrow> string list \<Rightarrow> string" where
  "separated sep [] = []"
| "separated sep [w] = w"
| "separated sep (w # w' # ws) = w @ sep @ separated sep (w' # ws)"

fun json_string :: "int \<Rightarrow> json \<Rightarrow> string" where
  "json_string level (JString s) = [CHR 34] @ escape_string s @ [CHR 34]"
| "json_string level (JInt i) = int_string i"
| "json_string level (JBool b) = (if b then ''true'' else ''false'')"
| "json_string level (JDouble x) = double_string x"
| "json_string level JNull = ''null''"
| "json_string level (JObj m) =
     ''{'' @ crlf_of level @
     separated ('','' @ crlf_of level)
       (map (\<lambda>(k, v). indent_of level @ [CHR 34] @ k @ [CHR 34] @ '':'' @ json_string (next_level level) v) m) @
     crlf_of level @ indent_of level @ ''}''"
| "json_string level (JArr vs) =
     ''['' @ crlf_of level @
     separated ('','' @ crlf_of level) (map (\<lambda>v. indent_of level @ json_string (next_level level) v) vs) @
     crlf_of level @ indent_of level @ '']''"
| "json_string level JInvalid =
     ''['' @ crlf_of level @ crlf_of level @ indent_of level @ '']''"

definition Object_ToString :: "int \<Rightarrow> (string \<times> json) list \<Rightarrow> string" where
  "Object_ToString level m = json_string level (JObj m)"

section \<open>Lemmas\<close>

lemma split_on_nonempty [simp]: "split_on d s \<noteq> []"
  by (cases s) (auto split: list.splits)

lemma split_on_plain [simp]: "d \<notin> set s \<Longrightarrow> split_on d s = [s]"
  by (induction s) auto

lemma split_on_append: "d \<notin> set w \<Longrightarrow> split_on d (w @ d # s) = w # split_on d s"
  by (induction w) auto

lemma split_join_on:
  "ws \<noteq> [] \<Longrightarrow> \<forall>w \<in> set ws. d \<notin> set w \<Longrightarrow> split_on d (join_on [d] ws) = ws"
  by (induction "[d]" ws rule: join_on.induct) (auto simp: split_on_append)

lemma FindValue_key:
  "CHR '':'' \<notin> set k \<Longrightarrow> FindValue k (JObj m) = (case map_of m k of Some v \<Rightarrow> v | None \<Rightarrow> JInvalid)"
  by (auto simp: FindValue_def split: option.split)

lemma smap_put_lookup [simp]: "map_of (smap_put k v m) k' = (if k' = k then Some v else map_of m k')"
  by (induction m) auto

lemma make_object_lookup:
  "map_of (make_object kvs) = (\<lambda>k. map_of (rev kvs) k)"
proof (rule ext)
  fix k
  have "map_of (fold (\<lambda>(k, v) m. AddValue k v m) kvs m) k = (case map_of (rev kvs) k of Some v \<Rightarrow> Some v | None \<Rightarrow> map_of m k)" for m
    by (induction kvs arbitrary: m) (auto simp: AddValue_def map_add_def split: option.splits)
  from this [of "[]"] show "map_of (make_object kvs) k = map_of (rev kvs) k"
    by (simp add: make_object_def split: option.split)
qed

lemma make_object_sorted: "sorted_wrt (<) (map fst (make_object kvs))"
proof -
  have "sorted_wrt (<) (map fst m) \<Longrightarrow> sorted_wrt (<) (map fst (fold (\<lambda>(k, v) m. AddValue k v m) kvs m))" for m
  proof (induction kvs arbitrary: m)
    case Nil
    then show ?case by simp
  next
    case (Cons a kvs)
    from Cons.IH [OF smap_put_sorted [OF Cons.prems]] show ?case
      by (simp add: AddValue_def split_beta)
  qed
  from this [of "[]"] show ?thesis by (simp add: make_object_def)
qed

lemma FindValue_make_object:
  "CHR '':'' \<notin> set k \<Longrightarrow>
   FindValue k (JObj (make_object kvs)) = (case map_of (rev kvs) k of Some v \<Rightarrow> v | None \<Rightarrow> JInvalid)"
  by (simp add: FindValue_key make_object_lookup)

end
