(* ===== verification/Json_Reader.thy ===== *)
theory Json_Reader
  imports Json_Values "HOL-Library.Log_Nat" "HOL-Library.Sublist"
begin

text \<open>
  The JSON parser (JsonReader.h, JsonReader.cpp). The three maps indexed by the depth are one stack of
  frames, top first, each with the pending key and the node under construction. A result is a document,
  one of the parser's error codes, \<open>Overrun\<close> where the code reads past the end of its text, or
  \<open>Unrepresentable\<close> where it converts a number that does not fit.

  Doubles are rationals rounded to 53 bits after each operation; subnormal numbers and infinities are
  not modelled, a number that would need them is \<open>Unrepresentable\<close> too.
\<close>

section \<open>Results\<close>

datatype parse_status =
  JSON_PARSE_OK | JSON_PARSE_BAD_NUMBER | JSON_PARSE_BAD_STRING | JSON_PARSE_BAD_IDENTIFIER
| JSON_PARSE_STACK_UNDERFLOW | JSON_PARSE_MISMATCH_BRACKET | JSON_PARSE_UNEXPECTED_CHARACTER
| JSON_PARSE_UNQUOTED_KEY | JSON_PARSE_BREAKING_BAD | JSON_PARSE_ALLOC_ERROR

datatype parse_result = Document json | Failure parse_status | Overrun | Unrepresentable

section \<open>Characters\<close>

definition iscntrl :: "char \<Rightarrow> bool" where
  "iscntrl ch = ((of_char ch :: nat) < 32 \<or> (of_char ch :: nat) = 127)"

definition isxdigit :: "char \<Rightarrow> bool" where
  "isxdigit ch = (is_digit ch \<or> 65 \<le> (of_char ch :: nat) \<and> (of_char ch :: nat) \<le> 70 \<or>
                  97 \<le> (of_char ch :: nat) \<and> (of_char ch :: nat) \<le> 102)"

definition CharToInt :: "char \<Rightarrow> nat" where
  "CharToInt ch =
     (if 97 \<le> (of_char ch :: nat) then of_char ch - 87
      else if 65 \<le> (of_char ch :: nat) then of_char ch - 55 else of_char ch - 48)"

definition IsDelim :: "string \<Rightarrow> bool" where
  "IsDelim s = (case s of [] \<Rightarrow> True
                | ch # _ \<Rightarrow> is_space ch \<or> ch = CHR '','' \<or> ch = CHR '':'' \<or> ch = CHR '']'' \<or> ch = CHR ''}'')"

section \<open>Numbers\<close>

text \<open>The nearest number of 53 significant bits to a number that is not negative, ties to even.\<close>

definition fl :: "rat \<Rightarrow> rat" where
  "fl x =
     (if x \<le> 0 then 0
      else
        (let (n, d) = quotient_of x;
             e0 = int (floorlog 2 (nat n)) - int (floorlog 2 (nat d));
             e = (if 2 powi e0 \<le> x then e0 else e0 - 1);
             u = 2 powi (e - 52)
         in of_int (round_even (x / u)) * u))"

fun integer_digits :: "rat \<Rightarrow> string \<Rightarrow> rat \<times> string" where
  "integer_digits r [] = (r, [])"
| "integer_digits r (ch # s) =
     (if is_digit ch then integer_digits (fl (fl (r * 10) + of_nat (of_char ch - 48))) s else (r, ch # s))"

fun fraction_digits :: "rat \<Rightarrow> rat \<Rightarrow> string \<Rightarrow> rat \<times> string" where
  "fraction_digits fraction r [] = (r, [])"
| "fraction_digits fraction r (ch # s) =
     (if is_digit ch then
        (let fraction' = fl (fraction * fl (1 / 10))
         in fraction_digits fraction' (fl (r + fl (of_nat (of_char ch - 48) * fraction'))) s)
      else (r, ch # s))"

fun exponent_digits :: "nat \<Rightarrow> string \<Rightarrow> nat \<times> string" where
  "exponent_digits n [] = (n, [])"
| "exponent_digits n (ch # s) =
     (if is_digit ch then exponent_digits (n * 10 + (of_char ch - 48)) s else (n, ch # s))"

text \<open>The loop over the bits of the exponent.\<close>

fun power_loop :: "nat \<Rightarrow> rat \<Rightarrow> rat \<Rightarrow> rat" where
  "power_loop n base pow =
     (if n = 0 then pow
      else power_loop (n div 2) (fl (base * base)) (if odd n then fl (pow * base) else pow))"

declare power_loop.simps [simp del]

definition in_double_range :: "rat \<Rightarrow> bool" where
  "in_double_range x = (x = 0 \<or> 2 powi (- 1022) \<le> x \<and> x < 2 powi 1024)"

text \<open>The fraction and the exponent, with a flag that tells whether the text has one.\<close>

definition fraction_part :: "rat \<Rightarrow> string \<Rightarrow> bool \<times> rat \<times> string" where
  "fraction_part r s =
     (if s \<noteq> [] \<and> hd s = CHR ''.'' then (True, fraction_digits 1 r (tl s)) else (False, r, s))"

definition exponent_part :: "string \<Rightarrow> bool \<times> nat \<times> rat \<times> string" where
  "exponent_part s =
     (if s \<noteq> [] \<and> (hd s = CHR ''e'' \<or> hd s = CHR ''E'') then
        (let s1 = tl s;
             small = (s1 \<noteq> [] \<and> hd s1 = CHR ''-'');
             s2 = (if s1 \<noteq> [] \<and> (hd s1 = CHR ''+'' \<or> hd s1 = CHR ''-'') then tl s1 else s1);
             (n, s3) = exponent_digits 0 s2
         in (True, n, power_loop n (if small then fl (1 / 10) else 10) 1, s3))
      else (False, 0, 1, s))"

text \<open>\<open>StringToNumber\<close> returns the number and the rest of the text.\<close>

definition StringToNumber :: "string \<Rightarrow> (json \<times> string) option" where
  "StringToNumber s =
     (let signed = (s \<noteq> [] \<and> (hd s = CHR ''+'' \<or> hd s = CHR ''-''));
          (r1, s1) = integer_digits 0 (if signed then tl s else s);
          (isFraction, r2, s2) = fraction_part r1 s1;
          (isExponent, n, pow, s3) = exponent_part s2;
          r3 = (if isExponent then fl (r2 * pow) else r2);
          r4 = (if s \<noteq> [] \<and> hd s = CHR ''-'' then - r3 else r3)
      in if isFraction \<or> isExponent then
           (if n < 2 ^ 31 \<and> in_double_range pow \<and> in_double_range r3 then Some (JDouble r4, s3) else None)
         else if - (2 ^ 63) \<le> r4 \<and> r4 < 2 ^ 63 then Some (JInt \<lfloor>r4\<rfloor>, s3) else None)"

section \<open>Strings and literals\<close>

definition utf8 :: "nat \<Rightarrow> string" where
  "utf8 c =
     (if c < 128 then [char_of c]
      else if c < 2048 then [char_of (192 + c div 64), char_of (128 + c mod 64)]
      else [char_of (224 + c div 4096), char_of (128 + (c div 64) mod 64), char_of (128 + c mod 64)])"

definition simple_escape :: "char \<Rightarrow> char option" where
  "simple_escape ch =
     (if ch = CHR 92 \<or> ch = CHR 34 \<or> ch = CHR ''/'' then Some ch
      else if ch = CHR ''b'' then Some (CHR 8) else if ch = CHR ''f'' then Some (CHR 12)
      else if ch = CHR ''n'' then Some (CHR 10) else if ch = CHR ''r'' then Some (CHR 13)
      else if ch = CHR ''t'' then Some (CHR 9) else None)"

definition hex4 :: "string \<Rightarrow> (nat \<times> string) option" where
  "hex4 s =
     (if 4 \<le> length s \<and> list_all isxdigit (take 4 s)
      then Some (fold (\<lambda>ch c. c * 16 + CharToInt ch) (take 4 s) 0, drop 4 s) else None)"

lemma hex4_rest: "hex4 s = Some (c, s') \<Longrightarrow> suffix s' s"
  by (auto simp: hex4_def suffix_drop split: if_splits)

text \<open>
  The loop over the characters of a string; the text may also end before the closing quote. \<open>None\<close>
  is a bad string.
\<close>

function string_body :: "string \<Rightarrow> string \<Rightarrow> (string \<times> string) option" where
  "string_body temp [] = Some (temp, [])"
| "string_body temp (ch # s) =
     (if ch = CHR 92 then
        (case s of
           [] \<Rightarrow> None
         | e # s' \<Rightarrow>
             (case simple_escape e of
                Some x \<Rightarrow> string_body (temp @ [x]) s'
              | None \<Rightarrow>
                  if e = CHR ''u'' then
                    (case hex4 s' of None \<Rightarrow> None | Some (c, s'') \<Rightarrow> string_body (temp @ utf8 c) s'')
                  else None))
      else if iscntrl ch then None
      else if ch = CHR 34 then Some (temp, s)
      else string_body (temp @ [ch]) s)"
  by pat_completeness auto

termination
  by (relation "measure (\<lambda>(_, s). length s)") (auto dest!: hex4_rest suffix_length_le)

definition literal :: "string \<Rightarrow> json \<Rightarrow> string \<Rightarrow> parse_result + json \<times> string" where
  "literal w v s =
     (if take (length w) s = w \<and> IsDelim (drop (length w) s) then Inr (v, drop (length w) s)
      else Inl (Failure JSON_PARSE_BAD_IDENTIFIER))"

text \<open>The cases of the switch that build a value from its first character and the text after it.\<close>

definition read_value :: "char \<Rightarrow> string \<Rightarrow> parse_result + json \<times> string" where
  "read_value ch s =
     (if ch = CHR ''-'' \<and> \<not> (s \<noteq> [] \<and> (is_digit (hd s) \<or> hd s = CHR ''.'')) then
        Inl (Failure JSON_PARSE_BAD_NUMBER)
      else if ch = CHR ''-'' \<or> is_digit ch then
        (case StringToNumber (ch # s) of
           None \<Rightarrow> Inl Unrepresentable
         | Some (v, s') \<Rightarrow> if IsDelim s' then Inr (v, s') else Inl (Failure JSON_PARSE_BAD_NUMBER))
      else if ch = CHR 34 then
        (case string_body [] s of
           None \<Rightarrow> Inl (Failure JSON_PARSE_BAD_STRING)
         | Some (temp, s') \<Rightarrow>
             if IsDelim s' then Inr (JString temp, s') else Inl (Failure JSON_PARSE_BAD_STRING))
      else if ch = CHR ''t'' then literal ''rue'' (JBool True) s
      else if ch = CHR ''f'' then literal ''alse'' (JBool False) s
      else if ch = CHR ''n'' then literal ''ull'' JNull s
      else Inl (Failure JSON_PARSE_UNEXPECTED_CHARACTER))"

section \<open>Documents\<close>

record frame =
  pending :: string
  node :: json

fun is_object :: "json \<Rightarrow> bool" where
  "is_object (JObj _) = True"
| "is_object _ = False"

text \<open>A value enters an object under the pending key, which is used up, or the end of an array.\<close>

fun add_node :: "json \<Rightarrow> frame \<Rightarrow> frame" where
  "add_node v f =
     (case node f of
        JObj m \<Rightarrow> f\<lparr>node := JObj (AddValue (pending f) v m), pending := []\<rparr>
      | JArr vs \<Rightarrow> f\<lparr>node := JArr (vs @ [v]), pending := []\<rparr>
      | _ \<Rightarrow> f)"

definition close_node :: "frame list \<Rightarrow> parse_result + frame list" where
  "close_node st =
     (case st of
        [] \<Rightarrow> Inl (Failure JSON_PARSE_STACK_UNDERFLOW)
      | [f] \<Rightarrow> Inl (Document (node f))
      | f # g # st' \<Rightarrow> Inr (add_node (node f) g # st'))"

definition store_value :: "json \<Rightarrow> frame list \<Rightarrow> parse_result + frame list" where
  "store_value v st =
     (case st of
        [] \<Rightarrow> Inl (Failure JSON_PARSE_ALLOC_ERROR)
      | f # st' \<Rightarrow>
          if is_object (node f) \<and> pending f = [] then
            (case v of JString k \<Rightarrow> Inr (f\<lparr>pending := k\<rparr> # st') | _ \<Rightarrow> Inl (Failure JSON_PARSE_UNQUOTED_KEY))
          else Inr (add_node v f # st'))"

text \<open>
  One turn of the loop on a character that is not white space, with the text after it: the code's
  \<open>return\<close>, or the new stack, separator flag and text.
\<close>

definition parse_char :: "frame list \<Rightarrow> bool \<Rightarrow> char \<Rightarrow> string \<Rightarrow> parse_result + frame list \<times> bool \<times> string" where
  "parse_char st separator ch s =
     (if ch = CHR '']'' then
        (if st = [] then Inl (Failure JSON_PARSE_STACK_UNDERFLOW)
         else if is_object (node (hd st)) then Inl (Failure JSON_PARSE_MISMATCH_BRACKET)
         else (case close_node st of Inl r \<Rightarrow> Inl r | Inr st' \<Rightarrow> Inr (st', False, s)))
      else if ch = CHR ''}'' then
        (if st = [] then Inl (Failure JSON_PARSE_STACK_UNDERFLOW)
         else if \<not> is_object (node (hd st)) then Inl (Failure JSON_PARSE_MISMATCH_BRACKET)
         else if pending (hd st) \<noteq> [] then Inl (Failure JSON_PARSE_UNEXPECTED_CHARACTER)
         else (case close_node st of Inl r \<Rightarrow> Inl r | Inr st' \<Rightarrow> Inr (st', False, s)))
      else if ch = CHR ''['' then Inr (\<lparr>pending = [], node = JArr []\<rparr> # st, True, s)
      else if ch = CHR ''{'' then Inr (\<lparr>pending = [], node = JObj []\<rparr> # st, True, s)
      else if ch = CHR '':'' then
        (if separator \<or> st = [] \<or> pending (hd st) = [] then Inl (Failure JSON_PARSE_UNEXPECTED_CHARACTER)
         else Inr (st, True, s))
      else if ch = CHR '','' then
        (if separator \<or> (st \<noteq> [] \<and> pending (hd st) \<noteq> []) then Inl (Failure JSON_PARSE_UNEXPECTED_CHARACTER)
         else Inr (st, True, s))
      else
        (case read_value ch s of
           Inl r \<Rightarrow> Inl r
         | Inr (v, s') \<Rightarrow> (case store_value v st of Inl r \<Rightarrow> Inl r | Inr st' \<Rightarrow> Inr (st', False, s'))))"

text \<open>White space up to the end of the text takes the code past the terminating zero.\<close>

function Parse :: "frame list \<Rightarrow> bool \<Rightarrow> string \<Rightarrow> parse_result" where
  "Parse st separator s =
     (if s = [] then Failure JSON_PARSE_BREAKING_BAD
      else
        (case dropWhile is_space s of
           [] \<Rightarrow> Overrun
         | ch # s' \<Rightarrow>
             (case parse_char st separator ch s' of
                Inl r \<Rightarrow> r
              | Inr (st', separator', s'') \<Rightarrow> Parse st' separator' s'')))"
  by pat_completeness auto

text \<open>A string ends at its first zero character, as \<open>strdup\<close> copies it.\<close>

definition ParseString :: "string \<Rightarrow> parse_result" where
  "ParseString data = Parse [] True (takeWhile (\<lambda>ch. ch \<noteq> CHR 0x00) data)"

section \<open>The parser ends\<close>

text \<open>What a step leaves of the text is its end.\<close>

lemma integer_digits_rest:
  "integer_digits r s = (r', s') \<Longrightarrow> suffix s' s \<and> (s \<noteq> [] \<and> is_digit (hd s) \<longrightarrow> suffix s' (tl s))"
  by (induction r s rule: integer_digits.induct) (auto intro: suffix_ConsI split: if_splits)

lemma fraction_digits_rest: "fraction_digits f r s = (r', s') \<Longrightarrow> suffix s' s"
  by (induction f r s rule: fraction_digits.induct) (auto intro: suffix_ConsI simp: Let_def split: if_splits)

lemma exponent_digits_rest: "exponent_digits n s = (n', s') \<Longrightarrow> suffix s' s"
  by (induction n s rule: exponent_digits.induct) (auto intro: suffix_ConsI split: if_splits)

lemma string_body_rest: "string_body temp s = Some (t, s') \<Longrightarrow> suffix s' s"
proof (induction temp s rule: string_body.induct)
  case (2 temp ch s)
  show ?case
  proof (cases "ch = CHR 92")
    case True
    with 2(4) obtain e s1 where s: "s = e # s1" by (cases s) auto
    show ?thesis
    proof (cases "simple_escape e")
      case None
      with 2(4) True s obtain c s2 where h: "hex4 s1 = Some (c, s2)" "e = CHR ''u''" "string_body (temp @ utf8 c) s2 = Some (t, s')"
        by (auto split: if_splits option.splits)
      from 2(1) [OF True s None h(2,1) refl h(3)] hex4_rest [OF h(1)] show ?thesis
        unfolding s by (blast intro: suffix_ConsI suffix_order.trans)
    next
      case (Some x)
      with 2(2) [OF True s Some] 2(4) True s show ?thesis by (auto intro: suffix_ConsI)
    qed
  next
    case False
    with 2(3,4) show ?thesis by (auto intro: suffix_ConsI split: if_splits)
  qed
qed simp

lemma digits_not_sign: "is_digit ch \<Longrightarrow> ch \<noteq> CHR ''+'' \<and> ch \<noteq> CHR ''-'' \<and> ch \<noteq> CHR ''.'' \<and> ch \<noteq> CHR ''e'' \<and> ch \<noteq> CHR ''E''"
  by (auto simp: is_digit_def)

lemma suffix_tl_trans: "suffix s' (tl s) \<Longrightarrow> suffix s' s"
  by (cases s) (auto intro: suffix_ConsI)

lemma fraction_part_rest: "fraction_part r s = (b, r', s') \<Longrightarrow> suffix s' s"
  using fraction_digits_rest [of 1 r "tl s" r' s'] by (auto simp: fraction_part_def intro: suffix_tl_trans split: if_splits)

lemma exponent_part_rest: "exponent_part s = (b, n, p, s') \<Longrightarrow> suffix s' s"
  by (auto simp: exponent_part_def Let_def intro: suffix_tl_trans split: if_splits prod.splits dest!: exponent_digits_rest)

lemma StringToNumber_rest:
  assumes "StringToNumber (ch # s) = Some (v, s')" "ch = CHR ''-'' \<or> is_digit ch"
  shows "suffix s' s"
proof -
  obtain r1 s1 where i: "integer_digits 0 (if ch = CHR ''-'' then s else ch # s) = (r1, s1)"
    by (metis surj_pair)
  obtain b r2 s2 where f: "fraction_part r1 s1 = (b, r2, s2)" by (metis surj_pair)
  obtain b' n pow s3 where e: "exponent_part s2 = (b', n, pow, s3)" by (metis surj_pair)
  have signed: "(ch # s \<noteq> [] \<and> (hd (ch # s) = CHR ''+'' \<or> hd (ch # s) = CHR ''-'')) = (ch = CHR ''-'')"
    using assms(2) digits_not_sign by auto
  have "s' = s3"
    using assms(1) unfolding StringToNumber_def signed Let_def list.sel(3) i prod.case f e
    by (auto split: if_splits)
  moreover have "suffix s1 s"
    using integer_digits_rest [OF i] assms(2) by (auto split: if_splits)
  ultimately show ?thesis
    using fraction_part_rest [OF f] exponent_part_rest [OF e] by (blast intro: suffix_order.trans)
qed

lemma read_value_rest: "read_value ch s = Inr (v, s') \<Longrightarrow> suffix s' s"
  by (auto simp: read_value_def literal_def suffix_drop split: if_splits option.splits
      dest: StringToNumber_rest string_body_rest)

lemma parse_char_rest: "parse_char st separator ch s = Inr (st', separator', s') \<Longrightarrow> suffix s' s"
  by (auto simp: parse_char_def split: if_splits sum.splits dest: read_value_rest)

lemma dropWhile_rest: "dropWhile P s = ch # s' \<Longrightarrow> suffix (ch # s') s"
  by (metis suffix_dropWhile)

termination Parse
  by (relation "measure (\<lambda>(_, _, s). length s)") (auto dest!: parse_char_rest dropWhile_rest suffix_length_le)

declare Parse.simps [simp del] string_body.simps [simp del]

text \<open>The end of a text that does not end in white space is such a text.\<close>

definition ends_well :: "string \<Rightarrow> bool" where
  "ends_well s = (s \<noteq> [] \<longrightarrow> \<not> is_space (last s))"

lemma ends_well_suffix: "ends_well s \<Longrightarrow> suffix s' s \<Longrightarrow> ends_well s'"
  by (auto simp: ends_well_def suffix_def)

lemma if_not: "a \<noteq> x \<Longrightarrow> b \<noteq> x \<Longrightarrow> (if c then a else b) \<noteq> x"
  by simp

lemma no_overrun_char: "parse_char st separator ch s \<noteq> Inl Overrun"
proof -
  have "read_value ch s \<noteq> Inl Overrun"
    unfolding read_value_def literal_def by (intro if_not) (simp_all split: option.split prod.split)
  moreover have "close_node st \<noteq> Inl Overrun"
    by (simp add: close_node_def split: list.split)
  moreover have "store_value v st \<noteq> Inl Overrun" for v
    by (simp add: store_value_def split: list.split json.split)
  ultimately have
    "(case read_value ch s of Inl r \<Rightarrow> Inl r
      | Inr (v, s') \<Rightarrow> (case store_value v st of Inl r \<Rightarrow> Inl r | Inr st' \<Rightarrow> Inr (st', False, s'))) \<noteq> Inl Overrun"
    "(case close_node st of Inl r \<Rightarrow> Inl r | Inr st' \<Rightarrow> Inr (st', False, s)) \<noteq> Inl Overrun"
    by (auto split: sum.split)
  then show ?thesis unfolding parse_char_def by (intro if_not) simp_all
qed

lemma Parse_no_overrun: "ends_well s \<Longrightarrow> Parse st separator s \<noteq> Overrun"
proof (induction st separator s rule: Parse.induct)
  case (1 st separator s)
  show ?case
  proof (cases "s = []")
    case True
    then show ?thesis by (simp add: Parse.simps)
  next
    case False
    with 1(2) have "dropWhile is_space s \<noteq> []"
      by (auto simp: ends_well_def dropWhile_eq_Nil_conv dest: last_in_set)
    then obtain ch s' where d: "dropWhile is_space s = ch # s'" by (cases "dropWhile is_space s") auto
    show ?thesis
    proof (cases "parse_char st separator ch s'")
      case (Inl r)
      with no_overrun_char [of st separator ch s'] False d show ?thesis by (subst Parse.simps) auto
    next
      case (Inr r)
      obtain st' separator' s'' where r: "r = (st', separator', s'')" by (cases r)
      have "ends_well s''"
        using 1(2) parse_char_rest [OF Inr [unfolded r]] dropWhile_rest [OF d]
        by (meson ends_well_suffix suffix_ConsD suffix_order.trans)
      from 1(1) [OF False d Inr [unfolded r] refl refl this] Inr r False d show ?thesis
        by (subst Parse.simps) simp
    qed
  qed
qed

section \<open>Reading what was written: numbers\<close>

lemma round_even_int: "round_even (of_int i) = i"
  by (simp add: round_even_def Let_def)

lemma fl_of_nat: "n < 2 ^ 53 \<Longrightarrow> fl (of_nat n) = of_nat n"
proof (cases "n = 0")
  case False
  assume n: "n < 2 ^ 53"
  define k where "k = floorlog 2 n"
  have k: "0 < k" "k \<le> 53" using False floorlog_le_iff [of 2 n 53] n by (auto simp: k_def floorlog_def)
  have lower: "2 ^ (k - 1) \<le> n" using floorlog_bounds [of n 2] False by (simp add: k_def)
  have one: "floorlog 2 (Suc 0) = 1" by (simp add: floorlog_def)
  have e0: "int k - 1 = int (k - 1)" using k by simp
  have pow: "(2 :: rat) powi (int k - 1) = of_nat (2 ^ (k - 1))" unfolding e0 by (simp add: power_int_def)
  have le: "(2 :: rat) powi (int k - 1) \<le> of_nat n" unfolding pow using lower by (simp only: of_nat_le_iff)
  define u where "u = (2 :: rat) powi (int k - 1 - 52)"
  have u: "u = 1 / of_int (2 ^ (53 - k))"
    unfolding u_def using k by (auto simp: power_int_def nat_diff_distrib field_simps split: if_splits)
  have quot: "quotient_of (of_nat n :: rat) = (int n, 1)" using quotient_of_int [of "int n"] by simp
  have "of_nat n / u = of_int (int n * 2 ^ (53 - k))" unfolding u by simp
  then have "of_int (round_even (of_nat n / u)) * u = of_nat n"
    by (simp only: round_even_int) (simp add: u)
  moreover have "fl (of_nat n) = of_int (round_even (of_nat n / u)) * u"
    using False le by (simp add: fl_def Let_def quot one k_def [symmetric] u_def)
  ultimately show ?thesis by simp
qed (simp add: fl_def)

lemma digit_char: "d < 10 \<Longrightarrow> is_digit (char_of (48 + d)) \<and> of_char (char_of (48 + d)) - 48 = (d :: nat)"
  by (auto simp: is_digit_def)

lemma integer_digits_dec:
  "n < 2 ^ 53 \<Longrightarrow> integer_digits 0 (dec_string n @ s) = integer_digits (of_nat n) s"
proof (induction n arbitrary: s rule: dec_string.induct)
  case (1 n)
  show ?case
  proof (cases "n < 10")
    case True
    have "fl (fl 0 + of_nat n) = of_nat n" using fl_of_nat [OF 1(2)] by (simp add: fl_def)
    with True digit_char [of n] show ?thesis by (simp add: dec_string.simps)
  next
    case False
    have bound: "n div 10 * 10 < 2 ^ 53" "n div 10 < 2 ^ 53" using 1(2) by linarith+
    have "fl (fl (of_nat (n div 10) * 10) + of_nat (n mod 10)) = (of_nat n :: rat)"
    proof -
      have "fl (of_nat (n div 10) * 10) = of_nat (n div 10 * 10)"
        using fl_of_nat [OF bound(1)] by simp
      then have "fl (of_nat (n div 10) * 10) + of_nat (n mod 10) = (of_nat (n div 10 * 10 + n mod 10) :: rat)"
        by (simp only: of_nat_add)
      then show ?thesis using fl_of_nat [OF 1(2)] by (simp only: div_mult_mod_eq)
    qed
    then show ?thesis
      using False 1(1) [OF False bound(2), of "char_of (48 + n mod 10) # s"] digit_char [of "n mod 10"]
      by (subst dec_string.simps) simp
  qed
qed

lemma dec_string_head: "\<exists>ch s. dec_string n = ch # s \<and> is_digit ch"
proof (induction n rule: dec_string.induct)
  case (1 n)
  then show ?case using digit_char [of n] by (subst dec_string.simps) (auto split: if_splits)
qed

lemma IsDelim_no_number: "IsDelim s \<Longrightarrow> \<not> (s \<noteq> [] \<and> (is_digit (hd s) \<or> hd s = CHR ''.'' \<or> hd s = CHR ''e'' \<or> hd s = CHR ''E''))"
  by (auto simp: IsDelim_def is_digit_def is_space_def split: list.splits)

lemma StringToNumber_int:
  assumes "\<bar>i\<bar> < 2 ^ 53" "IsDelim s"
  shows "StringToNumber (int_string i @ s) = Some (JInt i, s)"
proof -
  define n where "n = nat \<bar>i\<bar>"
  have n: "n < 2 ^ 53" using assms(1) by (simp add: n_def)
  obtain ch w where w: "dec_string n = ch # w" "is_digit ch" using dec_string_head by blast
  have stop: "integer_digits (of_nat n) s = (of_nat n, s)" "fraction_part (of_nat n) s = (False, of_nat n, s)"
    "exponent_part s = (False, 0, 1, s)"
    using IsDelim_no_number [OF assms(2)] by (cases s; simp add: fraction_part_def exponent_part_def)+
  have digits: "integer_digits 0 (dec_string n @ s) = (of_nat n, s)"
    using integer_digits_dec [OF n] stop(1) by simp
  have range: "of_int i < (2 :: rat) ^ 63" "- (2 ^ 63) \<le> (of_int i :: rat)"
  proof -
    have "i < 2 ^ 63" "- (2 ^ 63) \<le> i" using assms(1) by simp_all
    then have "of_int i < (of_int (2 ^ 63) :: rat)" "(of_int (- (2 ^ 63)) :: rat) \<le> of_int i"
      by (simp_all only: of_int_less_iff of_int_le_iff)
    then show "of_int i < (2 :: rat) ^ 63" "- (2 ^ 63) \<le> (of_int i :: rat)" by simp_all
  qed
  show ?thesis
  proof (cases "i < 0")
    case True
    then have "int_string i = CHR ''-'' # dec_string n" by (simp add: int_string_def n_def)
    moreover have "- of_nat n = (of_int i :: rat)" using True by (simp add: n_def)
    ultimately show ?thesis
      using digits stop(2,3) range by (simp add: StringToNumber_def Let_def)
  next
    case False
    then have "int_string i = dec_string n" by (simp add: int_string_def n_def)
    moreover have "of_nat n = (of_int i :: rat)" using False by (simp add: n_def)
    ultimately show ?thesis
      using digits stop(2,3) range digits_not_sign [OF w(2)] w(1) by (simp add: StringToNumber_def Let_def)
  qed
qed

section \<open>Reading what was written: documents\<close>

text \<open>
  What the writer and the reader agree on: no quote and no control character in a string, no
  backslash in a key either, no empty key, integers that a double holds, no double.
\<close>

definition plain_text :: "string \<Rightarrow> bool" where
  "plain_text s = list_all (\<lambda>ch. ch \<noteq> CHR 34 \<and> \<not> iscntrl ch) s"

definition plain_key :: "string \<Rightarrow> bool" where
  "plain_key k = (k \<noteq> [] \<and> plain_text k \<and> CHR 92 \<notin> set k)"

fun json_ok :: "json \<Rightarrow> bool" where
  "json_ok (JString s) = plain_text s"
| "json_ok (JInt i) = (\<bar>i\<bar> < 2 ^ 53)"
| "json_ok (JBool b) = True"
| "json_ok JNull = True"
| "json_ok (JArr vs) = list_all json_ok vs"
| "json_ok (JObj m) = (sorted_wrt (<) (map fst m) \<and> list_all (\<lambda>(k, v). plain_key k \<and> json_ok v) m)"
| "json_ok _ = False"

lemma string_body_plain:
  "plain_text s \<Longrightarrow> string_body temp (escape_string s @ CHR 34 # rest) = Some (temp @ s, rest)"
proof (induction s arbitrary: temp)
  case Nil
  then show ?case by (simp add: escape_string_def string_body.simps iscntrl_def)
next
  case (Cons ch s)
  have tail: "string_body (temp @ [ch]) (escape_string s @ CHR 34 # rest) = Some (temp @ ch # s, rest)"
    using Cons.IH [of "temp @ [ch]"] Cons.prems by (simp add: plain_text_def)
  show ?case
  proof (cases "ch = CHR 92")
    case True
    then have "escape_string (ch # s) = CHR 92 # CHR 92 # escape_string s" by (simp add: escape_string_def)
    then show ?thesis using tail True by (simp add: string_body.simps simple_escape_def)
  next
    case False
    then have "escape_string (ch # s) = ch # escape_string s" by (simp add: escape_string_def)
    then show ?thesis using tail False Cons.prems by (simp add: string_body.simps plain_text_def)
  qed
qed

lemma escape_plain_key: "plain_key k \<Longrightarrow> escape_string k = k"
proof -
  have "CHR 92 \<notin> set k \<Longrightarrow> escape_string k = k" by (induction k) (auto simp: escape_string_def)
  then show "plain_key k \<Longrightarrow> escape_string k = k" by (simp add: plain_key_def)
qed

lemma read_string:
  "plain_text s \<Longrightarrow> IsDelim rest \<Longrightarrow>
   read_value (CHR 34) (escape_string s @ CHR 34 # rest) = Inr (JString s, rest)"
  using string_body_plain [of s "[]" rest] by (simp add: read_value_def is_digit_def)

text \<open>A value that is neither an array nor an object starts like no other token.\<close>

definition value_start :: "char \<Rightarrow> bool" where
  "value_start ch = (\<not> is_space ch \<and> ch \<notin> {CHR '']'', CHR ''}'', CHR ''['', CHR ''{'', CHR '':'', CHR '',''})"

lemma digit_starts: "is_digit ch \<Longrightarrow> value_start ch"
  by (auto simp: is_digit_def value_start_def is_space_def)

lemma read_int:
  assumes "\<bar>i\<bar> < 2 ^ 53" "IsDelim rest"
  shows "\<exists>ch s. int_string i @ rest = ch # s \<and> value_start ch \<and> read_value ch s = Inr (JInt i, rest)"
proof -
  note num = StringToNumber_int [OF assms]
  show ?thesis
  proof (cases "i < 0")
    case True
    obtain d w where d: "dec_string (nat (- i)) = d # w" "is_digit d" using dec_string_head by blast
    then have "int_string i @ rest = CHR ''-'' # d # w @ rest" using True by (simp add: int_string_def)
    with num d assms(2) show ?thesis by (auto simp: value_start_def is_space_def read_value_def)
  next
    case False
    obtain d w where d: "dec_string (nat i) = d # w" "is_digit d" using dec_string_head by blast
    then have "int_string i @ rest = d # w @ rest" using False by (simp add: int_string_def)
    with num d assms(2) digits_not_sign [OF d(2)] digit_starts [OF d(2)] show ?thesis
      by (auto simp: read_value_def)
  qed
qed

fun scalar :: "json \<Rightarrow> bool" where
  "scalar (JArr _) = False"
| "scalar (JObj _) = False"
| "scalar _ = True"

lemma read_scalar:
  assumes "scalar v" "json_ok v" "IsDelim rest"
  shows "\<exists>ch s. json_string level v @ rest = ch # s \<and> value_start ch \<and> read_value ch s = Inr (v, rest)"
  using assms read_int [of _ rest] read_string [of _ rest]
  by (cases v) (auto simp: read_value_def literal_def value_start_def is_space_def is_digit_def)

text \<open>Steps of the loop.\<close>

definition continue :: "parse_result + frame list \<Rightarrow> string \<Rightarrow> parse_result" where
  "continue r s = (case r of Inl res \<Rightarrow> res | Inr st \<Rightarrow> Parse st False s)"

lemma Parse_char:
  "\<not> is_space ch \<Longrightarrow> Parse st separator (ch # s) =
     (case parse_char st separator ch s of Inl r \<Rightarrow> r | Inr (st', separator', s') \<Rightarrow> Parse st' separator' s')"
  by (subst Parse.simps) simp

lemma Parse_space:
  assumes "list_all is_space w" "dropWhile is_space s \<noteq> []"
  shows "Parse st separator (w @ s) = Parse st separator s"
proof -
  have "dropWhile is_space (w @ s) = dropWhile is_space s"
    using assms(1) by (simp add: dropWhile_append list_all_iff)
  moreover have "w @ s \<noteq> []" "s \<noteq> []" using assms(2) by auto
  ultimately show ?thesis using assms(2) by (subst (1 2) Parse.simps) simp
qed

lemma Parse_value:
  assumes "value_start ch" "read_value ch s = Inr (v, s')"
  shows "Parse st separator (ch # s) = continue (store_value v st) s'"
  using assms by (auto simp: value_start_def Parse_char parse_char_def continue_def split: sum.split)

lemma Parse_open:
  "Parse st separator (CHR ''['' # s) = Parse (\<lparr>pending = [], node = JArr []\<rparr> # st) True s"
  "Parse st separator (CHR ''{'' # s) = Parse (\<lparr>pending = [], node = JObj []\<rparr> # st) True s"
  by (simp_all add: Parse_char parse_char_def is_space_def)

lemma Parse_close:
  "Parse (\<lparr>pending = p, node = JArr vs\<rparr> # st) separator (CHR '']'' # s) =
     continue (close_node (\<lparr>pending = p, node = JArr vs\<rparr> # st)) s"
  "Parse (\<lparr>pending = [], node = JObj m\<rparr> # st) separator (CHR ''}'' # s) =
     continue (close_node (\<lparr>pending = [], node = JObj m\<rparr> # st)) s"
  by (auto simp: Parse_char parse_char_def is_space_def continue_def split: sum.split)

lemma Parse_comma:
  "st \<noteq> [] \<Longrightarrow> pending (hd st) = [] \<Longrightarrow> Parse st False (CHR '','' # s) = Parse st True s"
  by (simp add: Parse_char parse_char_def is_space_def)

lemma Parse_colon:
  "st \<noteq> [] \<Longrightarrow> pending (hd st) \<noteq> [] \<Longrightarrow> Parse st False (CHR '':'' # s) = Parse st True s"
  by (simp add: Parse_char parse_char_def is_space_def)

lemma white_space: "list_all is_space (crlf_of level)" "list_all is_space (indent_of level)"
  by (simp_all add: crlf_of_def indent_of_def CreateIndent_def is_space_def list_all_iff)

lemma space_before_char: "list_all is_space w \<Longrightarrow> \<not> is_space ch \<Longrightarrow> dropWhile is_space (w @ ch # s) = ch # s"
  by (simp add: dropWhile_append list_all_iff)

lemma smap_put_last: "\<forall>k' \<in> set (map fst m). k' < k \<Longrightarrow> smap_put k v m = m @ [(k, v)]"
  by (induction m) (auto simp: dest: less_asym)

lemma json_string_start: "json_ok v \<Longrightarrow> \<exists>ch s. json_string level v = ch # s \<and> \<not> is_space ch"
  using read_scalar [of v "[]" level] by (cases v) (auto simp: IsDelim_def value_start_def is_space_def)

text \<open>Stored as a value, and not as a key.\<close>

definition accepts :: "frame \<Rightarrow> bool" where
  "accepts f = ((\<exists>m. node f = JObj m) \<and> pending f \<noteq> [] \<or> (\<exists>vs. node f = JArr vs))"

definition reads :: "json \<Rightarrow> bool" where
  "reads v \<longleftrightarrow> (\<forall>level f st separator rest. accepts f \<longrightarrow> IsDelim rest \<longrightarrow>
     Parse (f # st) separator (json_string level v @ rest) = Parse (add_node v f # st) False rest)"

lemma store_accepts: "accepts f \<Longrightarrow> store_value v (f # st) = Inr (add_node v f # st)"
  by (auto simp: accepts_def store_value_def)

lemma reads_scalar: "scalar v \<Longrightarrow> json_ok v \<Longrightarrow> reads v"
proof -
  assume v: "scalar v" "json_ok v"
  show "reads v" unfolding reads_def
  proof (intro allI impI)
    fix level f st separator rest assume f: "accepts f" and rest: "IsDelim rest"
    from read_scalar [OF v rest, of level] obtain ch s where "json_string level v @ rest = ch # s"
      "value_start ch" "read_value ch s = Inr (v, rest)" by blast
    with store_accepts [OF f] show "Parse (f # st) separator (json_string level v @ rest) = Parse (add_node v f # st) False rest"
      by (simp add: Parse_value continue_def del: add_node.simps)
  qed
qed

lemma readsD:
  "reads v \<Longrightarrow> accepts f \<Longrightarrow> IsDelim rest \<Longrightarrow>
   Parse (f # st) separator (json_string level v @ rest) = Parse (add_node v f # st) False rest"
  by (simp only: reads_def)

lemma close_inner: "close_node (f # g # st) = Inr (add_node (node f) g # st)"
  by (simp add: close_node_def)

text \<open>The elements of an array up to its bracket.\<close>

lemma IsDelim_after: "list_all is_space w \<Longrightarrow> ch \<in> {CHR '','', CHR '']'', CHR ''}''} \<Longrightarrow> IsDelim (w @ ch # s)"
  by (cases w) (auto simp: IsDelim_def)

lemma reads_elements:
  assumes "list_all reads vs" "list_all json_ok vs" "list_all is_space w" "list_all is_space ind" "list_all is_space cr"
  shows "Parse (\<lparr>pending = [], node = JArr acc\<rparr> # st) separator
      (separated ('','' @ cr) (map (\<lambda>v. ind @ json_string level v) vs) @ w @ CHR '']'' # rest) =
    continue (close_node (\<lparr>pending = [], node = JArr (acc @ vs)\<rparr> # st)) rest"
  using assms(1,2)
proof (induction vs arbitrary: acc separator)
  case Nil
  have "Parse (\<lparr>pending = [], node = JArr acc\<rparr> # st) separator (w @ CHR '']'' # rest) =
      Parse (\<lparr>pending = [], node = JArr acc\<rparr> # st) separator (CHR '']'' # rest)"
    by (rule Parse_space) (simp_all add: assms(3) is_space_def)
  then show ?case by (simp add: Parse_close)
next
  case (Cons v vs)
  obtain ch s where start: "json_string level v = ch # s" "\<not> is_space ch"
    using json_string_start [of v level] Cons.prems by auto
  define after where "after = (case vs of Nil \<Rightarrow> w @ CHR '']'' # rest
     | _ \<Rightarrow> CHR '','' # cr @ separated ('','' @ cr) (map (\<lambda>v. ind @ json_string level v) vs) @ w @ CHR '']'' # rest)"
  let ?f = "\<lparr>pending = [], node = JArr acc\<rparr>"
  let ?g = "\<lparr>pending = [], node = JArr (acc @ [v])\<rparr>"
  have whole: "separated ('','' @ cr) (map (\<lambda>v. ind @ json_string level v) (v # vs)) @ w @ CHR '']'' # rest =
      ind @ json_string level v @ after"
    by (cases vs) (simp_all add: after_def)
  have delim: "IsDelim after"
    using IsDelim_after [OF assms(3), of "CHR '']''" rest] IsDelim_after [of "[]" "CHR '',''"]
    by (simp add: after_def split: list.split)
  have "Parse (?f # st) separator (ind @ json_string level v @ after) = Parse (?f # st) separator (json_string level v @ after)"
    by (rule Parse_space) (simp_all add: assms(4) start)
  also have "\<dots> = Parse (?g # st) False after"
    using Cons.prems(1) delim readsD [of v ?f after st separator level] by (simp add: accepts_def)
  also have "\<dots> = continue (close_node (\<lparr>pending = [], node = JArr (acc @ v # vs)\<rparr> # st)) rest"
  proof (cases vs)
    case Nil
    with Cons.IH [of "acc @ [v]" False] show ?thesis by (simp add: after_def)
  next
    case after: (Cons v' vs')
    let ?rest = "separated ('','' @ cr) (map (\<lambda>v. ind @ json_string level v) vs) @ w @ CHR '']'' # rest"
    have "dropWhile is_space ?rest \<noteq> []" by (simp add: is_space_def)
    then have "Parse (?g # st) False after = Parse (?g # st) True ?rest"
      using after Parse_comma [of "?g # st" "cr @ ?rest"] Parse_space [OF assms(5), of ?rest "?g # st" True]
      by (simp add: after_def)
    also have "\<dots> = continue (close_node (\<lparr>pending = [], node = JArr ((acc @ [v]) @ vs)\<rparr> # st)) rest"
      using Cons.prems by (intro Cons.IH) simp_all
    finally show ?thesis by simp
  qed
  finally show ?case unfolding whole .
qed

text \<open>The entries of an object up to its brace.\<close>

lemma reads_key:
  assumes "plain_key k"
  shows "Parse (\<lparr>pending = [], node = JObj m\<rparr> # st) separator ([CHR 34] @ k @ [CHR 34] @ '':'' @ s) =
    Parse (\<lparr>pending = k, node = JObj m\<rparr> # st) True s"
proof -
  have k: "plain_text k" "k \<noteq> []" using assms by (simp_all add: plain_key_def)
  have "read_value (CHR 34) (k @ CHR 34 # CHR '':'' # s) = Inr (JString k, CHR '':'' # s)"
    using read_string [OF k(1), of "CHR '':'' # s"] escape_plain_key [OF assms] by (simp add: IsDelim_def)
  then have "Parse (\<lparr>pending = [], node = JObj m\<rparr> # st) separator (CHR 34 # k @ CHR 34 # CHR '':'' # s) =
      Parse (\<lparr>pending = k, node = JObj m\<rparr> # st) False (CHR '':'' # s)"
    by (simp add: Parse_value value_start_def is_space_def store_value_def continue_def)
  with k(2) show ?thesis by (simp add: Parse_colon)
qed

lemma reads_entries:
  assumes "list_all (\<lambda>(k, v). reads v \<and> plain_key k) m" "list_all is_space w" "list_all is_space ind" "list_all is_space cr"
    and "sorted_wrt (<) (map fst (acc @ m))"
  shows "Parse (\<lparr>pending = [], node = JObj acc\<rparr> # st) separator
      (separated ('','' @ cr) (map (\<lambda>(k, v). ind @ [CHR 34] @ k @ [CHR 34] @ '':'' @ json_string level v) m) @ w @ CHR ''}'' # rest) =
    continue (close_node (\<lparr>pending = [], node = JObj (acc @ m)\<rparr> # st)) rest"
  using assms(1,5)
proof (induction m arbitrary: acc separator)
  case Nil
  have "Parse (\<lparr>pending = [], node = JObj acc\<rparr> # st) separator (w @ CHR ''}'' # rest) =
      Parse (\<lparr>pending = [], node = JObj acc\<rparr> # st) separator (CHR ''}'' # rest)"
    by (rule Parse_space) (simp_all add: assms(2) is_space_def)
  then show ?case by (simp add: Parse_close)
next
  case (Cons kv m)
  obtain k v where kv: "kv = (k, v)" by (cases kv)
  have k: "plain_key k" "reads v" using Cons.prems(1) by (simp_all add: kv)
  let ?show = "\<lambda>(k, v). ind @ [CHR 34] @ k @ [CHR 34] @ '':'' @ json_string level v"
  define after where "after = (case m of Nil \<Rightarrow> w @ CHR ''}'' # rest
     | _ \<Rightarrow> CHR '','' # cr @ separated ('','' @ cr) (map ?show m) @ w @ CHR ''}'' # rest)"
  let ?f = "\<lparr>pending = [], node = JObj acc\<rparr>"
  let ?k = "\<lparr>pending = k, node = JObj acc\<rparr>"
  let ?g = "\<lparr>pending = [], node = JObj (acc @ [(k, v)])\<rparr>"
  have whole: "separated ('','' @ cr) (map ?show (kv # m)) @ w @ CHR ''}'' # rest =
      ind @ [CHR 34] @ k @ [CHR 34] @ '':'' @ json_string level v @ after"
    by (cases m) (simp_all add: after_def kv)
  have delim: "IsDelim after"
    using IsDelim_after [OF assms(2), of "CHR ''}''" rest] IsDelim_after [of "[]" "CHR '',''"]
    by (simp add: after_def split: list.split)
  have put: "add_node v ?k = ?g"
    using Cons.prems(2) by (simp add: AddValue_def kv smap_put_last sorted_wrt_append)
  have "Parse (?f # st) separator (ind @ [CHR 34] @ k @ [CHR 34] @ '':'' @ json_string level v @ after) =
      Parse (?f # st) separator ([CHR 34] @ k @ [CHR 34] @ '':'' @ json_string level v @ after)"
    by (rule Parse_space) (simp_all add: assms(3) is_space_def)
  also have "\<dots> = Parse (?k # st) True (json_string level v @ after)" by (rule reads_key [OF k(1)])
  also have "\<dots> = Parse (?g # st) False after"
    using readsD [OF k(2), of ?k after st True level] k(1) delim put by (simp add: accepts_def plain_key_def)
  also have "\<dots> = continue (close_node (\<lparr>pending = [], node = JObj (acc @ kv # m)\<rparr> # st)) rest"
  proof (cases m)
    case Nil
    with Cons.IH [of "acc @ [(k, v)]" False] Cons.prems show ?thesis by (simp add: after_def kv)
  next
    case more: (Cons v' vs')
    let ?rest = "separated ('','' @ cr) (map ?show m) @ w @ CHR ''}'' # rest"
    have "dropWhile is_space ?rest \<noteq> []" by (simp add: is_space_def)
    then have "Parse (?g # st) False after = Parse (?g # st) True ?rest"
      using more Parse_comma [of "?g # st" "cr @ ?rest"] Parse_space [OF assms(4), of ?rest "?g # st" True]
      by (simp add: after_def)
    also have "\<dots> = continue (close_node (\<lparr>pending = [], node = JObj ((acc @ [(k, v)]) @ m)\<rparr> # st)) rest"
      using Cons.prems by (intro Cons.IH) (simp_all add: kv)
    finally show ?thesis by (simp add: kv)
  qed
  finally show ?case unfolding whole .
qed

lemma container_reads:
  assumes "\<not> scalar v" "json_ok v" "\<And>x. (\<exists>vs. v = JArr vs \<and> x \<in> set vs) \<or> (\<exists>m. v = JObj m \<and> x \<in> snd ` set m) \<Longrightarrow> reads x"
  shows "Parse st separator (json_string level v @ rest) = continue (close_node (\<lparr>pending = [], node = v\<rparr> # st)) rest"
proof (cases v)
  case (JArr vs)
  have w: "list_all is_space (crlf_of level @ indent_of level)" using white_space by simp
  have "list_all reads vs" using assms(3) JArr by (simp add: list_all_iff)
  note elements = reads_elements [OF this _ w white_space(2,1), of "[]" st True level level "next_level level" rest]
  let ?rest = "separated ('','' @ crlf_of level) (map (\<lambda>v. indent_of level @ json_string (next_level level) v) vs) @
      (crlf_of level @ indent_of level) @ CHR '']'' # rest"
  have "dropWhile is_space ?rest \<noteq> []" by (simp add: is_space_def)
  from Parse_space [OF white_space(1) this] elements assms(2) JArr
  show ?thesis by (simp add: Parse_open)
next
  case (JObj m)
  have w: "list_all is_space (crlf_of level @ indent_of level)" using white_space by simp
  have "list_all (\<lambda>(k, v). reads v \<and> plain_key k) m" "sorted_wrt (<) (map fst ([] @ m))"
    using assms(2,3) JObj by (fastforce simp: list_all_iff)+
  note entries = reads_entries [OF this(1) w white_space(2,1) this(2), of st True level level "next_level level" rest]
  let ?rest = "separated ('','' @ crlf_of level)
      (map (\<lambda>(k, v). indent_of level @ [CHR 34] @ k @ [CHR 34] @ '':'' @ json_string (next_level level) v) m) @
      (crlf_of level @ indent_of level) @ CHR ''}'' # rest"
  have "dropWhile is_space ?rest \<noteq> []" by (simp add: is_space_def)
  from Parse_space [OF white_space(1) this] entries JObj
  show ?thesis by (simp add: Parse_open)
qed (use assms(1) in auto)

lemma json_ok_reads: "json_ok v \<Longrightarrow> reads v"
proof (induction v)
  case (JArr vs)
  have "reads x" if "x \<in> set vs" for x using JArr that by (simp add: list_all_iff)
  from container_reads [of "JArr vs"] JArr.prems this show ?case
    by (simp add: reads_def continue_def close_inner)
next
  case (JObj m)
  have "reads x" if "x \<in> snd ` set m" for x using JObj that by (fastforce simp: list_all_iff)
  from container_reads [of "JObj m"] JObj.prems this show ?case
    by (simp add: reads_def continue_def close_inner)
qed (simp_all add: reads_scalar)

lemma no_zero_iscntrl: "plain_text s \<Longrightarrow> CHR 0x00 \<notin> set s"
proof
  assume "plain_text s" "CHR 0x00 \<in> set s"
  then have "\<not> iscntrl (CHR 0x00)" unfolding plain_text_def list_all_iff by blast
  then show False by (simp add: iscntrl_def)
qed

lemma separated_no_char: "ch \<notin> set sep \<Longrightarrow> \<forall>w \<in> set ws. ch \<notin> set w \<Longrightarrow> ch \<notin> set (separated sep ws)"
  by (induction sep ws rule: separated.induct) auto

lemma layout_no_zero: "CHR 0x00 \<notin> set (crlf_of level)" "CHR 0x00 \<notin> set (indent_of level)"
  by (simp_all add: crlf_of_def indent_of_def CreateIndent_def)

lemma dec_string_digits: "list_all is_digit (dec_string n)"
proof (induction n rule: dec_string.induct)
  case (1 n)
  show ?case
  proof (cases "n < 10")
    case True
    then show ?thesis using digit_char [of n] by (subst dec_string.simps) simp
  next
    case False
    then show ?thesis using 1 digit_char [of "n mod 10"] by (subst dec_string.simps) simp
  qed
qed

lemma dec_string_no_zero: "CHR 0x00 \<notin> set (dec_string n)"
proof
  assume "CHR 0x00 \<in> set (dec_string n)"
  then have "is_digit (CHR 0x00)" using dec_string_digits [of n] unfolding list_all_iff by blast
  then show False by (simp add: is_digit_def)
qed

lemma json_string_no_zero: "json_ok v \<Longrightarrow> CHR 0x00 \<notin> set (json_string level v)"
proof (induction v arbitrary: level)
  case (JString s)
  have "set (escape_string s) \<subseteq> insert (CHR 92) (set s)" by (induction s) (auto simp: escape_string_def)
  with JString no_zero_iscntrl [of s] show ?case by auto
next
  case (JInt i)
  then show ?case using dec_string_no_zero by (auto simp: int_string_def)
next
  case (JArr vs)
  have "CHR 0x00 \<notin> set (separated ('','' @ crlf_of level) (map (\<lambda>v. indent_of level @ json_string (next_level level) v) vs))"
    using JArr by (intro separated_no_char) (auto simp: list_all_iff layout_no_zero)
  then show ?case by (simp add: layout_no_zero)
next
  case (JObj m)
  have entry: "CHR 0x00 \<notin> set k \<and> CHR 0x00 \<notin> set (json_string l v)" if "(k, v) \<in> set m" for k v l
  proof -
    have "plain_key k" "json_ok v" using JObj.prems that by (auto simp: list_all_iff)
    then show ?thesis using JObj.IH [OF that, of v l] by (auto simp: plain_key_def dest: no_zero_iscntrl)
  qed
  have "CHR 0x00 \<notin> set (separated ('','' @ crlf_of level)
      (map (\<lambda>(k, v). indent_of level @ [CHR 34] @ k @ [CHR 34] @ '':'' @ json_string (next_level level) v) m))"
    using entry by (intro separated_no_char) (auto simp: layout_no_zero)
  then show ?case by (simp add: layout_no_zero)
qed simp_all

lemma parse_written:
  assumes "json_ok v" "\<not> scalar v"
  shows "ParseString (json_string level v) = Document v"
proof -
  have "takeWhile (\<lambda>ch. ch \<noteq> CHR 0x00) (json_string level v) = json_string level v"
    unfolding takeWhile_eq_all_conv using json_string_no_zero [OF assms(1), of level] by blast
  moreover have "Parse [] True (json_string level v @ []) = continue (close_node [\<lparr>pending = [], node = v\<rparr>]) []"
  proof (rule container_reads [OF assms(2,1)])
    fix x assume "(\<exists>vs. v = JArr vs \<and> x \<in> set vs) \<or> (\<exists>m. v = JObj m \<and> x \<in> snd ` set m)"
    with assms(1) have "json_ok x" by (auto simp: list_all_iff)
    then show "reads x" by (rule json_ok_reads)
  qed
  ultimately show ?thesis unfolding ParseString_def by (simp only: append_Nil2) (simp add: close_node_def continue_def)
qed

section \<open>Properties\<close>

text \<open>
  C24. What the program writes it reads back: the text of an array or object, at any indentation, parses
  to the same document, provided its strings have no quotes and no control characters, its keys are not
  empty and have no backslash either, its keys are sorted as a map keeps them, and its numbers are
  integers of at most 53 bits.
\<close>

theorem json_text_roundtrip:
  "json_ok v \<Longrightarrow> \<not> scalar v \<Longrightarrow> ParseString (json_string level v) = Document v"
  by (rule parse_written)

lemma json_text_roundtrip_witness:
  "ParseString (json_string 0 (JObj [(''a'', JArr [JInt (- 12), JNull]), (''b'', JString [CHR 92])])) =
     Document (JObj [(''a'', JArr [JInt (- 12), JNull]), (''b'', JString [CHR 92])])"
  by (rule json_text_roundtrip) (simp_all add: plain_text_def plain_key_def iscntrl_def less_char_def)

text \<open>
  C25. The parser never reads past the end of a text that does not end in white space (a text ends at
  its first zero character), whatever the text is.
\<close>

theorem parser_stays_in_text:
  assumes "\<not> is_space (last (takeWhile (\<lambda>ch. ch \<noteq> CHR 0x00) data))"
  shows "ParseString data \<noteq> Overrun"
  using Parse_no_overrun assms unfolding ParseString_def ends_well_def by blast

lemma parser_stays_in_text_witness: "ParseString ''[{'' \<noteq> Overrun"
  by (rule parser_stays_in_text) (simp add: is_space_def)

text \<open>A document cut off before white space takes the parser past the end.\<close>

lemma cut_document_overruns: "ParseString ''[ '' = Overrun"
  by (simp add: ParseString_def Parse_open) (simp add: Parse.simps is_space_def)

text \<open>A quote in a string is written unescaped and adds an entry to the document that is read.\<close>

lemma quote_adds_entry:
  "json_string (- 1) (JObj [(''m'', JString [CHR ''x'', CHR 34, CHR '','', CHR 34, CHR ''n'', CHR 34, CHR '':'', CHR 34, CHR ''y''])]) =
   json_string (- 1) (JObj [(''m'', JString ''x''), (''n'', JString ''y'')])"
  by (simp add: escape_string_def crlf_of_def indent_of_def next_level_def)

end
