(* ===== verification/Text_Util.thy ===== *)
theory Text_Util
  imports Json_Reader
begin

text \<open>
  The string helpers of Util.h and Util.cpp: case, paths, searching, replacing, splitting, trimming
  and the hexadecimal text of bytes. A loop that may not end is a partial function, \<open>None\<close> where
  it does not return.
\<close>

section \<open>Case and digits\<close>

definition toupper :: "char \<Rightarrow> char" where
  "toupper ch = (if 97 \<le> (of_char ch :: nat) \<and> (of_char ch :: nat) \<le> 122 then char_of (of_char ch - 32 :: nat) else ch)"

definition tolower :: "char \<Rightarrow> char" where
  "tolower ch = (if 65 \<le> (of_char ch :: nat) \<and> (of_char ch :: nat) \<le> 90 then char_of (of_char ch + 32 :: nat) else ch)"

definition isalpha :: "char \<Rightarrow> bool" where
  "isalpha ch = (65 \<le> (of_char ch :: nat) \<and> (of_char ch :: nat) \<le> 90 \<or>
                 97 \<le> (of_char ch :: nat) \<and> (of_char ch :: nat) \<le> 122)"

definition ToUpper :: "string \<Rightarrow> string" where
  "ToUpper input = map toupper input"

definition ToLower :: "string \<Rightarrow> string" where
  "ToLower input = map tolower input"

definition Compare :: "string \<Rightarrow> string \<Rightarrow> bool" where
  "Compare a b = (if length a = length b then list_all2 (\<lambda>x y. tolower x = tolower y) b a else False)"

definition IsDigitOrAlpha :: "string \<Rightarrow> bool" where
  "IsDigitOrAlpha s = list_ex (\<lambda>c. is_digit c \<or> isalpha c) s"

section \<open>Searching\<close>

text \<open>\<open>std::string::find\<close>, and \<open>find_last_of\<close> with a set of characters: the index, if there is one.\<close>

fun str_find :: "string \<Rightarrow> string \<Rightarrow> nat option" where
  "str_find pat s =
     (if take (length pat) s = pat then Some 0
      else (case s of [] \<Rightarrow> None | _ # s' \<Rightarrow> map_option Suc (str_find pat s')))"

declare str_find.simps [simp del]

fun find_last_of :: "char list \<Rightarrow> string \<Rightarrow> nat option" where
  "find_last_of cs [] = None"
| "find_last_of cs (ch # s) =
     (case find_last_of cs s of Some i \<Rightarrow> Some (Suc i) | None \<Rightarrow> if ch \<in> set cs then Some 0 else None)"

definition GetFileName :: "string \<Rightarrow> string" where
  "GetFileName path = (case find_last_of [CHR ''/'', CHR 92] path of Some i \<Rightarrow> drop (i + 1) path | None \<Rightarrow> path)"

definition GetFileExtension :: "string \<Rightarrow> string" where
  "GetFileExtension name = (case find_last_of [CHR ''.''] name of Some i \<Rightarrow> drop (i + 1) name | None \<Rightarrow> [])"

definition GetDirectoryPath :: "string \<Rightarrow> string" where
  "GetDirectoryPath path = (case find_last_of [CHR ''/'', CHR 92] path of Some i \<Rightarrow> take i path | None \<Rightarrow> path)"

definition EndsWith :: "string \<Rightarrow> string \<Rightarrow> bool" where
  "EndsWith val ending =
     (if length val < length ending then False
      else take (length ending) (rev val) = rev ending)"

definition Contains :: "string \<Rightarrow> string \<Rightarrow> bool" where
  "Contains str lookfor = (str_find lookfor str \<noteq> None)"

definition EraseString :: "string \<Rightarrow> string \<Rightarrow> string" where
  "EraseString s toErase =
     (case str_find toErase s of Some i \<Rightarrow> take i s @ drop (i + length toErase) s | None \<Rightarrow> s)"

section \<open>Trimming and padding\<close>

definition Ltrim :: "string \<Rightarrow> string" where
  "Ltrim s = dropWhile is_space s"

definition Rtrim :: "string \<Rightarrow> string" where
  "Rtrim s = rev (dropWhile is_space (rev s))"

definition Trim :: "string \<Rightarrow> string" where
  "Trim s = Rtrim (Ltrim s)"

definition ToLeadingZeros :: "int \<Rightarrow> nat \<Rightarrow> string" where
  "ToLeadingZeros val precision = pad0 precision (int_string val)"

section \<open>Replacing and splitting\<close>

text \<open>Each round replaces one character at the place where the pattern was found.\<close>

partial_function (option) ReplaceCharacter :: "string \<Rightarrow> string \<Rightarrow> string \<Rightarrow> string option" where
  "ReplaceCharacter toFind toReplace s =
     (case str_find toFind s of
        Some i \<Rightarrow> ReplaceCharacter toFind toReplace (take i s @ toReplace @ drop (Suc i) s)
      | None \<Rightarrow> Some s)"

definition EscapeChar :: "string \<Rightarrow> string option" where
  "EscapeChar str =
     Option.bind (ReplaceCharacter [CHR 92] [CHR ''/''] str) (\<lambda>s1.
     Option.bind (ReplaceCharacter [CHR 13, CHR 10] [CHR 92, CHR ''n''] s1) (\<lambda>s2.
     Option.bind (ReplaceCharacter [CHR 10] [CHR 92, CHR ''n''] s2) (\<lambda>s3.
     ReplaceCharacter [CHR 9] [CHR 92, CHR ''t''] s3)))"

text \<open>The rest of the text after each delimiter is split again.\<close>

partial_function (option) Split :: "string \<Rightarrow> string \<Rightarrow> string list option" where
  "Split delim s =
     (case str_find delim s of
        Some i \<Rightarrow> Option.bind (Split delim (drop (i + length delim) s)) (\<lambda>ws. Some (take i s # ws))
      | None \<Rightarrow> Some [s])"

definition Join :: "string list \<Rightarrow> string \<Rightarrow> string" where
  "Join tokens delim = concat (map (\<lambda>i. (if i \<noteq> 0 then delim else []) @ tokens ! i) [0..<length tokens])"

section \<open>Hexadecimal text\<close>

definition binHex :: string where
  "binHex = ''0123456789ABCDEF''"

definition ByteToHex :: "char \<Rightarrow> string" where
  "ByteToHex byte = [binHex ! (of_char byte div 16), binHex ! (of_char byte mod 16)]"

definition ToHex :: "string \<Rightarrow> string" where
  "ToHex buf = concat (map ByteToHex buf)"

text \<open>
  The number at the front of a text in base 16, as \<open>strtoul\<close> and the stream operator read it: blanks,
  a sign, \<open>0x\<close>, digits. The result holds the sign, the digits' value and the text that is left,
  the whole text where there are no digits.
\<close>

definition digits16 :: "string \<Rightarrow> nat" where
  "digits16 ds = fold (\<lambda>ch n. n * 16 + CharToInt ch) ds 0"

definition read16 :: "string \<Rightarrow> bool \<times> nat \<times> string" where
  "read16 s =
     (let s1 = dropWhile is_space s;
          (neg, s2) = (case s1 of ch # r \<Rightarrow> if ch = CHR ''-'' then (True, r) else if ch = CHR ''+'' then (False, r) else (False, s1)
                       | [] \<Rightarrow> (False, s1));
          s3 = (case s2 of z # x # d # r \<Rightarrow>
                  if z = CHR ''0'' \<and> (x = CHR ''x'' \<or> x = CHR ''X'') \<and> isxdigit d then d # r else s2
                | _ \<Rightarrow> s2);
          ds = takeWhile isxdigit s3
      in if ds = [] then (False, 0, s) else (neg, digits16 ds, dropWhile isxdigit s3))"

text \<open>The low byte of the number in a text; \<open>None\<close> where the text is blank and the variable is not set.\<close>

definition hex_byte :: "string \<Rightarrow> char option" where
  "hex_byte s =
     (if dropWhile is_space s = [] then None
      else (let (neg, n, _) = read16 s in Some (char_of (nat ((if neg then - int n else int n) mod 256)))))"

fun hex_bytes :: "string \<Rightarrow> string option" where
  "hex_bytes [] = Some []"
| "hex_bytes [a] = map_option (\<lambda>b. [b]) (hex_byte [a])"
| "hex_bytes (a # b # s) =
     Option.bind (hex_byte [a, b]) (\<lambda>c. map_option ((#) c) (hex_bytes s))"

text \<open>The bytes are written to the front of a buffer; \<open>None\<close> also where they do not fit.\<close>

definition HexStringToUint8 :: "string \<Rightarrow> string \<Rightarrow> string option" where
  "HexStringToUint8 input output =
     Option.bind (hex_bytes input) (\<lambda>bs.
       if length bs \<le> length output then Some (bs @ drop (length bs) output) else None)"

section \<open>Random text\<close>

text \<open>
  The generator is an argument: the numbers it draws, from \<open>0\<close> to the size of the array without one,
  and the array includes its terminating zero.
\<close>

definition alphanum :: string where
  "alphanum = ''0123456789'' @ ''ABCDEFGHIJKLMNOPQRSTUVWXYZ'' @
     ''abcdefghijklmnopqrstuvwxyz*$=+()_-[]#~&;:,!?{}@'' @ [CHR 0x00]"

definition GenerateRandomString :: "(nat \<Rightarrow> nat) \<Rightarrow> nat \<Rightarrow> string" where
  "GenerateRandomString uniform_int len =
     map (\<lambda>i. alphanum ! (uniform_int i mod length alphanum)) [0..<len]"

section \<open>Facts\<close>

lemma str_find_None: "str_find pat s = None \<longleftrightarrow> (\<forall>i \<le> length s. take (length pat) (drop i s) \<noteq> pat)"
proof (induction s)
  case Nil
  then show ?case by (subst str_find.simps) simp
next
  case (Cons ch s)
  then show ?case
    by (subst str_find.simps) (auto simp: All_less_Suc2 less_Suc_eq_le [symmetric] Suc_le_eq nat.split_sels dest: spec [where x = 0])
qed

lemma str_find_Some:
  "str_find pat s = Some i \<Longrightarrow> i \<le> length s \<and> s = take i s @ pat @ drop (i + length pat) s"
proof (induction s arbitrary: i)
  case Nil
  then show ?case by (subst (asm) str_find.simps) (auto split: if_splits)
next
  case (Cons ch s)
  show ?case
  proof (cases "take (length pat) (ch # s) = pat")
    case True
    with Cons.prems have "i = 0" by (subst (asm) str_find.simps) simp
    with True show ?thesis by (metis append_take_drop_id le0 plus_nat.add_0 take0 append_Nil)
  next
    case False
    with Cons.prems obtain j where "str_find pat s = Some j" "i = Suc j"
      by (subst (asm) str_find.simps) auto
    with Cons.IH [of j] show ?thesis by simp
  qed
qed

lemma str_find_char: "str_find [c] s = (if c \<in> set s then Some (length (takeWhile (\<lambda>x. x \<noteq> c) s)) else None)"
  by (induction s) (subst str_find.simps, simp)+

subsection \<open>Replacing a character\<close>

lemma ReplaceCharacter_char:
  "ReplaceCharacter [c] rep s =
     (if c \<in> set s
      then ReplaceCharacter [c] rep (takeWhile (\<lambda>x. x \<noteq> c) s @ rep @ tl (dropWhile (\<lambda>x. x \<noteq> c) s))
      else Some s)"
proof -
  have "take (length (takeWhile (\<lambda>x. x \<noteq> c) s)) s = takeWhile (\<lambda>x. x \<noteq> c) s"
    by (metis append_eq_conv_conj takeWhile_dropWhile_id)
  moreover have "drop (Suc (length (takeWhile (\<lambda>x. x \<noteq> c) s))) s = tl (dropWhile (\<lambda>x. x \<noteq> c) s)"
    by (metis drop_Suc drop_tl dropWhile_eq_drop)
  ultimately show ?thesis
    by (subst ReplaceCharacter.simps) (simp add: str_find_char)
qed

lemma replace_returns:
  assumes "c \<notin> set rep"
  shows "ReplaceCharacter [c] rep s = Some (concat (map (\<lambda>x. if x = c then rep else [x]) s))"
proof (induction "count_list s c" arbitrary: s rule: less_induct)
  case less
  show ?case
  proof (cases "c \<in> set s")
    case False
    then have "concat (map (\<lambda>x. if x = c then rep else [x]) s) = s" by (induction s) auto
    with False show ?thesis by (subst ReplaceCharacter_char) simp
  next
    case True
    then obtain us vs where s: "s = us @ c # vs" "c \<notin> set us" by (meson split_list_first)
    have us: "concat (map (\<lambda>x. if x = c then rep else [x]) us) = us" if "c \<notin> set us" for us
      using that by (induction us) auto
    from s have "takeWhile (\<lambda>x. x \<noteq> c) s = us" "dropWhile (\<lambda>x. x \<noteq> c) s = c # vs"
      by (auto simp: takeWhile_tail dropWhile_append)
    with True have "ReplaceCharacter [c] rep s = ReplaceCharacter [c] rep (us @ rep @ vs)"
      by (subst ReplaceCharacter_char) simp
    moreover have "count_list (us @ rep @ vs) c < count_list s c"
      using s assms by (simp add: count_list_0_iff)
    ultimately have "ReplaceCharacter [c] rep s = Some (concat (map (\<lambda>x. if x = c then rep else [x]) (us @ rep @ vs)))"
      using less by simp
    with s us [of us] us [of rep] assms show ?thesis by simp
  qed
qed

lemma replace_loops:
  assumes "c \<in> set rep" "c \<in> set s"
  shows "ReplaceCharacter [c] rep s = None"
proof (rule ccontr)
  assume "ReplaceCharacter [c] rep s \<noteq> None"
  then obtain r where r: "ReplaceCharacter [c] rep s = Some r" by blast
  have "\<not> (pat = [c] \<and> rep' = rep \<and> c \<in> set s')"
    if "ReplaceCharacter pat rep' s' = Some r'" for pat rep' s' r'
  proof (rule ReplaceCharacter.raw_induct [where P = "\<lambda>pat rep' s' r'. \<not> (pat = [c] \<and> rep' = rep \<and> c \<in> set s')", OF _ that])
    fix f pat rep' s' r'
    assume IH: "\<And>pat rep' s' r'. f pat rep' s' = Some r' \<Longrightarrow> \<not> (pat = [c] \<and> rep' = rep \<and> c \<in> set s')"
      and eq: "(case str_find pat s' of Some i \<Rightarrow> f pat rep' (take i s' @ rep' @ drop (Suc i) s') | None \<Rightarrow> Some s') = Some r'"
    show "\<not> (pat = [c] \<and> rep' = rep \<and> c \<in> set s')"
    proof
      assume h: "pat = [c] \<and> rep' = rep \<and> c \<in> set s'"
      then obtain i where "str_find pat s' = Some i" by (simp add: str_find_char)
      with eq have "f pat rep' (take i s' @ rep' @ drop (Suc i) s') = Some r'" by simp
      from IH [OF this] h assms show False by simp
    qed
  qed
  from this [OF r] assms show False by simp
qed

text \<open>
  C38. Replacing a character is a map over the text when the character is not part of its own
  replacement or not in the text, and never returns otherwise.
\<close>

theorem replace_is_a_map_or_loops:
  "ReplaceCharacter [c] rep s =
     (if c \<in> set rep \<and> c \<in> set s then None
      else Some (concat (map (\<lambda>x. if x = c then rep else [x]) s)))"
proof (cases "c \<in> set s")
  case True
  then show ?thesis using replace_returns replace_loops by simp
next
  case False
  then have "concat (map (\<lambda>x. if x = c then rep else [x]) s) = s" by (induction s) auto
  with False show ?thesis by (subst ReplaceCharacter_char) simp
qed

subsection \<open>Escaping\<close>

lemma str_find_parts:
  assumes "str_find pat s = Some i"
  obtains u v where "s = u @ pat @ v" "i = length u"
proof
  from str_find_Some [OF assms] show "s = take i s @ pat @ drop (i + length pat) s" "i = length (take i s)" by simp_all
qed

lemma replace_crlf_returns: "\<exists>r. ReplaceCharacter [CHR 13, CHR 10] [CHR 92, CHR ''n''] s = Some r"
proof (induction "count_list s (CHR 13)" arbitrary: s rule: less_induct)
  case less
  show ?case
  proof (cases "str_find [CHR 13, CHR 10] s")
    case None
    then show ?thesis by (subst ReplaceCharacter.simps) simp
  next
    case (Some i)
    then obtain u v where s: "s = u @ [CHR 13, CHR 10] @ v" "i = length u"
      using str_find_parts by metis
    then have "count_list (u @ [CHR 92, CHR ''n''] @ CHR 10 # v) (CHR 13) < count_list s (CHR 13)" by simp
    with less obtain r where "ReplaceCharacter [CHR 13, CHR 10] [CHR 92, CHR ''n''] (u @ [CHR 92, CHR ''n''] @ CHR 10 # v) = Some r"
      by blast
    with Some s show ?thesis by (subst ReplaceCharacter.simps) simp
  qed
qed

lemma EscapeChar_returns: "\<exists>r. EscapeChar s = Some r \<and> CHR 10 \<notin> set r \<and> CHR 9 \<notin> set r"
proof -
  obtain s2 where s2: "ReplaceCharacter [CHR 13, CHR 10] [CHR 92, CHR ''n''] (concat (map (\<lambda>x. if x = CHR 92 then [CHR ''/''] else [x]) s)) = Some s2"
    using replace_crlf_returns by blast
  then show ?thesis
    unfolding EscapeChar_def by (auto simp: replace_returns)
qed

text \<open>A line end of two characters becomes two escapes.\<close>

lemma EscapeChar_crlf: "EscapeChar [CHR 13, CHR 10] = Some [CHR 92, CHR ''n'', CHR 92, CHR ''n'']"
proof -
  have "ReplaceCharacter [CHR 13, CHR 10] [CHR 92, CHR ''n''] [CHR 13, CHR 10] = Some [CHR 92, CHR ''n'', CHR 10]"
    by (simp add: ReplaceCharacter.simps str_find.simps)
  then show ?thesis by (simp add: EscapeChar_def replace_returns)
qed

subsection \<open>Splitting and joining\<close>

lemma Split_empty: "Split [] s = None"
proof (rule ccontr)
  assume "Split [] s \<noteq> None"
  then obtain ws where ws: "Split [] s = Some ws" by blast
  have "d \<noteq> []" if "Split d s' = Some ws'" for d s' ws'
  proof (rule Split.raw_induct [where P = "\<lambda>d s' ws'. d \<noteq> []", OF _ that])
    fix f d s' ws'
    assume IH: "\<And>d s' ws'. f d s' = Some ws' \<Longrightarrow> d \<noteq> []"
      and eq: "(case str_find d s' of Some i \<Rightarrow> Option.bind (f d (drop (i + length d) s')) (\<lambda>ws. Some (take i s' # ws))
                | None \<Rightarrow> Some [s']) = Some ws'"
    show "d \<noteq> []"
    proof
      assume d: "d = []"
      then have "str_find d s' = Some 0" by (subst str_find.simps) simp
      with eq d obtain ws where "f d s' = Some ws" by (auto simp: bind_eq_Some_conv)
      from IH [OF this] d show False by simp
    qed
  qed
  from this [OF ws] show False by simp
qed

lemma Join_Cons: "Join (w # ws) d = w @ concat (map (\<lambda>v. d @ v) ws)"
proof -
  have "map (\<lambda>i. (if i \<noteq> 0 then d else []) @ (w # ws) ! i) [0..<length (w # ws)] = w # map (\<lambda>v. d @ v) ws"
    by (rule nth_equalityI) (auto simp: nth_Cons' nth_append simp del: upt_Suc)
  then show ?thesis by (simp add: Join_def del: upt_Suc)
qed

text \<open>\<open>i\<close> is the first place of \<open>pat\<close>: no earlier one.\<close>

lemma str_find_first: "str_find pat s = Some i \<Longrightarrow> j < i \<Longrightarrow> take (length pat) (drop j s) \<noteq> pat"
proof (induction s arbitrary: i j)
  case Nil
  then show ?case by (subst (asm) str_find.simps) (auto split: if_splits)
next
  case (Cons ch s)
  then show ?case
    by (subst (asm) (2) str_find.simps) (cases j, auto split: if_splits)
qed

lemma str_find_not_in: "str_find pat (take i s) = None" if "str_find pat s = Some i" "pat \<noteq> []"
proof -
  have "take (length pat) (drop j (take i s)) \<noteq> pat" if "j \<le> i" for j
  proof
    assume a: "take (length pat) (drop j (take i s)) = pat"
    then have "length pat \<le> i - j" by (metis drop_take length_take min.cobounded2 min.bounded_iff min.cobounded1)
    with a have "take (length pat) (drop j s) = pat" by (simp add: drop_take min_def)
    moreover from \<open>length pat \<le> i - j\<close> \<open>pat \<noteq> []\<close> \<open>j \<le> i\<close> have "j < i" by (cases "j = i") auto
    ultimately show False using str_find_first [OF \<open>str_find pat s = Some i\<close>] by simp
  qed
  then show ?thesis by (simp add: str_find_None)
qed

lemma Split_returns:
  assumes "d \<noteq> []"
  shows "\<exists>ws. Split d s = Some ws \<and> ws \<noteq> [] \<and> Join ws d = s \<and> (\<forall>w \<in> set ws. \<not> Contains w d)"
proof (induction s rule: length_induct)
  case (1 s)
  show ?case
  proof (cases "str_find d s")
    case None
    then show ?thesis by (subst Split.simps) (simp add: Join_Cons Contains_def)
  next
    case (Some i)
    from Some obtain u v where s: "s = u @ d @ v" "i = length u" by (rule str_find_parts)
    from s assms have "length (drop (i + length d) s) < length s" by simp
    with 1 obtain ws where ws: "Split d (drop (i + length d) s) = Some ws" "ws \<noteq> []" "Join ws d = drop (i + length d) s"
      "\<forall>w \<in> set ws. \<not> Contains w d" by blast
    from ws(2) obtain w ws' where w: "ws = w # ws'" by (cases ws) auto
    have "Split d s = Some (take i s # ws)" by (subst Split.simps) (simp add: Some ws(1))
    moreover have "Join (take i s # ws) d = s" using s ws(3) by (simp add: w Join_Cons)
    moreover have "\<not> Contains (take i s) d" using str_find_not_in [OF Some assms] by (simp add: Contains_def)
    ultimately show ?thesis using ws(4) by auto
  qed
qed

text \<open>
  Splitting a text by a delimiter that is not empty returns, joining the pieces with the delimiter
  gives the text back, and no piece contains the delimiter.
\<close>

theorem split_then_join:
  assumes "d \<noteq> []"
  shows "\<exists>ws. Split d s = Some ws \<and> Join ws d = s \<and> (\<forall>w \<in> set ws. \<not> Contains w d)"
  using Split_returns [OF assms] by blast

lemma split_then_join_witness:
  "\<exists>ws. Split ''::'' ''a::b:c::'' = Some ws \<and> Join ws ''::'' = ''a::b:c::'' \<and> (\<forall>w \<in> set ws. \<not> Contains w ''::'')"
  by (rule split_then_join) simp

lemma Split_example: "Split ''::'' ''a::b:c::'' = Some [''a'', ''b:c'', []]"
  by (simp add: Split.simps str_find.simps)

subsection \<open>Hexadecimal text\<close>

lemma binHex_digits:
  "list_all (\<lambda>a. isxdigit (binHex ! a) \<and> CharToInt (binHex ! a) = a \<and> \<not> is_space (binHex ! a) \<and>
     binHex ! a \<noteq> CHR ''-'' \<and> binHex ! a \<noteq> CHR ''+'' \<and> binHex ! a \<noteq> CHR ''x'' \<and> binHex ! a \<noteq> CHR ''X'') [0..<16]"
  by code_simp

lemma binHex_digit:
  assumes "a < 16"
  shows "isxdigit (binHex ! a)" "CharToInt (binHex ! a) = a" "\<not> is_space (binHex ! a)"
    "binHex ! a \<noteq> CHR ''-''" "binHex ! a \<noteq> CHR ''+''"
  using assms binHex_digits unfolding list_all_iff by simp_all

lemma hex_byte_ByteToHex: "hex_byte (ByteToHex c) = Some c"
proof -
  define n :: nat where "n = of_char c"
  have n: "n < 256" unfolding n_def using nat_of_char_less_256 [of c] by simp
  let ?a = "n div 16" and ?b = "n mod 16"
  have ab: "?a < 16" "?b < 16" using n by auto
  note d = binHex_digit [OF ab(1)] binHex_digit [OF ab(2)]
  have "read16 [binHex ! ?a, binHex ! ?b] = (False, n, [])"
    using d by (simp add: read16_def digits16_def)
  moreover have "nat (int n mod 256) = n" using n by simp
  ultimately show ?thesis
    using d by (simp add: hex_byte_def ByteToHex_def n_def [symmetric] del: nat_mod_distrib) (simp add: n_def)
qed

lemma hex_bytes_ToHex: "hex_bytes (ToHex buf) = Some buf"
proof (induction buf)
  case Nil
  then show ?case by (simp add: ToHex_def)
next
  case (Cons c buf)
  obtain a b where "ByteToHex c = [a, b]" by (simp add: ByteToHex_def)
  with hex_byte_ByteToHex [of c] Cons show ?case by (simp add: ToHex_def)
qed

lemma length_ToHex [simp]: "length (ToHex buf) = 2 * length buf"
  by (induction buf) (simp_all add: ToHex_def ByteToHex_def)

lemma hex_bytes_length: "hex_bytes s = Some bs \<Longrightarrow> length bs = (length s + 1) div 2"
  by (induction s arbitrary: bs rule: hex_bytes.induct) (auto simp: bind_eq_Some_conv)

text \<open>Bytes written as hexadecimal text and read back into a buffer of their number are the same.\<close>

lemma HexStringToUint8_ToHex: "length out = length buf \<Longrightarrow> HexStringToUint8 (ToHex buf) out = Some buf"
  by (simp add: HexStringToUint8_def hex_bytes_ToHex)

text \<open>An odd number of digits writes one byte past a buffer of half their number.\<close>

lemma HexStringToUint8_odd: "odd (length s) \<Longrightarrow> length out = length s div 2 \<Longrightarrow> HexStringToUint8 s out = None"
  by (cases "hex_bytes s") (auto simp: HexStringToUint8_def dest!: hex_bytes_length elim!: oddE)

subsection \<open>Trimming\<close>

lemma Trim_ends:
  "Trim s \<noteq> [] \<Longrightarrow> \<not> is_space (hd (Trim s)) \<and> \<not> is_space (last (Trim s))"
proof -
  let ?t = "dropWhile is_space s"
  assume ne: "Trim s \<noteq> []"
  have r: "Trim s = rev (dropWhile is_space (rev ?t))" by (simp add: Trim_def Rtrim_def Ltrim_def)
  from ne r have d: "dropWhile is_space (rev ?t) \<noteq> []" by simp
  from hd_dropWhile [OF d] have l: "\<not> is_space (last (Trim s))" by (simp add: r last_rev)
  have "?t \<noteq> []"
  proof
    assume "?t = []"
    then have "dropWhile is_space (rev ?t) = []" by (simp only: rev.simps dropWhile.simps)
    with d show False ..
  qed
  from hd_dropWhile [OF this] have h: "\<not> is_space (hd ?t)" .
  have "?t = rev (dropWhile is_space (rev ?t)) @ rev (takeWhile is_space (rev ?t))"
    by (metis rev_append rev_rev_ident takeWhile_dropWhile_id)
  then have "hd ?t = hd (Trim s)" using ne r by (metis hd_append2)
  with h l show ?thesis by simp
qed

text \<open>The sign of a padded number stays behind the zeros.\<close>

lemma ToLeadingZeros_sign: "ToLeadingZeros (- 5) 4 = ''00-5''"
  by code_simp

text \<open>The last number that may be drawn gives the terminating zero.\<close>

lemma GenerateRandomString_zero: "GenerateRandomString (\<lambda>i. length alphanum - 1) 1 = [CHR 0x00]"
  by (simp add: GenerateRandomString_def alphanum_def)

lemma length_GenerateRandomString: "length (GenerateRandomString draws n) = n"
  by (simp add: GenerateRandomString_def)

end
