(* ===== verification/Protocol.thy ===== *)
theory Protocol
  imports Gcm_Facts Text_Util
begin

text \<open>
  The frames between a client and the server (Protocol.h, Protocol.cpp): a header of 28 characters, a
  prefix, and the payload, encrypted and written in hexadecimal. \<open>aes\<close> is the block cipher, a function
  of the key and a block. \<open>memory\<close> is what the code reads without having written it. \<open>None\<close> is
  undefined behaviour: an access outside of a buffer; for \<open>ParseHeader\<close> it is \<open>abort()\<close>.
\<close>

section \<open>State\<close>

definition PROTO_HEADER_SIZE :: nat where "PROTO_HEADER_SIZE = 28"
definition PROTO_MAX_BODY_SIZE :: nat where "PROTO_MAX_BODY_SIZE = 10 * 1024"
definition cTagSize :: nat where "cTagSize = 16"
definition cIVSize :: nat where "cIVSize = 12"
definition cOptionClearData :: nat where "cOptionClearData = 0"
definition cOptionCypheredData :: nat where "cOptionCypheredData = 1"

text \<open>The bytes behind the key, which may be shorter than 16 bytes, and the local array \<open>tag_computed\<close>.\<close>

record memory =
  after_key :: string
  tag_computed :: string

record header =
  h_option :: nat
  src_uid :: nat
  dst_uid :: nat
  payload_size :: nat
  frame_counter :: nat
  prefix_size :: nat
  h_prefix :: string

definition Header_new :: header where
  "Header_new = \<lparr>h_option = 0, src_uid = 0, dst_uid = 0, payload_size = 0, frame_counter = 0,
     prefix_size = 0, h_prefix = []\<rparr>"

definition BodyLength :: "header \<Rightarrow> nat" where
  "BodyLength h = (prefix_size h + 1 + payload_size h) mod 2 ^ 32"

record protocol =
  mData :: string
  mKey :: string
  mTxFrameCounter :: nat
  mRxFrameCounter :: nat

definition Protocol_new :: "string \<Rightarrow> protocol" where
  "Protocol_new buffer = \<lparr>mData = buffer, mKey = [], mTxFrameCounter = 0, mRxFrameCounter = 0\<rparr>"

definition SetSecurity :: "string \<Rightarrow> protocol \<Rightarrow> protocol" where
  "SetSecurity key p = p\<lparr>mKey := key, mRxFrameCounter := 0, mTxFrameCounter := 0\<rparr>"

definition bytes_of :: "string \<Rightarrow> bytes" where
  "bytes_of s = map (\<lambda>ch. of_nat (of_char ch)) s"

definition text_of :: "bytes \<Rightarrow> string" where
  "text_of bs = map (\<lambda>b. char_of (unat b)) bs"

section \<open>Encryption\<close>

definition gcm_key :: "(bytes \<Rightarrow> bytes \<Rightarrow> bytes) \<Rightarrow> memory \<Rightarrow> protocol \<Rightarrow> gcm_context" where
  "gcm_key aes mem p = snd (mbedtls_gcm_setkey aes (bytes_of (mKey p @ after_key mem)) 128 mbedtls_gcm_init)"

definition Encrypt ::
  "(bytes \<Rightarrow> bytes \<Rightarrow> bytes) \<Rightarrow> memory \<Rightarrow> string \<Rightarrow> string \<Rightarrow> string \<Rightarrow> string \<Rightarrow> protocol \<Rightarrow> string option" where
  "Encrypt aes mem aad payload iv output p =
     (let (ret, scratch, tag, _) = mbedtls_gcm_crypt_and_tag MBEDTLS_GCM_ENCRYPT (take 12 (bytes_of iv)) (bytes_of aad)
            (bytes_of payload) cTagSize (gcm_key aes mem p)
      in map_option (\<lambda>s. output @ iv @ text_of s @ text_of tag) scratch)"

text \<open>What is appended to the output, and the result.\<close>

definition Decrypt ::
  "(bytes \<Rightarrow> bytes \<Rightarrow> bytes) \<Rightarrow> memory \<Rightarrow> string \<Rightarrow> string \<Rightarrow> nat \<Rightarrow> string \<Rightarrow> protocol \<Rightarrow> (bool \<times> string) option" where
  "Decrypt aes mem aad ciphered sz output p =
     (if sz < cIVSize + cTagSize then None
      else
        (let payload = take (sz - (cIVSize + cTagSize)) (drop cIVSize ciphered);
             tag = take cTagSize (drop (sz - cTagSize) ciphered);
             iv = take cIVSize ciphered;
             (ret, plainText, _) = mbedtls_gcm_auth_decrypt (bytes_of iv) (bytes_of aad) (bytes_of tag) (bytes_of payload)
               (gcm_key aes mem p)
         in map_option (\<lambda>s. (tag_computed mem = tag, output @ text_of s)) plainText))"

section \<open>Sending\<close>

fun hex_string :: "nat \<Rightarrow> string" where
  "hex_string n =
     (let d = (\<lambda>k. ''0123456789abcdef'' ! k)
      in if n < 16 then [d n] else hex_string (n div 16) @ [d (n mod 16)])"

declare hex_string.simps [simp del]

definition hex_field :: "nat \<Rightarrow> nat \<Rightarrow> string" where
  "hex_field width n = pad0 width (hex_string n) @ '':''"

definition frame_header :: "nat \<Rightarrow> nat \<Rightarrow> nat \<Rightarrow> nat \<Rightarrow> string \<Rightarrow> string" where
  "frame_header src dst sz counter pfx =
     hex_field 2 cOptionCypheredData @ hex_field 4 src @ hex_field 4 dst @ hex_field 4 sz @
     hex_field 4 counter @ hex_field 4 (length pfx) @ pfx @ '':''"

definition Protocol_Build ::
  "(bytes \<Rightarrow> bytes \<Rightarrow> bytes) \<Rightarrow> memory \<Rightarrow> nat \<Rightarrow> nat \<Rightarrow> string \<Rightarrow> string \<Rightarrow> protocol \<Rightarrow> (string \<times> protocol) option" where
  "Protocol_Build aes mem src dst clearMessage pfx p =
     (let cipheredPayloadSize = (cIVSize + length clearMessage + cTagSize) * 2 mod 2 ^ 32;
          stream = frame_header src dst cipheredPayloadSize (mTxFrameCounter p) pfx;
          iv = ''000000000000''
      in map_option (\<lambda>payload. (stream @ ToHex payload, p\<lparr>mTxFrameCounter := (mTxFrameCounter p + 1) mod 2 ^ 32\<rparr>))
           (Encrypt aes mem stream clearMessage iv [] p))"

section \<open>Receiving\<close>

text \<open>\<open>strtoul\<close> in base 16 on a 64-bit \<open>unsigned long\<close>: the value and the number of characters read.\<close>

definition strtoul16 :: "string \<Rightarrow> nat \<times> nat" where
  "strtoul16 s =
     (let (neg, n, s') = read16 s
      in (if 2 ^ 64 \<le> n then 2 ^ 64 - 1 else if neg then (2 ^ 64 - n) mod 2 ^ 64 else n, length s - length s'))"

definition ParseUint32 :: "string \<Rightarrow> nat \<Rightarrow> bool \<times> nat" where
  "ParseUint32 data sz = (let (n, len) = strtoul16 data in (sz = len mod 2 ^ 32, n mod 2 ^ 32))"

definition ParseUint16 :: "string \<Rightarrow> nat \<Rightarrow> bool \<times> nat" where
  "ParseUint16 data sz = (let (n, len) = strtoul16 data in (sz = len mod 2 ^ 16, n mod 2 ^ 16))"

definition ParsePrefix :: "header \<Rightarrow> protocol \<Rightarrow> header" where
  "ParsePrefix h p =
     (if 0 < prefix_size h \<and> prefix_size h < PROTO_MAX_BODY_SIZE
      then h\<lparr>h_prefix := take (prefix_size h) (drop 28 (mData p))\<rparr> else h)"

definition DecryptPayload ::
  "(bytes \<Rightarrow> bytes \<Rightarrow> bytes) \<Rightarrow> memory \<Rightarrow> string \<Rightarrow> header \<Rightarrow> protocol \<Rightarrow> (bool \<times> string) option" where
  "DecryptPayload aes mem output h p =
     (let cipheredPayloadSize = payload_size h div 2;
          start = (PROTO_HEADER_SIZE + prefix_size h + 1) mod 2 ^ 32
      in if start + payload_size h \<le> length (mData p) then
           Option.bind (HexStringToUint8 (take (payload_size h) (drop start (mData p))) (replicate cipheredPayloadSize (CHR 0x00)))
             (\<lambda>ciphered. Decrypt aes mem (take start (mData p)) ciphered cipheredPayloadSize output p)
         else None)"

text \<open>A field of the header is read when the ones before it were.\<close>

definition read_field :: "nat \<Rightarrow> nat \<Rightarrow> (nat \<Rightarrow> header \<Rightarrow> header) \<Rightarrow> string \<Rightarrow> bool \<times> header \<Rightarrow> bool \<times> header" where
  "read_field pos sz put data = (\<lambda>(ret, h).
     if ret then (let (ok, n) = ParseUint32 (drop pos data) sz in (ok, put n h)) else (ret, h))"

definition ParseHeader :: "header \<Rightarrow> protocol \<Rightarrow> (bool \<times> header) option" where
  "ParseHeader h p =
     (let d = mData p
      in if d ! 2 = CHR '':'' \<and> d ! 7 = CHR '':'' \<and> d ! 12 = CHR '':'' \<and> d ! 17 = CHR '':'' \<and>
            d ! 22 = CHR '':'' \<and> d ! 27 = CHR '':'' then
           (let (ok, n) = ParseUint16 d 2;
                r0 = (ok, h\<lparr>h_option := n\<rparr>);
                r1 = read_field 3 4 (\<lambda>n h. h\<lparr>src_uid := n\<rparr>) d r0;
                r2 = read_field 8 4 (\<lambda>n h. h\<lparr>dst_uid := n\<rparr>) d r1;
                r3 = read_field 13 4 (\<lambda>n h. h\<lparr>payload_size := n\<rparr>) d r2;
                r4 = read_field 18 4 (\<lambda>n h. h\<lparr>frame_counter := n\<rparr>) d r3;
                (ret, h') = read_field 23 4 (\<lambda>n h. h\<lparr>prefix_size := n\<rparr>) d r4
            in if PROTO_MAX_BODY_SIZE \<le> (payload_size h' + prefix_size h' + 1) mod 2 ^ 32 then None
               else Some (ret, h'))
         else Some (False, h))"

text \<open>The socket writes the header to the front of the buffer, and the body behind it.\<close>

definition receive_header :: "string \<Rightarrow> protocol \<Rightarrow> protocol" where
  "receive_header s p = p\<lparr>mData := s @ drop PROTO_HEADER_SIZE (mData p)\<rparr>"

definition receive_body :: "string \<Rightarrow> protocol \<Rightarrow> protocol" where
  "receive_body s p =
     p\<lparr>mData := take PROTO_HEADER_SIZE (mData p) @ s @ drop (PROTO_HEADER_SIZE + length s) (mData p)\<rparr>"

end
