(* ===== verification/Deal_Context.thy ===== *)
theory Deal_Context
  imports Scores
begin

text \<open>
  The record of one deal (TarotContext.h, TarotContext.cpp): the bid, the dog, the discard, the
  handles, the tricks and their winners, and the running statistics of the attack. Its operations
  decide the auction, the winner of each trick and the team that gets the fool, and add up the
  points at the end of the deal. Saving to and loading from JSON are not part of this theory.

  The arrays \<open>mTricks\<close> and \<open>mWinner\<close> have 24 entries; an index outside is \<open>None\<close>.
\<close>

section \<open>State\<close>

record tarot_context =
  mNbPlayers :: nat
  mBid :: bid
  mDiscard :: deck
  mDog :: deck
  mAttackHandle :: deck
  mDefenseHandle :: deck
  mFirstPlayer :: place
  mTricks :: "deck list"
  mWinner :: "place list"
  mTricksWon :: int
  mStatsAttack :: statistics
  mKingCalled :: card

text \<open>A new context; \<open>mTricksWon\<close> is only set by \<open>Initialize\<close>, which always runs first.\<close>

definition Context_new :: tarot_context where
  "Context_new =
     \<lparr>mNbPlayers = 4, mBid = Bid_Initialize, mDiscard = Deck_empty, mDog = Deck_empty,
      mAttackHandle = Deck_empty, mDefenseHandle = Deck_empty, mFirstPlayer = NOWHERE,
      mTricks = replicate 24 Deck_empty, mWinner = replicate 24 NOWHERE, mTricksWon = 0,
      mStatsAttack = Statistics_Reset, mKingCalled = Card_default\<rparr>"

text \<open>\<open>Initialize\<close> keeps the dog, the first player, the winners and the called king.\<close>

definition Context_Initialize :: "tarot_context \<Rightarrow> tarot_context" where
  "Context_Initialize x =
     x\<lparr>mBid := Bid_Initialize, mDiscard := Deck_Clear (mDiscard x),
       mAttackHandle := Deck_Clear (mAttackHandle x),
       mDefenseHandle := Deck_Clear (mDefenseHandle x),
       mTricks := map Deck_Clear (mTricks x), mTricksWon := 0,
       mStatsAttack := Statistics_Reset\<rparr>"

section \<open>Auction, handles, dog\<close>

definition Context_SetHandle :: "deck \<Rightarrow> place \<Rightarrow> tarot_context \<Rightarrow> tarot_context" where
  "Context_SetHandle handle p x =
     (if p = taker (mBid x) \<or> p = partner (mBid x) then x\<lparr>mAttackHandle := handle\<rparr>
      else x\<lparr>mDefenseHandle := handle\<rparr>)"

definition ManageDogAfterBid :: "tarot_context \<Rightarrow> bool \<times> tarot_context" where
  "ManageDogAfterBid x =
     (if contract (mBid x) = GUARD_WITHOUT \<or> contract (mBid x) = GUARD_AGAINST
      then (if contract (mBid x) \<noteq> GUARD_AGAINST
            then (False, x\<lparr>mDiscard := Deck_SetOwner ATTACK (mDog x)\<rparr>)
            else (False, x\<lparr>mDiscard := Deck_SetOwner DEFENSE (mDog x)\<rparr>))
      else (True, x))"

definition Context_SetBid :: "contract \<Rightarrow> bool \<Rightarrow> place \<Rightarrow> tarot_context \<Rightarrow> contract \<times> tarot_context" where
  "Context_SetBid c s p x =
     (if contract (mBid x) < c
      then (c, x\<lparr>mBid := (mBid x)\<lparr>contract := c, taker := p, slam := s\<rparr>\<rparr>)
      else (PASS, x))"

definition CheckKingCall :: "card \<Rightarrow> statistics \<Rightarrow> bool" where
  "CheckKingCall c st =
     (if mValue c \<noteq> KING then
        (if kings st = 4 then
           (if mValue c \<noteq> QUEEN then
              (if queens st = 4 then
                 (if mValue c \<noteq> KNIGHT then
                    (if knights st = 4 then
                       (if mValue c \<noteq> JACK then (if jacks st = 4 then True else False) else True)
                     else False)
                  else True)
               else False)
            else True)
         else False)
      else True)"

section \<open>Tricks\<close>

definition GetTrick :: "nat \<Rightarrow> tarot_context \<Rightarrow> deck option" where
  "GetTrick turn x =
     arr_get (mTricks x) (if NumberOfCardsInHand (mNbPlayers x) \<le> turn then 0 else turn)"

definition Context_GetWinner :: "nat \<Rightarrow> tarot_context \<Rightarrow> place option" where
  "Context_GetWinner turn x =
     arr_get (mWinner x) (if NumberOfCardsInHand (mNbPlayers x) \<le> turn then 0 else turn)"

text \<open>\<open>GetOwner\<close> walks around the table from the first player until it meets the card.\<close>

fun owner_walk :: "nat \<Rightarrow> place \<Rightarrow> card \<Rightarrow> card list \<Rightarrow> place" where
  "owner_walk n p c [] = p"
| "owner_walk n p c (x # xs) = (if c = x then p else owner_walk n (Place_Next n p) c xs)"

definition GetOwner :: "place \<Rightarrow> card \<Rightarrow> nat \<Rightarrow> tarot_context \<Rightarrow> place option" where
  "GetOwner firstPlayer c turn x =
     Option.bind (arr_get (mTricks x) turn) (\<lambda>trick.
       Some (owner_walk (Deck_Size trick mod 256) firstPlayer c (mDeck trick)))"

definition team_of :: "bid \<Rightarrow> place \<Rightarrow> team" where
  "team_of b winner = (if winner = taker b \<or> winner = partner b then ATTACK else DEFENSE)"

text \<open>
  Who keeps the fool: the possibly corrected winner and whether the fool changes sides. The team
  of the player of the fool is decided by comparing with the taker only.
\<close>

definition fool_rule :: "nat \<Rightarrow> nat \<Rightarrow> place \<Rightarrow> place \<Rightarrow> tarot_context \<Rightarrow> place \<times> bool" where
  "fool_rule trickCounter numberOfPlayers winner foolPlace x =
     (let winnerTeam = team_of (mBid x) winner;
          foolTeam = (if foolPlace = taker (mBid x) then ATTACK else DEFENSE)
      in if IsDealFinished trickCounter numberOfPlayers then
           (if mTricksWon x = int (NumberOfCardsInHand numberOfPlayers) - 1 \<and> foolPlace = taker (mBid x)
            then (taker (mBid x), False)
            else (winner, winnerTeam = foolTeam))
         else (winner, winnerTeam \<noteq> foolTeam))"

definition trick_winner :: "deck \<Rightarrow> nat \<Rightarrow> nat \<Rightarrow> place \<Rightarrow> tarot_context \<Rightarrow> (place \<times> bool) option" where
  "trick_winner trick trickCounter turn firstPlayer x =
     (if \<not> Card_IsValid (trick_leader trick) then Some (NOWHERE, False)
      else Option.bind (GetOwner firstPlayer (trick_leader trick) turn x) (\<lambda>winner.
             if Deck_HasFool trick then
               (let cFool = Deck_GetCard ''00-T'' trick
                in if \<not> Card_IsValid cFool then Some (winner, False)
                   else Option.bind (GetOwner firstPlayer cFool turn x) (\<lambda>foolPlace.
                          Some (fool_rule trickCounter (Deck_Size trick mod 256) winner foolPlace x)))
             else Some (winner, False)))"

definition credit_trick :: "deck \<Rightarrow> nat \<Rightarrow> place \<Rightarrow> bool \<Rightarrow> tarot_context \<Rightarrow> tarot_context" where
  "credit_trick trick turn winner foolSwap x =
     (if winner = taker (mBid x) \<or> winner = partner (mBid x) then
        (let st = Deck_AnalyzeTrumps trick (mStatsAttack x)
         in x\<lparr>mTricks := (mTricks x)[turn := Deck_SetOwner ATTACK trick],
              mTricksWon := mTricksWon x + 1,
              mStatsAttack :=
                (if foolSwap then st\<lparr>points := points st - 4, oudlers := dec8 (oudlers st)\<rparr> else st),
              mWinner := (mWinner x)[turn := winner]\<rparr>)
      else
        (let st = mStatsAttack x
         in x\<lparr>mTricks := (mTricks x)[turn := Deck_SetOwner DEFENSE trick],
              mStatsAttack :=
                (if foolSwap then st\<lparr>points := points st + 4, oudlers := inc8 (oudlers st)\<rparr> else st),
              mWinner := (mWinner x)[turn := winner]\<rparr>))"

definition SetTrick :: "deck \<Rightarrow> nat \<Rightarrow> tarot_context \<Rightarrow> (place \<times> tarot_context) option" where
  "SetTrick trick trickCounter x =
     (let turn = to_u8 (int trickCounter - 1)
      in Option.bind (if turn = 0 then Some (mFirstPlayer x) else arr_get (mWinner x) (turn - 1))
           (\<lambda>firstPlayer.
              if turn < 24 then
                (let x1 = x\<lparr>mTricks := (mTricks x)[turn := trick]\<rparr>
                 in Option.bind (trick_winner trick trickCounter turn firstPlayer x1)
                      (\<lambda>(winner, foolSwap). Some (winner, credit_trick trick turn winner foolSwap x1)))
              else Some (NOWHERE, x)))"

section \<open>End of the deal\<close>

definition HasDecimal :: "rat \<Rightarrow> bool" where
  "HasDecimal f = (f - of_int (trunc_rat f) \<noteq> 0)"

definition AnalyzeGame :: "deal_points \<Rightarrow> tarot_context \<Rightarrow> deal_points \<times> tarot_context" where
  "AnalyzeGame p x =
     (let numberOfTricks = NumberOfCardsInHand (mNbPlayers x);
          lastTrick = numberOfTricks - 1;
          p1 = p\<lparr>slamDone := (mTricksWon x = int numberOfTricks \<or> mTricksWon x = 0)\<rparr>;
          st1 = (if mOwner (mDiscard x) = ATTACK then Deck_AnalyzeTrumps (mDiscard x) (mStatsAttack x)
                 else mStatsAttack x);
          lastTrick' = (if slamDone p1 \<and> Deck_HasFool (mTricks x ! lastTrick) then lastTrick - 1
                        else lastTrick);
          p2 = p1\<lparr>littleEndianOwner :=
                    (if Deck_HasOneOfTrump (mTricks x ! lastTrick') then mOwner (mTricks x ! lastTrick')
                     else NO_TEAM),
                  oudlersAttack := int (oudlers st1),
                  cardsPointsAttack := points st1\<rparr>;
          st2 = (if HasDecimal (points st1) then
                   (if of_int (points_to_do p2) \<le> points st1
                    then st1\<lparr>points := points st1 + 1 / 2\<rparr>
                    else st1\<lparr>points := points st1 - 1 / 2\<rparr>)
                 else st1);
          p3 = p2\<lparr>pointsAttack := trunc_rat (points st2),
                  handlePoints := handlePoints p2
                    + GetHandlePoints (mNbPlayers x) (GetHandleType (Deck_Size (mAttackHandle x)))
                    + GetHandlePoints (mNbPlayers x) (GetHandleType (Deck_Size (mDefenseHandle x)))\<rparr>
      in (p3, x\<lparr>mStatsAttack := st2\<rparr>))"


section \<open>Lemmas\<close>

subsection \<open>The auction\<close>

definition run_bids :: "(contract \<times> bool \<times> place) list \<Rightarrow> tarot_context \<Rightarrow> tarot_context" where
  "run_bids = fold (\<lambda>(c, s, p) x. snd (Context_SetBid c s p x))"

lemma run_bids_snoc: "run_bids (bs @ [(c, s, p)]) x = snd (Context_SetBid c s p (run_bids bs x))"
  by (simp add: run_bids_def)

definition first_best :: "(contract \<times> bool \<times> place) list \<Rightarrow> contract \<Rightarrow> bool \<Rightarrow> place \<Rightarrow> bool" where
  "first_best bs c s p \<longleftrightarrow>
     (\<exists>us vs. bs = us @ (c, s, p) # vs \<and> (\<forall>b \<in> set us. fst b < c) \<and> (\<forall>b \<in> set vs. fst b \<le> c))"

lemma first_best_le: "first_best bs c s p \<Longrightarrow> b \<in> set bs \<Longrightarrow> fst b \<le> c"
  by (auto simp: first_best_def less_le)

lemma run_bids_best:
  "let b = mBid (run_bids bs x) in
     (if \<exists>a \<in> set bs. contract (mBid x) < fst a
      then contract (mBid x) < contract b \<and> first_best bs (contract b) (slam b) (taker b) \<and>
           partner b = partner (mBid x)
      else b = mBid x)"
proof (induction bs rule: rev_induct)
  case Nil
  then show ?case by (simp add: run_bids_def)
next
  case (snoc a bs)
  obtain c s p where a: "a = (c, s, p)" by (cases a) auto
  let ?y = "run_bids bs x"
  show ?case
  proof (cases "contract (mBid ?y) < c")
    case True
    then have y: "mBid (run_bids (bs @ [a]) x) = (mBid ?y)\<lparr>contract := c, taker := p, slam := s\<rparr>"
      by (simp add: a run_bids_snoc Context_SetBid_def)
    have below: "contract (mBid x) \<le> contract (mBid ?y)" "\<forall>b \<in> set bs. fst b \<le> contract (mBid ?y)"
      using snoc.IH by (auto simp: Let_def not_less split: if_splits dest: first_best_le)
    then have "first_best (bs @ [a]) c s p"
      unfolding first_best_def
      by (intro exI [of _ bs] exI [of _ "[]"]) (use True in \<open>auto simp: a\<close>)
    moreover have "contract (mBid x) < c" using True below by simp
    moreover have "partner (mBid ?y) = partner (mBid x)"
      using snoc.IH by (auto simp: Let_def split: if_splits)
    ultimately show ?thesis
      using True by (simp add: y Let_def) (use True below in \<open>auto simp: a\<close>)
  next
    case False
    then have y: "mBid (run_bids (bs @ [a]) x) = mBid ?y"
      by (simp add: a run_bids_snoc Context_SetBid_def)
    show ?thesis
    proof (cases "\<exists>b \<in> set bs. contract (mBid x) < fst b")
      case True
      with snoc.IH obtain us vs where uv:
        "bs = us @ (contract (mBid ?y), slam (mBid ?y), taker (mBid ?y)) # vs"
        "\<forall>b \<in> set us. fst b < contract (mBid ?y)" "\<forall>b \<in> set vs. fst b \<le> contract (mBid ?y)"
        by (auto simp: Let_def first_best_def)
      have "first_best (bs @ [a]) (contract (mBid ?y)) (slam (mBid ?y)) (taker (mBid ?y))"
        unfolding first_best_def
        by (intro exI [of _ us] exI [of _ "vs @ [a]"]) (use uv False in \<open>auto simp: a not_less\<close>)
      with True snoc.IH show ?thesis by (auto simp: y Let_def)
    next
      case none: False
      with snoc.IH have "mBid ?y = mBid x" by (simp add: Let_def)
      with none False show ?thesis by (auto simp: y [unfolded a] a Let_def)
    qed
  qed
qed

subsection \<open>Walking to the owner of a card\<close>

definition index_of :: "card \<Rightarrow> card list \<Rightarrow> nat" where
  "index_of c xs = length (takeWhile (\<lambda>x. x \<noteq> c) xs)"

lemma owner_walk_funpow: "owner_walk n p c xs = (Place_Next n ^^ index_of c xs) p"
proof (induction xs arbitrary: p)
  case Nil
  then show ?case by (simp add: index_of_def)
next
  case (Cons a xs)
  then show ?case by (simp add: index_of_def funpow_swap1)
qed

lemma index_of_less: "c \<in> set xs \<Longrightarrow> index_of c xs < length xs"
  by (induction xs) (auto simp: index_of_def)

lemma index_of_nth: "c \<in> set xs \<Longrightarrow> xs ! index_of c xs = c"
  by (induction xs) (auto simp: index_of_def)

subsection \<open>Card points of a list of cards\<close>

definition pts :: "card list \<Rightarrow> rat" where
  "pts cs = sum_list (map Card_GetPoints cs)"

definition oudler_count :: "card list \<Rightarrow> nat" where
  "oudler_count cs = count_if is_oudler cs"

lemma pts_simps [simp]: "pts [] = 0" "pts (c # cs) = Card_GetPoints c + pts cs" "pts (xs @ ys) = pts xs + pts ys"
  by (simp_all add: pts_def)

lemma oudler_count_simps [simp]:
  "oudler_count [] = 0" "oudler_count (c # cs) = (if is_oudler c then 1 else 0) + oudler_count cs"
  "oudler_count (xs @ ys) = oudler_count xs + oudler_count ys"
  by (simp_all add: oudler_count_def count_if_def)

lemma pts_nonneg [simp]: "0 \<le> pts cs"
  unfolding pts_def by (rule sum_list_nonneg) (auto intro: order_trans [OF _ points_bounds])

lemma pts_mset: "mset xs = mset ys \<Longrightarrow> pts xs = pts ys"
  unfolding pts_def by (metis mset_map sum_mset_sum_list)

lemma oudler_count_mset: "mset xs = mset ys \<Longrightarrow> oudler_count xs = oudler_count ys"
  unfolding oudler_count_def count_if_def by (metis mset_filter size_mset)

lemma mset_subset_split:
  assumes "mset xs \<subseteq># mset ys"
  obtains zs where "mset ys = mset (xs @ zs)"
proof -
  from assms obtain M where "mset ys = mset xs + M"
    by (auto simp: mset_subset_eq_exists_conv)
  moreover obtain zs where "mset zs = M" using ex_mset by blast
  ultimately show ?thesis by (intro that [of zs]) simp
qed

lemma pts_subset: "mset xs \<subseteq># mset ys \<Longrightarrow> pts xs \<le> pts ys"
proof (elim mset_subset_split)
  fix zs
  assume "mset ys = mset (xs @ zs)"
  from pts_mset [OF this] show "pts xs \<le> pts ys" by simp
qed

lemma oudler_count_subset: "mset xs \<subseteq># mset ys \<Longrightarrow> oudler_count xs \<le> oudler_count ys"
proof (elim mset_subset_split)
  fix zs
  assume "mset ys = mset (xs @ zs)"
  from oudler_count_mset [OF this] show "oudler_count xs \<le> oudler_count ys" by simp
qed

lemma fool_in_pts: "\<exists>c \<in> set cs. Card_IsFool c \<Longrightarrow> 9 / 2 \<le> pts cs \<and> 1 \<le> oudler_count cs"
proof (induction cs)
  case Nil
  then show ?case by simp
next
  case (Cons a cs)
  show ?case
  proof (cases "Card_IsFool a")
    case True
    then have "Card_GetPoints a = 9 / 2" "is_oudler a"
      by (simp_all add: Card_IsFool_def Card_GetPoints_def is_oudler_def)
    then show ?thesis by simp
  next
    case False
    with Cons have "9 / 2 \<le> pts cs \<and> 1 \<le> oudler_count cs" by auto
    moreover have "0 \<le> Card_GetPoints a" using points_bounds [of a] by linarith
    ultimately show ?thesis by simp
  qed
qed

subsection \<open>One trick\<close>

definition wf_context :: "tarot_context \<Rightarrow> bool" where
  "wf_context x \<longleftrightarrow> length (mTricks x) = 24 \<and> length (mWinner x) = 24 \<and> oudlers (mStatsAttack x) < 256"

text \<open>The player who leads trick number \<open>k\<close> (from 1).\<close>

definition trick_first :: "nat \<Rightarrow> tarot_context \<Rightarrow> place" where
  "trick_first k x = (if k = 1 then mFirstPlayer x else mWinner x ! (k - 2))"

lemma wf_context_Initialize [keeps]: "wf_context x \<Longrightarrow> wf_context (Context_Initialize x)"
  by (simp add: wf_context_def Context_Initialize_def Statistics_Reset_def)

lemma wf_context_new [keeps]: "wf_context Context_new"
  by (simp add: wf_context_def Context_new_def Statistics_Reset_def)

lemma SetTrick_unfold:
  assumes "wf_context x" "1 \<le> k" "k \<le> 24"
  shows "SetTrick trick k x =
    (let x1 = x\<lparr>mTricks := (mTricks x)[k - 1 := trick]\<rparr>
     in Option.bind (trick_winner trick k (k - 1) (trick_first k x) x1)
          (\<lambda>(winner, foolSwap). Some (winner, credit_trick trick (k - 1) winner foolSwap x1)))"
proof -
  have k: "int k - 1 = int (k - 1)" using assms(2) by simp
  have turn: "to_u8 (int k - 1) = k - 1" unfolding k using assms(3) by simp
  show ?thesis
  proof (cases "k = 1")
    case True
    then show ?thesis by (simp add: SetTrick_def trick_first_def Let_def)
  next
    case False
    with assms have "arr_get (mWinner x) (k - 1 - 1) = Some (trick_first k x)" "k - 1 \<noteq> 0" "k - 1 < 24"
      by (auto simp: trick_first_def wf_context_def numeral_2_eq_2)
    then show ?thesis by (simp only: SetTrick_def turn Let_def if_False if_True bind.bind_lunit simp_thms)
  qed
qed

lemma GetOwner_current [simp]:
  "wf_context x \<Longrightarrow> i < 24 \<Longrightarrow>
   GetOwner p c i (x\<lparr>mTricks := (mTricks x)[i := trick]\<rparr>)
     = Some ((Place_Next (Deck_Size trick mod 256) ^^ index_of c (mDeck trick)) p)"
  by (simp add: GetOwner_def wf_context_def owner_walk_funpow)

lemma trick_winner_total:
  assumes "wf_context x" "i < 24"
  shows "\<exists>w s. trick_winner trick k i p (x\<lparr>mTricks := (mTricks x)[i := trick]\<rparr>) = Some (w, s) \<and>
    (s \<longrightarrow> (\<exists>c \<in> set (mDeck trick). Card_IsFool c))"
  using assms
  by (auto simp: trick_winner_def HasFool_iff fool_rule_def Let_def split: if_splits)

lemma credit_trick_wf [keeps]:
  "wf_context x \<Longrightarrow> wf_context (credit_trick trick i w s x)"
proof -
  assume wf: "wf_context x"
  then have "oudlers (Deck_AnalyzeTrumps trick (mStatsAttack x)) < 256"
    by (simp add: wf_context_def AnalyzeTrumps_oudlers)
  with wf show ?thesis
    by (simp add: wf_context_def credit_trick_def Let_def inc8_def dec8_def)
qed

lemma credit_trick_frame [frame]:
  "mBid (credit_trick trick i w s x) = mBid x"
  "mDiscard (credit_trick trick i w s x) = mDiscard x"
  "mNbPlayers (credit_trick trick i w s x) = mNbPlayers x"
  "mFirstPlayer (credit_trick trick i w s x) = mFirstPlayer x"
  "mDog (credit_trick trick i w s x) = mDog x"
  "mWinner (credit_trick trick i w s x) = (mWinner x)[i := w]"
  "mTricks (credit_trick trick i w s x) = (mTricks x)[i := Deck_SetOwner (team_of (mBid x) w) trick]"
  by (simp_all add: credit_trick_def team_of_def Let_def)

text \<open>The points and oudlers a trick brings to the attack.\<close>

lemma credit_trick_points:
  "points (mStatsAttack (credit_trick trick i w s x)) = points (mStatsAttack x) +
     (if team_of (mBid x) w = ATTACK then pts (mDeck trick) - (if s then 4 else 0)
      else (if s then 4 else 0))"
  by (simp add: credit_trick_def team_of_def Let_def AnalyzeTrumps_points pts_def)

lemma credit_trick_points_bounds:
  assumes "s \<longrightarrow> (\<exists>c \<in> set (mDeck trick). Card_IsFool c)"
  shows "points (mStatsAttack x) \<le> points (mStatsAttack (credit_trick trick i w s x))"
    "points (mStatsAttack (credit_trick trick i w s x)) \<le> points (mStatsAttack x) + pts (mDeck trick)"
proof -
  have "s \<Longrightarrow> 4 \<le> pts (mDeck trick)"
    using assms fool_in_pts [of "mDeck trick"] by fastforce
  then show "points (mStatsAttack x) \<le> points (mStatsAttack (credit_trick trick i w s x))"
    "points (mStatsAttack (credit_trick trick i w s x)) \<le> points (mStatsAttack x) + pts (mDeck trick)"
    using pts_nonneg [of "mDeck trick"] by (auto simp: credit_trick_points simp del: pts_nonneg)
qed

lemma dec8_pos: "1 \<le> n \<Longrightarrow> n < 256 \<Longrightarrow> dec8 n = n - 1"
proof -
  assume n: "1 \<le> n" "n < 256"
  then have eq: "n + 255 = (n - 1) + 256" by simp
  show ?thesis unfolding dec8_def eq mod_add_self2 using n by simp
qed

lemma credit_trick_oudlers_bounds:
  assumes "s \<longrightarrow> (\<exists>c \<in> set (mDeck trick). Card_IsFool c)"
    and "oudlers (mStatsAttack x) + oudler_count (mDeck trick) < 256"
  shows "oudlers (mStatsAttack (credit_trick trick i w s x))
    \<le> oudlers (mStatsAttack x) + oudler_count (mDeck trick)"
proof -
  let ?n = "oudlers (mStatsAttack x)" and ?m = "oudler_count (mDeck trick)"
  have a: "oudlers (Deck_AnalyzeTrumps trick (mStatsAttack x)) = ?n + ?m"
    using assms(2) by (simp add: AnalyzeTrumps_oudlers oudler_count_def)
  have "s \<longrightarrow> 1 \<le> ?m" using assms(1) fool_in_pts [of "mDeck trick"] by blast
  with a assms(2) show ?thesis
    by (auto simp: credit_trick_def Let_def inc8_def dec8_pos)
qed

lemma SetTrick_step:
  assumes "wf_context x" "1 \<le> k" "k \<le> 24"
  obtains w s where
    "SetTrick trick k x = Some (w, credit_trick trick (k - 1) w s (x\<lparr>mTricks := (mTricks x)[k - 1 := trick]\<rparr>))"
    "s \<longrightarrow> (\<exists>c \<in> set (mDeck trick). Card_IsFool c)"
proof -
  have "k - 1 < 24" using assms(3) by simp
  from trick_winner_total [OF assms(1) this, of trick k "trick_first k x"] obtain w s where
    "trick_winner trick k (k - 1) (trick_first k x) (x\<lparr>mTricks := (mTricks x)[k - 1 := trick]\<rparr>) = Some (w, s)"
    "s \<longrightarrow> (\<exists>c \<in> set (mDeck trick). Card_IsFool c)"
    by auto
  then show ?thesis
    by (intro that [of w s]) (simp_all add: SetTrick_unfold [OF assms] Let_def)
qed

subsection \<open>All tricks of a deal\<close>

text \<open>Playing the tricks in order, numbered from \<open>k\<close>, as the engine does.\<close>

fun play_tricks :: "deck list \<Rightarrow> nat \<Rightarrow> tarot_context \<Rightarrow> tarot_context option" where
  "play_tricks [] k x = Some x"
| "play_tricks (t # ts) k x = Option.bind (SetTrick t k x) (\<lambda>(_, y). play_tricks ts (k + 1) y)"

definition trick_cards :: "deck list \<Rightarrow> card list" where
  "trick_cards ts = concat (map mDeck ts)"

lemma trick_cards_simps [simp]:
  "trick_cards [] = []" "trick_cards (t # ts) = mDeck t @ trick_cards ts"
  by (simp_all add: trick_cards_def)

lemma play_tricks_bounds:
  assumes "wf_context x" "1 \<le> k" "k + length ts \<le> 25"
    and "oudlers (mStatsAttack x) + oudler_count (trick_cards ts) < 256"
  shows "\<exists>y. play_tricks ts k x = Some y \<and> wf_context y \<and>
    mDiscard y = mDiscard x \<and> mNbPlayers y = mNbPlayers x \<and> mBid y = mBid x \<and>
    mAttackHandle y = mAttackHandle x \<and> mDefenseHandle y = mDefenseHandle x \<and>
    points (mStatsAttack x) \<le> points (mStatsAttack y) \<and>
    points (mStatsAttack y) \<le> points (mStatsAttack x) + pts (trick_cards ts) \<and>
    oudlers (mStatsAttack y) \<le> oudlers (mStatsAttack x) + oudler_count (trick_cards ts)"
  using assms
proof (induction ts arbitrary: k x)
  case Nil
  then show ?case by simp
next
  case (Cons t ts)
  let ?x1 = "x\<lparr>mTricks := (mTricks x)[k - 1 := t]\<rparr>"
  from Cons.prems have "k \<le> 24" by simp
  from SetTrick_step [OF Cons.prems(1,2) this, of t] obtain w s where
    step: "SetTrick t k x = Some (w, credit_trick t (k - 1) w s ?x1)" and
    fool: "s \<longrightarrow> (\<exists>c \<in> set (mDeck t). Card_IsFool c)" by blast
  let ?y = "credit_trick t (k - 1) w s ?x1"
  have wf: "wf_context ?y" using Cons.prems(1) by (intro credit_trick_wf) (simp add: wf_context_def)
  have p: "points (mStatsAttack x) \<le> points (mStatsAttack ?y)"
    "points (mStatsAttack ?y) \<le> points (mStatsAttack x) + pts (mDeck t)"
    using credit_trick_points_bounds [OF fool, where x = ?x1 and i = "k - 1" and w = w] by simp_all
  have o: "oudlers (mStatsAttack ?y) \<le> oudlers (mStatsAttack x) + oudler_count (mDeck t)"
    using credit_trick_oudlers_bounds [OF fool, where x = ?x1 and i = "k - 1" and w = w] Cons.prems(4) by simp
  from Cons.IH [OF wf, of "k + 1"] Cons.prems o
  obtain z where z: "play_tricks ts (k + 1) ?y = Some z" "wf_context z"
    "mDiscard z = mDiscard ?y" "mNbPlayers z = mNbPlayers ?y" "mBid z = mBid ?y"
    "mAttackHandle z = mAttackHandle ?y" "mDefenseHandle z = mDefenseHandle ?y"
    "points (mStatsAttack ?y) \<le> points (mStatsAttack z)"
    "points (mStatsAttack z) \<le> points (mStatsAttack ?y) + pts (trick_cards ts)"
    "oudlers (mStatsAttack z) \<le> oudlers (mStatsAttack ?y) + oudler_count (trick_cards ts)"
    by auto
  have "mAttackHandle ?y = mAttackHandle x" "mDefenseHandle ?y = mDefenseHandle x"
    by (simp_all add: credit_trick_def Let_def)
  with z p o show ?case
    by (simp add: step frame)
qed

text \<open>The last step adds the discard to the attack and rounds half points.\<close>

lemma trunc_rat_bounds: "0 \<le> r + 1 / 2 \<Longrightarrow> r < 92 \<Longrightarrow> 0 \<le> trunc_rat r \<and> trunc_rat r \<le> 91"
  by (auto simp: trunc_rat_def floor_le_iff le_ceiling_iff less_ceiling_iff ceiling_le_iff)

lemma AnalyzeGame_points:
  assumes "p' = fst (AnalyzeGame p x)" "oudlers (mStatsAttack x) < 256"
    and "tot = points (mStatsAttack x) + (if mOwner (mDiscard x) = ATTACK then pts (mDeck (mDiscard x)) else 0)"
  shows "cardsPointsAttack p' = tot"
    and "oudlersAttack p' = int ((oudlers (mStatsAttack x) +
      (if mOwner (mDiscard x) = ATTACK then oudler_count (mDeck (mDiscard x)) else 0)) mod 256)"
    and "pointsAttack p' = trunc_rat (if HasDecimal tot
       then (if of_int (points_to_do p') \<le> tot then tot + 1 / 2 else tot - 1 / 2) else tot)"
    and "handlePoints p' = handlePoints p
       + GetHandlePoints (mNbPlayers x) (GetHandleType (Deck_Size (mAttackHandle x)))
       + GetHandlePoints (mNbPlayers x) (GetHandleType (Deck_Size (mDefenseHandle x)))"
  using assms
  by (simp_all add: AnalyzeGame_def Let_def AnalyzeTrumps_points AnalyzeTrumps_oudlers
      pts_def oudler_count_def points_to_do_def)

lemma trunc_rat_of_int [simp]: "trunc_rat (of_int n) = n"
  by (simp add: trunc_rat_def)

lemma trunc_rat_mono: "r \<le> s \<Longrightarrow> trunc_rat r \<le> trunc_rat s"
proof -
  assume le: "r \<le> s"
  show ?thesis
  proof (cases "r < 0 \<and> 0 \<le> s")
    case True
    then have "\<lceil>r\<rceil> \<le> 0" "0 \<le> \<lfloor>s\<rfloor>" by (simp_all add: ceiling_le_iff)
    then have "\<lceil>r\<rceil> \<le> \<lfloor>s\<rfloor>" by (rule order_trans)
    with True show ?thesis by (simp add: trunc_rat_def)
  next
    case False
    with le show ?thesis by (auto simp: trunc_rat_def intro: ceiling_mono floor_mono)
  qed
qed

text \<open>Rounding the half points never changes which team has enough points.\<close>

lemma rounding_keeps_winner:
  assumes "1 \<le> need" and
    "r = trunc_rat (if HasDecimal tot then
           (if of_int need \<le> tot then tot + 1 / 2 else tot - 1 / 2) else tot)"
  shows "need \<le> r \<longleftrightarrow> of_int need \<le> tot"
proof (cases "HasDecimal tot")
  case False
  then have tot: "tot = of_int (trunc_rat tot)" by (simp add: HasDecimal_def)
  have "r = trunc_rat tot" using assms(2) False by simp
  moreover have "of_int need \<le> tot \<longleftrightarrow> need \<le> trunc_rat tot"
    by (subst tot) simp
  ultimately show ?thesis by simp
next
  case True
  show ?thesis
  proof (cases "of_int need \<le> tot")
    case enough: True
    then have "trunc_rat (of_int need) \<le> trunc_rat (tot + 1 / 2)"
      by (intro trunc_rat_mono) simp
    with enough True assms(2) show ?thesis by simp
  next
    case short: False
    then have "tot - 1 / 2 < of_int need" by simp
    then have "\<lfloor>tot - 1 / 2\<rfloor> < need" by (simp add: floor_less_iff)
    moreover have "tot - 1 / 2 < 0 \<Longrightarrow> \<lceil>tot - 1 / 2\<rceil> < need"
    proof -
      assume "tot - 1 / 2 < 0"
      then have "\<lceil>tot - 1 / 2\<rceil> \<le> 0" unfolding ceiling_le_iff by simp
      with assms(1) show "\<lceil>tot - 1 / 2\<rceil> < need" by (metis int_one_le_iff_zero_less order.strict_trans1)
    qed
    ultimately have "trunc_rat (tot - 1 / 2) < need" by (auto simp: trunc_rat_def)
    with short True assms(2) show ?thesis by simp
  qed
qed

lemma AnalyzeGame_range:
  assumes "wf_context y" "0 \<le> points (mStatsAttack y)"
    and "points (mStatsAttack y) + pts (mDeck (mDiscard y)) \<le> 91"
    and "oudlers (mStatsAttack y) + oudler_count (mDeck (mDiscard y)) \<le> 3"
    and "p' = fst (AnalyzeGame p y)"
  shows "0 \<le> cardsPointsAttack p'" "cardsPointsAttack p' \<le> 91" "0 \<le> pointsAttack p'" "pointsAttack p' \<le> 91"
    "0 \<le> oudlersAttack p'" "oudlersAttack p' \<le> 3"
    "handlePoints p \<le> handlePoints p'" "handlePoints p' \<le> handlePoints p + 80"
proof -
  let ?d = "mDeck (mDiscard y)"
  define tot where "tot = points (mStatsAttack y) + (if mOwner (mDiscard y) = ATTACK then pts ?d else 0)"
  have tot: "0 \<le> tot" "tot \<le> 91"
    using assms(2,3) pts_nonneg [of ?d] by (auto simp: tot_def simp del: pts_nonneg)
  have "oudlers (mStatsAttack y) < 256" using assms(1) by (simp add: wf_context_def)
  note game = AnalyzeGame_points [OF assms(5) this tot_def]
  have o: "oudlers (mStatsAttack y) + (if mOwner (mDiscard y) = ATTACK then oudler_count ?d else 0) \<le> 3"
    using assms(4) by auto
  have "\<not> HasDecimal tot \<or> tot \<noteq> 91" by (auto simp: HasDecimal_def trunc_rat_def)
  with tot have r: "0 \<le> trunc_rat (if HasDecimal tot
       then (if of_int (points_to_do p') \<le> tot then tot + 1 / 2 else tot - 1 / 2) else tot) \<and>
    trunc_rat (if HasDecimal tot
       then (if of_int (points_to_do p') \<le> tot then tot + 1 / 2 else tot - 1 / 2) else tot) \<le> 91"
    by (intro trunc_rat_bounds) auto
  show "0 \<le> cardsPointsAttack p'" "cardsPointsAttack p' \<le> 91" using tot by (simp_all add: game(1))
  show "0 \<le> pointsAttack p'" "pointsAttack p' \<le> 91" using r by (simp_all only: game(3))
  show "0 \<le> oudlersAttack p'" "oudlersAttack p' \<le> 3" using o by (simp_all only: game(2))
  show "handlePoints p \<le> handlePoints p'" "handlePoints p' \<le> handlePoints p + 80"
    using add_mono [OF GetHandlePoints_range(2) GetHandlePoints_range(2)]
      add_nonneg_nonneg [OF GetHandlePoints_range(1) GetHandlePoints_range(1)]
    by (simp_all add: game(4))
qed

lemma whole_deal_range:
  assumes "mset (trick_cards ts @ mDeck (mDiscard x)) = mset tarot_cards"
    and "length ts \<le> 24" "wf_context x"
    and "points (mStatsAttack x) = 0" "oudlers (mStatsAttack x) = 0"
  obtains y where "play_tricks ts 1 x = Some y" "wf_context y" "0 \<le> points (mStatsAttack y)"
    "points (mStatsAttack y) + pts (mDeck (mDiscard y)) \<le> 91"
    "oudlers (mStatsAttack y) + oudler_count (mDeck (mDiscard y)) \<le> 3"
proof -
  let ?d = "mDeck (mDiscard x)"
  have all: "pts (trick_cards ts) + pts ?d = 91" "oudler_count (trick_cards ts) + oudler_count ?d = 3"
    using pts_mset [OF assms(1)] oudler_count_mset [OF assms(1)] full_deck_points full_deck_oudlers
    by (simp_all add: pts_def oudler_count_def [symmetric])
  with play_tricks_bounds [OF assms(3), of 1 ts] assms obtain y where
    "play_tricks ts 1 x = Some y" "wf_context y" "mDiscard y = mDiscard x"
    "0 \<le> points (mStatsAttack y)" "points (mStatsAttack y) \<le> pts (trick_cards ts)"
    "oudlers (mStatsAttack y) \<le> oudler_count (trick_cards ts)"
    by auto
  with all show ?thesis by (intro that [of y]) auto
qed

lemma fool_name: "list_all (\<lambda>c. (Card_ToString c = ''00-T'') = Card_IsFool c) tarot_cards"
  by code_simp

lemma GetCard_fool:
  assumes "list_all Card_IsValid (mDeck d)" "Deck_HasFool d"
  shows "Card_IsFool (Deck_GetCard ''00-T'' d)" "Deck_GetCard ''00-T'' d \<in> set (mDeck d)"
proof -
  have name: "Card_ToString c = ''00-T'' \<longleftrightarrow> Card_IsFool c" if "c \<in> set (mDeck d)" for c
    using fool_name that assms(1) by (auto simp: list_all_iff tarot_cards_iff)
  have "(\<exists>c \<in> set cs. Card_IsFool c) \<or> Card_IsFool r \<and> r \<in> set (mDeck d) \<Longrightarrow> set cs \<subseteq> set (mDeck d) \<Longrightarrow>
    Card_IsFool (fold (\<lambda>c card. if Card_ToString c = ''00-T'' then c else card) cs r) \<and>
    fold (\<lambda>c card. if Card_ToString c = ''00-T'' then c else card) cs r \<in> set (mDeck d)" for cs r
    using name by (induction cs arbitrary: r) auto
  from this [of "mDeck d" Card_default] assms(2)
  show "Card_IsFool (Deck_GetCard ''00-T'' d)" "Deck_GetCard ''00-T'' d \<in> set (mDeck d)"
    by (simp_all add: Deck_GetCard_def HasFool_iff)
qed

lemma trick_winner_regular:
  assumes valid: "list_all Card_IsValid (mDeck trick)" and size: "length (mDeck trick) \<in> {3, 4, 5}"
    and "list_ex (\<lambda>c. \<not> Card_IsFool c) (mDeck trick)"
    and "wf_context x" "i < 24"
  obtains s where "trick_winner trick k i p (x\<lparr>mTricks := (mTricks x)[i := trick]\<rparr>) =
      Some (if Deck_HasFool trick then fool_rule k (length (mDeck trick))
              ((Place_Next (length (mDeck trick)) ^^ index_of (trick_leader trick) (mDeck trick)) p)
              ((Place_Next (length (mDeck trick)) ^^ index_of (Deck_GetCard ''00-T'' trick) (mDeck trick)) p)
              (x\<lparr>mTricks := (mTricks x)[i := trick]\<rparr>)
            else ((Place_Next (length (mDeck trick)) ^^ index_of (trick_leader trick) (mDeck trick)) p, False))"
    "leads (mDeck trick) (trick_leader trick)"
proof -
  have leads: "leads (mDeck trick) (trick_leader trick)"
    using valid assms(3) by (intro trick_leader_leads) (auto simp: list_all_iff list_ex_iff)
  then have "Card_IsValid (trick_leader trick)"
    using valid leads_in by (auto simp: list_all_iff)
  moreover have "Deck_HasFool trick \<Longrightarrow> Card_IsValid (Deck_GetCard ''00-T'' trick)"
    using GetCard_fool(2) [OF valid] valid by (auto simp: list_all_iff)
  moreover have "length (mDeck trick) mod 256 = length (mDeck trick)" using size by auto
  ultimately show ?thesis
    using assms(4,5) leads by (intro that) (simp_all add: trick_winner_def Let_def Deck_Size_def)
qed

lemma AnalyzeGame_rounds:
  "pointsAttack (fst (AnalyzeGame p x)) = trunc_rat (if HasDecimal (cardsPointsAttack (fst (AnalyzeGame p x)))
       then (if of_int (points_to_do (fst (AnalyzeGame p x))) \<le> cardsPointsAttack (fst (AnalyzeGame p x))
             then cardsPointsAttack (fst (AnalyzeGame p x)) + 1 / 2
             else cardsPointsAttack (fst (AnalyzeGame p x)) - 1 / 2)
       else cardsPointsAttack (fst (AnalyzeGame p x)))"
  by (simp add: AnalyzeGame_def Let_def points_to_do_def)

section \<open>Properties\<close>

text \<open>
  C17. The auction has the result the rules ask for: after any sequence of bids on a fresh record
  the bid is the one of the first player to name the highest contract, with that player's slam
  announcement, and no partner is set; when no bid is above the initial contract, the bid is still
  the initial one.
\<close>

theorem auction_first_highest:
  "let b = mBid (run_bids bs (Context_Initialize x))
   in if list_ex (\<lambda>a. contract Bid_Initialize < fst a) bs
      then contract Bid_Initialize < contract b \<and> first_best bs (contract b) (slam b) (taker b) \<and>
           partner b = partner Bid_Initialize
      else b = Bid_Initialize"
proof -
  have init: "mBid (Context_Initialize x) = Bid_Initialize" by (simp add: Context_Initialize_def)
  show ?thesis
    using run_bids_best [of bs "Context_Initialize x"] unfolding init list_ex_iff .
qed

text \<open>
  C14. Outside the last trick, a trick of valid cards is won by the player of its leading card (the
  highest trump, or else the highest card of the suit led), the player found by going around the
  table from the player who led; the trick is stored with that player as its winner and his team as
  its owner, and the attack gains the points of the trick when it wins, corrected by four points
  each way when the fool stays with the other team. Here the fool counts for the attack exactly when
  the taker himself played it.
\<close>

theorem trick_won_by_leading_card:
  assumes "wf_context x" "1 \<le> k" "k \<le> 24"
    and "list_all Card_IsValid (mDeck trick)" "length (mDeck trick) \<in> {3, 4, 5}"
    and "list_ex (\<lambda>c. \<not> Card_IsFool c) (mDeck trick)"
    and "\<not> IsDealFinished k (length (mDeck trick))"
  shows "\<exists>y i. let w = (Place_Next (length (mDeck trick)) ^^ i) (trick_first k x);
                    byTaker = (Place_Next (length (mDeck trick))
                       ^^ index_of (Deck_GetCard ''00-T'' trick) (mDeck trick)) (trick_first k x) = taker (mBid x);
                    won = (team_of (mBid x) w = ATTACK);
                    swapped = (Deck_HasFool trick \<and> byTaker \<noteq> won)
                in i < length (mDeck trick) \<and> leads (mDeck trick) (mDeck trick ! i) \<and>
                   SetTrick trick k x = Some (w, y) \<and>
                   mWinner y = (mWinner x)[k - 1 := w] \<and>
                   mTricks y = (mTricks x)[k - 1 := Deck_SetOwner (team_of (mBid x) w) trick] \<and>
                   points (mStatsAttack y) = points (mStatsAttack x) +
                     (if won then pts (mDeck trick) - (if swapped then 4 else 0)
                      else (if swapped then 4 else 0))"
proof -
  have less: "k - 1 < 24" using assms(2,3) by simp
  let ?n = "length (mDeck trick)" and ?first = "trick_first k x"
  let ?i = "index_of (trick_leader trick) (mDeck trick)"
  let ?w = "(Place_Next ?n ^^ ?i) ?first"
  let ?f = "(Place_Next ?n ^^ index_of (Deck_GetCard ''00-T'' trick) (mDeck trick)) ?first"
  let ?x1 = "x\<lparr>mTricks := (mTricks x)[k - 1 := trick]\<rparr>"
  define s where "s = (Deck_HasFool trick \<and> (?f = taker (mBid x)) \<noteq> (team_of (mBid x) ?w = ATTACK))"
  have "fool_rule k ?n ?w ?f ?x1 = (?w, (?f = taker (mBid x)) \<noteq> (team_of (mBid x) ?w = ATTACK))"
    using assms(7) by (simp add: fool_rule_def team_of_def Let_def)
  then have swap: "(if Deck_HasFool trick then fool_rule k ?n ?w ?f ?x1 else (?w, False)) = (?w, s)"
    by (simp add: s_def)
  obtain tw: "trick_winner trick k (k - 1) ?first ?x1 = Some (?w, s)" and leads: "leads (mDeck trick) (trick_leader trick)"
    by (rule trick_winner_regular [OF assms(4,5,6) assms(1) less, of k ?first]) (simp only: swap)
  have step: "SetTrick trick k x = Some (?w, credit_trick trick (k - 1) ?w s ?x1)"
    by (simp only: SetTrick_unfold [OF assms(1-3)] Let_def tw bind.bind_lunit prod.case)
  have i: "?i < ?n" "leads (mDeck trick) (mDeck trick ! ?i)"
    using leads leads_in [OF leads] by (simp_all add: index_of_less index_of_nth)
  show ?thesis
    unfolding Let_def
  proof (intro exI conjI)
    show "SetTrick trick k x = Some (?w, credit_trick trick (k - 1) ?w s ?x1)" by (fact step)
    show "mWinner (credit_trick trick (k - 1) ?w s ?x1) = (mWinner x)[k - 1 := ?w]" by (simp add: frame)
    show "mTricks (credit_trick trick (k - 1) ?w s ?x1) =
        (mTricks x)[k - 1 := Deck_SetOwner (team_of (mBid x) ?w) trick]" by (simp add: frame)
    show "points (mStatsAttack (credit_trick trick (k - 1) ?w s ?x1)) = points (mStatsAttack x) +
        (if team_of (mBid x) ?w = ATTACK
         then pts (mDeck trick) - (if Deck_HasFool trick \<and> (?f = taker (mBid x)) \<noteq> (team_of (mBid x) ?w = ATTACK) then 4 else 0)
         else (if Deck_HasFool trick \<and> (?f = taker (mBid x)) \<noteq> (team_of (mBid x) ?w = ATTACK) then 4 else 0))"
      unfolding s_def [symmetric] by (simp only: credit_trick_points) simp
  qed (use i in simp_all)
qed

definition example_trick :: deck where
  "example_trick =
     \<lparr>mOwner = NO_TEAM, mDeck = [mk_card 10 HEARTS, mk_card 0 TRUMPS, mk_card 14 HEARTS, mk_card 2 HEARTS]\<rparr>"

definition example_context :: tarot_context where
  "example_context = Context_new\<lparr>mBid := example_bid EAST GUARD, mFirstPlayer := SOUTH\<rparr>"

theorem trick_won_by_leading_card_witness:
  "map_option (\<lambda>(w, y). (w, points (mStatsAttack y))) (SetTrick example_trick 1 example_context) = Some (NORTH, 4) \<and>
   (\<exists>y i. i < 4 \<and> leads (mDeck example_trick) (mDeck example_trick ! i) \<and>
      SetTrick example_trick 1 example_context = Some ((Place_Next 4 ^^ i) SOUTH, y))"
proof
  show "map_option (\<lambda>(w, y). (w, points (mStatsAttack y))) (SetTrick example_trick 1 example_context) = Some (NORTH, 4)"
    by code_simp
  have "wf_context example_context" "mFirstPlayer example_context = SOUTH" "length (mDeck example_trick) = 4"
    "list_all Card_IsValid (mDeck example_trick)" "list_ex (\<lambda>c. \<not> Card_IsFool c) (mDeck example_trick)"
    "\<not> IsDealFinished 1 4"
    by code_simp+
  with trick_won_by_leading_card [of example_context 1 example_trick]
  show "\<exists>y i. i < 4 \<and> leads (mDeck example_trick) (mDeck example_trick ! i) \<and>
      SetTrick example_trick 1 example_context = Some ((Place_Next 4 ^^ i) SOUTH, y)"
    by (auto simp: Let_def trick_first_def)
qed

text \<open>
  C16. The points of a whole deal stay within the rules: when the tricks and the discard together
  are the 78 cards, whatever the order of play, all tricks are counted without an error, the attack
  ends with 0 to 91 card points, 0 to 3 oudlers and at most 80 handle points, so the score formula
  is exact on them; and rounding half points never changes which team wins the deal.
\<close>

theorem whole_deal_points:
  assumes "mset (trick_cards ts @ mDeck (mDiscard x)) = mset tarot_cards"
    and "length ts \<le> 24" "wf_context x"
    and "points (mStatsAttack x) = 0" "oudlers (mStatsAttack x) = 0" "handlePoints p = 0"
  shows "\<exists>y p'. play_tricks ts 1 x = Some y \<and> p' = fst (AnalyzeGame p y) \<and> sane_points p' \<and>
    pointsAttack p' \<le> 91 \<and> 0 \<le> cardsPointsAttack p' \<and> cardsPointsAttack p' \<le> 91 \<and>
    0 \<le> oudlersAttack p' \<and> oudlersAttack p' \<le> 3 \<and>
    (Points_Winner p' = ATTACK) = (of_int (points_to_do p') \<le> cardsPointsAttack p')"
proof -
  from whole_deal_range [OF assms(1-5)] obtain y where y: "play_tricks ts 1 x = Some y" and r: "wf_context y"
    "0 \<le> points (mStatsAttack y)" "points (mStatsAttack y) + pts (mDeck (mDiscard y)) \<le> 91"
    "oudlers (mStatsAttack y) + oudler_count (mDeck (mDiscard y)) \<le> 3" by blast
  note range = AnalyzeGame_range [OF r refl, of p]
  let ?p = "fst (AnalyzeGame p y)"
  have "pointsAttack ?p = trunc_rat (if HasDecimal (cardsPointsAttack ?p)
       then (if of_int (points_to_do ?p) \<le> cardsPointsAttack ?p then cardsPointsAttack ?p + 1 / 2
             else cardsPointsAttack ?p - 1 / 2) else cardsPointsAttack ?p)"
    using AnalyzeGame_rounds by blast
  moreover have "1 \<le> points_to_do ?p" using PointsToDo_range(1) unfolding points_to_do_def by (rule order_trans [rotated]) simp
  ultimately have "(Points_Winner ?p = ATTACK) = (of_int (points_to_do ?p) \<le> cardsPointsAttack ?p)"
    using rounding_keeps_winner [of "points_to_do ?p" "pointsAttack ?p"] by (simp add: Points_Winner_def)
  with y range assms(6) show ?thesis
    by (intro exI [of _ y] exI [of _ ?p]) (simp add: sane_points_def)
qed

definition example_tricks :: "deck list" where
  "example_tricks = map (\<lambda>i. \<lparr>mOwner = NO_TEAM, mDeck = take 4 (drop (4 * i) tarot_cards)\<rparr>) [0..<18]"

definition example_deal :: tarot_context where
  "example_deal = example_context\<lparr>mDiscard := \<lparr>mOwner = ATTACK, mDeck = drop 72 tarot_cards\<rparr>\<rparr>"

theorem whole_deal_points_witness:
  "\<exists>y p'. play_tricks example_tricks 1 example_deal = Some y \<and>
     p' = fst (AnalyzeGame ((example_points 0)\<lparr>oudlersAttack := 0\<rparr>) y) \<and> sane_points p'"
proof -
  have "trick_cards example_tricks @ mDeck (mDiscard example_deal) = tarot_cards" by code_simp
  then have "mset (trick_cards example_tricks @ mDeck (mDiscard example_deal)) = mset tarot_cards" by (rule arg_cong)
  moreover have "length example_tricks \<le> 24" "wf_context example_deal"
    "points (mStatsAttack example_deal) = 0" "oudlers (mStatsAttack example_deal) = 0"
    by code_simp+
  moreover have "handlePoints ((example_points 0)\<lparr>oudlersAttack := 0\<rparr>) = 0" by (simp add: example_points_def)
  ultimately show ?thesis using whole_deal_points by blast
qed

text \<open>
  The fool of the partner: with five players, a fool played by the called partner in a trick won by
  the taker is treated as belonging to the defense, so four points leave the attack.
\<close>

lemma partner_fool_leaves_attack:
  "map_option (\<lambda>(w, y). (w, points (mStatsAttack y)))
     (SetTrick \<lparr>mOwner = NO_TEAM, mDeck = [mk_card 14 HEARTS, mk_card 0 TRUMPS, mk_card 1 HEARTS,
                 mk_card 2 HEARTS, mk_card 3 HEARTS]\<rparr> 1
        (example_context\<lparr>mBid := \<lparr>taker = SOUTH, partner = EAST, contract = GUARD, slam = False\<rparr>\<rparr>))
   = Some (SOUTH, 21 / 2 - 4)"
  by code_simp

text \<open>A king call by value only: the king of trumps does not exist, but a 14 of trumps passes.\<close>

lemma trump_called_as_king: "CheckKingCall (mk_card 14 TRUMPS) Statistics_Reset"
  by code_simp

end
