(* ===== verification/Json_Files.thy ===== *)
theory Json_Files
  imports Json_Reader
begin

text \<open>
  JSON files (JsonWriter.cpp and \<open>JsonReader::ParseFile\<close>), shared by the deal files and the
  configurations.

  The files of the disk are a map from names to contents, with the names that can be opened for
  writing. A result of \<open>None\<close> is undefined behaviour of the JSON parser; \<open>Some None\<close> is a file that
  cannot be opened or does not parse.
\<close>

section \<open>Files\<close>

record disk =
  fileOf :: "string \<Rightarrow> string option"
  canWrite :: "string \<Rightarrow> bool"

definition read_json :: "string \<Rightarrow> json option option" where
  "read_json data =
     (case ParseString data of
        Document doc \<Rightarrow> Some (Some doc)
      | Failure _ \<Rightarrow> Some None
      | _ \<Rightarrow> None)"

definition ParseFile :: "string \<Rightarrow> disk \<Rightarrow> json option option" where
  "ParseFile fileName d =
     (case fileOf d fileName of
        Some contents \<Rightarrow> read_json contents
      | None \<Rightarrow> Some None)"

definition SaveToFile :: "(string \<times> json) list \<Rightarrow> string \<Rightarrow> disk \<Rightarrow> bool \<times> disk" where
  "SaveToFile value fileName d =
     (if canWrite d fileName then
        (True, d\<lparr>fileOf := (fileOf d)(fileName \<mapsto> Object_ToString 0 value @ [CHR 10])\<rparr>)
      else (False, d))"

section \<open>What is written is read\<close>

text \<open>The parser stops at the end of the root, so the line end of a saved file is not read.\<close>

lemma parse_file_text:
  assumes "json_ok (JObj m)"
  shows "ParseString (Object_ToString level m @ [CHR 10]) = Document (JObj m)"
proof -
  let ?v = "JObj m"
  have "takeWhile (\<lambda>ch. ch \<noteq> CHR 0x00) (json_string level ?v @ [CHR 10]) = json_string level ?v @ [CHR 10]"
    unfolding takeWhile_eq_all_conv using json_string_no_zero [OF assms, of level] by (auto simp del: json_string.simps)
  moreover have "Parse [] True (json_string level ?v @ [CHR 10]) = continue (close_node [\<lparr>pending = [], node = ?v\<rparr>]) [CHR 10]"
  proof (rule container_reads [OF _ assms])
    fix x assume "(\<exists>vs. ?v = JArr vs \<and> x \<in> set vs) \<or> (\<exists>m. ?v = JObj m \<and> x \<in> snd ` set m)"
    with assms have "json_ok x" by (auto simp: list_all_iff)
    then show "reads x" by (rule json_ok_reads)
  qed simp
  ultimately show ?thesis
    unfolding ParseString_def Object_ToString_def by (simp del: json_string.simps) (simp add: close_node_def continue_def)
qed

lemma saved_file_is_read:
  assumes "json_ok (JObj m)" "canWrite d fileName"
  shows "SaveToFile m fileName d = (True, d\<lparr>fileOf := (fileOf d)(fileName \<mapsto> Object_ToString 0 m @ [CHR 10])\<rparr>)"
    and "ParseFile fileName (snd (SaveToFile m fileName d)) = Some (Some (JObj m))"
  using assms by (simp_all add: SaveToFile_def ParseFile_def read_json_def parse_file_text)

lemma smap_put_entries: "set (smap_put k v m) \<subseteq> insert (k, v) (set m)"
  by (induction m) (auto split: if_splits)

lemma make_object_entries: "set (make_object kvs) \<subseteq> set kvs"
proof -
  have "set (fold (\<lambda>(k, v) m. AddValue k v m) kvs m) \<subseteq> set kvs \<union> set m" for m
  proof (induction kvs arbitrary: m)
    case (Cons a kvs)
    from Cons.IH [of "AddValue (fst a) (snd a) m"] smap_put_entries [of "fst a" "snd a" m] show ?case
      by (auto simp: AddValue_def split_beta)
  qed simp
  from this [of "[]"] show ?thesis by (simp add: make_object_def)
qed

lemma json_ok_make_object:
  "list_all (\<lambda>(k, v). plain_key k \<and> json_ok v) kvs \<Longrightarrow> json_ok (JObj (make_object kvs))"
  using make_object_entries [of kvs] make_object_sorted [of kvs] by (auto simp: list_all_iff)


end
