(* ===== verification/Deal_Generator.thy ===== *)
theory Deal_Generator
  imports Deck_Facts Json_Files
begin

text \<open>
  Generating and loading deals (DealGenerator.h, DealGenerator.cpp).

  The clock and the standard library's random engine are outside the program: the shuffle is the
  function \<open>std_shuffle\<close> of the seed, of which only one law is used, that the result is a
  permutation of its argument. A deal file is read from the disk with the JSON parser and written to
  it with the JSON writer; \<open>None\<close> is a text on which the parser itself is undefined.
\<close>

section \<open>State\<close>

record deal_generator =
  dgPlayers :: "deck list"
  mDogDeck :: deck
  dgFirstPlayer :: place
  dgNbPlayers :: nat
  dgSeed :: nat

definition DealGenerator_new :: deal_generator where
  "DealGenerator_new =
     \<lparr>dgPlayers = replicate 5 Deck_empty, mDogDeck = Deck_empty, dgFirstPlayer = NOWHERE,
      dgNbPlayers = 4, dgSeed = 0\<rparr>"

definition DealGenerator_Clear :: "deal_generator \<Rightarrow> deal_generator" where
  "DealGenerator_Clear g = g\<lparr>dgPlayers := map Deck_Clear (dgPlayers g), mDogDeck := Deck_Clear (mDogDeck g)\<rparr>"

definition GetPlayerDeck :: "place \<Rightarrow> deal_generator \<Rightarrow> deck option" where
  "GetPlayerDeck p g = arr_get (dgPlayers g) (Place_Value p)"

definition SetPlayerDeck :: "place \<Rightarrow> deck \<Rightarrow> deal_generator \<Rightarrow> deal_generator option" where
  "SetPlayerDeck p d g =
     map_option (\<lambda>ps. g\<lparr>dgPlayers := ps\<rparr>) (arr_set (dgPlayers g) (Place_Value p) d)"

definition DealGenerator_IsValid :: "nat \<Rightarrow> deal_generator \<Rightarrow> bool option" where
  "DealGenerator_IsValid numberOfPlayers g =
     (if length (dgPlayers g) < numberOfPlayers then None
      else Some (list_all (\<lambda>d. Deck_Size d = NumberOfCardsInHand numberOfPlayers)
                   (take numberOfPlayers (dgPlayers g)) \<and>
                 Deck_Size (mDogDeck g) = NumberOfDogCards numberOfPlayers))"

section \<open>Random deals\<close>

definition deal_hand :: "deck \<Rightarrow> nat \<Rightarrow> nat \<Rightarrow> deck list \<times> bool \<Rightarrow> deck list \<times> bool" where
  "deal_hand deck n i = (\<lambda>(players, valid).
     let d = Deck_Append (Deck_Mid (i * n) n deck) (players ! i)
     in (players[i := d], if Deck_HasOnlyOneOfTrump d then False else valid))"

definition CreateRandomDeal ::
  "(nat \<Rightarrow> card list \<Rightarrow> card list) \<Rightarrow> nat \<Rightarrow> nat \<Rightarrow> deal_generator \<Rightarrow> bool \<times> deal_generator" where
  "CreateRandomDeal std_shuffle numberOfPlayers seed g =
     (let deck = Deck_Shuffle std_shuffle seed (Deck_CreateTarotDeck Deck_empty);
          g1 = DealGenerator_Clear g;
          nb = (if 5 < numberOfPlayers then 4 else numberOfPlayers);
          n = NumberOfCardsInHand nb;
          (players, valid) = fold (deal_hand deck n) [0..<nb] (dgPlayers g1, True)
      in (valid, g1\<lparr>dgPlayers := players, mDogDeck := Deck_MidFrom (nb * n) deck,
                   dgNbPlayers := nb, dgSeed := seed\<rparr>))"

section \<open>Deal files\<close>

definition DEAL_FILE_VERSION :: string where
  "DEAL_FILE_VERSION = ''3''"

fun load_players :: "json \<Rightarrow> nat list \<Rightarrow> bool \<times> deal_generator \<Rightarrow> bool \<times> deal_generator" where
  "load_players doc [] r = r"
| "load_players doc (i # is) (ret, g) =
     (if ret then
        (case GetValue_string (Place_ToString (Place_of i)) doc of
           Some s \<Rightarrow>
             load_players doc is (True, g\<lparr>dgPlayers := (dgPlayers g)[i := snd (Deck_SetCards s (dgPlayers g ! i))],
                                          dgNbPlayers := (if s \<noteq> [] then dgNbPlayers g + 1 else dgNbPlayers g)\<rparr>)
         | None \<Rightarrow> load_players doc is (False, g))
      else (False, g))"

text \<open>A document without a dog is accepted and gives an empty deal.\<close>

definition load_deal :: "json \<Rightarrow> deal_generator \<Rightarrow> bool \<times> deal_generator" where
  "load_deal doc g =
     (case GetValue_string ''version'' doc of
        None \<Rightarrow> (False, g)
      | Some v \<Rightarrow>
          if v = DEAL_FILE_VERSION then
            (case GetValue_string ''Dog'' doc of
               None \<Rightarrow> (True, g)
             | Some dog \<Rightarrow>
                 let g1 = g\<lparr>mDogDeck := snd (Deck_SetCards dog (mDogDeck g))\<rparr>;
                     (ret, g2) =
                       (case GetValue_string ''FirstPlayer'' doc of
                          Some s \<Rightarrow> (Place_FromString s \<noteq> NOWHERE,
                                     g1\<lparr>dgFirstPlayer := Place_FromString s\<rparr>)
                        | None \<Rightarrow> (False, g1))
                 in load_players doc [0..<5] (ret, g2\<lparr>dgNbPlayers := 0\<rparr>))
          else (False, g))"

definition LoadFile :: "string \<Rightarrow> disk \<Rightarrow> deal_generator \<Rightarrow> (bool \<times> deal_generator) option" where
  "LoadFile fileName d g =
     (let g1 = DealGenerator_Clear g
      in map_option (\<lambda>r. case r of None \<Rightarrow> (False, g1) | Some doc \<Rightarrow> load_deal doc g1)
           (ParseFile fileName d))"

text \<open>The object \<open>Build\<close> fills, the text of a deal, and saving it; a failure is only logged.\<close>

definition DealGenerator_Build :: "deal_generator \<Rightarrow> (string \<times> json) list \<Rightarrow> (string \<times> json) list" where
  "DealGenerator_Build g obj =
     fold (\<lambda>i. AddValue (Place_ToString (Place_of i)) (JString (Deck_ToString (dgPlayers g ! i)))) [0..<5]
       (AddValue ''Dog'' (JString (Deck_ToString (mDogDeck g)))
       (AddValue ''FirstPlayer'' (JString (Place_ToString (dgFirstPlayer g)))
       (AddValue ''version'' (JString DEAL_FILE_VERSION) obj)))"

definition DealGenerator_ToString :: "deal_generator \<Rightarrow> string" where
  "DealGenerator_ToString g = Object_ToString 0 (DealGenerator_Build g [])"

definition SaveFile :: "string \<Rightarrow> deal_generator \<Rightarrow> disk \<Rightarrow> disk" where
  "SaveFile fileName g d = snd (SaveToFile (DealGenerator_Build g []) fileName d)"

section \<open>Lemmas\<close>

lemma filter_zip_slice:
  "map fst (filter (\<lambda>(c, k). a \<le> k \<and> k < b) (zip xs [i..<i + length xs]))
     = take (b - max a i) (drop (a - i) xs)"
proof (induction xs arbitrary: i)
  case Nil
  then show ?case by simp
next
  case (Cons x xs)
  have up: "[i..<Suc (i + length xs)] = i # [Suc i..<Suc (i + length xs)]"
    by (simp add: upt_conv_Cons del: upt_Suc)
  show ?case
  proof (cases "i < a")
    case True
    then have "a - i = Suc (a - Suc i)" "max a i = a" "max a (Suc i) = a" by simp_all
    with Cons.IH [of "Suc i"] True show ?thesis by (simp add: up del: upt_Suc)
  next
    case False
    then have *: "a - i = 0" "a - Suc i = 0" "max a i = i" "max a (Suc i) = Suc i" by simp_all
    show ?thesis
    proof (cases "i < b")
      case True
      then have "b - i = Suc (b - Suc i)" by simp
      with Cons.IH [of "Suc i"] True False * show ?thesis by (simp add: up del: upt_Suc)
    next
      case far: False
      with Cons.IH [of "Suc i"] * show ?thesis by (simp add: up del: upt_Suc)
    qed
  qed
qed

lemma Mid_cards:
  assumes "from_pos < Deck_Size d" "from_pos + n \<le> Deck_Size d" "Deck_Size d < 2 ^ 32"
  shows "mDeck (Deck_Mid from_pos n d) = take n (drop from_pos (mDeck d))"
  using filter_zip_slice [of from_pos "from_pos + n" "mDeck d" 0] assms
  by (simp add: Deck_Mid_def Deck_Size_def Let_def Deck_empty_def)

lemma MidFrom_cards:
  assumes "from_pos < Deck_Size d" "Deck_Size d < 2 ^ 32"
  shows "mDeck (Deck_MidFrom from_pos d) = drop from_pos (mDeck d)"
proof -
  have "int (Deck_Size d) - int from_pos = int (Deck_Size d - from_pos)" using assms by simp
  then have "nat (to_u32 (int (Deck_Size d) - int from_pos)) = Deck_Size d - from_pos"
    using assms by (simp only: to_u32_def) simp
  with assms Mid_cards [of from_pos d "Deck_Size d - from_pos"] show ?thesis
    by (simp add: Deck_MidFrom_def Deck_Size_def)
qed

lemma deal_hands:
  assumes "m * n < Deck_Size deck" "Deck_Size deck < 2 ^ 32" "m \<le> length ps" "\<forall>d \<in> set ps. mDeck d = []"
  shows "\<exists>valid. fold (deal_hand deck n) [0..<m] (ps, True)
    = (map (\<lambda>i. (ps ! i)\<lparr>mDeck := take n (drop (i * n) (mDeck deck))\<rparr>) [0..<m] @ drop m ps, valid) \<and>
    valid = list_all (\<lambda>i. \<not> Deck_HasOnlyOneOfTrump ((ps ! i)\<lparr>mDeck := take n (drop (i * n) (mDeck deck))\<rparr>)) [0..<m]"
  using assms(1,3)
proof (induction m)
  case 0
  show ?case by (intro exI [of _ True]) simp
next
  case (Suc m)
  then have less: "m * n + n < Deck_Size deck" "m < length ps" by (simp_all add: ac_simps)
  then have "m * n < Deck_Size deck" by simp
  with Suc less obtain valid where
    IH: "fold (deal_hand deck n) [0..<m] (ps, True)
      = (map (\<lambda>i. (ps ! i)\<lparr>mDeck := take n (drop (i * n) (mDeck deck))\<rparr>) [0..<m] @ drop m ps, valid)"
      "valid = list_all (\<lambda>i. \<not> Deck_HasOnlyOneOfTrump ((ps ! i)\<lparr>mDeck := take n (drop (i * n) (mDeck deck))\<rparr>)) [0..<m]"
    by auto
  let ?l = "map (\<lambda>i. (ps ! i)\<lparr>mDeck := take n (drop (i * n) (mDeck deck))\<rparr>) [0..<m]"
  have empty: "mDeck (ps ! m) = []" using assms(4) less by simp
  have "mDeck (Deck_Mid (m * n) n deck) = take n (drop (m * n) (mDeck deck))"
    using less assms(2) by (intro Mid_cards) simp_all
  then have d: "Deck_Append (Deck_Mid (m * n) n deck) ((?l @ drop m ps) ! m)
    = (ps ! m)\<lparr>mDeck := take n (drop (m * n) (mDeck deck))\<rparr>"
    using less empty by (simp add: nth_append)
  have "(?l @ drop m ps)[m := x] = ?l @ [x] @ drop (Suc m) ps" for x
    using less by (simp add: list_update_append Cons_nth_drop_Suc [symmetric])
  then have step: "deal_hand deck n m (?l @ drop m ps, valid)
    = (?l @ [(ps ! m)\<lparr>mDeck := take n (drop (m * n) (mDeck deck))\<rparr>] @ drop (Suc m) ps,
       valid \<and> \<not> Deck_HasOnlyOneOfTrump ((ps ! m)\<lparr>mDeck := take n (drop (m * n) (mDeck deck))\<rparr>))"
    unfolding deal_hand_def prod.case Let_def d by simp
  have "fold (deal_hand deck n) [0..<Suc m] (ps, True) = deal_hand deck n m (?l @ drop m ps, valid)"
    by (simp add: IH(1))
  then show ?case
    unfolding step by (simp add: IH(2))
qed

lemma concat_slices: "concat (map (\<lambda>i. take n (drop (i * n) xs)) [0..<m]) @ drop (m * n) xs = xs"
proof (induction m)
  case 0
  show ?case by simp
next
  case (Suc m)
  have "take n (drop (m * n) xs) @ drop (n + m * n) xs = drop (m * n) xs"
    by (metis append_take_drop_id drop_drop)
  with Suc show ?case by simp
qed

lemma DealGenerator_Clear_decks: "\<forall>d \<in> set (dgPlayers (DealGenerator_Clear g)). mDeck d = []"
  by (auto simp: DealGenerator_Clear_def Deck_Clear_def)

text \<open>A random deal cuts the shuffled deck: the hands in order, then the dog.\<close>

lemma CreateRandomDeal_cut:
  assumes "n \<in> {3, 4, 5}" "length (dgPlayers g) = 5" "length (std_shuffle seed tarot_cards) = 78"
    and "r = CreateRandomDeal std_shuffle n seed g"
  shows "map mDeck (take n (dgPlayers (snd r)))
      = map (\<lambda>i. take (NumberOfCardsInHand n) (drop (i * NumberOfCardsInHand n) (std_shuffle seed tarot_cards))) [0..<n]"
    "mDeck (mDogDeck (snd r)) = drop (n * NumberOfCardsInHand n) (std_shuffle seed tarot_cards)"
    "length (dgPlayers (snd r)) = 5" "dgSeed (snd r) = seed" "dgNbPlayers (snd r) = n"
    "fst r = list_all (\<lambda>d. \<not> Deck_HasOnlyOneOfTrump d) (take n (dgPlayers (snd r)))"
proof -
  define deck where "deck = Deck_Shuffle std_shuffle seed (Deck_CreateTarotDeck Deck_empty)"
  define ps where "ps = dgPlayers (DealGenerator_Clear g)"
  have deck: "mDeck deck = std_shuffle seed tarot_cards"
    by (simp add: deck_def Deck_Shuffle_def Deck_CreateTarotDeck_def)
  then have size: "Deck_Size deck = 78" using assms(3) by (simp add: Deck_Size_def)
  have ps: "length ps = 5" "\<forall>d \<in> set ps. mDeck d = []"
    using assms(2) DealGenerator_Clear_decks [of g] by (simp_all add: ps_def DealGenerator_Clear_def)
  have n: "n * NumberOfCardsInHand n < 78" "n \<le> length ps" "\<not> 5 < n" using assms(1) ps by auto
  then obtain valid where f: "fold (deal_hand deck (NumberOfCardsInHand n)) [0..<n] (ps, True)
     = (map (\<lambda>i. (ps ! i)\<lparr>mDeck := take (NumberOfCardsInHand n) (drop (i * NumberOfCardsInHand n) (mDeck deck))\<rparr>) [0..<n]
          @ drop n ps, valid)"
     "valid = list_all (\<lambda>i. \<not> Deck_HasOnlyOneOfTrump
        ((ps ! i)\<lparr>mDeck := take (NumberOfCardsInHand n) (drop (i * NumberOfCardsInHand n) (mDeck deck))\<rparr>)) [0..<n]"
    using deal_hands [of n "NumberOfCardsInHand n" deck ps] ps size by auto
  have r: "r = (valid, (DealGenerator_Clear g)\<lparr>dgPlayers :=
       map (\<lambda>i. (ps ! i)\<lparr>mDeck := take (NumberOfCardsInHand n) (drop (i * NumberOfCardsInHand n) (mDeck deck))\<rparr>) [0..<n]
          @ drop n ps,
       mDogDeck := Deck_MidFrom (n * NumberOfCardsInHand n) deck, dgNbPlayers := n, dgSeed := seed\<rparr>)"
    unfolding assms(4) CreateRandomDeal_def Let_def
    using n(3) by (simp add: f(1) deck_def [symmetric] ps_def [symmetric])
  show "map mDeck (take n (dgPlayers (snd r)))
      = map (\<lambda>i. take (NumberOfCardsInHand n) (drop (i * NumberOfCardsInHand n) (std_shuffle seed tarot_cards))) [0..<n]"
    by (simp add: r deck o_def)
  show "mDeck (mDogDeck (snd r)) = drop (n * NumberOfCardsInHand n) (std_shuffle seed tarot_cards)"
    using n size by (simp add: r MidFrom_cards deck)
  show "length (dgPlayers (snd r)) = 5" "dgSeed (snd r) = seed" "dgNbPlayers (snd r) = n"
    using n ps by (simp_all add: r)
  show "fst r = list_all (\<lambda>d. \<not> Deck_HasOnlyOneOfTrump d) (take n (dgPlayers (snd r)))"
    by (simp add: r f(2) list_all_iff)
qed


lemma SetCards_ToString:
  assumes "\<forall>c \<in> set (mDeck d). Card_IsValid c"
  shows "mDeck (snd (Deck_SetCards (Deck_ToString d) d')) = mDeck d"
  using FromString_ToString [OF assms] by (simp add: Deck_FromString_def SetCards_cards)

text \<open>The texts of places and decks of valid cards pass through a file unchanged.\<close>

lemma text_of_place [simp]: "plain_text (Place_ToString p)"
  by (cases p) (simp_all add: Place_ToString_def Place_strings_def plain_text_def iscntrl_def)

lemma text_of_cards: "list_all (\<lambda>c. plain_text (Card_ToString c)) tarot_cards"
  by code_simp

lemma text_of_card [simp]: "Card_IsValid c \<Longrightarrow> plain_text (Card_ToString c)"
  using text_of_cards by (rule all_valid_cards)

lemma plain_text_append [simp]: "plain_text (s @ s') \<longleftrightarrow> plain_text s \<and> plain_text s'"
  by (simp add: plain_text_def)

lemma text_of_deck [simp]: "list_all Card_IsValid (mDeck d) \<Longrightarrow> plain_text (Deck_ToString d)"
proof -
  have "list_all plain_text ws \<Longrightarrow> plain_text (join_semi ws)" for ws
    by (induction ws rule: join_semi.induct) (simp_all add: plain_text_def iscntrl_def)
  then show "list_all Card_IsValid (mDeck d) \<Longrightarrow> plain_text (Deck_ToString d)"
    by (simp add: Deck_ToString_def list_all_iff)
qed

lemma card_of_text [simp]: "Card_IsValid c \<Longrightarrow> Card_FromName (Card_ToString c) = c"
  using name_roundtrip_all by (rule all_valid_cards)

lemma deck_of_text [simp]:
  "list_all Card_IsValid (mDeck d) \<Longrightarrow> mDeck (snd (Deck_SetCards (Deck_ToString d) d')) = mDeck d"
  by (rule SetCards_ToString) (simp add: list_all_iff)

lemma text_of_no_cards: "list_all Card_IsValid (mDeck d) \<Longrightarrow> Deck_ToString d = [] \<longleftrightarrow> mDeck d = []"
  by (cases "mDeck d"; cases "tl (mDeck d)") (auto simp: Deck_ToString_def Card_ToString_def)

lemma load_players_decks:
  assumes "\<forall>i \<in> set is. GetValue_string (Place_ToString (Place_of i)) doc = Some (txt i)"
  shows "load_players doc is (True, g) =
    (True, g\<lparr>dgPlayers := fold (\<lambda>i ps. ps[i := snd (Deck_SetCards (txt i) (ps ! i))]) is (dgPlayers g),
             dgNbPlayers := dgNbPlayers g + length (filter (\<lambda>i. txt i \<noteq> []) is)\<rparr>)"
  using assms
proof (induction "is" arbitrary: g)
  case Nil
  show ?case by simp
next
  case (Cons i "is")
  let ?g = "g\<lparr>dgPlayers := (dgPlayers g)[i := snd (Deck_SetCards (txt i) (dgPlayers g ! i))],
             dgNbPlayers := (if txt i \<noteq> [] then dgNbPlayers g + 1 else dgNbPlayers g)\<rparr>"
  from Cons.IH [of ?g] Cons.prems show ?case by auto
qed

lemma fold_five:
  "length ps = 5 \<Longrightarrow> fold (\<lambda>i ps. ps[i := f i (ps ! i)]) [0..<5] ps = map (\<lambda>i. f i (ps ! i)) [0..<5]"
  by (auto simp: upt_rec length_Suc_conv numeral_eq_Suc)
section \<open>Properties\<close>

text \<open>
  C13. Dealing loses and invents no card: for 3, 4 or 5 players and any shuffle that permutes the
  cards, every hand of a random deal has the number of cards of the rules, the dog has the rest,
  and hands and dog together are the 78 cards, each once; the deal passes the validity test, and
  the result flag is false exactly when some hand has the little trump and no other.
\<close>

theorem random_deal_partitions:
  assumes "n \<in> {3, 4, 5}" "mset (std_shuffle seed tarot_cards) = mset tarot_cards"
    and "CreateRandomDeal std_shuffle n seed DealGenerator_new = (valid, g)"
  shows "map Deck_Size (take n (dgPlayers g)) = replicate n (NumberOfCardsInHand n) \<and>
    Deck_Size (mDogDeck g) = NumberOfDogCards n \<and>
    mset (concat (map mDeck (take n (dgPlayers g))) @ mDeck (mDogDeck g)) = mset tarot_cards \<and>
    distinct (concat (map mDeck (take n (dgPlayers g))) @ mDeck (mDogDeck g)) \<and>
    DealGenerator_IsValid n g = Some True \<and>
    (valid = list_all (\<lambda>d. \<not> Deck_HasOnlyOneOfTrump d) (take n (dgPlayers g)))"
proof -
  let ?cs = "std_shuffle seed tarot_cards" and ?h = "NumberOfCardsInHand n"
  have len: "length ?cs = 78" using assms(2) length_tarot_cards by (metis size_mset)
  have five: "length (dgPlayers DealGenerator_new) = 5" by (simp add: DealGenerator_new_def)
  note cut = CreateRandomDeal_cut [OF assms(1) five len assms(3) [symmetric], unfolded snd_conv fst_conv]
  have all: "concat (map mDeck (take n (dgPlayers g))) @ mDeck (mDogDeck g) = ?cs"
    unfolding cut(1,2) by (rule concat_slices)
  have total: "n * ?h \<le> 78" using assms(1) by auto
  have piece: "length (take ?h (drop (i * ?h) ?cs)) = ?h" if "i < n" for i
  proof -
    have "Suc i * ?h \<le> n * ?h" using that by (intro mult_le_mono) simp_all
    then show ?thesis using len total by simp
  qed
  have "map Deck_Size (take n (dgPlayers g)) = map length (map mDeck (take n (dgPlayers g)))"
    by (simp add: Deck_Size_def)
  also have "\<dots> = replicate n ?h"
    unfolding cut(1) using piece by (intro nth_equalityI) simp_all
  finally have hands: "map Deck_Size (take n (dgPlayers g)) = replicate n ?h" .
  have dog: "Deck_Size (mDogDeck g) = NumberOfDogCards n"
    unfolding Deck_Size_def cut(2) length_drop len using assms(1) by auto
  have "\<forall>d \<in> set (take n (dgPlayers g)). Deck_Size d = ?h"
  proof
    fix d
    assume "d \<in> set (take n (dgPlayers g))"
    then have "Deck_Size d \<in> set (map Deck_Size (take n (dgPlayers g)))" by simp
    then show "Deck_Size d = ?h" unfolding hands by simp
  qed
  moreover have "\<not> length (dgPlayers g) < n" using cut(3) assms(1) by auto
  ultimately have "DealGenerator_IsValid n g = Some True"
    using dog by (simp add: DealGenerator_IsValid_def list_all_iff)
  moreover have "distinct ?cs"
    using assms(2) distinct_tarot_cards mset_eq_imp_distinct_iff by blast
  ultimately show ?thesis
    unfolding all by (intro conjI hands dog assms(2) cut(6))
qed

theorem random_deal_partitions_witness:
  "\<exists>valid g. CreateRandomDeal (\<lambda>seed cs. rev cs) 4 29 DealGenerator_new = (valid, g) \<and>
     map Deck_Size (take 4 (dgPlayers g)) = [18, 18, 18, 18] \<and> Deck_Size (mDogDeck g) = 6"
proof -
  obtain valid g where r: "CreateRandomDeal (\<lambda>seed cs. rev cs) 4 29 DealGenerator_new = (valid, g)"
    by fastforce
  have "mset (rev tarot_cards) = mset tarot_cards" by simp
  with random_deal_partitions [OF _ _ r]
  have "map Deck_Size (take 4 (dgPlayers g)) = replicate 4 (NumberOfCardsInHand 4)"
    "Deck_Size (mDogDeck g) = NumberOfDogCards 4" by simp_all
  moreover have "replicate 4 (NumberOfCardsInHand 4) = [18, 18, 18, 18]" by code_simp
  ultimately show ?thesis using r by auto
qed

text \<open>The document of a deal.\<close>

definition deal_entries :: "deal_generator \<Rightarrow> (string \<times> json) list" where
  "deal_entries g =
     [(''version'', JString DEAL_FILE_VERSION), (''FirstPlayer'', JString (Place_ToString (dgFirstPlayer g))),
      (''Dog'', JString (Deck_ToString (mDogDeck g)))] @
     map (\<lambda>i. (Place_ToString (Place_of i), JString (Deck_ToString (dgPlayers g ! i)))) [0..<5]"

lemma Build_entries: "DealGenerator_Build g [] = make_object (deal_entries g)"
  by (simp add: DealGenerator_Build_def make_object_def deal_entries_def upt_rec)

lemma place_keys: "list_all (\<lambda>i. plain_key (Place_ToString (Place_of i))) [0..<5]"
  "plain_key ''FirstPlayer''" "plain_key ''Dog''" "plain_key ''version''"
  by code_simp+

lemma deal_values:
  "GetValue_string ''version'' (JObj (DealGenerator_Build g [])) = Some DEAL_FILE_VERSION"
  "GetValue_string ''Dog'' (JObj (DealGenerator_Build g [])) = Some (Deck_ToString (mDogDeck g))"
  "GetValue_string ''FirstPlayer'' (JObj (DealGenerator_Build g [])) = Some (Place_ToString (dgFirstPlayer g))"
  "\<forall>i \<in> set [0..<5]. GetValue_string (Place_ToString (Place_of i)) (JObj (DealGenerator_Build g [])) =
     Some (Deck_ToString (dgPlayers g ! i))"
  unfolding Build_entries
  by (simp_all add: GetValue_string_def FindValue_make_object deal_entries_def upt_rec Place_ToString_def
      Place_strings_def Place_of_def)

definition valid_cards :: "deal_generator \<Rightarrow> bool" where
  "valid_cards g \<longleftrightarrow> list_all (\<lambda>d. list_all Card_IsValid (mDeck d)) (mDogDeck g # dgPlayers g)"

lemma deal_document_ok:
  assumes "length (dgPlayers g) = 5" "valid_cards g"
  shows "json_ok (JObj (DealGenerator_Build g []))"
proof -
  have decks: "list_all Card_IsValid (mDeck (dgPlayers g ! i))" if "i < 5" for i
    using assms that nth_mem [of i "dgPlayers g"] by (simp add: valid_cards_def list_all_iff del: nth_mem)
  have "plain_text DEAL_FILE_VERSION" by code_simp
  then have "list_all (\<lambda>(k, v). plain_key k \<and> json_ok v) (deal_entries g)"
    using assms(2) place_keys decks by (auto simp: deal_entries_def valid_cards_def list.pred_map list_all_iff [of _ "[0..<5]"])
  then show ?thesis unfolding Build_entries by (rule json_ok_make_object)
qed

text \<open>The document of a deal gives its cards back.\<close>

lemma load_deal_Build:
  assumes "length (dgPlayers g) = 5" "length (dgPlayers g') = 5" "dgFirstPlayer g \<noteq> NOWHERE" "valid_cards g"
  shows "\<exists>ps dog. load_deal (JObj (DealGenerator_Build g [])) g' =
      (True, g'\<lparr>dgPlayers := ps, mDogDeck := dog, dgFirstPlayer := dgFirstPlayer g,
        dgNbPlayers := length (filter (\<lambda>d. mDeck d \<noteq> []) (dgPlayers g))\<rparr>) \<and>
    map mDeck ps = map mDeck (dgPlayers g) \<and> mDeck dog = mDeck (mDogDeck g)"
proof -
  let ?txt = "\<lambda>i. Deck_ToString (dgPlayers g ! i)"
  define dog where "dog = snd (Deck_SetCards (Deck_ToString (mDogDeck g)) (mDogDeck g'))"
  define ps where "ps = fold (\<lambda>i ps. ps[i := snd (Deck_SetCards (?txt i) (ps ! i))]) [0..<5] (dgPlayers g')"
  have hands: "list_all Card_IsValid (mDeck (dgPlayers g ! i))" if "i < 5" for i
    using assms(1,4) that nth_mem [of i "dgPlayers g"] by (simp add: valid_cards_def list_all_iff del: nth_mem)
  have "map (\<lambda>i. dgPlayers g ! i) [0..<5] = dgPlayers g" using assms(1) map_nth by metis
  moreover have "map mDeck ps = map mDeck (map (\<lambda>i. dgPlayers g ! i) [0..<5])"
    unfolding ps_def using fold_five [OF assms(2), of "\<lambda>i. \<lambda>d. snd (Deck_SetCards (?txt i) d)"] hands by simp
  ultimately have "map mDeck ps = map mDeck (dgPlayers g)" by simp
  moreover have "length (filter (\<lambda>i. ?txt i \<noteq> []) [0..<5]) = length (filter (\<lambda>d. mDeck d \<noteq> []) (dgPlayers g))"
  proof -
    have "filter (\<lambda>i. ?txt i \<noteq> []) [0..<5] = filter (\<lambda>i. mDeck (dgPlayers g ! i) \<noteq> []) [0..<5]"
      using hands by (intro filter_cong) (auto simp: text_of_no_cards)
    also have "length \<dots> = length (filter (\<lambda>d. mDeck d \<noteq> []) (map (\<lambda>i. dgPlayers g ! i) [0..<5]))"
      by (simp add: filter_map o_def)
    finally show ?thesis using \<open>map (\<lambda>i. dgPlayers g ! i) [0..<5] = dgPlayers g\<close> by simp
  qed
  moreover have "mDeck dog = mDeck (mDogDeck g)" using assms(4) by (simp add: dog_def valid_cards_def)
  moreover have "load_deal (JObj (DealGenerator_Build g [])) g' =
      (True, g'\<lparr>dgPlayers := ps, mDogDeck := dog, dgFirstPlayer := dgFirstPlayer g,
        dgNbPlayers := length (filter (\<lambda>i. ?txt i \<noteq> []) [0..<5])\<rparr>)"
    using load_players_decks [OF deal_values(4)] assms(3)
    by (simp add: load_deal_def deal_values(1,2,3) Place_string_roundtrip Let_def dog_def ps_def)
  ultimately show ?thesis by metis
qed

lemma saved_deal_loads:
  assumes "canWrite d fileName" "length (dgPlayers g) = 5" "length (dgPlayers g') = 5"
    and "dgFirstPlayer g \<noteq> NOWHERE" "valid_cards g"
  shows "\<exists>r. LoadFile fileName (SaveFile fileName g d) g' = Some (True, r) \<and>
    map mDeck (dgPlayers r) = map mDeck (dgPlayers g) \<and> mDeck (mDogDeck r) = mDeck (mDogDeck g) \<and>
    dgFirstPlayer r = dgFirstPlayer g \<and>
    dgNbPlayers r = length (filter (\<lambda>d. mDeck d \<noteq> []) (dgPlayers g)) \<and> dgSeed r = dgSeed g'"
proof -
  have "ParseFile fileName (SaveFile fileName g d) = Some (Some (JObj (DealGenerator_Build g [])))"
    unfolding SaveFile_def by (rule saved_file_is_read(2) [OF deal_document_ok [OF assms(2,5)] assms(1)])
  moreover have "length (dgPlayers (DealGenerator_Clear g')) = 5" using assms(3) by (simp add: DealGenerator_Clear_def)
  ultimately show ?thesis
    using load_deal_Build [OF assms(2) _ assms(4,5), of "DealGenerator_Clear g'"]
    by (auto simp: LoadFile_def DealGenerator_Clear_def)
qed

text \<open>
  C21. A saved deal is read back: when five hands and a dog of valid cards and a seated first player
  are saved to a file that can be written, loading that file, by way of its text and the JSON parser,
  succeeds from any generator and gives the hands, the dog and the first player back, with the number
  of hands that are not empty as the number of players; the seed is not saved and stays the loader's.
\<close>

theorem deal_file_roundtrip:
  assumes "canWrite d fileName" "length (dgPlayers g) = 5" "length (dgPlayers g') = 5"
    and "dgFirstPlayer g \<noteq> NOWHERE" "valid_cards g"
  shows "\<exists>r. LoadFile fileName (SaveFile fileName g d) g' = Some (True, r) \<and>
    map mDeck (dgPlayers r) = map mDeck (dgPlayers g) \<and> mDeck (mDogDeck r) = mDeck (mDogDeck g) \<and>
    dgFirstPlayer r = dgFirstPlayer g \<and>
    dgNbPlayers r = length (filter (\<lambda>d. mDeck d \<noteq> []) (dgPlayers g)) \<and> dgSeed r = dgSeed g'"
  using assms by (rule saved_deal_loads)

definition saved_example :: deal_generator where
  "saved_example = DealGenerator_new\<lparr>dgFirstPlayer := EAST, mDogDeck := \<lparr>mOwner = NO_TEAM, mDeck = [mk_card 21 TRUMPS]\<rparr>,
     dgPlayers := \<lparr>mOwner = NO_TEAM, mDeck = [mk_card 14 HEARTS, mk_card 0 TRUMPS]\<rparr> # replicate 4 Deck_empty\<rparr>"

definition empty_disk :: disk where
  "empty_disk = \<lparr>fileOf = (\<lambda>f. None), canWrite = (\<lambda>f. True)\<rparr>"

theorem deal_file_roundtrip_witness:
  "\<exists>r. LoadFile ''deal.json'' (SaveFile ''deal.json'' saved_example empty_disk) DealGenerator_new = Some (True, r) \<and>
     mDeck (hd (dgPlayers r)) = [mk_card 14 HEARTS, mk_card 0 TRUMPS] \<and>
     mDeck (mDogDeck r) = [mk_card 21 TRUMPS] \<and> dgFirstPlayer r = EAST \<and> dgNbPlayers r = 1"
  using deal_file_roundtrip [of empty_disk "''deal.json''" saved_example DealGenerator_new]
  by (auto simp: empty_disk_def saved_example_def DealGenerator_new_def Deck_empty_def mk_card_def Card_IsValid_def
      suit_defs valid_cards_def numeral_eq_Suc hd_map [symmetric] simp del: hd_map)

end
