(* ===== verification/Engine.thy ===== *)
theory Engine
  imports Deal_Context Deal_Generator
begin

text \<open>
  The state engine of one table (Engine.h, Engine.cpp): the hands, the trick being played, the
  current sequence and the record of the deal.

  A player's hand is looked up with the value of a place in an array of five; \<open>NOWHERE\<close> has the
  value 5, so an operation called for it is \<open>None\<close>. What the engine takes from outside is an
  argument: the clock readings that seed random deals (as many as the loop needs), the shuffle of
  the standard library, the random dealer and the deal file.
\<close>

section \<open>State\<close>

datatype seq =
  BAD_STEP | STOPPED | WAIT_FOR_PLAYERS | WAIT_FOR_READY | WAIT_FOR_CARDS | WAIT_FOR_BID
| WAIT_FOR_SHOW_BID | WAIT_FOR_ALL_PASSED | WAIT_FOR_KING_CALL | WAIT_FOR_SHOW_KING_CALL
| WAIT_FOR_SHOW_DOG | WAIT_FOR_DISCARD | WAIT_FOR_START_DEAL | WAIT_FOR_HANDLE
| WAIT_FOR_SHOW_HANDLE | WAIT_FOR_PLAYED_CARD | WAIT_FOR_SHOW_CARD | WAIT_FOR_END_OF_TRICK
| WAIT_FOR_END_OF_DEAL

record engine =
  mPlayers :: "deck list"
  currentTrick :: deck
  mCurrentPoints :: deal_points
  mSequence :: seq
  mPosition :: nat
  mDealer :: place
  mTrickCounter :: nat
  mCurrentPlayer :: place
  mHandleAsked :: "bool list"
  mCtx :: tarot_context

definition Points_new :: deal_points where
  "Points_new = \<lparr>pointsAttack = 0, cardsPointsAttack = 0, oudlersAttack = 0, handlePoints = 0,
     slamDone = False, littleEndianOwner = NO_TEAM\<rparr>"

definition Engine_new :: engine where
  "Engine_new =
     \<lparr>mPlayers = replicate 5 Deck_empty, currentTrick = Deck_empty, mCurrentPoints = Points_new,
      mSequence = STOPPED, mPosition = 0, mDealer = NOWHERE, mTrickCounter = 0,
      mCurrentPlayer = NOWHERE, mHandleAsked = replicate 5 False,
      mCtx = Context_Initialize Context_new\<rparr>"

abbreviation nbPlayers :: "engine \<Rightarrow> nat" where
  "nbPlayers e \<equiv> mNbPlayers (mCtx e)"

section \<open>Opening a table, dealing\<close>

definition Engine_Initialize :: "engine \<Rightarrow> engine" where
  "Engine_Initialize e = e\<lparr>mSequence := STOPPED\<rparr>"

definition Engine_CreateTable :: "nat \<Rightarrow> place \<Rightarrow> engine \<Rightarrow> engine" where
  "Engine_CreateTable nb randomPlace e =
     e\<lparr>mCtx := Context_Initialize ((mCtx e)\<lparr>mNbPlayers := nb\<rparr>),
       mDealer := randomPlace, mSequence := WAIT_FOR_PLAYERS\<rparr>"

definition Engine_NewGame :: "engine \<Rightarrow> engine" where
  "Engine_NewGame e = e\<lparr>mSequence := WAIT_FOR_READY\<rparr>"

definition Engine_Stop :: "engine \<Rightarrow> engine" where
  "Engine_Stop e = e\<lparr>mSequence := STOPPED\<rparr>"

definition Engine_GetDeck :: "place \<Rightarrow> engine \<Rightarrow> deck option" where
  "Engine_GetDeck p e = (if p < NOWHERE then arr_get (mPlayers e) (Place_Value p) else Some Deck_empty)"

text \<open>
  What a new deal takes from outside the program: the shuffle of the standard library, the clock
  readings, one per random draw, and the disk with the deal files, and the home path.
\<close>

record environment =
  std_shuffle :: "nat \<Rightarrow> card list \<Rightarrow> card list"
  clock :: "nat list"
  deal_disk :: disk
  home_path :: string

text \<open>
  The loop of \<open>CreateDeal\<close> that draws until a deal is valid; \<open>None\<close> when the clock readings run
  out before that. A numbered deal that is not valid turns into a random one.
\<close>

fun draw_random :: "(nat \<Rightarrow> card list \<Rightarrow> card list) \<Rightarrow> nat \<Rightarrow> nat list \<Rightarrow> deal_generator \<Rightarrow> deal_generator option" where
  "draw_random sh nb [] editor = None"
| "draw_random sh nb (seed # seeds) editor =
     (let (valid, editor1) = CreateRandomDeal sh nb seed editor
      in if valid then Some editor1 else draw_random sh nb seeds editor1)"

definition draw_deal :: "environment \<Rightarrow> nat \<Rightarrow> distribution \<Rightarrow> deal_generator
                         \<Rightarrow> (distribution \<times> deal_generator) option" where
  "draw_deal env nb shuffle editor =
     (if mType shuffle = NUMBERED_DEAL then
        (let (valid, editor1) = CreateRandomDeal (std_shuffle env) nb (mSeed shuffle) editor
         in if valid then Some (shuffle\<lparr>mSeed := dgSeed editor1\<rparr>, editor1)
            else map_option (\<lambda>ed. (shuffle\<lparr>mType := RANDOM_DEAL, mSeed := dgSeed ed\<rparr>, ed))
                   (draw_random (std_shuffle env) nb (clock env) editor1))
      else map_option (\<lambda>ed. (shuffle\<lparr>mSeed := dgSeed ed\<rparr>, ed))
             (draw_random (std_shuffle env) nb (clock env) editor))"

definition copy_deal :: "deal_generator \<Rightarrow> engine \<Rightarrow> engine option" where
  "copy_deal editor e =
     (if length (mPlayers e) < nbPlayers e then None
      else Some (e\<lparr>mPlayers := map (\<lambda>i. if i < nbPlayers e
                     then Deck_Append (dgPlayers editor ! i) (Deck_Clear (mPlayers e ! i))
                     else mPlayers e ! i) [0..<length (mPlayers e)],
                   mCtx := (mCtx e)\<lparr>mDog := mDogDeck editor\<rparr>\<rparr>))"

text \<open>A name that is no file of the disk is relative to the home path.\<close>

definition deal_path :: "environment \<Rightarrow> string \<Rightarrow> string" where
  "deal_path env f = (if fileOf (deal_disk env) f = None then home_path env @ f else f)"

definition CreateDeal :: "environment \<Rightarrow> distribution \<Rightarrow> engine \<Rightarrow> (distribution \<times> engine) option" where
  "CreateDeal env shuffle e =
     Option.bind
       (if mType shuffle = CUSTOM_DEAL then LoadFile (deal_path env (mFile shuffle)) (deal_disk env) DealGenerator_new
        else Some (False, DealGenerator_new))
       (\<lambda>(loaded, editor).
         Option.bind (if loaded then DealGenerator_IsValid (nbPlayers e) editor else Some False) (\<lambda>custom.
           if custom then
             map_option (Pair shuffle)
               (copy_deal editor
                  (e\<lparr>mCurrentPlayer := dgFirstPlayer editor,
                     mDealer := Place_Previous (nbPlayers e) (dgFirstPlayer editor)\<rparr>))
           else
             Option.bind (draw_deal env (nbPlayers e) shuffle editor) (\<lambda>(shuffle1, editor1).
               map_option (Pair shuffle1) (copy_deal editor1 e))))"

definition Engine_NewDeal :: "environment \<Rightarrow> distribution \<Rightarrow> engine \<Rightarrow> (distribution \<times> engine) option" where
  "Engine_NewDeal env shuffle e =
     (let ctx = Context_Initialize (mCtx e);
          dealer = Place_Next (mNbPlayers ctx) (mDealer e)
      in map_option (\<lambda>(sh, e1). (sh, e1\<lparr>mSequence := WAIT_FOR_CARDS\<rparr>))
           (CreateDeal env shuffle
              (e\<lparr>mCtx := ctx, mPosition := 0, currentTrick := Deck_Clear (currentTrick e),
                 mDealer := dealer, mCurrentPlayer := Place_Next (mNbPlayers ctx) dealer\<rparr>)))"

section \<open>Playing\<close>

definition StartDeal :: "engine \<Rightarrow> place \<times> engine" where
  "StartDeal e =
     (let p = (if slam (mBid (mCtx e)) then taker (mBid (mCtx e)) else Place_Next (nbPlayers e) (mDealer e))
      in (p, e\<lparr>mTrickCounter := 0, mPosition := 0, mHandleAsked := replicate 5 False,
               mCurrentPlayer := p, mCtx := (mCtx e)\<lparr>mFirstPlayer := p\<rparr>\<rparr>))"

definition SetDiscard :: "deck \<Rightarrow> engine \<Rightarrow> (bool \<times> engine) option" where
  "SetDiscard discard e =
     (let t = Place_Value (taker (mBid (mCtx e)))
      in Option.bind (arr_get (mPlayers e) t) (\<lambda>hand.
           if Deck_TestDiscard hand discard (mDog (mCtx e)) (nbPlayers e) then
             Some (True, e\<lparr>mPlayers := (mPlayers e)[t :=
                               snd (Deck_RemoveDuplicates discard (Deck_Append (mDog (mCtx e)) hand))],
                           mCtx := (mCtx e)\<lparr>mDiscard := Deck_SetOwner ATTACK discard\<rparr>,
                           mSequence := WAIT_FOR_START_DEAL\<rparr>)
           else Some (False, e)))"

definition Engine_SetHandle :: "deck \<Rightarrow> place \<Rightarrow> engine \<Rightarrow> (bool \<times> engine) option" where
  "Engine_SetHandle handle p e =
     Option.bind (arr_get (mPlayers e) (Place_Value p)) (\<lambda>hand.
       if Deck_TestHandle hand handle then
         Some (True, e\<lparr>mCtx := Context_SetHandle handle p (mCtx e), mSequence := WAIT_FOR_SHOW_HANDLE\<rparr>)
       else Some (False, e))"

definition SetCard :: "card \<Rightarrow> place \<Rightarrow> engine \<Rightarrow> (bool \<times> engine) option" where
  "SetCard c p e =
     Option.bind (arr_get (mPlayers e) (Place_Value p)) (\<lambda>hand.
       if Deck_CanPlayCard hand c (currentTrick e) then
         Some (True, e\<lparr>currentTrick := Deck_AppendCard c (currentTrick e),
                       mPlayers := (mPlayers e)[Place_Value p := snd (Deck_Remove c hand)],
                       mPosition := inc8 (mPosition e),
                       mCurrentPlayer := Place_Next (nbPlayers e) (mCurrentPlayer e),
                       mSequence := WAIT_FOR_SHOW_CARD\<rparr>)
       else Some (False, e))"

definition Engine_SetBid :: "contract \<Rightarrow> bool \<Rightarrow> place \<Rightarrow> engine \<Rightarrow> contract \<times> engine" where
  "Engine_SetBid c sl p e =
     (let (c1, ctx) = Context_SetBid c sl p (mCtx e)
      in (c1, e\<lparr>mCtx := ctx, mPosition := inc8 (mPosition e),
                mCurrentPlayer := Place_Next (nbPlayers e) (mCurrentPlayer e),
                mSequence := WAIT_FOR_SHOW_BID\<rparr>))"

text \<open>The search for the partner goes around the table of five from the taker's neighbour.\<close>

fun find_partner :: "nat \<Rightarrow> card \<Rightarrow> place \<Rightarrow> deck list \<Rightarrow> place option" where
  "find_partner 0 c p hands = None"
| "find_partner (Suc k) c p hands =
     (if Deck_HasCard c (hands ! Place_Value p) then Some p else find_partner k c (Place_Next 5 p) hands)"

definition SetKingCalled :: "card \<Rightarrow> engine \<Rightarrow> (bool \<times> engine) option" where
  "SetKingCalled c e =
     (let t = taker (mBid (mCtx e))
      in Option.bind (arr_get (mPlayers e) (Place_Value t)) (\<lambda>hand.
         Option.bind (Deck_AnalyzeSuits hand Statistics_Reset) (\<lambda>stats.
           if CheckKingCall c stats then
             (let (found, bid1) =
                    (if Deck_HasCard c (mDog (mCtx e)) \<or> Deck_HasCard c hand
                     then (True, (mBid (mCtx e))\<lparr>partner := t\<rparr>)
                     else (case find_partner 4 c (Place_Next 5 t) (mPlayers e) of
                             Some p \<Rightarrow> (True, (mBid (mCtx e))\<lparr>partner := p\<rparr>)
                           | None \<Rightarrow> (False, mBid (mCtx e))))
              in Some (found, e\<lparr>mCtx := (mCtx e)\<lparr>mBid := bid1, mKingCalled := c\<rparr>,
                                mSequence := WAIT_FOR_SHOW_KING_CALL\<rparr>))
           else Some (False, e))))"

section \<open>Sequences\<close>

definition IsEndOfTrick :: "engine \<Rightarrow> bool \<times> engine" where
  "IsEndOfTrick e =
     (if nbPlayers e \<le> mPosition e
      then (True, e\<lparr>mPosition := 0, mTrickCounter := inc8 (mTrickCounter e)\<rparr>)
      else (False, e))"

definition IsLastTrick :: "engine \<Rightarrow> bool" where
  "IsLastTrick e = IsDealFinished (mTrickCounter e) (nbPlayers e)"

definition ManageAfterBidSequence :: "engine \<Rightarrow> engine" where
  "ManageAfterBidSequence e =
     (let (show_dog, ctx) = ManageDogAfterBid (mCtx e)
      in e\<lparr>mCtx := ctx, mSequence := (if show_dog then WAIT_FOR_SHOW_DOG else WAIT_FOR_START_DEAL)\<rparr>)"

definition BidSequence :: "engine \<Rightarrow> engine" where
  "BidSequence e =
     (let (end, e1) = IsEndOfTrick e
      in if end \<or> slam (mBid (mCtx e1)) then
           (if contract (mBid (mCtx e1)) = PASS then e1\<lparr>mSequence := WAIT_FOR_ALL_PASSED\<rparr>
            else if nbPlayers e1 = 5 \<and> mSequence e1 = WAIT_FOR_SHOW_BID then
              e1\<lparr>mCtx := (mCtx e1)\<lparr>mBid := (mBid (mCtx e1))\<lparr>partner := taker (mBid (mCtx e1))\<rparr>\<rparr>,
                 mSequence := WAIT_FOR_KING_CALL\<rparr>
            else ManageAfterBidSequence e1)
         else e1\<lparr>mSequence := WAIT_FOR_BID\<rparr>)"

definition DiscardSequence :: "engine \<Rightarrow> engine" where
  "DiscardSequence e = e\<lparr>mSequence := WAIT_FOR_DISCARD\<rparr>"

definition Engine_GameSequence :: "engine \<Rightarrow> engine option" where
  "Engine_GameSequence e =
     (let (end, e1) = IsEndOfTrick e
      in if end then
           map_option (\<lambda>(p, ctx). e1\<lparr>mCtx := ctx, mCurrentPlayer := p,
                                     currentTrick := Deck_Clear (currentTrick e1),
                                     mSequence := WAIT_FOR_END_OF_TRICK\<rparr>)
             (SetTrick (currentTrick e1) (mTrickCounter e1) (mCtx e1))
         else if mTrickCounter e1 = 0 then
           Option.bind (arr_get (mHandleAsked e1) (Place_Value (mCurrentPlayer e1))) (\<lambda>asked.
             if \<not> asked then
               Some (e1\<lparr>mHandleAsked := (mHandleAsked e1)[Place_Value (mCurrentPlayer e1) := True],
                        mSequence := WAIT_FOR_HANDLE\<rparr>)
             else Some (e1\<lparr>mSequence := WAIT_FOR_PLAYED_CARD\<rparr>))
         else Some (e1\<lparr>mSequence := WAIT_FOR_PLAYED_CARD\<rparr>))"

definition EndOfDeal :: "engine \<Rightarrow> engine" where
  "EndOfDeal e =
     (let (p, ctx) = AnalyzeGame (Points_Clear (mCurrentPoints e)) (mCtx e)
      in e\<lparr>mCurrentPoints := p, mCtx := ctx, mSequence := WAIT_FOR_END_OF_DEAL\<rparr>)"

end
