(* ===== verification/Deal_Log.thy ===== *)
theory Deal_Log
  imports Deal_Context Json_Values
begin

text \<open>
  The log of a deal (TarotContext.cpp, \<open>SaveToJson\<close> and \<open>LoadFromJson\<close>): the document a table
  writes at the end of a deal, and its replay, which plays the logged tricks again and rebuilds the
  discard as the cards that were not played.
\<close>

section \<open>Operations\<close>

definition TAROT_CONTEXT_VERSION :: string where
  "TAROT_CONTEXT_VERSION = ''3''"

definition SaveToJson :: "tarot_context \<Rightarrow> (string \<times> json) list \<Rightarrow> (string \<times> json) list" where
  "SaveToJson x doc =
     (let dealInfo = make_object
            [(''number_of_players'', JInt (int (mNbPlayers x))),
             (''taker'', JString (Place_ToString (taker (mBid x)))),
             (''contract'', JString (Contract_ToString (contract (mBid x)))),
             (''slam'', JBool (slam (mBid x))),
             (''first_trick_lead'', JString (Place_ToString (mFirstPlayer x))),
             (''dog'', JString (Deck_ToString (mDog x))),
             (''attack_handle'', JString (Deck_ToString (mAttackHandle x))),
             (''defense_handle'', JString (Deck_ToString (mDefenseHandle x)))];
          tricks = map (\<lambda>i. JString (Deck_ToString (mTricks x ! i))) [0..<NumberOfCardsInHand (mNbPlayers x)]
      in AddValue ''tricks'' (JArr tricks)
           (AddValue ''deal_info'' (JObj dealInfo)
             (AddValue ''version'' (JString TAROT_CONTEXT_VERSION) doc)))"

text \<open>The loop of \<open>LoadFromJson\<close> over the logged tricks; empty tricks are skipped.\<close>

fun replay :: "nat \<Rightarrow> json list \<Rightarrow> nat \<Rightarrow> bool \<Rightarrow> tarot_context \<Rightarrow> (bool \<times> tarot_context) option" where
  "replay numberOfPlayers [] trickCounter ret x = Some (ret, x)"
| "replay numberOfPlayers (t # ts) trickCounter ret x =
     (let trick = Deck_FromString (GetString t)
      in if 0 < Deck_Size trick then
           Option.bind (SetTrick trick trickCounter x) (\<lambda>(winner, y).
             let (removed, d) = Deck_RemoveDuplicates trick (mDiscard y)
             in replay numberOfPlayers ts (inc8 trickCounter)
                  (if removed \<noteq> numberOfPlayers then False else ret) (y\<lparr>mDiscard := d\<rparr>))
         else replay numberOfPlayers ts trickCounter ret x)"

definition load_info :: "json \<Rightarrow> tarot_context \<Rightarrow> bool \<times> bid \<times> place \<times> tarot_context" where
  "load_info doc x =
     (let str = (\<lambda>k. GetValue_string k doc);
          bid0 = Bid_Initialize;
          bid1 = (case str ''deal_info:taker'' of Some s \<Rightarrow> bid0\<lparr>taker := Place_FromString s\<rparr> | None \<Rightarrow> bid0);
          bid2 = (case str ''deal_info:contract'' of Some s \<Rightarrow> bid1\<lparr>contract := Contract_FromString s\<rparr> | None \<Rightarrow> bid1);
          bid3 = (case GetValue_bool ''deal_info:slam'' doc of Some b \<Rightarrow> bid2\<lparr>slam := b\<rparr> | None \<Rightarrow> bid2);
          x1 = (case str ''deal_info:dog'' of
                  Some s \<Rightarrow> x\<lparr>mDog := snd (Deck_SetCards s (mDog x))\<rparr> | None \<Rightarrow> x);
          x2 = (case str ''deal_info:attack_handle'' of
                  Some s \<Rightarrow> x1\<lparr>mAttackHandle := snd (Deck_SetCards s (mAttackHandle x1))\<rparr> | None \<Rightarrow> x1);
          x3 = (case str ''deal_info:defense_handle'' of
                  Some s \<Rightarrow> x2\<lparr>mDefenseHandle := snd (Deck_SetCards s (mDefenseHandle x2))\<rparr> | None \<Rightarrow> x2);
          ret = (list_all (\<lambda>k. str k \<noteq> None)
                   [''deal_info:taker'', ''deal_info:contract'', ''deal_info:dog'', ''deal_info:attack_handle'',
                    ''deal_info:defense_handle'', ''deal_info:first_trick_lead''] \<and>
                 GetValue_bool ''deal_info:slam'' doc \<noteq> None);
          first = (case str ''deal_info:first_trick_lead'' of Some s \<Rightarrow> Place_FromString s | None \<Rightarrow> NOWHERE)
      in (ret, bid3, first, x3))"

definition LoadFromJson :: "json \<Rightarrow> tarot_context \<Rightarrow> (bool \<times> tarot_context) option" where
  "LoadFromJson doc x0 =
     (let x = Context_Initialize x0;
          numberOfPlayers = to_u32 (GetInteger (FindValue ''deal_info:number_of_players'' doc))
      in if numberOfPlayers = 3 \<or> numberOfPlayers = 4 \<or> numberOfPlayers = 5 then
           (let n = nat numberOfPlayers;
                (ret, bid, first, x1) = load_info doc x
            in if ret then
                 (let x2 = x1\<lparr>mFirstPlayer := first, mBid := bid\<rparr>;
                      tricks = GetArray (FindValue ''tricks'' doc)
                  in if length tricks = NumberOfCardsInHand n then
                       map_option (\<lambda>(ok, y).
                           if Deck_Size (mDiscard y) = NumberOfDogCards n then
                             (ok, y\<lparr>mDiscard := Deck_SetOwner
                                       (if contract bid = GUARD_AGAINST then DEFENSE else ATTACK) (mDiscard y)\<rparr>)
                           else (False, y))
                         (replay n tricks 1 True (x2\<lparr>mDiscard := Deck_CreateTarotDeck (mDiscard x2)\<rparr>))
                     else Some (False, x2))
               else Some (False, x1))
         else Some (False, x))"

end
