(* ===== verification/Playing_Table.thy ===== *)
theory Playing_Table
  imports Engine Deal_Log
begin

text \<open>
  One table (PlayingTable.h, PlayingTable.cpp, the reply and acknowledgment types of Network.h and
  Network.cpp): the seats, the acknowledgments, the administrator, the score and the engine, and
  the handler \<open>ExecuteRequest\<close> of every message a client sends to the table.

  A handler appends replies to the output; here it returns the replies it adds and the new table,
  or \<open>None\<close> for an access outside an array. Numbers of users are naturals.
\<close>

section \<open>State\<close>

definition INVALID_UID :: nat where "INVALID_UID = 0"

record challenger =
  chUuid :: nat
  chAck :: bool

record reply =
  rDest :: "nat list"
  rData :: "(string \<times> json) list"

record playing_table =
  mEngine :: engine
  tPlayers :: "challenger list"
  mFull :: bool
  mAdmin :: nat
  mName :: string
  mId :: nat
  mScore :: score
  mGame :: game
  mAdminMode :: bool

definition Challenger_Clear :: challenger where
  "Challenger_Clear = \<lparr>chUuid = INVALID_UID, chAck = False\<rparr>"

definition Table_new :: playing_table where
  "Table_new =
     \<lparr>mEngine = Engine_new, tPlayers = replicate 5 Challenger_Clear, mFull = False, mAdmin = INVALID_UID,
      mName = ''Default'', mId = 1, mScore = Score_new, mGame = Game_default, mAdminMode = False\<rparr>"

abbreviation tbPlayers :: "playing_table \<Rightarrow> nat" where
  "tbPlayers t \<equiv> nbPlayers (mEngine t)"

abbreviation tableBid :: "playing_table \<Rightarrow> bid" where
  "tableBid t \<equiv> mBid (mCtx (mEngine t))"

section \<open>Acknowledgment names\<close>

definition gAckList :: "(string \<times> seq) list" where
  "gAckList =
     [(''AckJoinTable'', WAIT_FOR_PLAYERS), (''Ready'', WAIT_FOR_READY), (''NewDeal'', WAIT_FOR_CARDS),
      (''ShowBid'', WAIT_FOR_SHOW_BID), (''AllPassed'', WAIT_FOR_ALL_PASSED),
      (''ShowKingCall'', WAIT_FOR_SHOW_KING_CALL), (''ShowDog'', WAIT_FOR_SHOW_DOG),
      (''StartDeal'', WAIT_FOR_START_DEAL), (''ShowHandle'', WAIT_FOR_SHOW_HANDLE),
      (''Card'', WAIT_FOR_SHOW_CARD), (''EndOfTrick'', WAIT_FOR_END_OF_TRICK),
      (''EndOfDeal'', WAIT_FOR_END_OF_DEAL)]"

definition Ack_FromString :: "string \<Rightarrow> seq" where
  "Ack_FromString step =
     (case find (\<lambda>a. fst a = step) gAckList of Some a \<Rightarrow> snd a | None \<Rightarrow> BAD_STEP)"

definition Ack_ToString :: "seq \<Rightarrow> string" where
  "Ack_ToString sq =
     (case find (\<lambda>a. snd a = sq) gAckList of Some a \<Rightarrow> fst a | None \<Rightarrow> ''BadSeq'')"

section \<open>Distributions in messages\<close>

definition Distribution_FromJson :: "(string \<times> json) list \<Rightarrow> distribution \<Rightarrow> distribution" where
  "Distribution_FromJson obj distr =
     TypeFromString (GetString (Object_GetValue ''type'' obj))
       (distr\<lparr>mFile := GetString (Object_GetValue ''file'' obj),
             mSeed := nat (to_u32 (GetInteger (Object_GetValue ''seed'' obj)))\<rparr>)"

definition Distribution_ToJson :: "distribution \<Rightarrow> (string \<times> json) list \<Rightarrow> (string \<times> json) list" where
  "Distribution_ToJson distr obj =
     AddValue ''type'' (JString (TypeToString distr))
       (AddValue ''seed'' (JInt (int (mSeed distr)))
         (AddValue ''file'' (JString (mFile distr)) obj))"

section \<open>Seats and acknowledgments\<close>

definition ResetAck :: "playing_table \<Rightarrow> playing_table" where
  "ResetAck t =
     t\<lparr>tPlayers := for_first (tbPlayers t) (\<lambda>c. c\<lparr>chAck := False\<rparr>) (tPlayers t)\<rparr>"

definition AckFromAllPlayers :: "playing_table \<Rightarrow> bool \<times> playing_table" where
  "AckFromAllPlayers t =
     (let counter = length (filter chAck (take (tbPlayers t) (tPlayers t))) mod 256
      in if counter = tbPlayers t then (True, ResetAck t) else (False, t))"

text \<open>The last seat with the number, as the loop has no early exit.\<close>

definition GetPlayerPlace :: "nat \<Rightarrow> playing_table \<Rightarrow> place" where
  "GetPlayerPlace uuid t =
     fold (\<lambda>i p. if chUuid (tPlayers t ! i) = uuid then Place_of i else p) [0..<tbPlayers t] NOWHERE"

definition GetPlayerUuid :: "place \<Rightarrow> playing_table \<Rightarrow> nat option" where
  "GetPlayerUuid p t = map_option chUuid (arr_get (tPlayers t) (Place_Value p))"

definition SendToAllPlayers :: "(string \<times> json) list \<Rightarrow> playing_table \<Rightarrow> reply list" where
  "SendToAllPlayers obj t =
     [\<lparr>rDest = filter (\<lambda>u. u \<noteq> INVALID_UID) (map chUuid (take (tbPlayers t) (tPlayers t))), rData = obj\<rparr>]"

definition Sync :: "seq \<Rightarrow> nat \<Rightarrow> playing_table \<Rightarrow> bool \<times> playing_table" where
  "Sync sq uuid t =
     AckFromAllPlayers
       (t\<lparr>tPlayers :=
            for_first (tbPlayers t) (\<lambda>c. if chUuid c = uuid \<and> mSequence (mEngine t) = sq then c\<lparr>chAck := True\<rparr> else c) (tPlayers t)\<rparr>)"

definition Table_Initialize :: "playing_table \<Rightarrow> playing_table" where
  "Table_Initialize t = t\<lparr>mEngine := Engine_Initialize (mEngine t)\<rparr>"

definition SetupGame :: "game \<Rightarrow> playing_table \<Rightarrow> playing_table" where
  "SetupGame g t = t\<lparr>mGame := g\<rparr>"

definition SetAdminMode :: "bool \<Rightarrow> playing_table \<Rightarrow> playing_table" where
  "SetAdminMode enable t = t\<lparr>mAdminMode := enable\<rparr>"

definition Table_CreateTable :: "nat \<Rightarrow> place \<Rightarrow> playing_table \<Rightarrow> playing_table" where
  "Table_CreateTable nb randomPlace t =
     t\<lparr>mEngine := Engine_CreateTable nb randomPlace (mEngine t),
       tPlayers := map (\<lambda>_. Challenger_Clear) (tPlayers t), mFull := False, mAdmin := INVALID_UID\<rparr>"

definition AddPlayer :: "nat \<Rightarrow> playing_table \<Rightarrow> (place \<times> nat) \<times> playing_table" where
  "AddPlayer uuid t =
     (let nb = tbPlayers t
      in if GetPlayerPlace uuid t = NOWHERE then
           (let assigned = (case find (\<lambda>i. chUuid (tPlayers t ! i) = INVALID_UID) [0..<nb] of
                              Some i \<Rightarrow> Place_of i | None \<Rightarrow> NOWHERE)
            in if Place_Value assigned < Place_Value NOWHERE then
                 ((assigned, nb),
                  t\<lparr>tPlayers := (tPlayers t)[Place_Value assigned :=
                                  (tPlayers t ! Place_Value assigned)\<lparr>chUuid := uuid\<rparr>],
                    mAdmin := (if mAdmin t = INVALID_UID then uuid else mAdmin t)\<rparr>)
               else ((assigned, nb), t))
         else ((NOWHERE, nb), t))"

definition RemovePlayer :: "nat \<Rightarrow> playing_table \<Rightarrow> playing_table" where
  "RemovePlayer kicked_player t =
     (if GetPlayerPlace kicked_player t \<noteq> NOWHERE then
        (let admin = (if kicked_player = mAdmin t then
                        (case find (\<lambda>c. chUuid c \<noteq> kicked_player) (take (tbPlayers t) (tPlayers t)) of
                           Some c \<Rightarrow> chUuid c | None \<Rightarrow> INVALID_UID)
                      else mAdmin t)
         in t\<lparr>mAdmin := admin,
              tPlayers := for_first (tbPlayers t) (\<lambda>c. if chUuid c = kicked_player then Challenger_Clear else c) (tPlayers t)\<rparr>)
      else t)"

section \<open>Phases of the game\<close>

text \<open>Replies added by an operation, and the new table.\<close>

type_synonym effect = "(reply list \<times> playing_table) option"

definition Table_NewGame :: "playing_table \<Rightarrow> reply list \<times> playing_table" where
  "Table_NewGame t =
     (let t1 = ResetAck (t\<lparr>mScore := Score_NewGame (length (deals (mGame t)) mod 256),
                           mEngine := Engine_NewGame (mEngine t)\<rparr>)
      in (SendToAllPlayers (make_object [(''cmd'', JString ''NewGame''), (''mode'', JString (Game_Get (mGame t)))]) t1, t1))"

definition ShowKingCall :: "card \<Rightarrow> playing_table \<Rightarrow> reply list \<times> playing_table" where
  "ShowKingCall c t =
     (let t1 = ResetAck t
      in (SendToAllPlayers (make_object [(''cmd'', JString ''ShowKingCall''), (''card'', JString (Card_ToString c))]) t1, t1))"

fun deal_messages :: "nat list \<Rightarrow> playing_table \<Rightarrow> reply list option" where
  "deal_messages [] t = Some []"
| "deal_messages (i # is) t =
     Option.bind (Engine_GetDeck (Place_of i) (mEngine t)) (\<lambda>deck.
     Option.bind (GetPlayerUuid (Place_of i) t) (\<lambda>uuid.
     Option.bind (deal_messages is t) (\<lambda>rs.
       Some (\<lparr>rDest = [uuid],
              rData = make_object [(''cmd'', JString ''NewDeal''), (''cards'', JString (Deck_ToString deck))]\<rparr> # rs))))"

definition Table_NewDeal :: "environment \<Rightarrow> playing_table \<Rightarrow> effect" where
  "Table_NewDeal env t =
     (let t1 = (if length (deals (mGame t)) \<le> dealCounter (mScore t)
                then t\<lparr>mScore := Score_NewGame (length (deals (mGame t)) mod 256)\<rparr> else t)
      in Option.bind (arr_get (deals (mGame t1)) (dealCounter (mScore t1))) (\<lambda>distr.
         Option.bind (Engine_NewDeal env distr (mEngine t1)) (\<lambda>(_, e).
           let t2 = t1\<lparr>mEngine := e\<rparr>
           in map_option (\<lambda>rs. (rs, t2)) (deal_messages [0..<tbPlayers t2] t2))))"

definition Table_StartDeal :: "playing_table \<Rightarrow> effect" where
  "Table_StartDeal t =
     (let (first, e) = StartDeal (mEngine t);
          t1 = t\<lparr>mEngine := e\<rparr>;
          bid = tableBid t1;
          obj = make_object [(''cmd'', JString ''StartDeal''), (''first_player'', JString (Place_ToString first)),
                  (''taker'', JString (Place_ToString (taker bid))),
                  (''contract'', JString (Contract_ToString (contract bid))), (''slam'', JBool (slam bid))]
      in map_option (\<lambda>distr. (SendToAllPlayers (Distribution_ToJson distr obj) t1, t1))
           (arr_get (deals (mGame t1)) (dealCounter (mScore t1))))"

definition SendNextBidSequence :: "playing_table \<Rightarrow> effect" where
  "SendNextBidSequence t =
     (case mSequence (mEngine t) of
        WAIT_FOR_BID \<Rightarrow>
          Some (SendToAllPlayers (make_object [(''cmd'', JString ''RequestBid''),
                  (''place'', JString (Place_ToString (mCurrentPlayer (mEngine t)))),
                  (''contract'', JString (Contract_ToString (contract (tableBid t))))]) t, t)
      | WAIT_FOR_KING_CALL \<Rightarrow>
          Some (SendToAllPlayers (make_object [(''cmd'', JString ''RequestKingCall'')]) t, t)
      | WAIT_FOR_ALL_PASSED \<Rightarrow>
          Some (SendToAllPlayers (make_object [(''cmd'', JString ''AllPassed'')]) t, t)
      | WAIT_FOR_START_DEAL \<Rightarrow> Table_StartDeal t
      | WAIT_FOR_SHOW_DOG \<Rightarrow>
          Some (SendToAllPlayers (make_object [(''cmd'', JString ''ShowDog''),
                  (''dog'', JString (Deck_ToString (mDog (mCtx (mEngine t)))))]) t, t)
      | _ \<Rightarrow> Some ([], t))"

text \<open>The points sent at the end of a deal are read before the engine computes them.\<close>

definition Team_Value :: "team \<Rightarrow> nat" where
  "Team_Value tm = (case tm of ATTACK \<Rightarrow> 0 | DEFENSE \<Rightarrow> 1 | NO_TEAM \<Rightarrow> 255)"

definition Table_GameSequence :: "playing_table \<Rightarrow> effect" where
  "Table_GameSequence t =
     Option.bind (Engine_GameSequence (mEngine t)) (\<lambda>e.
       let t1 = t\<lparr>mEngine := e\<rparr>
       in if IsLastTrick e then
            (let ps = mCurrentPoints e;
                 e2 = EndOfDeal e;
                 t2 = t1\<lparr>mEngine := e2\<rparr>;
                 obj = make_object [(''cmd'', JString ''EndOfDeal''), (''deal'', JObj (SaveToJson (mCtx e2) [])),
                         (''points'', JInt (pointsAttack ps)), (''oudlers'', JInt (oudlersAttack ps)),
                         (''little_bonus'', JInt (int (Team_Value (littleEndianOwner ps)))),
                         (''handle_bonus'', JInt (handlePoints ps)), (''slam_bonus'', JBool (slamDone ps))]
             in Some (SendToAllPlayers obj t2, t2))
          else
            (case mSequence e of
               WAIT_FOR_END_OF_TRICK \<Rightarrow>
                 Some (SendToAllPlayers (make_object [(''cmd'', JString ''EndOfTrick''),
                         (''place'', JString (Place_ToString (mCurrentPlayer e)))]) t1, t1)
             | WAIT_FOR_PLAYED_CARD \<Rightarrow>
                 Some (SendToAllPlayers (make_object [(''cmd'', JString ''PlayCard''),
                         (''place'', JString (Place_ToString (mCurrentPlayer e)))]) t1, t1)
             | WAIT_FOR_HANDLE \<Rightarrow>
                 map_option (\<lambda>uuid. ([\<lparr>rDest = [uuid],
                                       rData = make_object [(''cmd'', JString ''AskForHandle'')]\<rparr>], t1))
                   (GetPlayerUuid (mCurrentPlayer e) t1)
             | _ \<Rightarrow> Some ([], t1)))"

definition Table_EndOfDeal :: "environment \<Rightarrow> playing_table \<Rightarrow> effect" where
  "Table_EndOfDeal env t =
     Option.bind (AddPoints (mCurrentPoints (mEngine t)) (tableBid t) (tbPlayers t) (mScore t)) (\<lambda>(continueGame, s).
       let t1 = t\<lparr>mScore := s\<rparr>
       in if continueGame then Table_NewDeal env t1
          else
            (let t2 = t1\<lparr>mEngine := Engine_NewGame (mEngine t1)\<rparr>
             in map_option (\<lambda>w. (SendToAllPlayers (make_object [(''cmd'', JString ''EndOfGame''),
                                   (''winner'', JString (Place_ToString w))]) t2, t2))
                  (GetWinner s)))"

section \<open>Messages of the clients\<close>

text \<open>The step of the game taken once every player has acknowledged.\<close>

definition ack_step :: "environment \<Rightarrow> seq \<Rightarrow> playing_table \<Rightarrow> (bool \<times> reply list \<times> playing_table) option" where
  "ack_step env sq t =
     (if sq = WAIT_FOR_PLAYERS then
        (if \<not> mAdminMode t then Some (False, Table_NewGame t) else Some (False, [], t))
      else if sq = WAIT_FOR_READY \<or> sq = WAIT_FOR_ALL_PASSED then
        map_option (Pair False) (Table_NewDeal env t)
      else if sq = WAIT_FOR_CARDS \<or> sq = WAIT_FOR_SHOW_BID then
        map_option (Pair False) (SendNextBidSequence (t\<lparr>mEngine := BidSequence (mEngine t)\<rparr>))
      else if sq = WAIT_FOR_SHOW_KING_CALL then
        map_option (Pair False) (SendNextBidSequence (t\<lparr>mEngine := ManageAfterBidSequence (mEngine t)\<rparr>))
      else if sq = WAIT_FOR_SHOW_DOG then
        (let t1 = t\<lparr>mEngine := DiscardSequence (mEngine t)\<rparr>
         in map_option (\<lambda>uuid. (False, [\<lparr>rDest = [uuid],
                 rData = make_object [(''cmd'', JString ''BuildDiscard'')]\<rparr>], t1))
              (GetPlayerUuid (taker (tableBid t1)) t1))
      else if sq = WAIT_FOR_START_DEAL \<or> sq = WAIT_FOR_SHOW_HANDLE \<or> sq = WAIT_FOR_SHOW_CARD
              \<or> sq = WAIT_FOR_END_OF_TRICK then
        map_option (Pair False) (Table_GameSequence t)
      else if sq = WAIT_FOR_END_OF_DEAL then map_option (Pair True) (Table_EndOfDeal env t)
      else Some (False, [], t))"

definition do_ack :: "environment \<Rightarrow> nat \<Rightarrow> json \<Rightarrow> playing_table \<Rightarrow> (bool \<times> reply list \<times> playing_table) option" where
  "do_ack env src_uuid doc t =
     (if GetPlayerPlace src_uuid t = NOWHERE then Some (False, [], t)
      else
        (let sq = Ack_FromString (GetString (FindValue ''step'' doc))
         in if sq = BAD_STEP then Some (False, [], t)
            else
              (let (allAcked, t1) = Sync sq src_uuid t
               in if allAcked then ack_step env sq t1 else Some (False, [], t1))))"

definition do_request_new_game :: "nat \<Rightarrow> json \<Rightarrow> playing_table \<Rightarrow> reply list \<times> playing_table" where
  "do_request_new_game src_uuid doc t =
     (if src_uuid = mAdmin t then
        Table_NewGame (t\<lparr>mGame := (Game_Set (GetString (FindValue ''mode'' doc)) (mGame t))
                            \<lparr>deals := map (\<lambda>v. Distribution_FromJson (GetObj v) Distribution_Initialize)
                                       (GetArray (FindValue ''deals'' doc))\<rparr>\<rparr>)
      else ([], t))"

definition do_reply_bid :: "nat \<Rightarrow> json \<Rightarrow> playing_table \<Rightarrow> reply list \<times> playing_table" where
  "do_reply_bid src_uuid doc t =
     (let c = Contract_FromString (GetString (FindValue ''contract'' doc));
          sl = GetBool (FindValue ''slam'' doc);
          p = GetPlayerPlace src_uuid t
      in if p \<noteq> NOWHERE \<and> p = mCurrentPlayer (mEngine t) \<and> mSequence (mEngine t) = WAIT_FOR_BID then
           (let (cont, e) = Engine_SetBid c sl p (mEngine t);
                t1 = t\<lparr>mEngine := e\<rparr>;
                takerBid = tableBid t1
            in (SendToAllPlayers (make_object
                  [(''cmd'', JString ''ShowBid''), (''place'', JString (Place_ToString p)),
                   (''contract'', JString (Contract_ToString cont)), (''slam'', JBool sl),
                   (''taker_place'', JString (Place_ToString (taker takerBid))),
                   (''taker_contract'', JString (Contract_ToString (contract takerBid))),
                   (''taker_slam'', JBool (slam takerBid))]) t1, t1))
         else ([], t))"

definition do_discard :: "nat \<Rightarrow> json \<Rightarrow> playing_table \<Rightarrow> effect" where
  "do_discard src_uuid doc t =
     (let discard = Deck_FromString (GetString (FindValue ''discard'' doc))
      in if mSequence (mEngine t) = WAIT_FOR_DISCARD \<and> taker (tableBid t) = GetPlayerPlace src_uuid t then
           Option.bind (SetDiscard discard (mEngine t)) (\<lambda>(ok, e).
             if ok then Table_StartDeal (t\<lparr>mEngine := e\<rparr>) else Some ([], t\<lparr>mEngine := e\<rparr>))
         else Some ([], t))"

definition do_king_call :: "nat \<Rightarrow> json \<Rightarrow> playing_table \<Rightarrow> effect" where
  "do_king_call src_uuid doc t =
     (let c = Card_FromName (GetString (FindValue ''card'' doc))
      in if mSequence (mEngine t) = WAIT_FOR_KING_CALL \<and> taker (tableBid t) = GetPlayerPlace src_uuid t then
           map_option (\<lambda>(ok, e). if ok then ShowKingCall c (t\<lparr>mEngine := e\<rparr>) else ([], t\<lparr>mEngine := e\<rparr>))
             (SetKingCalled c (mEngine t))
         else Some ([], t))"

definition do_handle :: "nat \<Rightarrow> json \<Rightarrow> playing_table \<Rightarrow> effect" where
  "do_handle src_uuid doc t =
     (let handle = Deck_FromString (GetString (FindValue ''handle'' doc));
          p = GetPlayerPlace src_uuid t
      in if mSequence (mEngine t) = WAIT_FOR_HANDLE \<and> mCurrentPlayer (mEngine t) = p then
           Option.bind (Engine_SetHandle handle p (mEngine t)) (\<lambda>(ok, e).
             let t1 = t\<lparr>mEngine := e\<rparr>
             in if ok then
                  Some (SendToAllPlayers (make_object
                          [(''cmd'', JString ''ShowHandle''), (''place'', JString (Place_ToString p)),
                           (''handle'', JString (Deck_ToString handle))]) t1, t1)
                else Table_GameSequence t1)
         else Some ([], t))"

definition do_card :: "nat \<Rightarrow> json \<Rightarrow> playing_table \<Rightarrow> effect" where
  "do_card src_uuid doc t =
     (let c = Card_FromName (GetString (FindValue ''card'' doc));
          p = GetPlayerPlace src_uuid t
      in if Card_IsValid c \<and> mSequence (mEngine t) = WAIT_FOR_PLAYED_CARD \<and> mCurrentPlayer (mEngine t) = p then
           map_option (\<lambda>(ok, e).
               let t1 = t\<lparr>mEngine := e\<rparr>
               in if ok then
                    (SendToAllPlayers (make_object
                       [(''cmd'', JString ''ShowCard''), (''place'', JString (Place_ToString p)),
                        (''card'', JString (Card_ToString c))]) t1, t1)
                  else ([], t1))
             (SetCard c p (mEngine t))
         else Some ([], t))"

text \<open>The result flag is set at the end of a deal.\<close>

definition ExecuteRequest ::
  "environment \<Rightarrow> nat \<Rightarrow> json \<Rightarrow> playing_table \<Rightarrow> (bool \<times> reply list \<times> playing_table) option" where
  "ExecuteRequest env src_uuid doc t =
     (let cmd = GetString (FindValue ''cmd'' doc)
      in if cmd = ''Error'' then Some (False, [], t)
         else if cmd = ''Ack'' then do_ack env src_uuid doc t
         else if cmd = ''RequestNewGame'' then Some (False, do_request_new_game src_uuid doc t)
         else if cmd = ''ReplyBid'' then Some (False, do_reply_bid src_uuid doc t)
         else if cmd = ''Discard'' then map_option (Pair False) (do_discard src_uuid doc t)
         else if cmd = ''ReplyKingCall'' then map_option (Pair False) (do_king_call src_uuid doc t)
         else if cmd = ''Handle'' then map_option (Pair False) (do_handle src_uuid doc t)
         else if cmd = ''Card'' then map_option (Pair False) (do_card src_uuid doc t)
         else Some (False, [], t))"

end
