(* ===== verification/Engine_Facts.thy ===== *)
theory Engine_Facts
  imports Engine
begin

text \<open>
  The invariants of the engine. A deal is either in its auction (\<open>bidding\<close>), ready to start
  (\<open>ready\<close>), being played (\<open>playing\<close>) or played out (\<open>finished\<close>); each operation takes one phase to
  another and keeps the 78 cards together.
\<close>

section \<open>The cards of a deal\<close>

definition hand_cards :: "nat \<Rightarrow> engine \<Rightarrow> card list" where
  "hand_cards n e = concat (map mDeck (take n (mPlayers e)))"

text \<open>The cards set aside: the discard once there is one, before that the dog.\<close>

definition aside :: "tarot_context \<Rightarrow> card list" where
  "aside x = (if mDeck (mDiscard x) = [] then mDeck (mDog x) else mDeck (mDiscard x))"

definition deal_cards :: "nat \<Rightarrow> engine \<Rightarrow> card list" where
  "deal_cards n e =
     hand_cards n e @ aside (mCtx e) @ mDeck (currentTrick e) @ trick_cards (mTricks (mCtx e))"

definition whole_deck :: "nat \<Rightarrow> engine \<Rightarrow> bool" where
  "whole_deck n e \<longleftrightarrow> mset (deal_cards n e) = mset tarot_cards"

lemma whole_deck_distinct: "whole_deck n e \<Longrightarrow> distinct (deal_cards n e)"
  unfolding whole_deck_def by (metis mset_eq_imp_distinct_iff distinct_tarot_cards)

lemma whole_deck_valid: "whole_deck n e \<Longrightarrow> c \<in> set (deal_cards n e) \<Longrightarrow> Card_IsValid c"
  unfolding whole_deck_def by (metis mset_eq_setD tarot_cards_iff)

lemma hand_in_cards: "p < n \<Longrightarrow> p < length (mPlayers e) \<Longrightarrow> set (mDeck (mPlayers e ! p)) \<subseteq> set (hand_cards n e)"
  by (force simp: hand_cards_def in_set_conv_nth)

lemma hand_cards_update:
  assumes "p < n" "p < length (mPlayers e)"
  shows "mset (concat (map mDeck (take n ((mPlayers e)[p := d])))) + mset (mDeck (mPlayers e ! p))
    = mset (hand_cards n e) + mset (mDeck d)"
proof -
  have "map mDeck (take n ((mPlayers e)[p := d])) = (map mDeck (take n (mPlayers e)))[p := mDeck d]"
    by (simp add: take_update_swap map_update)
  moreover have "map mDeck (take n (mPlayers e)) ! p = mDeck (mPlayers e ! p)" using assms by simp
  ultimately show ?thesis
    using mset_concat_update [of p "map mDeck (take n (mPlayers e))" "mDeck d"] assms
    by (simp add: hand_cards_def)
qed

lemma hand_cards_distinct_parts:
  assumes "distinct (hand_cards n e)" "p < n" "p < length (mPlayers e)"
  shows "distinct (mDeck (mPlayers e ! p))"
proof -
  have "mDeck (mPlayers e ! p) \<in> set (map mDeck (take n (mPlayers e)))"
    using assms(2,3) by (force simp: in_set_conv_nth)
  with assms(1) show ?thesis unfolding hand_cards_def distinct_concat_iff by blast
qed

lemma trick_cards_update:
  assumes "k < length ts" "mDeck (ts ! k) = []"
  shows "mset (trick_cards (ts[k := t])) = mset (trick_cards ts) + mset (mDeck t)"
  using mset_concat_update [of k "map mDeck ts" "mDeck t"] assms
  by (simp add: trick_cards_def map_update)

section \<open>Phases\<close>

definition engine_base :: "nat \<Rightarrow> engine \<Rightarrow> bool" where
  "engine_base n e \<longleftrightarrow> n \<in> {3, 4, 5} \<and> nbPlayers e = n \<and> length (mPlayers e) = 5 \<and>
     length (mHandleAsked e) = 5 \<and> wf_context (mCtx e)"

definition seated :: "nat \<Rightarrow> place \<Rightarrow> bool" where
  "seated n p \<longleftrightarrow> Place_Value p < n"

text \<open>The bid is the initial one or has a seated taker; only a seated taker announces a slam.\<close>

definition bid_ok :: "nat \<Rightarrow> bid \<Rightarrow> bool" where
  "bid_ok n b \<longleftrightarrow> (if contract b = NO_ANY then taker b = NOWHERE \<and> \<not> slam b else seated n (taker b)) \<and>
     (partner b = NOWHERE \<or> n = 5 \<and> (seated 5 (partner b) \<or> partner b = taker b))"

definition hands_of :: "nat \<Rightarrow> nat \<Rightarrow> engine \<Rightarrow> bool" where
  "hands_of n k e \<longleftrightarrow> (\<forall>i < n. length (mDeck (mPlayers e ! i)) = k)"

definition no_tricks :: "engine \<Rightarrow> bool" where
  "no_tricks e \<longleftrightarrow> mDeck (currentTrick e) = [] \<and> (\<forall>i < 24. mDeck (mTricks (mCtx e) ! i) = []) \<and>
     points (mStatsAttack (mCtx e)) = 0 \<and> oudlers (mStatsAttack (mCtx e)) = 0"

definition bidding :: "nat \<Rightarrow> engine \<Rightarrow> bool" where
  "bidding n e \<longleftrightarrow> engine_base n e \<and> whole_deck n e \<and> hands_of n (NumberOfCardsInHand n) e \<and> no_tricks e \<and>
     mDeck (mDiscard (mCtx e)) = [] \<and> length (mDeck (mDog (mCtx e))) = NumberOfDogCards n \<and>
     bid_ok n (mBid (mCtx e)) \<and> seated n (mCurrentPlayer e)"

definition ready :: "nat \<Rightarrow> engine \<Rightarrow> bool" where
  "ready n e \<longleftrightarrow> engine_base n e \<and> whole_deck n e \<and> hands_of n (NumberOfCardsInHand n) e \<and> no_tricks e \<and>
     length (mDeck (mDiscard (mCtx e))) = NumberOfDogCards n \<and> bid_ok n (mBid (mCtx e)) \<and>
     contract (mBid (mCtx e)) \<noteq> NO_ANY"

text \<open>
  During play the \<open>j\<close>-th player after the one who led has one card less than the others once the
  trick has more than \<open>j\<close> cards.
\<close>

definition seat :: "nat \<Rightarrow> place \<Rightarrow> nat \<Rightarrow> nat" where
  "seat n first j = (Place_Value first + j) mod n"

definition trick_state :: "nat \<Rightarrow> engine \<Rightarrow> bool" where
  "trick_state n e \<longleftrightarrow>
     (let first = trick_first (mTrickCounter e + 1) (mCtx e); h = NumberOfCardsInHand n
      in seated n first \<and> mPosition e = length (mDeck (currentTrick e)) \<and> mPosition e \<le> n \<and>
         Place_Value (mCurrentPlayer e) = seat n first (mPosition e) \<and>
         (\<forall>j < n. length (mDeck (mPlayers e ! seat n first j))
                    = h - mTrickCounter e - (if j < mPosition e then 1 else 0)))"

definition tricks_done :: "nat \<Rightarrow> engine \<Rightarrow> bool" where
  "tricks_done n e \<longleftrightarrow>
     (\<forall>i < 24. length (mDeck (mTricks (mCtx e) ! i)) = (if i < mTrickCounter e then n else 0)) \<and>
     (\<forall>i < mTrickCounter e. seated n (mWinner (mCtx e) ! i)) \<and>
     0 \<le> points (mStatsAttack (mCtx e)) \<and>
     points (mStatsAttack (mCtx e)) \<le> pts (trick_cards (mTricks (mCtx e))) \<and>
     oudlers (mStatsAttack (mCtx e)) \<le> oudler_count (trick_cards (mTricks (mCtx e)))"

definition played :: "nat \<Rightarrow> engine \<Rightarrow> bool" where
  "played n e \<longleftrightarrow> engine_base n e \<and> whole_deck n e \<and> tricks_done n e \<and>
     length (mDeck (mDiscard (mCtx e))) = NumberOfDogCards n \<and> bid_ok n (mBid (mCtx e)) \<and>
     contract (mBid (mCtx e)) \<noteq> NO_ANY"

definition playing :: "nat \<Rightarrow> engine \<Rightarrow> bool" where
  "playing n e \<longleftrightarrow> played n e \<and> mTrickCounter e < NumberOfCardsInHand n \<and> trick_state n e"

definition finished :: "nat \<Rightarrow> engine \<Rightarrow> bool" where
  "finished n e \<longleftrightarrow> played n e \<and> mTrickCounter e = NumberOfCardsInHand n \<and> mDeck (currentTrick e) = []"

section \<open>Seats\<close>

lemma seated_Next: "n \<in> {3, 4, 5} \<Longrightarrow> seated n (Place_Next n p)"
  unfolding seated_def by (rule Place_Next_less) auto

lemma seated_NOWHERE [simp]: "n \<in> {3, 4, 5} \<Longrightarrow> \<not> seated n NOWHERE"
  by (auto simp: seated_def)

lemma seat_less: "n \<in> {3, 4, 5} \<Longrightarrow> seat n p j < n"
  by (auto simp: seat_def)

lemma seat_0: "seated n p \<Longrightarrow> seat n p 0 = Place_Value p"
  by (simp add: seated_def seat_def)

lemma seat_Next: "n \<in> {3, 4, 5} \<Longrightarrow> Place_Value q = seat n p j \<Longrightarrow> Place_Value (Place_Next n q) = seat n p (j + 1)"
  using seat_less [of n p j] by (subst Place_Value_Next) (auto simp: seat_def mod_simps)

lemma seat_inj: "n \<in> {3, 4, 5} \<Longrightarrow> i < n \<Longrightarrow> j < n \<Longrightarrow> seat n p i = seat n p j \<longleftrightarrow> i = j"
proof -
  assume n: "n \<in> {3, 4, 5}" "i < n" "j < n"
  have "i = j" if "i \<le> j" "(Place_Value p + i) mod n = (Place_Value p + j) mod n" "j < n" for i j
  proof -
    have "n dvd (Place_Value p + j) - (Place_Value p + i)"
      using that by (intro mod_eq_dvd_iff_nat [THEN iffD1]) simp_all
    then have "j - i = 0" using that(3) by (metis add_diff_cancel_left dvd_imp_le gr0I leD less_imp_diff_less)
    with that show ?thesis by simp
  qed
  from this [of i j] this [of j i] n show ?thesis
    by (cases "i \<le> j") (auto simp: seat_def)
qed

lemma seat_onto: "n \<in> {3, 4, 5} \<Longrightarrow> seated n p \<Longrightarrow> i < n \<Longrightarrow> \<exists>j < n. seat n p j = i"
proof -
  assume n: "n \<in> {3, 4, 5}" "seated n p" "i < n"
  have "(Place_Value p + (i + n - Place_Value p) mod n) mod n = i"
    using n by (simp add: mod_simps seated_def)
  with n show ?thesis unfolding seat_def by (intro exI [of _ "(i + n - Place_Value p) mod n"]) auto
qed

section \<open>Auction\<close>

lemma bidding_D:
  assumes "bidding n e"
  shows "engine_base n e" "whole_deck n e" "n \<in> {3, 4, 5}" "nbPlayers e = n" "length (mPlayers e) = 5"
    "wf_context (mCtx e)" "bid_ok n (mBid (mCtx e))" "seated n (mCurrentPlayer e)"
  using assms by (simp_all add: bidding_def engine_base_def)

text \<open>The phases do not depend on the sequence, nor, before play, on position and counter.\<close>

lemma phase_update [simp]:
  "hand_cards n (e\<lparr>mSequence := s\<rparr>) = hand_cards n e"
  "deal_cards n (e\<lparr>mSequence := s\<rparr>) = deal_cards n e"
  "whole_deck n (e\<lparr>mSequence := s\<rparr>) = whole_deck n e"
  "engine_base n (e\<lparr>mSequence := s\<rparr>) = engine_base n e"
  "hands_of n k (e\<lparr>mSequence := s\<rparr>) = hands_of n k e"
  "no_tricks (e\<lparr>mSequence := s\<rparr>) = no_tricks e"
  "tricks_done n (e\<lparr>mSequence := s\<rparr>) = tricks_done n e"
  "trick_state n (e\<lparr>mSequence := s\<rparr>) = trick_state n e"
  "bidding n (e\<lparr>mSequence := s\<rparr>) = bidding n e"
  "ready n (e\<lparr>mSequence := s\<rparr>) = ready n e"
  "played n (e\<lparr>mSequence := s\<rparr>) = played n e"
  "playing n (e\<lparr>mSequence := s\<rparr>) = playing n e"
  "finished n (e\<lparr>mSequence := s\<rparr>) = finished n e"
  by (simp_all add: hand_cards_def deal_cards_def whole_deck_def engine_base_def hands_of_def no_tricks_def
      bidding_def ready_def played_def playing_def finished_def trick_state_def tricks_done_def)

lemma counter_update [simp]:
  "bidding n (e\<lparr>mPosition := i, mTrickCounter := j\<rparr>) = bidding n e"
  by (simp_all add: hand_cards_def deal_cards_def whole_deck_def engine_base_def hands_of_def no_tricks_def
      bidding_def)

lemma IsEndOfTrick_bidding [keeps]: "bidding n e \<Longrightarrow> bidding n (snd (IsEndOfTrick e))"
  by (simp add: IsEndOfTrick_def)

lemma bidding_ctx:
  assumes "bidding n e" "bid_ok n b"
  shows "bidding n (e\<lparr>mCtx := (mCtx e)\<lparr>mBid := b\<rparr>\<rparr>)"
  using assms by (auto simp: bidding_def engine_base_def whole_deck_def deal_cards_def hand_cards_def
      aside_def hands_of_def no_tricks_def wf_context_def)

lemma bidding_next:
  assumes "bidding n e"
  shows "bidding n (e\<lparr>mPosition := i, mCurrentPlayer := Place_Next n p\<rparr>)"
  using assms seated_Next [of n p]
  by (auto simp: bidding_def engine_base_def whole_deck_def deal_cards_def hand_cards_def
      aside_def hands_of_def no_tricks_def)

lemma SetBid_bid_ok:
  assumes "bid_ok n (mBid x)" "seated n p" "n \<in> {3, 4, 5}"
  shows "bid_ok n (mBid (snd (Context_SetBid c s p x)))"
proof (cases "contract (mBid x) < c \<and> n = 5")
  case True
  then have "c \<noteq> NO_ANY" by (auto simp: contract_less_iff)
  with True assms show ?thesis
    by (auto simp: bid_ok_def Context_SetBid_def split: if_splits)
next
  case False
  then show ?thesis
    using assms by (auto simp: bid_ok_def Context_SetBid_def contract_less_iff split: if_splits)
qed

lemma Context_SetBid_frame: "snd (Context_SetBid c s p x) = x\<lparr>mBid := mBid (snd (Context_SetBid c s p x))\<rparr>"
  by (simp add: Context_SetBid_def)

lemma Engine_SetBid_bidding [keeps]:
  assumes "bidding n e" "seated n p"
  shows "bidding n (snd (Engine_SetBid c s p e))"
proof -
  let ?x = "snd (Context_SetBid c s p (mCtx e))"
  have "bid_ok n (mBid ?x)" using bidding_D [OF assms(1)] assms(2) by (intro SetBid_bid_ok) auto
  with assms(1) have "bidding n (e\<lparr>mCtx := (mCtx e)\<lparr>mBid := mBid ?x\<rparr>\<rparr>)" by (rule bidding_ctx)
  then have "bidding n (e\<lparr>mCtx := ?x\<rparr>)" by (simp add: Context_SetBid_frame [symmetric])
  then have "bidding n ((e\<lparr>mCtx := ?x\<rparr>)\<lparr>mPosition := inc8 (mPosition e),
      mCurrentPlayer := Place_Next n (mCurrentPlayer e)\<rparr>)" by (rule bidding_next)
  moreover have "nbPlayers (e\<lparr>mCtx := ?x\<rparr>) = n" "nbPlayers e = n"
    using bidding_D(4) [OF assms(1)] by (simp_all add: Context_SetBid_def)
  ultimately show ?thesis
    by (simp add: Engine_SetBid_def split_beta)
qed

lemma ManageAfterBid_cases:
  assumes "bidding n e"
  shows "(if contract (mBid (mCtx e)) = GUARD_WITHOUT \<or> contract (mBid (mCtx e)) = GUARD_AGAINST
          then mSequence (ManageAfterBidSequence e) = WAIT_FOR_START_DEAL \<and> ready n (ManageAfterBidSequence e)
          else mSequence (ManageAfterBidSequence e) = WAIT_FOR_SHOW_DOG \<and> bidding n (ManageAfterBidSequence e))"
proof (cases "contract (mBid (mCtx e)) = GUARD_WITHOUT \<or> contract (mBid (mCtx e)) = GUARD_AGAINST")
  case True
  then have "\<exists>t. snd (ManageDogAfterBid (mCtx e)) = (mCtx e)\<lparr>mDiscard := Deck_SetOwner t (mDog (mCtx e))\<rparr> \<and>
      \<not> fst (ManageDogAfterBid (mCtx e))"
    by (auto simp: ManageDogAfterBid_def)
  then obtain t where "snd (ManageDogAfterBid (mCtx e)) = (mCtx e)\<lparr>mDiscard := Deck_SetOwner t (mDog (mCtx e))\<rparr>"
    "\<not> fst (ManageDogAfterBid (mCtx e))" by blast
  then have eq: "ManageAfterBidSequence e =
      e\<lparr>mCtx := (mCtx e)\<lparr>mDiscard := Deck_SetOwner t (mDog (mCtx e))\<rparr>, mSequence := WAIT_FOR_START_DEAL\<rparr>"
    by (simp add: ManageAfterBidSequence_def split_beta)
  have "ready n (e\<lparr>mCtx := (mCtx e)\<lparr>mDiscard := Deck_SetOwner t (mDog (mCtx e))\<rparr>\<rparr>)"
    using assms True
    by (auto simp: ready_def bidding_def engine_base_def whole_deck_def deal_cards_def hand_cards_def
      aside_def hands_of_def no_tricks_def wf_context_def Deck_SetOwner_def)
  then have "ready n ((e\<lparr>mCtx := (mCtx e)\<lparr>mDiscard := Deck_SetOwner t (mDog (mCtx e))\<rparr>\<rparr>)\<lparr>mSequence := WAIT_FOR_START_DEAL\<rparr>)"
    by (simp only: phase_update)
  with True show ?thesis by (simp add: eq)
next
  case False
  then have "ManageAfterBidSequence e = e\<lparr>mCtx := mCtx e, mSequence := WAIT_FOR_SHOW_DOG\<rparr>"
    by (simp add: ManageAfterBidSequence_def ManageDogAfterBid_def)
  with False assms show ?thesis by simp
qed

lemma BidSequence_cases:
  assumes "bidding n e" "e' = BidSequence e"
  shows "bidding n e' \<and> (mSequence e' = WAIT_FOR_BID \<or>
            contract (mBid (mCtx e)) = PASS \<and> mSequence e' = WAIT_FOR_ALL_PASSED \<or>
            mSequence e' = WAIT_FOR_KING_CALL \<and> n = 5 \<or> mSequence e' = WAIT_FOR_SHOW_DOG) \<or>
         ready n e' \<and> mSequence e' = WAIT_FOR_START_DEAL"
    "mBid (mCtx e') = mBid (mCtx e) \<or> mBid (mCtx e') = (mBid (mCtx e))\<lparr>partner := taker (mBid (mCtx e))\<rparr>"
proof -
  obtain b e1 where e1: "IsEndOfTrick e = (b, e1)" by (cases "IsEndOfTrick e")
  then have b1: "bidding n e1" and ctx: "mCtx e1 = mCtx e" and sq: "mSequence e1 = mSequence e"
    using IsEndOfTrick_bidding [OF assms(1)] by (auto simp: IsEndOfTrick_def split: if_splits)
  note D = bidding_D [OF b1]
  have king: "bidding n (e1\<lparr>mCtx := (mCtx e1)\<lparr>mBid := (mBid (mCtx e1))\<lparr>partner := taker (mBid (mCtx e1))\<rparr>\<rparr>\<rparr>)" if "n = 5"
    using b1 D(7) that by (intro bidding_ctx) (auto simp: bid_ok_def split: if_splits)
  have e': "e' = (if b \<or> slam (mBid (mCtx e1)) then
           (if contract (mBid (mCtx e1)) = PASS then e1\<lparr>mSequence := WAIT_FOR_ALL_PASSED\<rparr>
            else if nbPlayers e1 = 5 \<and> mSequence e1 = WAIT_FOR_SHOW_BID then
              (e1\<lparr>mCtx := (mCtx e1)\<lparr>mBid := (mBid (mCtx e1))\<lparr>partner := taker (mBid (mCtx e1))\<rparr>\<rparr>\<rparr>)
                \<lparr>mSequence := WAIT_FOR_KING_CALL\<rparr>
            else ManageAfterBidSequence e1)
         else e1\<lparr>mSequence := WAIT_FOR_BID\<rparr>)"
    using assms(2) by (simp add: BidSequence_def e1)
  show "bidding n e' \<and> (mSequence e' = WAIT_FOR_BID \<or>
            contract (mBid (mCtx e)) = PASS \<and> mSequence e' = WAIT_FOR_ALL_PASSED \<or>
            mSequence e' = WAIT_FOR_KING_CALL \<and> n = 5 \<or> mSequence e' = WAIT_FOR_SHOW_DOG) \<or>
         ready n e' \<and> mSequence e' = WAIT_FOR_START_DEAL"
    using b1 D king ManageAfterBid_cases [OF b1] ctx by (auto simp: e' split: if_splits)
  have "mBid (mCtx (ManageAfterBidSequence e1)) = mBid (mCtx e1)"
    by (simp add: ManageAfterBidSequence_def ManageDogAfterBid_def)
  then show "mBid (mCtx e') = mBid (mCtx e) \<or> mBid (mCtx e') = (mBid (mCtx e))\<lparr>partner := taker (mBid (mCtx e))\<rparr>"
    using ctx by (auto simp: e')
qed

lemma find_partner_seated:
  "find_partner k c p hands = Some q \<Longrightarrow> Place_Value p < 5 \<Longrightarrow> Place_Value q < 5 \<and> c \<in> set (mDeck (hands ! Place_Value q))"
  by (induction k arbitrary: p) (auto split: if_splits simp: Place_Next_less)

lemma SetKingCalled_shape:
  assumes "SetKingCalled c e = Some (ok, e')"
  shows "e' = e \<or> (\<exists>b. (b = mBid (mCtx e) \<or> b = (mBid (mCtx e))\<lparr>partner := taker (mBid (mCtx e))\<rparr> \<or>
         (\<exists>q. find_partner 4 c (Place_Next 5 (taker (mBid (mCtx e)))) (mPlayers e) = Some q \<and>
              b = (mBid (mCtx e))\<lparr>partner := q\<rparr>)) \<and>
      e' = e\<lparr>mCtx := (mCtx e)\<lparr>mBid := b, mKingCalled := c\<rparr>, mSequence := WAIT_FOR_SHOW_KING_CALL\<rparr>)"
proof -
  let ?t = "taker (mBid (mCtx e))"
  from assms obtain hand where hand: "arr_get (mPlayers e) (Place_Value ?t) = Some hand"
    by (cases "arr_get (mPlayers e) (Place_Value ?t)") (auto simp: SetKingCalled_def)
  with assms obtain stats where stats: "Deck_AnalyzeSuits hand Statistics_Reset = Some stats"
    by (cases "Deck_AnalyzeSuits hand Statistics_Reset") (auto simp: SetKingCalled_def)
  define fb where "fb = (if Deck_HasCard c (mDog (mCtx e)) \<or> Deck_HasCard c hand
      then (True, (mBid (mCtx e))\<lparr>partner := ?t\<rparr>)
      else (case find_partner 4 c (Place_Next 5 ?t) (mPlayers e) of
              Some p \<Rightarrow> (True, (mBid (mCtx e))\<lparr>partner := p\<rparr>)
            | None \<Rightarrow> (False, mBid (mCtx e))))"
  have "SetKingCalled c e = (if CheckKingCall c stats
      then Some (fst fb, e\<lparr>mCtx := (mCtx e)\<lparr>mBid := snd fb, mKingCalled := c\<rparr>, mSequence := WAIT_FOR_SHOW_KING_CALL\<rparr>)
      else Some (False, e))"
    unfolding SetKingCalled_def Let_def hand stats bind.bind_lunit fb_def [symmetric] by (simp only: split_beta)
  with assms have "e' = e \<or> e' = e\<lparr>mCtx := (mCtx e)\<lparr>mBid := snd fb, mKingCalled := c\<rparr>, mSequence := WAIT_FOR_SHOW_KING_CALL\<rparr>"
    by (simp split: if_splits)
  moreover have "snd fb = mBid (mCtx e) \<or> snd fb = (mBid (mCtx e))\<lparr>partner := ?t\<rparr> \<or>
      (\<exists>q. find_partner 4 c (Place_Next 5 ?t) (mPlayers e) = Some q \<and> snd fb = (mBid (mCtx e))\<lparr>partner := q\<rparr>)"
    unfolding fb_def by (auto split: option.split)
  ultimately show ?thesis by blast
qed

lemma SetKingCalled_bidding [keeps]:
  assumes "bidding n e" "n = 5" "SetKingCalled c e = Some (ok, e')"
  shows "bidding n e'" "e' = e \<or> mSequence e' = WAIT_FOR_SHOW_KING_CALL"
    "contract (mBid (mCtx e')) = contract (mBid (mCtx e))"
proof -
  let ?t = "taker (mBid (mCtx e))"
  have t: "Place_Value (Place_Next 5 ?t) < 5" by (rule Place_Next_less) simp
  have ok: "bid_ok n (mBid (mCtx e))" using bidding_D(7) [OF assms(1)] .
  have b1: "bid_ok n ((mBid (mCtx e))\<lparr>partner := ?t\<rparr>)"
    using ok assms(2) by (auto simp: bid_ok_def split: if_splits)
  have b2: "bid_ok n ((mBid (mCtx e))\<lparr>partner := q\<rparr>)" if "find_partner 4 c (Place_Next 5 ?t) (mPlayers e) = Some q" for q
    using find_partner_seated [OF that t] ok assms(2) by (auto simp: bid_ok_def seated_def split: if_splits)
  have bidding: "bidding n (e\<lparr>mCtx := (mCtx e)\<lparr>mBid := b, mKingCalled := c\<rparr>, mSequence := WAIT_FOR_SHOW_KING_CALL\<rparr>)"
    if "bid_ok n b" for b
    using assms(1) that by (auto simp: bidding_def engine_base_def whole_deck_def deal_cards_def hand_cards_def
      aside_def hands_of_def no_tricks_def wf_context_def)
  show "bidding n e'"
    using SetKingCalled_shape [OF assms(3)] assms(1) bidding ok b1 b2 by blast
  show "e' = e \<or> mSequence e' = WAIT_FOR_SHOW_KING_CALL" "contract (mBid (mCtx e')) = contract (mBid (mCtx e))"
    using SetKingCalled_shape [OF assms(3)] by auto
qed

section \<open>Dealing\<close>

text \<open>
  What a deal relies on: the standard library's shuffle permutes, and the deal files are proper: one
  that the loader reads and that passes the program's own validity test holds the 78 cards, each
  once, and names a seated first player. The test itself only counts cards, so this is a premise on
  the files of the disk and no fact of the code (lemma \<open>doubled_deal_is_dealt\<close> below).
\<close>

definition shuffle_permutes :: "environment \<Rightarrow> bool" where
  "shuffle_permutes env \<longleftrightarrow> (\<forall>seed. mset (std_shuffle env seed tarot_cards) = mset tarot_cards)"

definition proper_deal_files :: "nat \<Rightarrow> environment \<Rightarrow> bool" where
  "proper_deal_files n env \<longleftrightarrow>
     (\<forall>f g. LoadFile f (deal_disk env) DealGenerator_new = Some (True, g) \<longrightarrow>
            DealGenerator_IsValid n g = Some True \<longrightarrow>
            mset (concat (map mDeck (take n (dgPlayers g))) @ mDeck (mDogDeck g)) = mset tarot_cards \<and>
            seated n (dgFirstPlayer g))"

definition sound_environment :: "nat \<Rightarrow> environment \<Rightarrow> bool" where
  "sound_environment n env \<longleftrightarrow> shuffle_permutes env \<and> proper_deal_files n env"

definition dealt :: "nat \<Rightarrow> deal_generator \<Rightarrow> bool" where
  "dealt n g \<longleftrightarrow> length (dgPlayers g) = 5 \<and>
     mset (concat (map mDeck (take n (dgPlayers g))) @ mDeck (mDogDeck g)) = mset tarot_cards \<and>
     (\<forall>i < n. length (mDeck (dgPlayers g ! i)) = NumberOfCardsInHand n) \<and>
     length (mDeck (mDogDeck g)) = NumberOfDogCards n"

lemma CreateRandomDeal_dealt:
  assumes "n \<in> {3, 4, 5}" "length (dgPlayers g) = 5" "mset (sh seed tarot_cards) = mset tarot_cards"
  shows "dealt n (snd (CreateRandomDeal sh n seed g))"
proof -
  let ?r = "CreateRandomDeal sh n seed g" and ?cs = "sh seed tarot_cards" and ?h = "NumberOfCardsInHand n"
  have len: "length ?cs = 78" using assms(3) length_tarot_cards by (metis size_mset)
  note cut = CreateRandomDeal_cut [where std_shuffle = sh and seed = seed and r = ?r, OF assms(1,2) len refl]
  have "length (mDeck (dgPlayers (snd ?r) ! i)) = ?h" if "i < n" for i
  proof -
    have "Suc i * ?h \<le> n * ?h" using that by (intro mult_le_mono) simp_all
    moreover have "n * ?h \<le> 78" using assms(1) by auto
    moreover have "mDeck (dgPlayers (snd ?r) ! i) = map mDeck (take n (dgPlayers (snd ?r))) ! i"
      using that cut(3) assms(1) by auto
    ultimately show ?thesis using that len by (simp add: cut(1))
  qed
  moreover have "length (mDeck (mDogDeck (snd ?r))) = NumberOfDogCards n"
    unfolding cut(2) length_drop len using assms(1) by auto
  moreover have "concat (map mDeck (take n (dgPlayers (snd ?r)))) @ mDeck (mDogDeck (snd ?r)) = ?cs"
    unfolding cut(1,2) by (rule concat_slices)
  ultimately show ?thesis using cut(3) assms(3) by (simp only: dealt_def) simp
qed

lemma CreateRandomDeal_length [simp]: "length (dgPlayers (snd (CreateRandomDeal sh n seed g))) = length (dgPlayers g)"
proof -
  have "length (fst (fold (deal_hand d k) is (ps, v))) = length ps" for d k "is" ps v
    by (induction "is" arbitrary: ps v) (auto simp: deal_hand_def Let_def)
  from this [of _ _ _ "dgPlayers (DealGenerator_Clear g)"] show ?thesis
    by (simp add: CreateRandomDeal_def Let_def split_beta) (simp add: DealGenerator_Clear_def)
qed

lemma draw_random_dealt:
  assumes "n \<in> {3, 4, 5}" "\<forall>seed. mset (sh seed tarot_cards) = mset tarot_cards"
  shows "length (dgPlayers g) = 5 \<Longrightarrow> draw_random sh n seeds g = Some g' \<Longrightarrow> dealt n g'"
proof (induction seeds arbitrary: g)
  case Nil
  then show ?case by simp
next
  case (Cons seed seeds)
  let ?r = "CreateRandomDeal sh n seed g"
  show ?case
  proof (cases "fst ?r")
    case True
    with Cons.prems have "g' = snd ?r" by (simp add: split_beta)
    with CreateRandomDeal_dealt [OF assms(1) Cons.prems(1)] assms(2) show ?thesis by simp
  next
    case False
    with Cons.prems have "draw_random sh n seeds (snd ?r) = Some g'" by (simp add: split_beta)
    with Cons.IH [of "snd ?r"] Cons.prems(1) show ?thesis by simp
  qed
qed

lemma draw_deal_dealt:
  assumes "n \<in> {3, 4, 5}" "\<forall>seed. mset (std_shuffle env seed tarot_cards) = mset tarot_cards"
    and "length (dgPlayers g) = 5" "draw_deal env n d g = Some (d', g')"
  shows "dealt n g'"
proof (cases "mType d = NUMBERED_DEAL \<and> fst (CreateRandomDeal (std_shuffle env) n (mSeed d) g)")
  case True
  with assms(4) have "g' = snd (CreateRandomDeal (std_shuffle env) n (mSeed d) g)"
    by (simp add: draw_deal_def split_beta)
  with CreateRandomDeal_dealt [OF assms(1,3)] assms(2) show ?thesis by simp
next
  case False
  let ?g1 = "if mType d = NUMBERED_DEAL then snd (CreateRandomDeal (std_shuffle env) n (mSeed d) g) else g"
  have "length (dgPlayers ?g1) = 5" "draw_random (std_shuffle env) n (clock env) ?g1 = Some g'"
    using False assms(3,4) by (auto simp: draw_deal_def split_beta split: if_splits)
  then show ?thesis by (rule draw_random_dealt [where sh = "std_shuffle env", OF assms(1,2)])
qed

lemma load_players_length: "length (dgPlayers (snd (load_players json is (ret, g)))) = length (dgPlayers g)"
  by (induction "is" arbitrary: ret g) (auto split: option.splits)

lemma load_deal_length: "length (dgPlayers (snd (load_deal doc g))) = length (dgPlayers g)"
  by (auto simp: load_deal_def Let_def load_players_length split: option.splits)

lemma LoadFile_length:
  "LoadFile f d g = Some (loaded, g') \<Longrightarrow> length (dgPlayers g') = length (dgPlayers g)"
  using load_deal_length [of _ "DealGenerator_Clear g"]
  by (auto simp: LoadFile_def Let_def DealGenerator_Clear_def split: option.splits) (metis snd_conv)

lemma copy_deal_cards:
  assumes "dealt n g" "n \<in> {3, 4, 5}" "length (mPlayers e) = 5" "nbPlayers e = n" "copy_deal g e = Some e'"
  shows "e' = e\<lparr>mPlayers := mPlayers e', mCtx := (mCtx e)\<lparr>mDog := mDogDeck g\<rparr>\<rparr>" "length (mPlayers e') = 5"
    "map mDeck (take n (mPlayers e')) = map mDeck (take n (dgPlayers g))"
proof -
  have e': "e' = e\<lparr>mPlayers := map (\<lambda>i. if i < n
                     then Deck_Append (dgPlayers g ! i) (Deck_Clear (mPlayers e ! i))
                     else mPlayers e ! i) [0..<5], mCtx := (mCtx e)\<lparr>mDog := mDogDeck g\<rparr>\<rparr>"
    using assms by (simp add: copy_deal_def split: if_splits)
  then show "e' = e\<lparr>mPlayers := mPlayers e', mCtx := (mCtx e)\<lparr>mDog := mDogDeck g\<rparr>\<rparr>" "length (mPlayers e') = 5"
    by simp_all
  show "map mDeck (take n (mPlayers e')) = map mDeck (take n (dgPlayers g))"
    using assms(1,2) by (intro nth_equalityI) (auto simp: e' dealt_def Deck_Clear_def)
qed

lemma Context_Initialize_no_tricks:
  assumes "wf_context x"
  shows "\<forall>i < 24. mDeck (mTricks (Context_Initialize x) ! i) = []"
    "trick_cards (mTricks (Context_Initialize x)) = []"
  using assms by (auto simp: wf_context_def Context_Initialize_def Deck_Clear_def trick_cards_def)

lemma NewDeal_bidding:
  assumes "engine_base n e" "sound_environment n env" "Engine_NewDeal env d e = Some (d', e')"
  shows "bidding n e'" "mSequence e' = WAIT_FOR_CARDS" "mBid (mCtx e') = Bid_Initialize"
proof -
  let ?x = "Context_Initialize (mCtx e)" and ?dealer = "Place_Next n (mDealer e)"
  let ?e = "e\<lparr>mCtx := ?x, mPosition := 0, currentTrick := Deck_Clear (currentTrick e),
                 mDealer := ?dealer, mCurrentPlayer := Place_Next n ?dealer\<rparr>"
  have base: "n \<in> {3, 4, 5}" "nbPlayers e = n" "length (mPlayers e) = 5" "length (mHandleAsked e) = 5"
    "wf_context (mCtx e)" using assms(1) by (simp_all add: engine_base_def)
  then have nb: "mNbPlayers ?x = n" by (simp add: Context_Initialize_def)
  from assms(3) obtain e1 where e1: "CreateDeal env d ?e = Some (d', e1)" "e' = e1\<lparr>mSequence := WAIT_FOR_CARDS\<rparr>"
    by (auto simp: Engine_NewDeal_def Let_def nb)
  from e1(1) obtain loaded editor where ed: "(if mType d = CUSTOM_DEAL
        then LoadFile (deal_path env (mFile d)) (deal_disk env) DealGenerator_new
        else Some (False, DealGenerator_new)) = Some (loaded, editor)"
    by (auto simp: CreateDeal_def bind_eq_Some_conv)
  have len: "length (dgPlayers editor) = 5"
    using ed LoadFile_length [of "deal_path env (mFile d)" "deal_disk env" DealGenerator_new loaded editor]
    by (auto simp: DealGenerator_new_def split: if_splits)
  have "\<exists>g e2. copy_deal g e2 = Some e1 \<and> dealt n g \<and>
     (\<exists>p q. e2 = ?e\<lparr>mCurrentPlayer := p, mDealer := q\<rparr> \<and> seated n p)"
  proof (cases "loaded \<and> DealGenerator_IsValid n editor = Some True")
    case True
    then have read: "LoadFile (deal_path env (mFile d)) (deal_disk env) DealGenerator_new = Some (True, editor)" "mType d = CUSTOM_DEAL"
      using ed by (auto split: if_splits)
    with True assms(2) have part: "mset (concat (map mDeck (take n (dgPlayers editor))) @ mDeck (mDogDeck editor)) = mset tarot_cards"
        "seated n (dgFirstPlayer editor)" by (auto simp: sound_environment_def proper_deal_files_def)
    have "\<forall>i < n. length (mDeck (dgPlayers editor ! i)) = NumberOfCardsInHand n"
      "length (mDeck (mDogDeck editor)) = NumberOfDogCards n"
      using True len base(1) by (auto simp: DealGenerator_IsValid_def list_all_length Deck_Size_def split: if_splits)
    with part len have "dealt n editor" by (simp add: dealt_def)
    moreover have "copy_deal editor (?e\<lparr>mCurrentPlayer := dgFirstPlayer editor,
                     mDealer := Place_Previous n (dgFirstPlayer editor)\<rparr>) = Some e1"
      using e1(1) True by (simp add: CreateDeal_def ed nb)
    ultimately show ?thesis using part(2) by blast
  next
    case False
    with e1(1) obtain g where "draw_deal env n d editor = Some (d', g)" "copy_deal g ?e = Some e1"
      by (auto simp: CreateDeal_def ed nb bind_eq_Some_conv split: if_splits)
    moreover from this(1) have "dealt n g"
      using draw_deal_dealt [OF base(1) _ len] assms(2) by (auto simp: sound_environment_def shuffle_permutes_def)
    moreover have "?e = ?e\<lparr>mCurrentPlayer := Place_Next n ?dealer, mDealer := ?dealer\<rparr>" by simp
    ultimately show ?thesis using seated_Next [OF base(1)] by blast
  qed
  then obtain g p q where g: "copy_deal g (?e\<lparr>mCurrentPlayer := p, mDealer := q\<rparr>) = Some e1" "dealt n g" "seated n p"
    by blast
  note copy = copy_deal_cards [OF g(2) base(1) _ _ g(1), simplified, OF base(3) nb]
  have hands: "\<forall>i < n. length (mDeck (mPlayers e1 ! i)) = NumberOfCardsInHand n"
  proof (intro allI impI)
    fix i
    assume i: "i < n"
    then have "map mDeck (take n (mPlayers e1)) ! i = map mDeck (take n (dgPlayers g)) ! i" by (simp add: copy(3))
    with i base(1) copy(2) g(2) show "length (mDeck (mPlayers e1 ! i)) = NumberOfCardsInHand n"
      by (auto simp: dealt_def)
  qed
  have ctx: "mCtx e1 = ?x\<lparr>mDog := mDogDeck g\<rparr>" "currentTrick e1 = Deck_Clear (currentTrick e)"
    "mHandleAsked e1 = mHandleAsked e" "mCurrentPlayer e1 = p"
    by (subst copy(1), simp)+
  have "bidding n e1"
    using base hands g copy(2) Context_Initialize_no_tricks [OF base(5)] wf_context_Initialize [OF base(5)] nb
    by (simp add: bidding_def engine_base_def whole_deck_def deal_cards_def hand_cards_def aside_def
        hands_of_def no_tricks_def ctx copy(3) dealt_def)
      (simp add: Context_Initialize_def Deck_Clear_def Statistics_Reset_def bid_ok_def Bid_Initialize_def wf_context_def)
  then show "bidding n e'" by (simp add: e1(2))
  show "mSequence e' = WAIT_FOR_CARDS" "mBid (mCtx e') = Bid_Initialize"
    by (simp_all add: e1(2) ctx Context_Initialize_def)
qed

text \<open>
  The premise on deal files is needed: a file with the same card 78 times passes the test and is
  dealt as it is.
\<close>

definition doubled_deal :: deal_generator where
  "doubled_deal = DealGenerator_new
     \<lparr>dgFirstPlayer := SOUTH, mDogDeck := Deck_empty\<lparr>mDeck := replicate 6 (mk_card 1 SPADES)\<rparr>,
      dgPlayers := replicate 5 (Deck_empty\<lparr>mDeck := replicate 18 (mk_card 1 SPADES)\<rparr>)\<rparr>"

definition doubled_disk :: disk where
  "doubled_disk = SaveFile ''deal.json'' doubled_deal empty_disk"

lemma doubled_deal_is_dealt:
  assumes "deal_disk env = doubled_disk" "mType d = CUSTOM_DEAL" "mFile d = ''deal.json''"
    and "nbPlayers e = 4" "length (mPlayers e) = 5"
  shows "\<exists>e'. CreateDeal env d e = Some (d, e') \<and>
    map mDeck (take 4 (mPlayers e')) = replicate 4 (replicate 18 (mk_card 1 SPADES))"
proof -
  have "valid_cards doubled_deal"
    by (simp add: valid_cards_def doubled_deal_def DealGenerator_new_def list_all_iff mk_card_def Card_IsValid_def suit_defs)
  then obtain r where r: "LoadFile ''deal.json'' doubled_disk DealGenerator_new = Some (True, r)"
    "map mDeck (dgPlayers r) = map mDeck (dgPlayers doubled_deal)" "mDeck (mDogDeck r) = mDeck (mDogDeck doubled_deal)"
    using saved_deal_loads [of empty_disk "''deal.json''" doubled_deal DealGenerator_new]
    by (auto simp: doubled_disk_def doubled_deal_def empty_disk_def DealGenerator_new_def)
  let ?hand = "replicate 18 (mk_card 1 SPADES)"
  have hands: "map mDeck (dgPlayers r) = replicate 5 ?hand"
    unfolding r(2) by (simp add: doubled_deal_def)
  then have "length (map mDeck (dgPlayers r)) = length (replicate 5 ?hand)" by (rule arg_cong)
  then have len: "length (dgPlayers r) = 5" by simp
  have hand: "mDeck (dgPlayers r ! i) = ?hand" if "i < 5" for i
  proof -
    have "mDeck (dgPlayers r ! i) = map mDeck (dgPlayers r) ! i" using that len by simp
    also have "\<dots> = ?hand" unfolding hands using that by (rule nth_replicate)
    finally show ?thesis .
  qed
  have sizes: "Deck_Size (dgPlayers r ! i) = NumberOfCardsInHand 4" if "i < 4" for i
    using hand [of i] that by (simp add: Deck_Size_def NumberOfCardsInHand_def)
  have dog: "Deck_Size (mDogDeck r) = NumberOfDogCards 4"
    by (simp add: Deck_Size_def r(3) doubled_deal_def NumberOfDogCards_def)
  have valid: "DealGenerator_IsValid 4 r = Some True"
    using sizes len dog by (simp add: DealGenerator_IsValid_def list_all_length)
  have "fileOf doubled_disk ''deal.json'' \<noteq> None"
    by (simp add: doubled_disk_def SaveFile_def SaveToFile_def empty_disk_def)
  then have path: "deal_path env ''deal.json'' = ''deal.json''" by (auto simp: deal_path_def assms(1))
  let ?e = "e\<lparr>mCurrentPlayer := dgFirstPlayer r, mDealer := Place_Previous 4 (dgFirstPlayer r)\<rparr>"
  obtain e' where e': "copy_deal r ?e = Some e'" using assms(4,5) by (simp add: copy_deal_def)
  then have "CreateDeal env d e = Some (d, e')"
    by (simp add: CreateDeal_def assms path r(1) valid)
  moreover have "map mDeck (take 4 (mPlayers e')) = replicate 4 ?hand"
  proof (rule nth_equalityI)
    show len': "length (map mDeck (take 4 (mPlayers e'))) = length (replicate 4 ?hand)"
      using e' assms(4,5) by (auto simp: copy_deal_def)
    fix i
    assume "i < length (map mDeck (take 4 (mPlayers e')))"
    with len' have i: "i < 4" by simp
    then have "mDeck (mPlayers e' ! i) = ?hand"
      using e' assms(4,5) hand [of i] by (auto simp: copy_deal_def Deck_Clear_def)
    with i len' show "map mDeck (take 4 (mPlayers e')) ! i = replicate 4 ?hand ! i"
      by (simp only: nth_map length_map nth_take nth_replicate length_replicate)
  qed
  ultimately show ?thesis by blast
qed

text \<open>The parts of the state the invariants read.\<close>

lemma whole_deck_cong:
  assumes "mPlayers e' = mPlayers e" "mDiscard (mCtx e') = mDiscard (mCtx e)" "mDog (mCtx e') = mDog (mCtx e)"
    "currentTrick e' = currentTrick e" "mTricks (mCtx e') = mTricks (mCtx e)"
  shows "whole_deck n e' = whole_deck n e"
  using assms by (simp add: whole_deck_def deal_cards_def hand_cards_def aside_def)

lemma engine_base_cong:
  assumes "nbPlayers e' = nbPlayers e" "mPlayers e' = mPlayers e" "mHandleAsked e' = mHandleAsked e"
    "mTricks (mCtx e') = mTricks (mCtx e)" "mWinner (mCtx e') = mWinner (mCtx e)"
    "mStatsAttack (mCtx e') = mStatsAttack (mCtx e)"
  shows "engine_base n e' = engine_base n e"
  using assms by (simp add: engine_base_def wf_context_def)

lemma tricks_done_cong:
  assumes "mTrickCounter e' = mTrickCounter e" "mTricks (mCtx e') = mTricks (mCtx e)"
    "mWinner (mCtx e') = mWinner (mCtx e)" "mStatsAttack (mCtx e') = mStatsAttack (mCtx e)"
  shows "tricks_done n e' = tricks_done n e"
  using assms by (simp add: tricks_done_def)

lemma trick_state_cong:
  assumes "mTrickCounter e' = mTrickCounter e" "mFirstPlayer (mCtx e') = mFirstPlayer (mCtx e)"
    "mWinner (mCtx e') = mWinner (mCtx e)" "mPosition e' = mPosition e" "currentTrick e' = currentTrick e"
    "mCurrentPlayer e' = mCurrentPlayer e" "mPlayers e' = mPlayers e"
  shows "trick_state n e' = trick_state n e"
  using assms by (simp add: trick_state_def trick_first_def Let_def)

lemma playing_cong:
  assumes "nbPlayers e' = nbPlayers e" "mHandleAsked e' = mHandleAsked e" "mPlayers e' = mPlayers e"
    "mDiscard (mCtx e') = mDiscard (mCtx e)" "mDog (mCtx e') = mDog (mCtx e)" "currentTrick e' = currentTrick e"
    "mTricks (mCtx e') = mTricks (mCtx e)" "mTrickCounter e' = mTrickCounter e" "mFirstPlayer (mCtx e') = mFirstPlayer (mCtx e)"
    "mWinner (mCtx e') = mWinner (mCtx e)" "mPosition e' = mPosition e" "mStatsAttack (mCtx e') = mStatsAttack (mCtx e)"
    "mCurrentPlayer e' = mCurrentPlayer e" "mBid (mCtx e') = mBid (mCtx e)"
  shows "playing n e' = playing n e"
proof -
  have "whole_deck n e' = whole_deck n e" using assms by (intro whole_deck_cong)
  moreover have "engine_base n e' = engine_base n e" using assms by (intro engine_base_cong)
  moreover have "tricks_done n e' = tricks_done n e" using assms by (intro tricks_done_cong)
  moreover have "trick_state n e' = trick_state n e" using assms by (intro trick_state_cong)
  ultimately show ?thesis using assms by (simp add: playing_def played_def)
qed

section \<open>From the auction to play\<close>

lemma no_tricks_cards:
  assumes "no_tricks e" "wf_context (mCtx e)"
  shows "trick_cards (mTricks (mCtx e)) = []" "mDeck (currentTrick e) = []"
  using assms by (auto simp: no_tricks_def trick_cards_def concat_eq_Nil_conv in_set_conv_nth wf_context_def)

lemma SetDiscard_ready:
  assumes "bidding n e" "SetDiscard discard e = Some (ok, e')" "contract (mBid (mCtx e)) \<noteq> NO_ANY"
  shows "if ok then ready n e' \<and> mSequence e' = WAIT_FOR_START_DEAL \<and> mBid (mCtx e') = mBid (mCtx e) else e' = e"
proof (cases ok)
  case False
  with assms(2) show ?thesis by (auto simp: SetDiscard_def Let_def bind_eq_Some_conv split: if_splits)
next
  case True
  let ?t = "Place_Value (taker (mBid (mCtx e)))" and ?dog = "mDeck (mDog (mCtx e))"
  let ?hand = "mPlayers e ! ?t"
  note D = bidding_D [OF assms(1)]
  from D(7) assms(3) have t: "?t < n" "?t < 5" using D(3) by (auto simp: bid_ok_def seated_def)
  from True assms(2) have test: "Deck_TestDiscard ?hand discard (mDog (mCtx e)) n" and
    e': "e' = e\<lparr>mPlayers := (mPlayers e)[?t :=
                               snd (Deck_RemoveDuplicates discard (Deck_Append (mDog (mCtx e)) ?hand))],
                           mCtx := (mCtx e)\<lparr>mDiscard := Deck_SetOwner ATTACK discard\<rparr>,
                           mSequence := WAIT_FOR_START_DEAL\<rparr>"
    using t D(4,5) by (auto simp: SetDiscard_def Let_def bind_eq_Some_conv split: if_splits)
  let ?d = "snd (Deck_RemoveDuplicates discard (Deck_Append (mDog (mCtx e)) ?hand))"
  have d: "mDeck ?d = filter (\<lambda>c. c \<notin> set (mDeck discard)) (mDeck ?hand @ ?dog)" by simp
  have disc: "length (mDeck discard) = NumberOfDogCards n" "distinct (mDeck discard)"
    "set (mDeck discard) \<subseteq> set (mDeck ?hand @ ?dog)"
    using test by (auto simp: TestDiscard_iff)
  have cards: "mset (hand_cards n e) + mset ?dog = mset tarot_cards" and none: "mDeck (mDiscard (mCtx e)) = []"
    using assms(1) no_tricks_cards [of e] D(6)
    by (auto simp: bidding_def whole_deck_def deal_cards_def aside_def)
  have "mset (hand_cards n e @ ?dog) = mset tarot_cards" using cards by simp
  then have dist: "distinct (hand_cards n e @ ?dog)" using distinct_tarot_cards mset_eq_imp_distinct_iff by blast
  have sub: "set (mDeck ?hand) \<subseteq> set (hand_cards n e)" using hand_in_cards [OF t(1)] D(5) t(2) by simp
  have "distinct (mDeck ?hand)" using dist hand_cards_distinct_parts [OF _ t(1)] D(5) t(2) by simp
  with dist sub have dist2: "distinct (mDeck ?hand @ ?dog)" by auto
  from distinct_filter_split [OF dist2 disc(2,3)]
  have split: "mset (mDeck ?d) + mset (mDeck discard) = mset (mDeck ?hand) + mset ?dog" unfolding d by simp
  have upd: "mset (concat (map mDeck (take n ((mPlayers e)[?t := ?d])))) + mset (mDeck ?hand)
    = mset (hand_cards n e) + mset (mDeck ?d)"
    using hand_cards_update [OF t(1)] D(5) t(2) by simp
  have "(mset (concat (map mDeck (take n ((mPlayers e)[?t := ?d])))) + mset (mDeck discard)) + mset (mDeck ?hand)
    = (mset (concat (map mDeck (take n ((mPlayers e)[?t := ?d])))) + mset (mDeck ?hand)) + mset (mDeck discard)"
    by (simp only: ac_simps)
  also have "\<dots> = mset (hand_cards n e) + (mset (mDeck ?d) + mset (mDeck discard))"
    by (simp only: upd add.assoc)
  also have "\<dots> = (mset (hand_cards n e) + mset ?dog) + mset (mDeck ?hand)"
    unfolding split by (simp only: ac_simps)
  also have "\<dots> = mset tarot_cards + mset (mDeck ?hand)" by (simp only: cards)
  finally have "(mset (concat (map mDeck (take n ((mPlayers e)[?t := ?d])))) + mset (mDeck discard)) + mset (mDeck ?hand)
    = mset tarot_cards + mset (mDeck ?hand)" .
  then have new: "mset (concat (map mDeck (take n ((mPlayers e)[?t := ?d])))) + mset (mDeck discard) = mset tarot_cards"
    by (simp only: add_right_cancel)
  have "size (mset (mDeck ?d) + mset (mDeck discard)) = size (mset (mDeck ?hand) + mset ?dog)" by (simp only: split)
  then have "length (mDeck ?d) = NumberOfCardsInHand n"
    using disc(1) assms(1) t(1) by (simp add: bidding_def hands_of_def del: RemoveDuplicates_cards)
  then have hands: "\<forall>i < n. length (mDeck ((mPlayers e)[?t := ?d] ! i)) = NumberOfCardsInHand n"
    using assms(1) D(5) t(2) by (auto simp: bidding_def hands_of_def nth_list_update)
  have nonempty: "mDeck discard \<noteq> []" using disc(1) D(3) by auto
  have tr: "trick_cards (mTricks (mCtx e)) = []" "mDeck (currentTrick e) = []"
    using assms(1) no_tricks_cards [of e] D(6) by (simp_all add: bidding_def)
  have "whole_deck n e'"
    using new nonempty tr
    by (simp add: e' whole_deck_def deal_cards_def hand_cards_def aside_def Deck_SetOwner_def del: RemoveDuplicates_cards)
  moreover have "hands_of n (NumberOfCardsInHand n) e'" using hands by (simp only: hands_of_def e') simp
  moreover have "engine_base n e'" using assms(1) by (simp add: bidding_def engine_base_def e' wf_context_def)
  moreover have "no_tricks e'" using assms(1) by (simp add: bidding_def no_tricks_def e')
  moreover have "length (mDeck (mDiscard (mCtx e'))) = NumberOfDogCards n" using disc(1) by (simp add: e' Deck_SetOwner_def)
  ultimately have "ready n e'" using D(7) assms(3) by (simp add: ready_def) (simp add: e')
  with True show ?thesis by (simp add: e')
qed

lemma StartDeal_playing:
  assumes "ready n e"
  shows "playing n (snd (StartDeal e))" "mSequence (snd (StartDeal e)) = mSequence e"
    "mPosition (snd (StartDeal e)) = 0" "mBid (mCtx (snd (StartDeal e))) = mBid (mCtx e)"
proof -
  let ?p = "if slam (mBid (mCtx e)) then taker (mBid (mCtx e)) else Place_Next n (mDealer e)"
  have n: "n \<in> {3, 4, 5}" "nbPlayers e = n" using assms by (simp_all add: ready_def engine_base_def)
  have p: "seated n ?p" using assms seated_Next [OF n(1)] by (auto simp: ready_def bid_ok_def split: if_splits)
  have e': "snd (StartDeal e) = e\<lparr>mTrickCounter := 0, mPosition := 0, mHandleAsked := replicate 5 False,
               mCurrentPlayer := ?p, mCtx := (mCtx e)\<lparr>mFirstPlayer := ?p\<rparr>\<rparr>"
    unfolding StartDeal_def Let_def n(2) by (simp only: snd_conv)
  have seats: "seat n ?p j < n" for j by (rule seat_less [OF n(1)])
  show "playing n (snd (StartDeal e))"
    unfolding e' playing_def played_def
    using assms p seats seat_0 [OF p] n
    by (auto simp: ready_def engine_base_def whole_deck_def deal_cards_def hand_cards_def
        aside_def hands_of_def no_tricks_def tricks_done_def trick_state_def trick_first_def wf_context_def Let_def)
  show "mSequence (snd (StartDeal e)) = mSequence e" "mPosition (snd (StartDeal e)) = 0"
    "mBid (mCtx (snd (StartDeal e))) = mBid (mCtx e)"
    by (simp_all add: e')
qed

lemma playing_D:
  assumes "playing n e"
  shows "n \<in> {3, 4, 5}" "nbPlayers e = n" "length (mPlayers e) = 5" "length (mHandleAsked e) = 5"
    "wf_context (mCtx e)" "whole_deck n e" "seated n (mCurrentPlayer e)" "mPosition e = length (mDeck (currentTrick e))"
    "mPosition e \<le> n" "contract (mBid (mCtx e)) \<noteq> NO_ANY"
  using assms seat_less [of n "trick_first (mTrickCounter e + 1) (mCtx e)" "mPosition e"]
  by (auto simp: playing_def played_def engine_base_def trick_state_def Let_def seated_def)

lemma SetHandle_playing:
  assumes "playing n e" "Engine_SetHandle handle p e = Some (ok, e')"
  shows "playing n e'" "mPosition e' = mPosition e" "ok \<longrightarrow> mSequence e' = WAIT_FOR_SHOW_HANDLE"
    "\<not> ok \<longrightarrow> e' = e"
proof -
  have "e' = e \<or> (\<exists>a d. e' = e\<lparr>mCtx := (mCtx e)\<lparr>mAttackHandle := a, mDefenseHandle := d\<rparr>,
      mSequence := WAIT_FOR_SHOW_HANDLE\<rparr>)"
  proof (cases ok)
    case False
    with assms(2) show ?thesis by (auto simp: Engine_SetHandle_def bind_eq_Some_conv split: if_splits)
  next
    case True
    have "\<exists>a d. Context_SetHandle handle p (mCtx e) = (mCtx e)\<lparr>mAttackHandle := a, mDefenseHandle := d\<rparr>"
    proof (cases "p = taker (mBid (mCtx e)) \<or> p = partner (mBid (mCtx e))")
      case True
      then show ?thesis
        by (intro exI [of _ handle] exI [of _ "mDefenseHandle (mCtx e)"]) (simp add: Context_SetHandle_def)
    next
      case False
      then show ?thesis
        by (intro exI [of _ "mAttackHandle (mCtx e)"] exI [of _ handle]) (simp add: Context_SetHandle_def)
    qed
    moreover have "e' = e\<lparr>mCtx := Context_SetHandle handle p (mCtx e), mSequence := WAIT_FOR_SHOW_HANDLE\<rparr>"
      using True assms(2) by (auto simp: Engine_SetHandle_def bind_eq_Some_conv split: if_splits)
    ultimately show ?thesis by metis
  qed
  moreover have "playing n (e\<lparr>mCtx := (mCtx e)\<lparr>mAttackHandle := a, mDefenseHandle := d\<rparr>,
      mSequence := WAIT_FOR_SHOW_HANDLE\<rparr>)" for a d
    using assms(1) by (rule playing_cong [THEN iffD2, rotated -1]) simp_all
  ultimately show "playing n e'" "mPosition e' = mPosition e" using assms(1) by auto
  show "ok \<longrightarrow> mSequence e' = WAIT_FOR_SHOW_HANDLE" "\<not> ok \<longrightarrow> e' = e"
    using assms(2) by (auto simp: Engine_SetHandle_def bind_eq_Some_conv split: if_splits)
qed

section \<open>Playing a card\<close>

lemma CanPlayCard_in: "Deck_CanPlayCard d c trick \<Longrightarrow> c \<in> set (mDeck d)"
  by (auto simp: Deck_CanPlayCard_def split: if_splits)

lemma remove_card:
  assumes "distinct xs" "c \<in> set xs"
  shows "add_mset c (mset (filter (\<lambda>x. x \<noteq> c) xs)) = mset xs" "length (filter (\<lambda>x. x \<noteq> c) xs) = length xs - 1"
proof -
  have eq: "filter (\<lambda>x. x \<noteq> c) xs = remove1 c xs"
    using assms(1) by (simp add: distinct_remove1_removeAll removeAll_filter_not_eq neq_commute)
  show "add_mset c (mset (filter (\<lambda>x. x \<noteq> c) xs)) = mset xs" using assms(2) by (simp add: eq)
  show "length (filter (\<lambda>x. x \<noteq> c) xs) = length xs - 1" using assms(2) by (simp add: eq length_remove1)
qed

lemma playing_hand:
  assumes "playing n e" "p < n"
  shows "distinct (mDeck (mPlayers e ! p))" "p < length (mPlayers e)"
    "\<forall>c \<in> set (mDeck (mPlayers e ! p)). Card_IsValid c"
proof -
  note D = playing_D [OF assms(1)]
  show p: "p < length (mPlayers e)" using D(1,3) assms(2) by auto
  have "distinct (hand_cards n e)" using whole_deck_distinct [OF D(6)] by (simp add: deal_cards_def)
  then show "distinct (mDeck (mPlayers e ! p))" using assms(2) p by (rule hand_cards_distinct_parts)
  have "set (mDeck (mPlayers e ! p)) \<subseteq> set (deal_cards n e)"
    using hand_in_cards [OF assms(2) p] by (auto simp: deal_cards_def)
  then show "\<forall>c \<in> set (mDeck (mPlayers e ! p)). Card_IsValid c" using whole_deck_valid [OF D(6)] by blast
qed

lemma SetCard_playing:
  assumes "playing n e" "mPosition e < n" "SetCard c (mCurrentPlayer e) e = Some (ok, e')"
  shows "if ok then playing n e' \<and> mPosition e' = mPosition e + 1 \<and> mSequence e' = WAIT_FOR_SHOW_CARD \<and>
             Deck_CanPlayCard (mPlayers e ! Place_Value (mCurrentPlayer e)) c (currentTrick e) \<and>
             mBid (mCtx e') = mBid (mCtx e)
         else e' = e"
proof (cases ok)
  case False
  with assms(3) show ?thesis by (auto simp: SetCard_def bind_eq_Some_conv split: if_splits)
next
  case True
  note D = playing_D [OF assms(1)]
  let ?p = "Place_Value (mCurrentPlayer e)" and ?first = "trick_first (mTrickCounter e + 1) (mCtx e)"
  let ?hand = "mPlayers e ! ?p" and ?h = "NumberOfCardsInHand n"
  have p: "?p < n" using D(7) by (simp add: seated_def)
  note H = playing_hand [OF assms(1) p]
  let ?e = "e\<lparr>currentTrick := Deck_AppendCard c (currentTrick e),
                mPlayers := (mPlayers e)[?p := snd (Deck_Remove c ?hand)],
                mPosition := inc8 (mPosition e), mCurrentPlayer := Place_Next n (mCurrentPlayer e),
                mSequence := WAIT_FOR_SHOW_CARD\<rparr>"
  have "SetCard c (mCurrentPlayer e) e =
      (if Deck_CanPlayCard ?hand c (currentTrick e) then Some (True, ?e) else Some (False, e))"
    using H(2) by (simp add: SetCard_def D(2))
  with True assms(3) have can: "Deck_CanPlayCard ?hand c (currentTrick e)" and e': "e' = ?e"
    by (simp_all split: if_splits)
  let ?d = "snd (Deck_Remove c ?hand)"
  have d: "mDeck ?d = filter (\<lambda>x. x \<noteq> c) (mDeck ?hand)" by (simp add: Deck_Remove_def)
  note rem = remove_card [OF H(1) CanPlayCard_in [OF can], folded d]
  have pos: "inc8 (mPosition e) = mPosition e + 1" using assms(2) D(1) by (auto simp: inc8_def)
  have "add_mset c (mset (concat (map mDeck (take n ((mPlayers e)[?p := ?d]))))) + mset (mDeck ?d)
     = mset (concat (map mDeck (take n ((mPlayers e)[?p := ?d])))) + mset (mDeck ?hand)"
    unfolding rem(1) [symmetric] by simp
  also have "\<dots> = mset (hand_cards n e) + mset (mDeck ?d)" by (rule hand_cards_update [OF p H(2)])
  finally have hands: "add_mset c (mset (concat (map mDeck (take n ((mPlayers e)[?p := ?d]))))) = mset (hand_cards n e)"
    by (simp only: add_right_cancel)
  have "mset (deal_cards n e') = mset (deal_cards n e)"
    using hands [symmetric] by (simp add: deal_cards_def hand_cards_def aside_def e' Deck_AppendCard_def)
  then have "whole_deck n e'" using D(6) by (simp add: whole_deck_def)
  moreover have "engine_base n e'" using assms(1) by (simp add: playing_def played_def engine_base_def e')
  moreover have "tricks_done n e' = tricks_done n e" by (rule tricks_done_cong) (simp_all add: e')
  moreover have "trick_state n e'"
  proof -
    have S: "seated n ?first" "?p = seat n ?first (mPosition e)"
      "\<forall>j < n. length (mDeck (mPlayers e ! seat n ?first j)) = ?h - mTrickCounter e - (if j < mPosition e then 1 else 0)"
      using assms(1) by (simp_all add: playing_def trick_state_def Let_def)
    have first: "trick_first (mTrickCounter e' + 1) (mCtx e') = ?first" by (simp add: e')
    have "length (mDeck (mPlayers e' ! seat n ?first j)) = ?h - mTrickCounter e - (if j < mPosition e + 1 then 1 else 0)"
      if j: "j < n" for j
    proof (cases "j = mPosition e")
      case True
      with S j have "length (mDeck ?hand) = ?h - mTrickCounter e" by auto
      then show ?thesis using True S(2) H(2) rem(2) by (simp add: e')
    next
      case False
      then have "seat n ?first j \<noteq> ?p" using S(2) seat_inj [OF D(1) j assms(2)] by simp
      then show ?thesis using S(3) j False by (auto simp: e')
    qed
    moreover have "Place_Value (Place_Next n (mCurrentPlayer e)) = seat n ?first (mPosition e + 1)"
      by (rule seat_Next [OF D(1) S(2)])
    ultimately show ?thesis
      using S(1) D(8) assms(2) pos [unfolded D(8)] unfolding trick_state_def first Let_def
      by (simp add: e' Deck_AppendCard_def)
  qed
  moreover have "mDiscard (mCtx e') = mDiscard (mCtx e)" "mBid (mCtx e') = mBid (mCtx e)" "mTrickCounter e' = mTrickCounter e"
    by (simp_all add: e')
  ultimately have "playing n e'" using assms(1) by (simp only: playing_def played_def simp_thms)
  with True can pos show ?thesis by (simp add: e')
qed

section \<open>The end of a trick\<close>

lemma three_cards_not_all_fool:
  assumes "distinct cs" "3 \<le> length cs"
  shows "list_ex (\<lambda>c. \<not> Card_IsFool c) cs"
proof (rule ccontr)
  assume "\<not> list_ex (\<lambda>c. \<not> Card_IsFool c) cs"
  then have all: "\<forall>c \<in> set cs. mSuit c = TRUMPS \<and> mValue c = 0" by (auto simp: list_ex_iff Card_IsFool_def)
  have "0 < length cs" "1 < length cs" using assms(2) by linarith+
  then have "cs ! 0 \<in> set cs" "cs ! 1 \<in> set cs" by simp_all
  with all have "cs ! 0 = cs ! 1" by (auto intro: card.equality)
  moreover have "cs ! 0 \<noteq> cs ! 1" using nth_eq_iff_index_eq [OF assms(1), of 0 1] \<open>0 < length cs\<close> \<open>1 < length cs\<close> by simp
  ultimately show False by simp
qed

lemma seated_funpow: "n \<in> {3, 4, 5} \<Longrightarrow> seated n p \<Longrightarrow> seated n ((Place_Next n ^^ k) p)"
  by (induction k) (auto simp: seated_Next)

lemma trick_winner_seated:
  assumes "wf_context x" "i < 24" "n \<in> {3, 4, 5}" "length (mDeck trick) = n" "distinct (mDeck trick)"
    and "\<forall>c \<in> set (mDeck trick). Card_IsValid c" "seated n p" "seated n (taker (mBid x))"
    and "trick_winner trick k i p (x\<lparr>mTricks := (mTricks x)[i := trick]\<rparr>) = Some (w, s)"
  shows "seated n w"
proof -
  have "list_all Card_IsValid (mDeck trick)" "length (mDeck trick) \<in> {3, 4, 5}"
    using assms(3,4,6) by (simp_all add: list_all_iff)
  moreover have "list_ex (\<lambda>c. \<not> Card_IsFool c) (mDeck trick)"
    using three_cards_not_all_fool [OF assms(5)] assms(3,4) by auto
  ultimately obtain q f where
    "Some (w, s) = Some (if Deck_HasFool trick then fool_rule k n q f (x\<lparr>mTricks := (mTricks x)[i := trick]\<rparr>) else (q, False))"
    "seated n q"
    using trick_winner_regular [OF _ _ _ assms(1,2), of trick k p] assms(4,9) seated_funpow [OF assms(3,7)]
    by metis
  then show ?thesis
    using assms(8) by (auto simp: fool_rule_def Let_def split: if_splits)
qed

lemma end_of_trick:
  assumes "playing n e" "mPosition e = n"
  obtains w x where "SetTrick (currentTrick e) (mTrickCounter e + 1) (mCtx e) = Some (w, x)"
    "\<And>s. played n (e\<lparr>mPosition := 0, mTrickCounter := mTrickCounter e + 1, mCtx := x, mCurrentPlayer := w,
               currentTrick := Deck_Clear (currentTrick e), mSequence := s\<rparr>)"
    "seated n w" "mWinner x ! mTrickCounter e = w" "mBid x = mBid (mCtx e)"
proof -
  note D = playing_D [OF assms(1)]
  let ?tc = "mTrickCounter e" and ?x = "mCtx e" and ?t = "currentTrick e"
  have tc: "?tc < NumberOfCardsInHand n" using assms(1) by (simp add: playing_def)
  then have k: "?tc < 24" "?tc + 1 \<le> 24" "1 \<le> ?tc + 1" using D(1) by auto
  have td: "tricks_done n e" and stuff: "length (mDeck (mDiscard ?x)) = NumberOfDogCards n" "bid_ok n (mBid ?x)"
    using assms(1) by (simp_all add: playing_def played_def)
  have valid: "\<forall>c \<in> set (mDeck ?t). Card_IsValid c"
    using whole_deck_valid [OF D(6)] by (simp add: deal_cards_def)
  have dist: "distinct (mDeck ?t)" using whole_deck_distinct [OF D(6)] by (simp add: deal_cards_def)
  have len: "length (mDeck ?t) = n" using D(8) assms(2) by simp
  have first: "seated n (trick_first (?tc + 1) ?x)" using assms(1) by (simp add: playing_def trick_state_def Let_def)
  have tk: "seated n (taker (mBid ?x))" using stuff(2) D(10) by (simp add: bid_ok_def)
  let ?x1 = "?x\<lparr>mTricks := (mTricks ?x)[?tc := ?t]\<rparr>"
  obtain w s where tw: "trick_winner ?t (?tc + 1) ?tc (trick_first (?tc + 1) ?x) ?x1 = Some (w, s)"
    and fool: "s \<longrightarrow> (\<exists>c \<in> set (mDeck ?t). Card_IsFool c)"
    using trick_winner_total [OF D(5) k(1)] by blast
  let ?y = "credit_trick ?t ?tc w s ?x1"
  have step: "SetTrick ?t (?tc + 1) ?x = Some (w, ?y)"
    using SetTrick_unfold [OF D(5) k(3,2), of ?t] tw by (simp add: Let_def)
  have w: "seated n w" by (rule trick_winner_seated [OF D(5) k(1) D(1) len dist valid first tk tw])
  have wf: "wf_context ?y" using D(5) by (intro credit_trick_wf) (simp add: wf_context_def)
  have lens: "length (mTricks ?x) = 24" "length (mWinner ?x) = 24" using D(5) by (simp_all add: wf_context_def)
  have tricks: "mTricks ?y = (mTricks ?x)[?tc := Deck_SetOwner (team_of (mBid ?x) w) ?t]" by (simp add: frame)
  have empty: "mDeck (mTricks ?x ! ?tc) = []" using td k(1) unfolding tricks_done_def by (metis less_irrefl length_0_conv)
  have cards: "mset (trick_cards (mTricks ?y)) = mset (trick_cards (mTricks ?x)) + mset (mDeck ?t)"
    unfolding tricks using trick_cards_update [of ?tc "mTricks ?x" "Deck_SetOwner (team_of (mBid ?x) w) ?t"] lens k(1) empty
    by (simp add: Deck_SetOwner_def)
  have same: "mDiscard ?y = mDiscard ?x" "mDog ?y = mDog ?x" "mNbPlayers ?y = mNbPlayers ?x" "mBid ?y = mBid ?x"
    by (simp_all add: frame)
  show ?thesis
  proof (rule that [OF step _ w])
    show "mWinner ?y ! ?tc = w" "mBid ?y = mBid ?x" using lens k(1) by (simp_all add: frame)
    fix s'
    let ?e = "e\<lparr>mPosition := 0, mTrickCounter := ?tc + 1, mCtx := ?y, mCurrentPlayer := w,
               currentTrick := Deck_Clear ?t, mSequence := s'\<rparr>"
    have "mset (deal_cards n ?e) = mset (deal_cards n e)"
      by (simp add: deal_cards_def hand_cards_def aside_def same cards Deck_Clear_def ac_simps)
    then have deck: "whole_deck n ?e" using D(6) by (simp add: whole_deck_def)
    have base: "engine_base n ?e" using D wf same by (simp add: engine_base_def)
    have p: "pts (trick_cards (mTricks ?y)) = pts (trick_cards (mTricks ?x)) + pts (mDeck ?t)"
      using pts_mset [of "trick_cards (mTricks ?y)" "trick_cards (mTricks ?x) @ mDeck ?t"] cards by simp
    have o: "oudler_count (trick_cards (mTricks ?y)) = oudler_count (trick_cards (mTricks ?x)) + oudler_count (mDeck ?t)"
      using oudler_count_mset [of "trick_cards (mTricks ?y)" "trick_cards (mTricks ?x) @ mDeck ?t"] cards by simp
    have "mset (trick_cards (mTricks ?x) @ mDeck ?t) \<subseteq># mset (deal_cards n e)"
      by (simp add: deal_cards_def ac_simps)
    then have "oudler_count (trick_cards (mTricks ?x) @ mDeck ?t) \<le> oudler_count (deal_cards n e)"
      by (rule oudler_count_subset)
    also have "\<dots> = oudler_count tarot_cards" using D(6) unfolding whole_deck_def by (rule oudler_count_mset)
    also have "\<dots> = 3" using full_deck_oudlers by (simp only: oudler_count_def)
    finally have le3: "oudler_count (trick_cards (mTricks ?x)) + oudler_count (mDeck ?t) \<le> 3" by simp
    have o3: "oudlers (mStatsAttack ?x1) + oudler_count (mDeck ?t) < 256"
      using td le3 by (simp add: tricks_done_def)
    have old: "\<And>i. i < 24 \<Longrightarrow> length (mDeck (mTricks ?x ! i)) = (if i < ?tc then n else 0)"
      "\<And>i. i < ?tc \<Longrightarrow> seated n (mWinner ?x ! i)" "0 \<le> points (mStatsAttack ?x)"
      "points (mStatsAttack ?x) \<le> pts (trick_cards (mTricks ?x))"
      "oudlers (mStatsAttack ?x) \<le> oudler_count (trick_cards (mTricks ?x))"
      using td by (simp_all only: tricks_done_def)
    have "length (mDeck (mTricks ?y ! i)) = (if i < ?tc + 1 then n else 0)" if "i < 24" for i
      using old(1) [OF that] len lens(1) k(1) by (cases "i = ?tc") (simp_all add: tricks Deck_SetOwner_def)
    moreover have "seated n (mWinner ?y ! i)" if "i < ?tc + 1" for i
      using old(2) w lens(2) k(1) that by (cases "i = ?tc") (simp_all add: frame)
    moreover have "0 \<le> points (mStatsAttack ?y)" "points (mStatsAttack ?y) \<le> pts (trick_cards (mTricks ?y))"
      using credit_trick_points_bounds [OF fool, where x = ?x1 and i = ?tc and w = w] old(3,4) p by simp_all
    moreover have "oudlers (mStatsAttack ?y) \<le> oudler_count (trick_cards (mTricks ?y))"
      using credit_trick_oudlers_bounds [OF fool o3, where i = ?tc and w = w] old(5) o by simp
    ultimately have "tricks_done n ?e" by (simp add: tricks_done_def)
    then show "played n ?e" using deck base stuff D(10) by (simp add: played_def same)
  qed
qed

lemma next_trick_state:
  assumes "playing n e" "mPosition e = n" "seated n w" "mWinner x ! mTrickCounter e = w"
  shows "trick_state n (e\<lparr>mPosition := 0, mTrickCounter := mTrickCounter e + 1, mCtx := x, mCurrentPlayer := w,
               currentTrick := Deck_Clear (currentTrick e), mSequence := s\<rparr>)"
proof -
  note D = playing_D [OF assms(1)]
  let ?first = "trick_first (mTrickCounter e + 1) (mCtx e)" and ?h = "NumberOfCardsInHand n"
  have first: "seated n ?first" and len: "\<forall>j < n. length (mDeck (mPlayers e ! seat n ?first j)) = ?h - (mTrickCounter e + 1)"
    using assms(1) unfolding playing_def trick_state_def Let_def assms(2) by auto
  have "length (mDeck (mPlayers e ! i)) = ?h - (mTrickCounter e + 1)" if "i < n" for i
    using seat_onto [OF D(1) first that] len by blast
  then have "length (mDeck (mPlayers e ! seat n w j)) = ?h - (mTrickCounter e + 1)" for j
    using seat_less [OF D(1)] by blast
  moreover have "trick_first (mTrickCounter e + 1 + 1) x = w" using assms(4) by (simp add: trick_first_def)
  ultimately show ?thesis
    using assms(3) seat_0 [OF assms(3)] by (simp add: trick_state_def Let_def Deck_Clear_def)
qed

lemma GameSequence_end:
  assumes "playing n e" "mPosition e = n"
  obtains e' where "Engine_GameSequence e = Some e'" "mSequence e' = WAIT_FOR_END_OF_TRICK" "mPosition e' = 0"
    "if mTrickCounter e + 1 = NumberOfCardsInHand n then finished n e' else playing n e'"
    "mBid (mCtx e') = mBid (mCtx e)" "mTrickCounter e' = mTrickCounter e + 1"
proof -
  note D = playing_D [OF assms(1)]
  let ?tc = "mTrickCounter e"
  have tc: "?tc < NumberOfCardsInHand n" using assms(1) by (simp add: playing_def)
  then have inc: "inc8 ?tc = ?tc + 1" using D(1) by (auto simp: inc8_def)
  from end_of_trick [OF assms] obtain w x where
    step: "SetTrick (currentTrick e) (?tc + 1) (mCtx e) = Some (w, x)" and
    played: "\<And>s. played n (e\<lparr>mPosition := 0, mTrickCounter := ?tc + 1, mCtx := x, mCurrentPlayer := w,
               currentTrick := Deck_Clear (currentTrick e), mSequence := s\<rparr>)" and
    w: "seated n w" "mWinner x ! ?tc = w" "mBid x = mBid (mCtx e)" by blast
  let ?e = "e\<lparr>mPosition := 0, mTrickCounter := ?tc + 1, mCtx := x, mCurrentPlayer := w,
               currentTrick := Deck_Clear (currentTrick e), mSequence := WAIT_FOR_END_OF_TRICK\<rparr>"
  have "IsEndOfTrick e = (True, e\<lparr>mPosition := 0, mTrickCounter := ?tc + 1\<rparr>)"
    using assms(2) D(2) by (simp add: IsEndOfTrick_def inc)
  then have "Engine_GameSequence e = Some ?e"
    using step by (simp add: Engine_GameSequence_def)
  moreover have "if ?tc + 1 = NumberOfCardsInHand n then finished n ?e else playing n ?e"
  proof (cases "?tc + 1 = NumberOfCardsInHand n")
    case True
    with played [of WAIT_FOR_END_OF_TRICK] show ?thesis by (simp add: finished_def Deck_Clear_def)
  next
    case False
    then have "?tc + 1 < NumberOfCardsInHand n" using tc by simp
    with False played [of WAIT_FOR_END_OF_TRICK] next_trick_state [OF assms w(1,2), of WAIT_FOR_END_OF_TRICK]
    show ?thesis by (simp add: playing_def)
  qed
  ultimately show ?thesis using w(3) by (intro that [of ?e]) simp_all
qed

lemma GameSequence_turn:
  assumes "playing n e" "mPosition e < n"
  obtains e' where "Engine_GameSequence e = Some e'" "playing n e'" "mPosition e' = mPosition e"
    "mSequence e' = WAIT_FOR_HANDLE \<or> mSequence e' = WAIT_FOR_PLAYED_CARD" "mCtx e' = mCtx e"
    "mTrickCounter e' = mTrickCounter e" "mPlayers e' = mPlayers e" "mCurrentPlayer e' = mCurrentPlayer e"
proof -
  note D = playing_D [OF assms(1)]
  let ?c = "Place_Value (mCurrentPlayer e)"
  have c: "?c < length (mHandleAsked e)" using D(1,4,7) by (auto simp: seated_def)
  let ?e = "\<lambda>a s. e\<lparr>mHandleAsked := a, mSequence := s\<rparr>"
  have "IsEndOfTrick e = (False, e)" using assms(2) D(2) by (simp add: IsEndOfTrick_def)
  then have "\<exists>a s. Engine_GameSequence e = Some (?e a s) \<and> length a = 5 \<and> (s = WAIT_FOR_HANDLE \<or> s = WAIT_FOR_PLAYED_CARD)"
    using c D(4) by (simp add: Engine_GameSequence_def) (metis engine.surjective engine.update_convs(9) length_list_update)
  then obtain a s where r: "Engine_GameSequence e = Some (?e a s)" "length a = 5" "s = WAIT_FOR_HANDLE \<or> s = WAIT_FOR_PLAYED_CARD"
    by blast
  have "playing n (?e a s)"
  proof -
    have "whole_deck n (?e a s) = whole_deck n e" by (rule whole_deck_cong) simp_all
    moreover have "tricks_done n (?e a s) = tricks_done n e" by (rule tricks_done_cong) simp_all
    moreover have "trick_state n (?e a s) = trick_state n e" by (rule trick_state_cong) simp_all
    moreover have "engine_base n (?e a s)" using D r(2) by (simp add: engine_base_def)
    ultimately show ?thesis using assms(1) by (simp add: playing_def played_def)
  qed
  with r show ?thesis by (intro that [of "?e a s"]) simp_all
qed

section \<open>The end of a deal\<close>

lemma EndOfDeal_points:
  assumes "finished n e"
  shows "sane_points (mCurrentPoints (EndOfDeal e))" "engine_base n (EndOfDeal e)"
    "mBid (mCtx (EndOfDeal e)) = mBid (mCtx e)" "mSequence (EndOfDeal e) = WAIT_FOR_END_OF_DEAL"
    "whole_deck n (EndOfDeal e)"
proof -
  let ?x = "mCtx e" and ?p = "Points_Clear (mCurrentPoints e)"
  have P: "engine_base n e" "whole_deck n e" "tricks_done n e" "length (mDeck (mDiscard ?x)) = NumberOfDogCards n"
    using assms by (simp_all add: finished_def played_def)
  have aside: "aside ?x = mDeck (mDiscard ?x)" using P(1,4) by (auto simp: aside_def engine_base_def)
  have "mset (trick_cards (mTricks ?x) @ mDeck (mDiscard ?x)) \<subseteq># mset (deal_cards n e)"
    by (simp add: deal_cards_def aside ac_simps)
  note pts_subset [OF this] oudler_count_subset [OF this]
  moreover have "pts (deal_cards n e) = 91" "oudler_count (deal_cards n e) = 3"
    using pts_mset [of "deal_cards n e" tarot_cards] oudler_count_mset [of "deal_cards n e" tarot_cards]
      P(2) full_deck_points full_deck_oudlers
    by (simp_all only: whole_deck_def pts_def oudler_count_def)
  ultimately have sums: "pts (trick_cards (mTricks ?x)) + pts (mDeck (mDiscard ?x)) \<le> 91"
    "oudler_count (trick_cards (mTricks ?x)) + oudler_count (mDeck (mDiscard ?x)) \<le> 3" by simp_all
  have wf: "wf_context ?x" using P(1) by (simp add: engine_base_def)
  have "0 \<le> points (mStatsAttack ?x)" "points (mStatsAttack ?x) + pts (mDeck (mDiscard ?x)) \<le> 91"
    "oudlers (mStatsAttack ?x) + oudler_count (mDeck (mDiscard ?x)) \<le> 3"
    using sums P(3) by (simp_all add: tricks_done_def)
  note range = AnalyzeGame_range [OF wf this refl, of ?p]
  have end_eq: "EndOfDeal e = e\<lparr>mCurrentPoints := fst (AnalyzeGame ?p ?x), mCtx := snd (AnalyzeGame ?p ?x),
      mSequence := WAIT_FOR_END_OF_DEAL\<rparr>"
    by (simp add: EndOfDeal_def split_beta)
  show "sane_points (mCurrentPoints (EndOfDeal e))"
    using range by (simp add: end_eq sane_points_def Points_Clear_def)
  obtain st where st: "snd (AnalyzeGame ?p ?x) = ?x\<lparr>mStatsAttack := st\<rparr>" "oudlers st < 256"
  proof -
    have "oudlers (Deck_AnalyzeTrumps (mDiscard ?x) (mStatsAttack ?x)) < 256" "oudlers (mStatsAttack ?x) < 256"
      using wf by (simp_all add: wf_context_def AnalyzeTrumps_oudlers)
    then show ?thesis using that by (simp add: AnalyzeGame_def Let_def)
  qed
  show "engine_base n (EndOfDeal e)" "mBid (mCtx (EndOfDeal e)) = mBid (mCtx e)"
    "mSequence (EndOfDeal e) = WAIT_FOR_END_OF_DEAL"
    using P(1) st by (simp_all add: end_eq engine_base_def wf_context_def)
  have "whole_deck n (EndOfDeal e) = whole_deck n e"
    by (rule whole_deck_cong) (simp_all add: end_eq st)
  with P(2) show "whole_deck n (EndOfDeal e)" by simp
qed

end
