(* ===== verification/Table_Facts.thy ===== *)
theory Table_Facts
  imports Playing_Table Engine_Facts
begin

text \<open>
  The invariant of a table through every message: the engine is in the phase its sequence says, no
  card is lost, and the score table balances; and the acknowledgment protocol, by which a phase ends
  only when every seat has acknowledged that very phase.
\<close>

section \<open>The invariant\<close>

definition deal_over :: "nat \<Rightarrow> engine \<Rightarrow> bool" where
  "deal_over n e \<longleftrightarrow> whole_deck n e \<and> sane_points (mCurrentPoints e) \<and> valid_deal (mBid (mCtx e)) n"

fun phase_of :: "seq \<Rightarrow> nat \<Rightarrow> engine \<Rightarrow> bool" where
  "phase_of WAIT_FOR_CARDS n e = bidding n e"
| "phase_of WAIT_FOR_BID n e = bidding n e"
| "phase_of WAIT_FOR_SHOW_BID n e = bidding n e"
| "phase_of WAIT_FOR_ALL_PASSED n e = bidding n e"
| "phase_of WAIT_FOR_KING_CALL n e = (bidding n e \<and> n = 5)"
| "phase_of WAIT_FOR_SHOW_KING_CALL n e = (bidding n e \<and> n = 5)"
| "phase_of WAIT_FOR_SHOW_DOG n e = bidding n e"
| "phase_of WAIT_FOR_DISCARD n e = bidding n e"
| "phase_of WAIT_FOR_START_DEAL n e = (playing n e \<and> mPosition e < n)"
| "phase_of WAIT_FOR_HANDLE n e = (playing n e \<and> mPosition e < n)"
| "phase_of WAIT_FOR_SHOW_HANDLE n e = (playing n e \<and> mPosition e < n)"
| "phase_of WAIT_FOR_PLAYED_CARD n e = (playing n e \<and> mPosition e < n)"
| "phase_of WAIT_FOR_SHOW_CARD n e = playing n e"
| "phase_of WAIT_FOR_END_OF_TRICK n e = (playing n e \<and> mPosition e < n)"
| "phase_of WAIT_FOR_END_OF_DEAL n e = deal_over n e"
| "phase_of _ n e = True"

definition engine_ok :: "nat \<Rightarrow> engine \<Rightarrow> bool" where
  "engine_ok n e \<longleftrightarrow> engine_base n e \<and> phase_of (mSequence e) n e"

definition table_ok :: "nat \<Rightarrow> playing_table \<Rightarrow> bool" where
  "table_ok n t \<longleftrightarrow> engine_ok n (mEngine t) \<and> length (tPlayers t) = 5 \<and> balanced (mScore t)"

text \<open>A deal is under way.\<close>

definition dealt_out :: "seq \<Rightarrow> bool" where
  "dealt_out s \<longleftrightarrow> s \<notin> {BAD_STEP, STOPPED, WAIT_FOR_PLAYERS, WAIT_FOR_READY}"

lemma bidding_base: "bidding n e \<Longrightarrow> engine_base n e" by (simp add: bidding_def)
lemma playing_base: "playing n e \<Longrightarrow> engine_base n e" by (simp add: playing_def played_def)
lemma bidding_deck: "bidding n e \<Longrightarrow> whole_deck n e" by (simp add: bidding_def)
lemma playing_deck: "playing n e \<Longrightarrow> whole_deck n e" by (simp add: playing_def played_def)

lemma engine_ok_deck: "engine_ok n e \<Longrightarrow> dealt_out (mSequence e) \<Longrightarrow> whole_deck n e"
  by (cases "mSequence e") (auto simp: engine_ok_def dealt_out_def deal_over_def bidding_deck playing_deck)

lemma engine_ok_bidding:
  "bidding n e \<Longrightarrow> mSequence e \<in> {WAIT_FOR_CARDS, WAIT_FOR_BID, WAIT_FOR_SHOW_BID, WAIT_FOR_ALL_PASSED,
      WAIT_FOR_SHOW_DOG, WAIT_FOR_DISCARD} \<Longrightarrow> engine_ok n e"
  by (auto simp: engine_ok_def bidding_base)

lemma engine_ok_playing:
  "playing n e \<Longrightarrow> mPosition e < n \<Longrightarrow> mSequence e \<in> {WAIT_FOR_START_DEAL, WAIT_FOR_HANDLE, WAIT_FOR_SHOW_HANDLE,
      WAIT_FOR_PLAYED_CARD, WAIT_FOR_END_OF_TRICK} \<Longrightarrow> engine_ok n e"
  by (auto simp: engine_ok_def playing_base)

lemma engine_ok_D:
  "engine_ok n e \<Longrightarrow> mSequence e \<in> {WAIT_FOR_CARDS, WAIT_FOR_BID, WAIT_FOR_SHOW_BID, WAIT_FOR_ALL_PASSED,
      WAIT_FOR_KING_CALL, WAIT_FOR_SHOW_KING_CALL, WAIT_FOR_SHOW_DOG, WAIT_FOR_DISCARD} \<Longrightarrow> bidding n e"
  "engine_ok n e \<Longrightarrow> mSequence e \<in> {WAIT_FOR_START_DEAL, WAIT_FOR_HANDLE, WAIT_FOR_SHOW_HANDLE,
      WAIT_FOR_PLAYED_CARD, WAIT_FOR_END_OF_TRICK} \<Longrightarrow> playing n e \<and> mPosition e < n"
  "engine_ok n e \<Longrightarrow> mSequence e = WAIT_FOR_SHOW_CARD \<Longrightarrow> playing n e"
  "engine_ok n e \<Longrightarrow> mSequence e \<in> {WAIT_FOR_KING_CALL, WAIT_FOR_SHOW_KING_CALL} \<Longrightarrow> n = 5"
  by (auto simp: engine_ok_def)

lemma valid_deal_bid_ok:
  assumes "bid_ok n b" "contract b \<noteq> NO_ANY" "n \<in> {3, 4, 5}"
  shows "valid_deal b n"
  using assms by (auto simp: valid_deal_def bid_ok_def seated_def Bid_HasPartner_def Place_IsValid_def)

section \<open>Seats\<close>

lemma GetPlayerPlace_seated:
  assumes "n \<le> 5" "tbPlayers t = n" "GetPlayerPlace uuid t \<noteq> NOWHERE"
  shows "seated n (GetPlayerPlace uuid t) \<and> chUuid (tPlayers t ! Place_Value (GetPlayerPlace uuid t)) = uuid"
proof -
  have "fold (\<lambda>i p. if chUuid (tPlayers t ! i) = uuid then Place_of i else p) [0..<m] NOWHERE = NOWHERE \<or>
    (\<exists>i < m. fold (\<lambda>i p. if chUuid (tPlayers t ! i) = uuid then Place_of i else p) [0..<m] NOWHERE = Place_of i \<and>
       chUuid (tPlayers t ! i) = uuid)" for m
  proof (induction m)
    case 0
    then show ?case by simp
  next
    case (Suc m)
    show ?case
    proof (cases "chUuid (tPlayers t ! m) = uuid")
      case True
      then show ?thesis by (intro disjI2 exI [of _ m]) simp
    next
      case False
      with Suc show ?thesis by (simp add: less_Suc_eq) blast
    qed
  qed
  from this [of n] assms show ?thesis by (auto simp: GetPlayerPlace_def seated_def)
qed

lemma seats_length [simp]:
  "length (tPlayers (ResetAck t)) = length (tPlayers t)"
  "length (tPlayers (snd (AckFromAllPlayers t))) = length (tPlayers t)"
  "length (tPlayers (snd (Sync sq uuid t))) = length (tPlayers t)"
  by (simp_all add: ResetAck_def AckFromAllPlayers_def Sync_def Let_def)

lemma seats_frame [simp, frame]:
  "mEngine (ResetAck t) = mEngine t" "mScore (ResetAck t) = mScore t" "mGame (ResetAck t) = mGame t"
  "mEngine (snd (AckFromAllPlayers t)) = mEngine t" "mScore (snd (AckFromAllPlayers t)) = mScore t"
  "mGame (snd (AckFromAllPlayers t)) = mGame t"
  "mEngine (snd (Sync sq uuid t)) = mEngine t" "mScore (snd (Sync sq uuid t)) = mScore t"
  "mGame (snd (Sync sq uuid t)) = mGame t"
  by (simp_all add: ResetAck_def AckFromAllPlayers_def Sync_def Let_def)

lemma table_ok_Sync [keeps]: "table_ok n t \<Longrightarrow> table_ok n (snd (Sync sq uuid t))"
  by (simp add: table_ok_def)

section \<open>Every operation keeps the invariant\<close>

lemma engine_ok_idle:
  "engine_base n e \<Longrightarrow> s \<in> {STOPPED, WAIT_FOR_PLAYERS, WAIT_FOR_READY} \<Longrightarrow> engine_ok n (e\<lparr>mSequence := s\<rparr>)"
  by (auto simp: engine_ok_def)

lemma Table_NewGame_ok [keeps]: "table_ok n t \<Longrightarrow> table_ok n (snd (Table_NewGame t))"
  by (simp add: table_ok_def Table_NewGame_def Let_def Engine_NewGame_def engine_ok_idle balanced_NewGame)
    (simp add: engine_ok_def)

lemma Table_NewDeal_ok [keeps]:
  assumes "engine_base n (mEngine t)" "length (tPlayers t) = 5" "balanced (mScore t)" "sound_environment n env"
    and "Table_NewDeal env t = Some (out, t')"
  shows "table_ok n t'"
proof -
  let ?t1 = "if length (deals (mGame t)) \<le> dealCounter (mScore t)
                then t\<lparr>mScore := Score_NewGame (length (deals (mGame t)) mod 256)\<rparr> else t"
  from assms(5) obtain d d' e where e: "Engine_NewDeal env d (mEngine ?t1) = Some (d', e)" "t' = ?t1\<lparr>mEngine := e\<rparr>"
    unfolding Table_NewDeal_def Let_def by (auto simp: bind_eq_Some_conv simp del: if_split split del: if_split)
  have t1: "mEngine ?t1 = mEngine t" "tPlayers ?t1 = tPlayers t" "balanced (mScore ?t1)"
    using assms(3) by (simp_all add: balanced_NewGame)
  have "bidding n e" "mSequence e = WAIT_FOR_CARDS"
    using NewDeal_bidding [OF assms(1,4)] e(1) t1 by auto
  then have "engine_ok n e" by (intro engine_ok_bidding) simp_all
  with assms(2) t1 show ?thesis unfolding table_ok_def e(2) by auto
qed

lemma Table_StartDeal_ok [keeps]:
  assumes "ready n (mEngine t)" "mSequence (mEngine t) = WAIT_FOR_START_DEAL" "length (tPlayers t) = 5" "balanced (mScore t)"
    and "Table_StartDeal t = Some (out, t')"
  shows "table_ok n t'"
proof -
  from assms(5) have t': "t' = t\<lparr>mEngine := snd (StartDeal (mEngine t))\<rparr>"
    by (auto simp: Table_StartDeal_def split_beta Let_def)
  have "n \<in> {3, 4, 5}" using assms(1) by (simp add: ready_def engine_base_def)
  then have "engine_ok n (snd (StartDeal (mEngine t)))"
    using StartDeal_playing [OF assms(1)] assms(2) by (intro engine_ok_playing) auto
  with assms t' show ?thesis by (simp add: table_ok_def)
qed

lemma SendNextBid_ok [keeps]:
  assumes "bidding n (mEngine t) \<and> (mSequence (mEngine t) \<in> {WAIT_FOR_BID, WAIT_FOR_ALL_PASSED, WAIT_FOR_SHOW_DOG} \<or>
        mSequence (mEngine t) = WAIT_FOR_KING_CALL \<and> n = 5) \<or>
      ready n (mEngine t) \<and> mSequence (mEngine t) = WAIT_FOR_START_DEAL"
    and "length (tPlayers t) = 5" "balanced (mScore t)" "SendNextBidSequence t = Some (out, t')"
  shows "table_ok n t'"
  using assms(1)
proof
  assume b: "bidding n (mEngine t) \<and> (mSequence (mEngine t) \<in> {WAIT_FOR_BID, WAIT_FOR_ALL_PASSED, WAIT_FOR_SHOW_DOG} \<or>
        mSequence (mEngine t) = WAIT_FOR_KING_CALL \<and> n = 5)"
  then have "t' = t" using assms(4) by (auto simp: SendNextBidSequence_def)
  moreover have "engine_ok n (mEngine t)" using b bidding_base by (auto simp: engine_ok_def)
  ultimately show ?thesis using assms(2,3) by (simp add: table_ok_def)
next
  assume r: "ready n (mEngine t) \<and> mSequence (mEngine t) = WAIT_FOR_START_DEAL"
  then have "Table_StartDeal t = Some (out, t')" using assms(4) by (simp add: SendNextBidSequence_def)
  with r assms(2,3) show ?thesis by (intro Table_StartDeal_ok) auto
qed

lemma IsLastTrick_iff: "nbPlayers e = n \<Longrightarrow> IsLastTrick e \<longleftrightarrow> NumberOfCardsInHand n \<le> mTrickCounter e"
  by (simp add: IsLastTrick_def IsDealFinished_def)

lemma Table_GameSequence_ok [keeps]:
  assumes "playing n (mEngine t)" "length (tPlayers t) = 5" "balanced (mScore t)"
    and "Table_GameSequence t = Some (out, t')"
  shows "table_ok n t'"
proof -
  let ?e = "mEngine t"
  note D = playing_D [OF assms(1)]
  have "mPosition ?e = n \<or> mPosition ?e < n" using D(9) by linarith
  then have "engine_ok n (mEngine t') \<and> tPlayers t' = tPlayers t \<and> mScore t' = mScore t"
  proof
    assume "mPosition ?e = n"
    from GameSequence_end [OF assms(1) this] obtain e where e: "Engine_GameSequence ?e = Some e"
      "mSequence e = WAIT_FOR_END_OF_TRICK" "mPosition e = 0" "mTrickCounter e = mTrickCounter ?e + 1"
      "if mTrickCounter ?e + 1 = NumberOfCardsInHand n then finished n e else playing n e"
      "mBid (mCtx e) = mBid (mCtx ?e)" by blast
    show ?thesis
    proof (cases "mTrickCounter ?e + 1 = NumberOfCardsInHand n")
      case True
      then have fin: "finished n e" using e(5) by simp
      then have nb: "nbPlayers e = n" "bid_ok n (mBid (mCtx e))" "contract (mBid (mCtx e)) \<noteq> NO_ANY"
        by (simp_all add: finished_def played_def engine_base_def)
      have "IsLastTrick e" using True e(4) IsLastTrick_iff [OF nb(1)] by simp
      then have t': "t' = t\<lparr>mEngine := EndOfDeal e\<rparr>" using assms(4) e(1) by (simp add: Table_GameSequence_def Let_def)
      have "engine_ok n (EndOfDeal e)"
        using EndOfDeal_points [OF fin] valid_deal_bid_ok [OF nb(2,3) D(1)] by (simp add: engine_ok_def deal_over_def)
      then show ?thesis by (simp add: t')
    next
      case False
      then have play: "playing n e" using e(5) by simp
      then have "\<not> IsLastTrick e" using IsLastTrick_iff [of e n] by (simp add: playing_def played_def engine_base_def)
      then have t': "t' = t\<lparr>mEngine := e\<rparr>" using assms(4) e(1,2) by (simp add: Table_GameSequence_def Let_def)
      have "engine_ok n e" using play e(2,3) D(1) by (intro engine_ok_playing) auto
      then show ?thesis by (simp add: t')
    qed
  next
    assume pos: "mPosition ?e < n"
    from GameSequence_turn [OF assms(1) this] obtain e where e: "Engine_GameSequence ?e = Some e" "playing n e"
      "mPosition e = mPosition ?e" "mSequence e = WAIT_FOR_HANDLE \<or> mSequence e = WAIT_FOR_PLAYED_CARD" by blast
    then have "\<not> IsLastTrick e" using IsLastTrick_iff [of e n] by (simp add: playing_def played_def engine_base_def)
    then have t': "t' = t\<lparr>mEngine := e\<rparr>" using assms(4) e(1,4) by (auto simp: Table_GameSequence_def Let_def)
    have "engine_ok n e" using e pos by (intro engine_ok_playing) auto
    then show ?thesis by (simp add: t')
  qed
  with assms(2,3) show ?thesis by (simp add: table_ok_def)
qed

lemma AddPoints_Some_room: "balanced s \<Longrightarrow> 0 < n \<Longrightarrow> AddPoints p b n s = Some r \<Longrightarrow> dealCounter s < MAX_NUMBER_OF_TURNS"
  using AddPoints_overflow [of s n p b] by (fastforce simp: balanced_def wf_score_def not_less)

lemma Table_EndOfDeal_ok [keeps]:
  assumes "table_ok n t" "mSequence (mEngine t) = WAIT_FOR_END_OF_DEAL" "sound_environment n env"
    and "Table_EndOfDeal env t = Some (out, t')"
  shows "table_ok n t'"
proof -
  have base: "engine_base n (mEngine t)" "deal_over n (mEngine t)" "balanced (mScore t)" "length (tPlayers t) = 5"
    using assms(1,2) by (simp_all add: table_ok_def engine_ok_def)
  then have n: "tbPlayers t = n" "0 < n" "valid_deal (tableBid t) n" "sane_points (mCurrentPoints (mEngine t))"
    by (auto simp: engine_base_def deal_over_def)
  from assms(4) obtain cont s where add: "AddPoints (mCurrentPoints (mEngine t)) (tableBid t) n (mScore t) = Some (cont, s)"
    by (auto simp: Table_EndOfDeal_def n bind_eq_Some_conv)
  then have "dealCounter (mScore t) < MAX_NUMBER_OF_TURNS" using AddPoints_Some_room [OF base(3) n(2)] by blast
  from balanced_AddPoints [OF base(3) this n(3,4)] add have s: "balanced s" by auto
  show ?thesis
  proof (cases cont)
    case True
    with assms(4) add have "Table_NewDeal env (t\<lparr>mScore := s\<rparr>) = Some (out, t')"
      by (simp add: Table_EndOfDeal_def n)
    then show ?thesis using base s assms(3) by (intro Table_NewDeal_ok [of n "t\<lparr>mScore := s\<rparr>"]) simp_all
  next
    case False
    with assms(4) add have "t' = t\<lparr>mScore := s, mEngine := Engine_NewGame (mEngine t)\<rparr>"
      by (auto simp: Table_EndOfDeal_def n Let_def)
    with base s show ?thesis by (simp add: table_ok_def Engine_NewGame_def engine_ok_idle)
  qed
qed

lemma ack_step_ok [keeps]:
  assumes "table_ok n t" "sound_environment n env" "mSequence (mEngine t) = sq"
    and "ack_step env sq t = Some (f, out, t')"
  shows "table_ok n t'"
proof -
  have eng: "engine_ok n (mEngine t)" "length (tPlayers t) = 5" "balanced (mScore t)"
    using assms(1) by (simp_all add: table_ok_def)
  have new_deal: "table_ok n t'" if "Table_NewDeal env t = Some (out, t')"
    using that eng assms(2) by (intro Table_NewDeal_ok) (auto simp: engine_ok_def)
  have game: "table_ok n t'" if "Table_GameSequence t = Some (out, t')" "playing n (mEngine t)"
    using that eng by (intro Table_GameSequence_ok)
  have bid: "table_ok n t'" if "SendNextBidSequence (t\<lparr>mEngine := BidSequence (mEngine t)\<rparr>) = Some (out, t')"
    "bidding n (mEngine t)"
  proof (rule SendNextBid_ok [OF _ _ _ that(1)])
    show "bidding n (mEngine (t\<lparr>mEngine := BidSequence (mEngine t)\<rparr>)) \<and>
       (mSequence (mEngine (t\<lparr>mEngine := BidSequence (mEngine t)\<rparr>)) \<in> {WAIT_FOR_BID, WAIT_FOR_ALL_PASSED, WAIT_FOR_SHOW_DOG} \<or>
        mSequence (mEngine (t\<lparr>mEngine := BidSequence (mEngine t)\<rparr>)) = WAIT_FOR_KING_CALL \<and> n = 5) \<or>
      ready n (mEngine (t\<lparr>mEngine := BidSequence (mEngine t)\<rparr>)) \<and>
      mSequence (mEngine (t\<lparr>mEngine := BidSequence (mEngine t)\<rparr>)) = WAIT_FOR_START_DEAL"
      using BidSequence_cases(1) [OF that(2) refl] by auto
  qed (use eng in simp_all)
  have king: "table_ok n t'" if "SendNextBidSequence (t\<lparr>mEngine := ManageAfterBidSequence (mEngine t)\<rparr>) = Some (out, t')"
    "bidding n (mEngine t)"
  proof (rule SendNextBid_ok [OF _ _ _ that(1)])
    show "bidding n (mEngine (t\<lparr>mEngine := ManageAfterBidSequence (mEngine t)\<rparr>)) \<and>
       (mSequence (mEngine (t\<lparr>mEngine := ManageAfterBidSequence (mEngine t)\<rparr>)) \<in> {WAIT_FOR_BID, WAIT_FOR_ALL_PASSED, WAIT_FOR_SHOW_DOG} \<or>
        mSequence (mEngine (t\<lparr>mEngine := ManageAfterBidSequence (mEngine t)\<rparr>)) = WAIT_FOR_KING_CALL \<and> n = 5) \<or>
      ready n (mEngine (t\<lparr>mEngine := ManageAfterBidSequence (mEngine t)\<rparr>)) \<and>
      mSequence (mEngine (t\<lparr>mEngine := ManageAfterBidSequence (mEngine t)\<rparr>)) = WAIT_FOR_START_DEAL"
      using ManageAfterBid_cases [OF that(2)] by (auto split: if_splits)
  qed (use eng in simp_all)
  have dog: "table_ok n (t\<lparr>mEngine := DiscardSequence (mEngine t)\<rparr>)" if "bidding n (mEngine t)"
  proof -
    have "engine_ok n (DiscardSequence (mEngine t))"
      unfolding DiscardSequence_def using that by (intro engine_ok_bidding) simp_all
    then show ?thesis using eng by (simp add: table_ok_def)
  qed
  show ?thesis
    using assms(3,4)
  proof (cases sq)
    case WAIT_FOR_PLAYERS
    with assms(4) have "t' = t \<or> t' = snd (Table_NewGame t)" by (auto simp: ack_step_def split: if_splits)
    with assms(1) Table_NewGame_ok show ?thesis by blast
  next
    case WAIT_FOR_READY
    with assms(4) new_deal show ?thesis by (auto simp: ack_step_def)
  next
    case WAIT_FOR_ALL_PASSED
    with assms(4) new_deal show ?thesis by (auto simp: ack_step_def)
  next
    case WAIT_FOR_CARDS
    with assms(3,4) bid engine_ok_D(1) [OF eng(1)] show ?thesis by (auto simp: ack_step_def)
  next
    case WAIT_FOR_SHOW_BID
    with assms(3,4) bid engine_ok_D(1) [OF eng(1)] show ?thesis by (auto simp: ack_step_def)
  next
    case WAIT_FOR_SHOW_KING_CALL
    with assms(3,4) king engine_ok_D(1) [OF eng(1)] show ?thesis by (auto simp: ack_step_def)
  next
    case WAIT_FOR_SHOW_DOG
    with assms(3,4) dog engine_ok_D(1) [OF eng(1)] show ?thesis by (auto simp: ack_step_def Let_def)
  next
    case WAIT_FOR_START_DEAL
    with assms(3,4) game engine_ok_D(2) [OF eng(1)] show ?thesis by (auto simp: ack_step_def)
  next
    case WAIT_FOR_SHOW_HANDLE
    with assms(3,4) game engine_ok_D(2) [OF eng(1)] show ?thesis by (auto simp: ack_step_def)
  next
    case WAIT_FOR_SHOW_CARD
    with assms(3,4) game engine_ok_D(3) [OF eng(1)] show ?thesis by (auto simp: ack_step_def)
  next
    case WAIT_FOR_END_OF_TRICK
    with assms(3,4) game engine_ok_D(2) [OF eng(1)] show ?thesis by (auto simp: ack_step_def)
  next
    case WAIT_FOR_END_OF_DEAL
    with assms(4) have "Table_EndOfDeal env t = Some (out, t')" by (auto simp: ack_step_def)
    moreover have "mSequence (mEngine t) = WAIT_FOR_END_OF_DEAL" using assms(3) WAIT_FOR_END_OF_DEAL by simp
    ultimately show ?thesis using Table_EndOfDeal_ok [OF assms(1) _ assms(2)] by blast
  qed (use assms(1) in \<open>auto simp: ack_step_def\<close>)
qed

lemma do_ack_ok [keeps]:
  assumes "table_ok n t" "sound_environment n env" "do_ack env src doc t = Some (f, out, t')"
    and advance: "\<And>sq. fst (Sync sq src t) \<Longrightarrow> mSequence (mEngine t) = sq"
  shows "table_ok n t'"
proof -
  let ?sq = "Ack_FromString (GetString (FindValue ''step'' doc))"
  obtain b t1 where sync: "Sync ?sq src t = (b, t1)" by (cases "Sync ?sq src t")
  have t1: "table_ok n t1" "mEngine t1 = mEngine t"
    using table_ok_Sync [OF assms(1), of ?sq src] seats_frame(7) [of ?sq src t] sync by simp_all
  have "t' = t \<or> t' = t1 \<or> b \<and> ack_step env ?sq t1 = Some (f, out, t')"
    using assms(3) by (auto simp: do_ack_def sync Let_def split: if_splits)
  moreover have "mSequence (mEngine t1) = ?sq" if b using advance [of ?sq] sync t1(2) that by simp
  ultimately show ?thesis using assms(1,2) t1(1) ack_step_ok by blast
qed

lemma table_ok_game [simp]: "table_ok n (t\<lparr>mGame := g\<rparr>) = table_ok n t"
  by (simp add: table_ok_def)

lemma do_request_ok [keeps]: "table_ok n t \<Longrightarrow> table_ok n (snd (do_request_new_game src doc t))"
  unfolding do_request_new_game_def
  by (simp add: Table_NewGame_ok)

lemma n_le_5: "n \<in> {3, 4, 5} \<Longrightarrow> n \<le> (5 :: nat)" by auto

lemma do_reply_bid_ok [keeps]:
  assumes "table_ok n t"
  shows "table_ok n (snd (do_reply_bid src doc t))"
proof (cases "GetPlayerPlace src t \<noteq> NOWHERE \<and> GetPlayerPlace src t = mCurrentPlayer (mEngine t) \<and> mSequence (mEngine t) = WAIT_FOR_BID")
  case False
  then show ?thesis using assms unfolding do_reply_bid_def Let_def if_not_P [OF False] by simp
next
  case True
  let ?c = "Contract_FromString (GetString (FindValue ''contract'' doc))" and ?s = "GetBool (FindValue ''slam'' doc)"
  let ?e = "snd (Engine_SetBid ?c ?s (GetPlayerPlace src t) (mEngine t))"
  have b: "bidding n (mEngine t)" using assms True engine_ok_D(1) by (auto simp: table_ok_def)
  then have "bidding n ?e" using True bidding_D(8) [OF b] by (intro Engine_SetBid_bidding) simp_all
  moreover have "mSequence ?e = WAIT_FOR_SHOW_BID" by (simp add: Engine_SetBid_def split_beta)
  ultimately have "engine_ok n ?e" by (intro engine_ok_bidding) simp_all
  moreover have "snd (do_reply_bid src doc t) = t\<lparr>mEngine := ?e\<rparr>"
    unfolding do_reply_bid_def Let_def if_P [OF True] by (simp add: split_beta)
  ultimately show ?thesis using assms by (simp add: table_ok_def)
qed

lemma do_discard_ok [keeps]:
  assumes "table_ok n t" "do_discard src doc t = Some (out, t')"
  shows "table_ok n t'"
proof (cases "mSequence (mEngine t) = WAIT_FOR_DISCARD \<and> taker (tableBid t) = GetPlayerPlace src t")
  case False
  then show ?thesis using assms by (auto simp: do_discard_def)
next
  case True
  let ?d = "Deck_FromString (GetString (FindValue ''discard'' doc))"
  have b: "bidding n (mEngine t)" using assms True engine_ok_D(1) by (auto simp: table_ok_def)
  note D = bidding_D [OF b]
  from assms(2) True obtain ok e where sd: "SetDiscard ?d (mEngine t) = Some (ok, e)"
    "(if ok then Table_StartDeal (t\<lparr>mEngine := e\<rparr>) else Some ([], t\<lparr>mEngine := e\<rparr>)) = Some (out, t')"
    by (auto simp: do_discard_def Let_def bind_eq_Some_conv)
  then have "Place_Value (taker (tableBid t)) < 5"
    using D(5) by (auto simp: SetDiscard_def Let_def bind_eq_Some_conv arr_get_Some_iff)
  then have "contract (tableBid t) \<noteq> NO_ANY" using D(7) by (auto simp: bid_ok_def)
  note sr = SetDiscard_ready [OF b sd(1) this]
  show ?thesis
  proof (cases ok)
    case True
    with sr sd(2) assms(1) show ?thesis
      by (intro Table_StartDeal_ok [of n "t\<lparr>mEngine := e\<rparr>"]) (simp_all add: table_ok_def)
  next
    case False
    with sr sd(2) assms(1) show ?thesis by auto
  qed
qed

lemma do_king_call_ok [keeps]:
  assumes "table_ok n t" "do_king_call src doc t = Some (out, t')"
  shows "table_ok n t'"
proof (cases "mSequence (mEngine t) = WAIT_FOR_KING_CALL \<and> taker (tableBid t) = GetPlayerPlace src t")
  case False
  then show ?thesis using assms by (auto simp: do_king_call_def)
next
  case True
  have b: "bidding n (mEngine t)" "n = 5" using assms True engine_ok_D(1,4) by (auto simp: table_ok_def)
  from assms(2) True obtain c ok e where sk: "SetKingCalled c (mEngine t) = Some (ok, e)"
    "(out, t') = (if ok then ShowKingCall c (t\<lparr>mEngine := e\<rparr>) else ([], t\<lparr>mEngine := e\<rparr>))"
    by (auto simp: do_king_call_def Let_def)
  have "engine_ok n e"
    using SetKingCalled_bidding [OF b sk(1)] b bidding_base True by (auto simp: engine_ok_def)
  moreover have "mEngine t' = e \<and> mScore t' = mScore t \<and> length (tPlayers t') = length (tPlayers t)"
    using sk(2) by (cases ok) (auto simp: ShowKingCall_def Let_def)
  ultimately show ?thesis using assms(1) by (simp add: table_ok_def)
qed

lemma do_handle_ok [keeps]:
  assumes "table_ok n t" "do_handle src doc t = Some (out, t')"
  shows "table_ok n t'"
proof (cases "mSequence (mEngine t) = WAIT_FOR_HANDLE \<and> mCurrentPlayer (mEngine t) = GetPlayerPlace src t")
  case False
  then show ?thesis using assms by (auto simp: do_handle_def Let_def)
next
  case True
  have p: "playing n (mEngine t)" "mPosition (mEngine t) < n" using assms True engine_ok_D(2) by (auto simp: table_ok_def)
  let ?h = "Deck_FromString (GetString (FindValue ''handle'' doc))" and ?p = "GetPlayerPlace src t"
  from assms(2) True obtain ok e where sh: "Engine_SetHandle ?h ?p (mEngine t) = Some (ok, e)"
    "if ok then t' = t\<lparr>mEngine := e\<rparr> else Table_GameSequence (t\<lparr>mEngine := e\<rparr>) = Some (out, t')"
    by (auto simp: do_handle_def Let_def bind_eq_Some_conv split: if_splits)
  note S = SetHandle_playing [OF p(1) sh(1)]
  show ?thesis
  proof (cases ok)
    case True
    then have "engine_ok n e" using S p(2) by (intro engine_ok_playing) simp_all
    with True sh(2) assms(1) show ?thesis by (simp add: table_ok_def)
  next
    case False
    with sh(2) S(4) assms(1) p(1) show ?thesis by (intro Table_GameSequence_ok [of n t out]) (simp_all add: table_ok_def)
  qed
qed

lemma do_card_ok [keeps]:
  assumes "table_ok n t" "do_card src doc t = Some (out, t')"
  shows "table_ok n t'"
proof (cases "Card_IsValid (Card_FromName (GetString (FindValue ''card'' doc))) \<and>
    mSequence (mEngine t) = WAIT_FOR_PLAYED_CARD \<and> mCurrentPlayer (mEngine t) = GetPlayerPlace src t")
  case False
  then show ?thesis using assms by (auto simp: do_card_def Let_def)
next
  case True
  let ?c = "Card_FromName (GetString (FindValue ''card'' doc))"
  have p: "playing n (mEngine t)" "mPosition (mEngine t) < n" using assms True engine_ok_D(2) by (auto simp: table_ok_def)
  from assms(2) True obtain ok e where sc: "SetCard ?c (mCurrentPlayer (mEngine t)) (mEngine t) = Some (ok, e)"
    "t' = t\<lparr>mEngine := e\<rparr>"
    by (auto simp: do_card_def Let_def split: if_splits)
  note S = SetCard_playing [OF p sc(1)]
  have "engine_ok n e"
  proof (cases ok)
    case True
    with S show ?thesis using playing_base by (auto simp: engine_ok_def)
  next
    case False
    with S assms(1) show ?thesis by (simp add: table_ok_def)
  qed
  with sc(2) assms(1) show ?thesis by (simp add: table_ok_def)
qed

section \<open>Acknowledgments\<close>

definition no_acks :: "nat \<Rightarrow> playing_table \<Rightarrow> bool" where
  "no_acks n t \<longleftrightarrow> (\<forall>c \<in> set (take n (tPlayers t)). \<not> chAck c)"

text \<open>Between two messages never all have acknowledged, and only a phase that is acknowledged has any.\<close>

definition quiet :: "nat \<Rightarrow> playing_table \<Rightarrow> bool" where
  "quiet n t \<longleftrightarrow> \<not> (\<forall>c \<in> set (take n (tPlayers t)). chAck c) \<and>
     (mSequence (mEngine t) \<notin> snd ` set gAckList \<longrightarrow> no_acks n t)"

lemma no_acks_quiet: "no_acks n t \<Longrightarrow> 0 < n \<Longrightarrow> length (tPlayers t) = 5 \<Longrightarrow> quiet n t"
  by (cases "tPlayers t") (auto simp: quiet_def no_acks_def take_Cons')

lemma Ack_FromString_listed: "Ack_FromString s \<noteq> BAD_STEP \<Longrightarrow> Ack_FromString s \<in> snd ` set gAckList"
proof (cases "find (\<lambda>a. fst a = s) gAckList")
  case (Some a)
  then have "a \<in> set gAckList" by (auto simp: find_Some_iff)
  with Some show ?thesis by (simp add: Ack_FromString_def)
qed (simp add: Ack_FromString_def)

lemma AckFromAllPlayers_iff:
  assumes "tbPlayers t = n" "n \<le> 5" "length (tPlayers t) = 5"
  shows "AckFromAllPlayers t =
    (if \<forall>c \<in> set (take n (tPlayers t)). chAck c then (True, ResetAck t) else (False, t))"
proof -
  let ?xs = "take n (tPlayers t)"
  have len: "length ?xs = n" using assms by simp
  have "length (filter chAck ?xs) \<le> n" using length_filter_le [of chAck ?xs] len by simp
  then have "length (filter chAck ?xs) mod 256 = length (filter chAck ?xs)" using assms(2) by simp
  moreover have "length (filter chAck ?xs) = n \<longleftrightarrow> (\<forall>c \<in> set ?xs. chAck c)"
    using len by (metis filter_True length_filter_less less_irrefl)
  ultimately show ?thesis by (simp add: AckFromAllPlayers_def assms(1))
qed

definition ack_mark :: "seq \<Rightarrow> nat \<Rightarrow> playing_table \<Rightarrow> challenger \<Rightarrow> challenger" where
  "ack_mark sq src t c = (if chUuid c = src \<and> mSequence (mEngine t) = sq then c\<lparr>chAck := True\<rparr> else c)"

lemma Sync_eq:
  assumes "tbPlayers t = n" "n \<le> 5" "length (tPlayers t) = 5" "t1 = t\<lparr>tPlayers := for_first n (ack_mark sq src t) (tPlayers t)\<rparr>"
  shows "Sync sq src t = (if \<forall>c \<in> set (take n (tPlayers t)). chAck (ack_mark sq src t c) then (True, ResetAck t1) else (False, t1))"
proof -
  have "Sync sq src t = AckFromAllPlayers t1"
    by (simp only: Sync_def assms(1,4) ack_mark_def [abs_def])
  moreover have "tbPlayers t1 = n" "length (tPlayers t1) = 5" "take n (tPlayers t1) = map (ack_mark sq src t) (take n (tPlayers t))"
    using assms by simp_all
  ultimately show ?thesis using AckFromAllPlayers_iff [OF \<open>tbPlayers t1 = n\<close> assms(2)] by simp
qed

lemma Sync_all:
  assumes "quiet n t" "tbPlayers t = n" "n \<le> 5" "length (tPlayers t) = 5" "fst (Sync sq src t)"
  shows "mSequence (mEngine t) = sq"
    "\<forall>c \<in> set (take n (tPlayers t)). chUuid c = src \<or> chAck c"
    "no_acks n (snd (Sync sq src t))"
proof -
  let ?t = "t\<lparr>tPlayers := for_first n (ack_mark sq src t) (tPlayers t)\<rparr>"
  note S = Sync_eq [OF assms(2-4) refl, of sq src]
  from S assms(5) have all: "\<forall>c \<in> set (take n (tPlayers t)). chAck (ack_mark sq src t c)"
    by (metis fst_conv)
  show "mSequence (mEngine t) = sq"
  proof (rule ccontr)
    assume "mSequence (mEngine t) \<noteq> sq"
    then have "ack_mark sq src t c = c" for c by (simp add: ack_mark_def)
    with all assms(1) show False by (simp add: quiet_def)
  qed
  show "\<forall>c \<in> set (take n (tPlayers t)). chUuid c = src \<or> chAck c"
    using all by (auto simp: ack_mark_def split: if_splits)
  have "snd (Sync sq src t) = ResetAck ?t" using S all by simp
  then show "no_acks n (snd (Sync sq src t))" using assms(2) by (auto simp: no_acks_def ResetAck_def)
qed

lemma Sync_partial:
  assumes "quiet n t" "tbPlayers t = n" "n \<le> 5" "length (tPlayers t) = 5" "\<not> fst (Sync sq src t)"
    and "sq \<in> snd ` set gAckList"
  shows "quiet n (snd (Sync sq src t))"
proof -
  let ?t = "t\<lparr>tPlayers := for_first n (ack_mark sq src t) (tPlayers t)\<rparr>"
  note S = Sync_eq [OF assms(2-4) refl, of sq src]
  have notall: "\<not> (\<forall>c \<in> set (take n (tPlayers t)). chAck (ack_mark sq src t c))"
    using S assms(5) by (metis fst_conv)
  then have t': "snd (Sync sq src t) = ?t" using S by (metis snd_conv)
  have "no_acks n ?t" if "mSequence (mEngine t) \<notin> snd ` set gAckList"
  proof -
    have "ack_mark sq src t c = c" for c using that assms(6) by (auto simp: ack_mark_def)
    then show ?thesis using that assms(1) by (simp add: quiet_def no_acks_def)
  qed
  with notall show ?thesis unfolding t' quiet_def by auto
qed

lemma seats_same [frame]:
  "Table_NewDeal env t = Some (out, t') \<Longrightarrow> tPlayers t' = tPlayers t"
  "Table_StartDeal t = Some (out, t') \<Longrightarrow> tPlayers t' = tPlayers t"
  "Table_GameSequence t = Some (out, t') \<Longrightarrow> tPlayers t' = tPlayers t"
  by (auto simp: Table_NewDeal_def Table_StartDeal_def Table_GameSequence_def Let_def bind_eq_Some_conv split_beta
      split: if_splits seq.splits)

lemma SendNextBid_seats [frame]: "SendNextBidSequence t = Some (out, t') \<Longrightarrow> tPlayers t' = tPlayers t"
  by (auto simp: SendNextBidSequence_def seats_same split: seq.splits)

lemma EndOfDeal_seats [frame]: "Table_EndOfDeal env t = Some (out, t') \<Longrightarrow> tPlayers t' = tPlayers t"
  by (auto simp: Table_EndOfDeal_def Let_def bind_eq_Some_conv dest: seats_same(1) split: if_splits)

lemma no_acks_reset: "tbPlayers t = n \<Longrightarrow> no_acks n (ResetAck t)"
  by (auto simp: no_acks_def ResetAck_def)

lemma NewGame_no_acks: "tbPlayers t = n \<Longrightarrow> no_acks n (snd (Table_NewGame t))"
  by (simp add: Table_NewGame_def Let_def no_acks_reset Engine_NewGame_def)

lemma ack_step_no_acks:
  assumes "no_acks n t" "tbPlayers t = n" "ack_step env sq t = Some (f, out, t')"
  shows "no_acks n t'"
proof -
  have "tPlayers t' = tPlayers t \<or> no_acks n t'"
    using assms(3) NewGame_no_acks [OF assms(2)]
    by (auto simp: ack_step_def Let_def dest!: seats_same SendNextBid_seats EndOfDeal_seats split: if_splits)
  with assms(1) show ?thesis by (auto simp: no_acks_def)
qed

lemma do_ack_quiet [keeps]:
  assumes "quiet n t" "table_ok n t" "table_ok n t'" "do_ack env src doc t = Some (f, out, t')"
  shows "quiet n t'"
proof -
  let ?sq = "Ack_FromString (GetString (FindValue ''step'' doc))"
  have n: "tbPlayers t = n" "0 < n" "n \<le> 5" "length (tPlayers t) = 5" "length (tPlayers t') = 5"
    using assms(2,3) by (auto simp: table_ok_def engine_ok_def engine_base_def)
  obtain b t1 where sync: "Sync ?sq src t = (b, t1)" by (cases "Sync ?sq src t")
  have nb: "tbPlayers t1 = n" using seats_frame(7) [of ?sq src t] sync n(1) by simp
  consider "t' = t" | "b" "ack_step env ?sq t1 = Some (f, out, t')" | "\<not> b" "t' = t1" "?sq \<noteq> BAD_STEP"
    using assms(4) by (auto simp: do_ack_def sync Let_def split: if_splits)
  then show ?thesis
  proof cases
    case 1
    with assms(1) show ?thesis by simp
  next
    case 2
    then have "no_acks n t1" using Sync_all(3) [OF assms(1) n(1,3,4), of ?sq src] sync by simp
    from ack_step_no_acks [OF this nb 2(2)] n(2,5) show ?thesis by (intro no_acks_quiet)
  next
    case 3
    with Sync_partial [OF assms(1) n(1,3,4), of ?sq src] sync Ack_FromString_listed show ?thesis by simp
  qed
qed

text \<open>The other messages only act in phases without acknowledgments, or clear them.\<close>

lemma other_messages_seats:
  "do_discard src doc t = Some (out, t') \<Longrightarrow> t' = t \<or> mSequence (mEngine t) = WAIT_FOR_DISCARD \<and> tPlayers t' = tPlayers t"
  "do_handle src doc t = Some (out, t') \<Longrightarrow> t' = t \<or> mSequence (mEngine t) = WAIT_FOR_HANDLE \<and> tPlayers t' = tPlayers t"
  "do_card src doc t = Some (out, t') \<Longrightarrow> t' = t \<or> mSequence (mEngine t) = WAIT_FOR_PLAYED_CARD \<and> tPlayers t' = tPlayers t"
  "r = do_reply_bid src doc t \<Longrightarrow> snd r = t \<or> mSequence (mEngine t) = WAIT_FOR_BID \<and> tPlayers (snd r) = tPlayers t"
proof -
  show "do_discard src doc t = Some (out, t') \<Longrightarrow> t' = t \<or> mSequence (mEngine t) = WAIT_FOR_DISCARD \<and> tPlayers t' = tPlayers t"
    by (auto simp: do_discard_def Let_def bind_eq_Some_conv dest!: seats_same(2) split: if_splits)
  show "do_handle src doc t = Some (out, t') \<Longrightarrow> t' = t \<or> mSequence (mEngine t) = WAIT_FOR_HANDLE \<and> tPlayers t' = tPlayers t"
    by (auto simp: do_handle_def Let_def bind_eq_Some_conv dest!: seats_same(3) split: if_splits)
  show "do_card src doc t = Some (out, t') \<Longrightarrow> t' = t \<or> mSequence (mEngine t) = WAIT_FOR_PLAYED_CARD \<and> tPlayers t' = tPlayers t"
    by (auto simp: do_card_def Let_def split: if_splits)
  show "r = do_reply_bid src doc t \<Longrightarrow> snd r = t \<or> mSequence (mEngine t) = WAIT_FOR_BID \<and> tPlayers (snd r) = tPlayers t"
    by (auto simp: do_reply_bid_def Let_def split_beta)
qed

lemma king_call_seats:
  "do_king_call src doc t = Some (out, t') \<Longrightarrow> tbPlayers t = n \<Longrightarrow>
   t' = t \<or> mSequence (mEngine t) = WAIT_FOR_KING_CALL \<and> (tPlayers t' = tPlayers t \<or> no_acks n t')"
proof -
  assume a: "do_king_call src doc t = Some (out, t')" "tbPlayers t = n"
  have "t' = t \<or> (\<exists>c ok e. mSequence (mEngine t) = WAIT_FOR_KING_CALL \<and> SetKingCalled c (mEngine t) = Some (ok, e) \<and>
      (t' = t\<lparr>mEngine := e\<rparr> \<or> t' = ResetAck (t\<lparr>mEngine := e\<rparr>)))"
    using a(1) by (auto simp: do_king_call_def Let_def ShowKingCall_def split: if_splits)
  moreover have "nbPlayers e = n" if "SetKingCalled c (mEngine t) = Some (ok, e)" for c ok e
    using SetKingCalled_shape [OF that] a(2) by auto
  ultimately show ?thesis by (auto simp: no_acks_reset)
qed

section \<open>Reachable tables\<close>

definition table_inv :: "nat \<Rightarrow> playing_table \<Rightarrow> bool" where
  "table_inv n t \<longleftrightarrow> table_ok n t \<and> quiet n t"

lemma table_inv_D:
  assumes "table_inv n t"
  shows "table_ok n t" "quiet n t" "tbPlayers t = n" "0 < n" "n \<le> 5" "length (tPlayers t) = 5" "n \<in> {3, 4, 5}"
  using assms by (auto simp: table_inv_def table_ok_def engine_ok_def engine_base_def)

lemma Execute_cases:
  assumes "ExecuteRequest env src doc t = Some (f, out, t')"
  obtains "t' = t" | "do_ack env src doc t = Some (f, out, t')" | "t' = snd (do_request_new_game src doc t)"
  | "t' = snd (do_reply_bid src doc t)" | out' where "do_discard src doc t = Some (out', t')"
  | out' where "do_king_call src doc t = Some (out', t')" | out' where "do_handle src doc t = Some (out', t')"
  | out' where "do_card src doc t = Some (out', t')"
proof -
  have "t' = t \<or> do_ack env src doc t = Some (f, out, t') \<or> t' = snd (do_request_new_game src doc t) \<or>
    t' = snd (do_reply_bid src doc t) \<or> (\<exists>o1. do_discard src doc t = Some (o1, t')) \<or>
    (\<exists>o1. do_king_call src doc t = Some (o1, t')) \<or> (\<exists>o1. do_handle src doc t = Some (o1, t')) \<or>
    (\<exists>o1. do_card src doc t = Some (o1, t'))"
  proof -
    have snd_eq: "(out, t') = p \<Longrightarrow> t' = snd p" for p by (cases p) simp
    show ?thesis
      using assms unfolding ExecuteRequest_def Let_def
      by (auto dest: snd_eq split: if_splits)
  qed
  with that show ?thesis by blast
qed

lemma idle_quiet: "quiet n t \<Longrightarrow> mSequence (mEngine t) \<notin> snd ` set gAckList \<Longrightarrow> no_acks n t"
  by (simp add: quiet_def)

lemma not_acked: "s \<in> {WAIT_FOR_BID, WAIT_FOR_DISCARD, WAIT_FOR_KING_CALL, WAIT_FOR_HANDLE, WAIT_FOR_PLAYED_CARD} \<Longrightarrow>
    s \<notin> snd ` set gAckList"
  by (auto simp: gAckList_def)

lemma Execute_inv [keeps]:
  assumes "table_inv n t" "sound_environment n env" "ExecuteRequest env src doc t = Some (f, out, t')"
  shows "table_inv n t'"
proof -
  note D = table_inv_D [OF assms(1)]
  have adv: "mSequence (mEngine t) = sq" if "fst (Sync sq src t)" for sq
    using Sync_all(1) [OF D(2,3,5,6) that] .
  have same: "table_inv n t'" if "table_ok n t'" "t' = t \<or> mSequence (mEngine t) = s \<and> (tPlayers t' = tPlayers t \<or> no_acks n t')"
    "s \<in> {WAIT_FOR_BID, WAIT_FOR_DISCARD, WAIT_FOR_KING_CALL, WAIT_FOR_HANDLE, WAIT_FOR_PLAYED_CARD}" for s
  proof (cases "t' = t")
    case True
    with assms(1) show ?thesis by simp
  next
    case False
    with that have "no_acks n t \<or> no_acks n t'" using idle_quiet [OF D(2)] not_acked by auto
    with False that have "no_acks n t'" by (auto simp: no_acks_def)
    then show ?thesis using that(1) D(4) no_acks_quiet by (simp add: table_inv_def table_ok_def)
  qed
  from assms(3) show ?thesis
  proof (cases rule: Execute_cases)
    case 1
    with assms(1) show ?thesis by simp
  next
    case 2
    have "table_ok n t'" by (rule do_ack_ok [OF D(1) assms(2) 2 adv])
    with do_ack_quiet [OF D(2,1) _ 2] show ?thesis by (simp add: table_inv_def)
  next
    case 3
    have ok: "table_ok n t'" using do_request_ok [OF D(1)] 3 by simp
    show ?thesis
    proof (cases "src = mAdmin t")
      case True
      have "no_acks n t'" unfolding 3 do_request_new_game_def if_P [OF True] by (rule NewGame_no_acks) (simp add: D(3))
      with ok D(4) show ?thesis using no_acks_quiet by (simp add: table_inv_def table_ok_def)
    next
      case False
      with 3 assms(1) show ?thesis by (simp add: do_request_new_game_def)
    qed
  next
    case 4
    with do_reply_bid_ok [OF D(1)] other_messages_seats(4) [OF refl, of src doc t] show ?thesis
      by (intro same [of WAIT_FOR_BID]) auto
  next
    case (5 o1)
    with do_discard_ok [OF D(1)] other_messages_seats(1) show ?thesis by (intro same [of WAIT_FOR_DISCARD]) blast+
  next
    case (6 o1)
    with do_king_call_ok [OF D(1)] king_call_seats [OF 6 D(3)] show ?thesis by (intro same [of WAIT_FOR_KING_CALL]) blast+
  next
    case (7 o1)
    with do_handle_ok [OF D(1)] other_messages_seats(2) show ?thesis by (intro same [of WAIT_FOR_HANDLE]) blast+
  next
    case (8 o1)
    with do_card_ok [OF D(1)] other_messages_seats(3) show ?thesis by (intro same [of WAIT_FOR_PLAYED_CARD]) blast+
  qed
qed

lemma table_inv_seats:
  assumes "table_inv n t" "mEngine t' = mEngine t" "mScore t' = mScore t" "length (tPlayers t') = 5"
    and "\<And>i. i < n \<Longrightarrow> chAck (tPlayers t' ! i) \<Longrightarrow> chAck (tPlayers t ! i)"
  shows "table_inv n t'"
proof -
  note D = table_inv_D [OF assms(1)]
  have acked: "(\<forall>c \<in> set (take n (tPlayers u)). P (chAck c)) = (\<forall>i < n. P (chAck (tPlayers u ! i)))"
    if "length (tPlayers u) = 5" for u P
    using that D(5) by (auto simp: all_set_conv_all_nth)
  have "\<not> (\<forall>i < n. chAck (tPlayers t' ! i))"
    using D(2) assms(5) acked [OF D(6), of "\<lambda>b. b"] by (auto simp: quiet_def)
  moreover have "\<forall>i < n. \<not> chAck (tPlayers t' ! i)" if "no_acks n t"
    using that assms(5) acked [OF D(6), of Not] by (auto simp: no_acks_def)
  ultimately have "quiet n t'"
    using D(2) acked [OF assms(4), of "\<lambda>b. b"] acked [OF assms(4), of Not] assms(2) by (simp add: quiet_def no_acks_def)
  then show ?thesis using D(1) assms(2-4) by (simp add: table_inv_def table_ok_def)
qed

lemma AddPlayer_inv [keeps]:
  assumes "table_inv n t" "AddPlayer uuid t = (r, t')"
  shows "table_inv n t'"
proof -
  have "t' = t \<or> (\<exists>i. tPlayers t' = (tPlayers t)[i := (tPlayers t ! i)\<lparr>chUuid := uuid\<rparr>] \<and>
      mEngine t' = mEngine t \<and> mScore t' = mScore t)"
    using assms(2) by (auto simp: AddPlayer_def Let_def split: if_splits)
  then obtain i where "t' = t \<or> tPlayers t' = (tPlayers t)[i := (tPlayers t ! i)\<lparr>chUuid := uuid\<rparr>] \<and>
      mEngine t' = mEngine t \<and> mScore t' = mScore t" by blast
  then show ?thesis
  proof
    assume t': "tPlayers t' = (tPlayers t)[i := (tPlayers t ! i)\<lparr>chUuid := uuid\<rparr>] \<and>
      mEngine t' = mEngine t \<and> mScore t' = mScore t"
    have "chAck (tPlayers t' ! k) = chAck (tPlayers t ! k)" if "k < n" for k
      using t' that table_inv_D(5,6) [OF assms(1)] by (cases "k = i") simp_all
    with t' show ?thesis
      using table_inv_D(6) [OF assms(1)] by (intro table_inv_seats [OF assms(1)]) simp_all
  qed (use assms(1) in simp)
qed

lemma RemovePlayer_inv [keeps]:
  assumes "table_inv n t"
  shows "table_inv n (RemovePlayer uuid t)"
proof (cases "GetPlayerPlace uuid t = NOWHERE")
  case True
  with assms show ?thesis by (simp add: RemovePlayer_def)
next
  case False
  note D = table_inv_D [OF assms]
  let ?f = "\<lambda>c. if chUuid c = uuid then Challenger_Clear else c"
  have seats: "tPlayers (RemovePlayer uuid t) = for_first n ?f (tPlayers t)"
    "mEngine (RemovePlayer uuid t) = mEngine t" "mScore (RemovePlayer uuid t) = mScore t"
    using False D(3) by (simp_all add: RemovePlayer_def Let_def)
  have clear: "chAck (?f c) \<Longrightarrow> chAck c" for c by (simp add: Challenger_Clear_def split: if_splits)
  have at: "for_first n ?f (tPlayers t) ! i = ?f (tPlayers t ! i)" if "i < n" for i
    using that D(5,6) by (simp add: for_first_def nth_append)
  show ?thesis
  proof (rule table_inv_seats [OF assms seats(2,3)])
    show "length (tPlayers (RemovePlayer uuid t)) = 5" by (simp add: seats(1) D(6))
    show "chAck (tPlayers (RemovePlayer uuid t) ! i) \<Longrightarrow> chAck (tPlayers t ! i)" if "i < n" for i
      unfolding seats(1) at [OF that] by (rule clear)
  qed
qed

text \<open>
  A table as the lobby opens it, and the steps it then takes: a message from any user number, a
  player who joins, a player who leaves.
\<close>

definition open_table :: "nat \<Rightarrow> string \<Rightarrow> bool \<Rightarrow> game \<Rightarrow> nat \<Rightarrow> place \<Rightarrow> playing_table" where
  "open_table ident name adminMode g nb randomPlace =
     Table_CreateTable nb randomPlace
       (Table_Initialize (SetupGame g (SetAdminMode adminMode (Table_new\<lparr>mId := ident, mName := name\<rparr>))))"

text \<open>
  The environment of a message is anything that satisfies a condition \<open>P\<close>; a table is reachable when
  every message met a shuffle that permutes and proper deal files.
\<close>

inductive table_step :: "(environment \<Rightarrow> bool) \<Rightarrow> playing_table \<Rightarrow> playing_table \<Rightarrow> bool" for P where
  message: "P env \<Longrightarrow> ExecuteRequest env src doc t = Some (f, out, t') \<Longrightarrow> table_step P t t'"
| join: "AddPlayer uuid t = (r, t') \<Longrightarrow> table_step P t t'"
| leave: "table_step P t (RemovePlayer uuid t)"

inductive_cases table_stepE: "table_step P t t'"

inductive reachable_with :: "(environment \<Rightarrow> bool) \<Rightarrow> nat \<Rightarrow> playing_table \<Rightarrow> bool" for P n where
  opened: "reachable_with P n (open_table ident name adminMode g n p)"
| step: "reachable_with P n t \<Longrightarrow> table_step P t t' \<Longrightarrow> reachable_with P n t'"

abbreviation reachable :: "nat \<Rightarrow> playing_table \<Rightarrow> bool" where
  "reachable n \<equiv> reachable_with (sound_environment n) n"

lemma table_step_mono: "table_step P t t' \<Longrightarrow> (\<And>env. P env \<Longrightarrow> Q env) \<Longrightarrow> table_step Q t t'"
  by (erule table_step.cases) (auto intro: table_step.intros)

lemma reachable_mono:
  assumes "reachable_with P n t" "\<And>env. P env \<Longrightarrow> Q env"
  shows "reachable_with Q n t"
  using assms(1) by induction (auto intro: reachable_with.intros table_step_mono assms(2))

lemma open_table_inv: "n \<in> {3, 4, 5} \<Longrightarrow> table_inv n (open_table ident name adminMode g n p)"
proof -
  assume n: "n \<in> {3, 4, 5}"
  let ?t = "open_table ident name adminMode g n p"
  have t: "tPlayers ?t = replicate 5 Challenger_Clear" "mScore ?t = Score_new"
    "mEngine ?t = Engine_CreateTable n p (Engine_Initialize Engine_new)"
    by (simp_all add: open_table_def Table_CreateTable_def Table_Initialize_def SetupGame_def SetAdminMode_def
        Table_new_def map_replicate_const)
  have "engine_ok n (mEngine ?t)"
    using n by (auto simp: t engine_ok_def engine_base_def Engine_CreateTable_def Engine_Initialize_def Engine_new_def
        Context_Initialize_def Context_new_def wf_context_def Statistics_Reset_def)
  moreover have "no_acks n ?t" by (auto simp: no_acks_def t Challenger_Clear_def dest: in_set_takeD)
  moreover have "balanced (mScore ?t)" by (simp add: t Score_new_def balanced_NewGame)
  ultimately show ?thesis using n no_acks_quiet [of n ?t] by (auto simp: table_inv_def table_ok_def t)
qed

lemma table_step_inv [keeps]: "table_step (sound_environment n) t t' \<Longrightarrow> table_inv n t \<Longrightarrow> table_inv n t'"
  by (erule table_stepE) (auto intro: Execute_inv AddPlayer_inv RemovePlayer_inv)

lemma reachable_inv:
  assumes "reachable n t" "n \<in> {3, 4, 5}"
  shows "table_inv n t"
  using assms by (induction rule: reachable_with.induct) (auto intro: open_table_inv table_step_inv)

end
