(* ===== verification/Unique_Ids.thy ===== *)
theory Unique_Ids
  imports Prelude
begin

text \<open>
  The pool of identifiers of the lobby (UniqueId.h, UniqueId.cpp): users and tables take the lowest
  free number of a range and give it back. The locale \<open>id_pool\<close> is what the lobby relies on; the
  model of the class is an interpretation of it.
\<close>

section \<open>The contract of a pool\<close>

datatype pool_op = Take | Release nat

text \<open>The numbers held by the clients of a pool after a sequence of requests.\<close>

fun run_pool :: "('s \<Rightarrow> nat \<times> 's) \<Rightarrow> (nat \<Rightarrow> 's \<Rightarrow> bool \<times> 's) \<Rightarrow> pool_op list \<Rightarrow> nat list \<Rightarrow> 's \<Rightarrow> nat list \<times> 's" where
  "run_pool take_id release_id [] held s = (held, s)"
| "run_pool take_id release_id (Take # ops) held s =
     (let (i, s') = take_id s in run_pool take_id release_id ops (if i = 0 then held else held @ [i]) s')"
| "run_pool take_id release_id (Release i # ops) held s =
     (let (b, s') = release_id i s in run_pool take_id release_id ops (removeAll i held) s')"

locale id_pool =
  fixes taken :: "'s \<Rightarrow> nat \<Rightarrow> bool"
    and take_id :: "'s \<Rightarrow> nat \<times> 's"
    and release_id :: "nat \<Rightarrow> 's \<Rightarrow> bool \<times> 's"
    and ok :: "'s \<Rightarrow> bool"
  assumes take_fresh: "ok s \<Longrightarrow> take_id s = (i, s') \<Longrightarrow> i \<noteq> 0 \<Longrightarrow>
      \<not> taken s i \<and> (\<forall>j. taken s' j \<longleftrightarrow> taken s j \<or> j = i) \<and> ok s'"
    and take_full: "ok s \<Longrightarrow> take_id s = (0, s') \<Longrightarrow> s' = s"
    and release_frees: "ok s \<Longrightarrow> release_id i s = (b, s') \<Longrightarrow>
      (b \<longleftrightarrow> taken s i) \<and> (\<forall>j. taken s' j \<longleftrightarrow> taken s j \<and> j \<noteq> i) \<and> ok s'"
begin

lemma held_exact:
  assumes "ok s" "distinct held" "\<forall>i. i \<in> set held \<longleftrightarrow> taken s i"
    and "run_pool take_id release_id ops held s = (held', s')"
  shows "distinct held' \<and> (\<forall>i. i \<in> set held' \<longleftrightarrow> taken s' i) \<and> ok s'"
  using assms
proof (induction ops arbitrary: held s)
  case Nil
  then show ?case by simp
next
  case (Cons op ops)
  show ?case
  proof (cases op)
    case Take
    obtain i s1 where t: "take_id s = (i, s1)" by (cases "take_id s")
    show ?thesis
    proof (cases "i = 0")
      case True
      with t take_full Cons.prems(1) have "s1 = s" by simp
      with Cons Take t True show ?thesis by simp
    next
      case False
      from take_fresh [OF Cons.prems(1) t False] Cons.prems(2,3)
      have "ok s1" "distinct (held @ [i])" "\<forall>j. j \<in> set (held @ [i]) \<longleftrightarrow> taken s1 j" by auto
      from Cons.IH [OF this] Cons.prems(4) Take t False show ?thesis by simp
    qed
  next
    case (Release i)
    obtain b s1 where r: "release_id i s = (b, s1)" by (cases "release_id i s")
    from release_frees [OF Cons.prems(1) r] Cons.prems(2,3)
    have "ok s1" "distinct (removeAll i held)" "\<forall>j. j \<in> set (removeAll i held) \<longleftrightarrow> taken s1 j"
      by (auto simp: distinct_removeAll)
    from Cons.IH [OF this] Cons.prems(4) Release r show ?thesis by simp
  qed
qed

end

section \<open>The class\<close>

record unique_id =
  mMin :: nat
  mMax :: nat
  mUsedIds :: "nat list"

definition cInvalidId :: nat where "cInvalidId = 0"

definition UniqueId_new :: "nat \<Rightarrow> nat \<Rightarrow> unique_id" where
  "UniqueId_new lo hi =
     (let lo1 = (if lo = 0 then 1 else lo)
      in \<lparr>mMin = lo1, mMax = (if hi \<le> lo1 then (lo1 + 1) mod 2 ^ 32 else hi), mUsedIds = []\<rparr>)"

definition IsTaken :: "nat \<Rightarrow> unique_id \<Rightarrow> bool" where
  "IsTaken i u = (i \<in> set (mUsedIds u))"

definition FindId :: "unique_id \<Rightarrow> nat" where
  "FindId u = (case find (\<lambda>i. \<not> IsTaken i u) [mMin u..<mMax u + 1] of Some i \<Rightarrow> i | None \<Rightarrow> 0)"

definition TakeId :: "unique_id \<Rightarrow> nat \<times> unique_id" where
  "TakeId u =
     (case find (\<lambda>i. \<not> IsTaken i u) [mMin u..<mMax u + 1] of
        Some i \<Rightarrow> (i, u\<lparr>mUsedIds := mUsedIds u @ [i]\<rparr>)
      | None \<Rightarrow> (cInvalidId, u))"

definition AddId :: "nat \<Rightarrow> unique_id \<Rightarrow> unique_id" where
  "AddId i u = (if \<not> IsTaken i u then u\<lparr>mUsedIds := mUsedIds u @ [i]\<rparr> else u)"

definition ReleaseId :: "nat \<Rightarrow> unique_id \<Rightarrow> bool \<times> unique_id" where
  "ReleaseId i u =
     (if IsTaken i u then
        (let u1 = u\<lparr>mUsedIds := remove1 i (mUsedIds u)\<rparr> in (\<not> IsTaken i u1, u1))
      else (False, u))"

definition UniqueId_Clear :: "unique_id \<Rightarrow> unique_id" where
  "UniqueId_Clear u = u\<lparr>mUsedIds := []\<rparr>"

text \<open>A pool hands out positive numbers and holds none twice.\<close>

definition pool_ok :: "unique_id \<Rightarrow> bool" where
  "pool_ok u \<longleftrightarrow> 0 < mMin u \<and> distinct (mUsedIds u)"

lemma pool_ok_new [keeps]: "pool_ok (UniqueId_new lo hi)"
  by (simp add: pool_ok_def UniqueId_new_def Let_def)

lemma find_interval:
  "find P [lo..<hi] = Some i \<longleftrightarrow> lo \<le> i \<and> i < hi \<and> P i \<and> (\<forall>j. lo \<le> j \<longrightarrow> j < i \<longrightarrow> \<not> P j)"
proof
  assume "find P [lo..<hi] = Some i"
  then obtain k where k: "k < hi - lo" "P i" "i = [lo..<hi] ! k" "\<forall>j < k. \<not> P ([lo..<hi] ! j)"
    by (auto simp: find_Some_iff)
  then have i: "i = lo + k" by simp
  have "\<not> P j" if "lo \<le> j" "j < i" for j
    using k(4) [rule_format, of "j - lo"] k(1) that i by simp
  with k(1,2) i show "lo \<le> i \<and> i < hi \<and> P i \<and> (\<forall>j. lo \<le> j \<longrightarrow> j < i \<longrightarrow> \<not> P j)" by simp
next
  assume "lo \<le> i \<and> i < hi \<and> P i \<and> (\<forall>j. lo \<le> j \<longrightarrow> j < i \<longrightarrow> \<not> P j)"
  then show "find P [lo..<hi] = Some i"
    by (auto simp: find_Some_iff intro: exI [of _ "i - lo"])
qed

lemma TakeId_found:
  assumes "TakeId u = (i, u')" "i \<noteq> 0"
  shows "mMin u \<le> i" "i \<le> mMax u" "\<not> IsTaken i u" "u' = u\<lparr>mUsedIds := mUsedIds u @ [i]\<rparr>"
    "\<forall>j. mMin u \<le> j \<longrightarrow> j < i \<longrightarrow> IsTaken j u"
proof -
  have f: "find (\<lambda>i. \<not> IsTaken i u) [mMin u..<mMax u + 1] = Some i \<and> u' = u\<lparr>mUsedIds := mUsedIds u @ [i]\<rparr>"
    using assms unfolding TakeId_def cInvalidId_def
    by (auto split: option.splits simp del: upt_Suc Suc_eq_plus1 [symmetric])
  then show "mMin u \<le> i" "i \<le> mMax u" "\<not> IsTaken i u" "u' = u\<lparr>mUsedIds := mUsedIds u @ [i]\<rparr>"
    "\<forall>j. mMin u \<le> j \<longrightarrow> j < i \<longrightarrow> IsTaken j u"
    unfolding find_interval by simp_all
qed

lemma TakeId_full:
  assumes "TakeId u = (0, u')" "0 < mMin u"
  shows "u' = u" "\<forall>j. mMin u \<le> j \<longrightarrow> j \<le> mMax u \<longrightarrow> IsTaken j u"
proof -
  have "find (\<lambda>i. \<not> IsTaken i u) [mMin u..<mMax u + 1] \<noteq> Some 0"
    using assms(2) unfolding find_interval by simp
  then have none: "find (\<lambda>i. \<not> IsTaken i u) [mMin u..<mMax u + 1] = None"
    using assms(1) unfolding TakeId_def by (auto split: option.splits)
  then show "u' = u" using assms(1) unfolding TakeId_def by simp
  from none show "\<forall>j. mMin u \<le> j \<longrightarrow> j \<le> mMax u \<longrightarrow> IsTaken j u"
    unfolding find_None_iff by (auto simp: atLeastLessThanSuc_atLeastAtMost)
qed

lemma TakeId_lowest:
  assumes "mMin u \<le> i" "i \<le> mMax u" "\<not> IsTaken i u" "\<forall>j. mMin u \<le> j \<longrightarrow> j < i \<longrightarrow> IsTaken j u"
  shows "TakeId u = (i, u\<lparr>mUsedIds := mUsedIds u @ [i]\<rparr>)"
proof -
  have "find (\<lambda>i. \<not> IsTaken i u) [mMin u..<mMax u + 1] = Some i"
    unfolding find_interval using assms by simp
  then show ?thesis unfolding TakeId_def by (simp del: upt_Suc)
qed

interpretation ids: id_pool "\<lambda>u i. IsTaken i u" TakeId ReleaseId pool_ok
proof
  show "\<not> IsTaken i s \<and> (\<forall>j. IsTaken j s' \<longleftrightarrow> IsTaken j s \<or> j = i) \<and> pool_ok s'"
    if "pool_ok s" "TakeId s = (i, s')" "i \<noteq> 0" for s i s'
    using that(1) TakeId_found [OF that(2,3)] by (auto simp: pool_ok_def IsTaken_def)
  show "s' = s" if "pool_ok s" "TakeId s = (0, s')" for s s'
    using TakeId_full(1) [OF that(2)] that(1) by (simp add: pool_ok_def)
  show "(b \<longleftrightarrow> IsTaken i s) \<and> (\<forall>j. IsTaken j s' \<longleftrightarrow> IsTaken j s \<and> j \<noteq> i) \<and> pool_ok s'"
    if "pool_ok s" "ReleaseId i s = (b, s')" for s i b s'
    using that by (auto simp: pool_ok_def ReleaseId_def IsTaken_def Let_def split: if_splits)
qed

section \<open>Property\<close>

text \<open>
  C23. Identifiers are never shared: after any sequence of requests to a new pool, the numbers its
  clients hold are pairwise different and are exactly the numbers the pool records as used; the next
  request is answered with the lowest free number of the range, and with the invalid number 0 only
  when every number of the range is held.
\<close>

theorem ids_are_unique:
  "case run_pool TakeId ReleaseId ops [] (UniqueId_new lo hi) of (held, u) \<Rightarrow>
     distinct held \<and> set held = set (mUsedIds u) \<and>
     (if fst (TakeId u) = 0 then {mMin u..mMax u} \<subseteq> set held
      else fst (TakeId u) \<notin> set held \<and> fst (TakeId u) \<in> {mMin u..mMax u} \<and>
           {mMin u..<fst (TakeId u)} \<subseteq> set held)"
proof -
  obtain held u where run: "run_pool TakeId ReleaseId ops [] (UniqueId_new lo hi) = (held, u)"
    by (cases "run_pool TakeId ReleaseId ops [] (UniqueId_new lo hi)")
  have "\<forall>i. i \<in> set [] \<longleftrightarrow> IsTaken i (UniqueId_new lo hi)" by (simp add: IsTaken_def UniqueId_new_def Let_def)
  from ids.held_exact [OF pool_ok_new _ this run]
  have held: "distinct held" "\<forall>i. i \<in> set held \<longleftrightarrow> IsTaken i u" "pool_ok u" by simp_all
  obtain i u' where take: "TakeId u = (i, u')" by (cases "TakeId u")
  show ?thesis
  proof (cases "i = 0")
    case True
    with TakeId_full(2) [of u u'] take held run show ?thesis by (auto simp: IsTaken_def pool_ok_def)
  next
    case False
    with TakeId_found [OF take] take held run show ?thesis by (auto simp: IsTaken_def)
  qed
qed

end
