(* ===== verification/User_Lists.thy ===== *)
theory User_Lists
  imports Json_Values Tarot_Rules
begin

text \<open>
  Identities and the list of connected users (Identity.h, Users.h, Users.cpp, and the conversions of
  Network.h). \<open>uint32_t\<close> numbers are naturals.
\<close>

section \<open>Identities\<close>

record identity =
  username :: string
  avatar :: string
  gender :: nat
  token :: string

definition cGenderInvalid :: nat where "cGenderInvalid = 0"
definition cGenderMale :: nat where "cGenderMale = 1"
definition cGenderFemale :: nat where "cGenderFemale = 2"
definition cGenderRobot :: nat where "cGenderRobot = 3"
definition cGenderDummy :: nat where "cGenderDummy = 4"

lemmas gender_defs = cGenderInvalid_def cGenderMale_def cGenderFemale_def cGenderRobot_def cGenderDummy_def

definition Identity_new :: identity where
  "Identity_new = \<lparr>username = ''John Doe'', avatar = [], gender = cGenderInvalid, token = []\<rparr>"

text \<open>The assignment operator takes the avatar from the name of the other identity.\<close>

definition identity_assign :: "identity \<Rightarrow> identity" where
  "identity_assign other =
     \<lparr>username = username other, avatar = username other, gender = gender other, token = token other\<rparr>"

definition GenderToString :: "nat \<Rightarrow> string" where
  "GenderToString g =
     (if g = cGenderInvalid then ''Invalid'' else if g = cGenderMale then ''Male''
      else if g = cGenderFemale then ''Female'' else if g = cGenderRobot then ''Robot''
      else if g = cGenderDummy then ''Dummy'' else ''Invalid'')"

definition GenderFromString :: "string \<Rightarrow> bool \<times> nat" where
  "GenderFromString txt =
     (if txt = ''Invalid'' then (True, cGenderInvalid) else if txt = ''Male'' then (True, cGenderMale)
      else if txt = ''Female'' then (True, cGenderFemale) else if txt = ''Robot'' then (True, cGenderRobot)
      else if txt = ''Dummy'' then (True, cGenderDummy) else (False, cGenderInvalid))"

definition Identity_FromJson :: "(string \<times> json) list \<Rightarrow> identity \<Rightarrow> identity" where
  "Identity_FromJson obj ident =
     ident\<lparr>username := GetString (Object_GetValue ''nickname'' obj),
           avatar := GetString (Object_GetValue ''avatar'' obj),
           gender := snd (GenderFromString (GetString (Object_GetValue ''gender'' obj)))\<rparr>"

definition Identity_ToJson :: "identity \<Rightarrow> (string \<times> json) list \<Rightarrow> (string \<times> json) list" where
  "Identity_ToJson ident obj =
     AddValue ''gender'' (JString (GenderToString (gender ident)))
       (AddValue ''avatar'' (JString (avatar ident)) (AddValue ''nickname'' (JString (username ident)) obj))"

section \<open>Users\<close>

record user =
  uUuid :: nat
  uTable :: nat
  uPlace :: place
  uIdentity :: identity

definition LOBBY_UID :: nat where "LOBBY_UID = 1"
definition USERS_UID :: nat where "USERS_UID = 10"
definition MAXIMUM_USERS :: nat where "MAXIMUM_USERS = 200"
definition TABLES_UID :: nat where "TABLES_UID = 1000"
definition MAXIMUM_TABLES :: nat where "MAXIMUM_TABLES = 50"

definition user_assign :: "user \<Rightarrow> user" where
  "user_assign u = u\<lparr>uIdentity := identity_assign (uIdentity u)\<rparr>"

definition IsInTable :: "user \<Rightarrow> bool" where
  "IsInTable u = (uTable u \<noteq> 0 \<and> uPlace u < NOWHERE)"

definition IsConnected :: "user \<Rightarrow> bool" where
  "IsConnected u = (USERS_UID \<le> uUuid u)"

text \<open>The loops that stop at the first user with the number.\<close>

definition find_user :: "nat \<Rightarrow> user list \<Rightarrow> user option" where
  "find_user uuid us = find (\<lambda>u. uUuid u = uuid) us"

fun update_user :: "nat \<Rightarrow> (user \<Rightarrow> user) \<Rightarrow> user list \<Rightarrow> user list" where
  "update_user uuid f [] = []"
| "update_user uuid f (u # us) = (if uUuid u = uuid then f u # us else u # update_user uuid f us)"

definition GetPlayerTable :: "nat \<Rightarrow> user list \<Rightarrow> nat" where
  "GetPlayerTable uuid us = (case find_user uuid us of Some u \<Rightarrow> uTable u | None \<Rightarrow> LOBBY_UID)"

text \<open>The entry goes out through the assignment operator.\<close>

definition Users_GetEntry :: "nat \<Rightarrow> user list \<Rightarrow> user option" where
  "Users_GetEntry uuid us = map_option user_assign (find_user uuid us)"

definition GetEntryByIndex :: "nat \<Rightarrow> user list \<Rightarrow> user option" where
  "GetEntryByIndex i us = (if i < length us then Some (user_assign (us ! i)) else None)"

definition SetPlayingTable :: "nat \<Rightarrow> nat \<Rightarrow> place \<Rightarrow> user list \<Rightarrow> user list" where
  "SetPlayingTable uuid tableId p us = update_user uuid (\<lambda>u. u\<lparr>uTable := tableId, uPlace := p\<rparr>) us"

definition GetTablePlayerIds :: "nat \<Rightarrow> user list \<Rightarrow> nat list" where
  "GetTablePlayerIds tableId us = map uUuid (filter (\<lambda>u. uTable u = tableId) us)"

definition GetTableUsers :: "nat \<Rightarrow> user list \<Rightarrow> user list" where
  "GetTableUsers tableId us = filter (\<lambda>u. uTable u = tableId) us"

definition GetAll :: "user list \<Rightarrow> nat list" where
  "GetAll us = map uUuid us"

definition Users_Get :: "nat \<Rightarrow> user list \<Rightarrow> user list" where
  "Users_Get filterId us = filter (\<lambda>u. uTable u = filterId \<or> filterId = LOBBY_UID) us"

definition IsHere :: "nat \<Rightarrow> user list \<Rightarrow> bool" where
  "IsHere uuid us = list_ex (\<lambda>u. uUuid u = uuid) us"

text \<open>True when another user has the name.\<close>

definition CheckNickName :: "nat \<Rightarrow> string \<Rightarrow> user list \<Rightarrow> bool" where
  "CheckNickName uuid nickname us = list_ex (\<lambda>u. uUuid u \<noteq> uuid \<and> username (uIdentity u) = nickname) us"

definition UpdateLocation :: "nat \<Rightarrow> nat \<Rightarrow> place \<Rightarrow> user list \<Rightarrow> bool \<times> user list" where
  "UpdateLocation uuid tableId p us =
     (IsHere uuid us, update_user uuid (\<lambda>u. u\<lparr>uTable := tableId, uPlace := p\<rparr>) us)"

definition ChangeNickName :: "nat \<Rightarrow> string \<Rightarrow> user list \<Rightarrow> bool \<times> user list" where
  "ChangeNickName uuid nickname us =
     (if \<not> CheckNickName uuid nickname us
      then (IsHere uuid us, update_user uuid (\<lambda>u. u\<lparr>uIdentity := (uIdentity u)\<lparr>username := nickname\<rparr>\<rparr>) us)
      else (False, us))"

definition AddEntry :: "user \<Rightarrow> user list \<Rightarrow> bool \<times> user list" where
  "AddEntry u us =
     (if \<not> IsHere (uUuid u) us then
        (if \<not> CheckNickName (uUuid u) (username (uIdentity u)) us then (True, us @ [u]) else (False, us))
      else (False, us))"

text \<open>\<open>vector::erase\<close> moves the later users down by assignment.\<close>

fun Users_Remove :: "nat \<Rightarrow> user list \<Rightarrow> user list" where
  "Users_Remove uuid [] = []"
| "Users_Remove uuid (u # us) =
     (if uUuid u = uuid then map user_assign us else u # Users_Remove uuid us)"

section \<open>The contract of a registry of users\<close>

text \<open>
  What the lobby needs of the list: a finite map from the number of a user to name, table and seat,
  in which no two users have the same name.
\<close>

definition name_free :: "(nat \<Rightarrow> (string \<times> nat \<times> place) option) \<Rightarrow> nat \<Rightarrow> string \<Rightarrow> bool" where
  "name_free m uuid nick \<longleftrightarrow> (\<forall>v t p. v \<noteq> uuid \<longrightarrow> m v \<noteq> Some (nick, t, p))"

definition names_unique :: "(nat \<Rightarrow> (string \<times> nat \<times> place) option) \<Rightarrow> bool" where
  "names_unique m \<longleftrightarrow> (\<forall>i j n t p t' p'. m i = Some (n, t, p) \<longrightarrow> m j = Some (n, t', p') \<longrightarrow> i = j)"

datatype user_op = Add user | Move nat nat place | Rename nat string | Leave nat

locale registry =
  fixes lookup :: "'s \<Rightarrow> nat \<Rightarrow> (string \<times> nat \<times> place) option"
    and add :: "user \<Rightarrow> 's \<Rightarrow> bool \<times> 's"
    and move :: "nat \<Rightarrow> nat \<Rightarrow> place \<Rightarrow> 's \<Rightarrow> 's"
    and rename :: "nat \<Rightarrow> string \<Rightarrow> 's \<Rightarrow> bool \<times> 's"
    and remove :: "nat \<Rightarrow> 's \<Rightarrow> 's"
    and ok :: "'s \<Rightarrow> bool"
  assumes add: "ok s \<Longrightarrow> add u s = (b, s') \<Longrightarrow> ok s' \<and>
      (b \<longleftrightarrow> lookup s (uUuid u) = None \<and> name_free (lookup s) (uUuid u) (username (uIdentity u))) \<and>
      lookup s' = (if b then (lookup s)(uUuid u \<mapsto> (username (uIdentity u), uTable u, uPlace u)) else lookup s)"
    and move: "ok s \<Longrightarrow> ok (move i t p s) \<and>
      lookup (move i t p s) = (lookup s)(i := map_option (\<lambda>(n, _, _). (n, t, p)) (lookup s i))"
    and rename: "ok s \<Longrightarrow> rename i nick s = (b, s') \<Longrightarrow> ok s' \<and>
      (b \<longleftrightarrow> lookup s i \<noteq> None \<and> name_free (lookup s) i nick) \<and>
      lookup s' = (if b then (lookup s)(i := map_option (\<lambda>(_, t, p). (nick, t, p)) (lookup s i)) else lookup s)"
    and remove: "ok s \<Longrightarrow> ok (remove i s) \<and> lookup (remove i s) = (lookup s)(i := None)"
begin

lemma add_names: "ok s \<Longrightarrow> names_unique (lookup s) \<Longrightarrow> names_unique (lookup (snd (add u s)))"
  using add [of s u "fst (add u s)" "snd (add u s)"]
  by (auto simp: names_unique_def name_free_def split: if_splits)

lemma move_names: "ok s \<Longrightarrow> names_unique (lookup s) \<Longrightarrow> names_unique (lookup (move i t p s))"
  using move [of s i t p] by (fastforce simp: names_unique_def)

lemma rename_names: "ok s \<Longrightarrow> names_unique (lookup s) \<Longrightarrow> names_unique (lookup (snd (rename i nick s)))"
  using rename [of s i nick "fst (rename i nick s)" "snd (rename i nick s)"]
  by (fastforce simp: names_unique_def name_free_def split: if_splits)

lemma remove_names: "ok s \<Longrightarrow> names_unique (lookup s) \<Longrightarrow> names_unique (lookup (remove i s))"
  using remove [of s i] by (auto simp: names_unique_def split: if_splits)

lemma ok_ops: "ok s \<Longrightarrow> ok (snd (add u s))" "ok s \<Longrightarrow> ok (move i t p s)"
  "ok s \<Longrightarrow> ok (snd (rename i nick s))" "ok s \<Longrightarrow> ok (remove i s)"
  using add [of s u] move [of s i t p] rename [of s i nick] remove [of s i] by (metis prod.collapse)+

end

section \<open>The list is a registry\<close>

definition user_info :: "user list \<Rightarrow> nat \<Rightarrow> (string \<times> nat \<times> place) option" where
  "user_info us uuid = map_option (\<lambda>u. (username (uIdentity u), uTable u, uPlace u)) (find_user uuid us)"

definition users_ok :: "user list \<Rightarrow> bool" where
  "users_ok us \<longleftrightarrow> distinct (map uUuid us)"

lemma find_user_simps [simp]:
  "find_user uuid [] = None"
  "find_user uuid (u # us) = (if uUuid u = uuid then Some u else find_user uuid us)"
  by (simp_all add: find_user_def)

lemma find_user_append: "find_user uuid (us @ vs) = (case find_user uuid us of Some u \<Rightarrow> Some u | None \<Rightarrow> find_user uuid vs)"
  by (induction us) auto

lemma find_user_None: "find_user uuid us = None \<longleftrightarrow> uuid \<notin> uUuid ` set us"
  by (induction us) auto

lemma IsHere_find: "IsHere uuid us \<longleftrightarrow> find_user uuid us \<noteq> None"
  by (auto simp: IsHere_def find_user_None list_ex_iff image_iff)

lemma update_user_uuids: "(\<And>u. uUuid (f u) = uUuid u) \<Longrightarrow> map uUuid (update_user uuid f us) = map uUuid us"
  by (induction us) auto

lemma find_update_user:
  "(\<And>u. uUuid (f u) = uUuid u) \<Longrightarrow>
   find_user i (update_user uuid f us) = (if i = uuid then map_option f (find_user i us) else find_user i us)"
  by (induction us) auto

lemma user_assign_frame [simp]:
  "uUuid (user_assign u) = uUuid u" "uTable (user_assign u) = uTable u" "uPlace (user_assign u) = uPlace u"
  "username (uIdentity (user_assign u)) = username (uIdentity u)"
  by (simp_all add: user_assign_def identity_assign_def)

lemma user_info_assign: "user_info (map user_assign us) i = user_info us i"
  by (induction us) (auto simp: user_info_def)

lemma user_info_Cons: "user_info (u # us) = (user_info us)(uUuid u \<mapsto> (username (uIdentity u), uTable u, uPlace u))"
  by (auto simp: user_info_def)

lemma CheckNickName_info:
  assumes "users_ok us"
  shows "CheckNickName uuid nick us \<longleftrightarrow> \<not> name_free (user_info us) uuid nick"
  using assms
proof (induction us)
  case Nil
  then show ?case by (simp add: CheckNickName_def name_free_def user_info_def)
next
  case (Cons u us)
  have "user_info us (uUuid u) = None"
    using Cons.prems by (simp add: user_info_def find_user_None users_ok_def)
  moreover have "CheckNickName uuid nick us \<longleftrightarrow> \<not> name_free (user_info us) uuid nick"
    using Cons by (simp add: users_ok_def)
  moreover have "CheckNickName uuid nick (u # us) \<longleftrightarrow>
     uUuid u \<noteq> uuid \<and> username (uIdentity u) = nick \<or> CheckNickName uuid nick us"
    by (simp add: CheckNickName_def)
  ultimately show ?case unfolding user_info_Cons name_free_def by auto
qed

lemma Users_Remove_info:
  assumes "users_ok us"
  shows "users_ok (Users_Remove i us) \<and> user_info (Users_Remove i us) = (user_info us)(i := None)"
proof -
  have sub: "set (map uUuid (Users_Remove i us)) \<subseteq> set (map uUuid us)" for us
    by (induction us) auto
  from assms show ?thesis
  proof (induction us)
    case Nil
    then show ?case by (auto simp: users_ok_def user_info_def)
  next
    case (Cons u us)
    have ok: "users_ok us" "uUuid u \<notin> set (map uUuid us)" using Cons.prems by (auto simp: users_ok_def)
    show ?case
    proof (cases "uUuid u = i")
      case True
      have "user_info us i = None" using ok(2) True by (simp add: user_info_def find_user_None)
      then have "user_info (map user_assign us) = (user_info (u # us))(i := None)"
        using True by (auto simp: user_info_assign user_info_Cons)
      moreover have "users_ok (map user_assign us)" using ok(1) by (simp add: users_ok_def o_def)
      ultimately show ?thesis using True by simp
    next
      case False
      with Cons.IH [OF ok(1)] ok sub [of us] show ?thesis
        by (auto simp: user_info_Cons users_ok_def fun_upd_twist)
    qed
  qed
qed

interpretation users: registry user_info AddEntry SetPlayingTable ChangeNickName Users_Remove users_ok
proof
  show "users_ok s' \<and> (b \<longleftrightarrow> user_info s (uUuid u) = None \<and> name_free (user_info s) (uUuid u) (username (uIdentity u))) \<and>
      user_info s' = (if b then (user_info s)(uUuid u \<mapsto> (username (uIdentity u), uTable u, uPlace u)) else user_info s)"
    if "users_ok s" "AddEntry u s = (b, s')" for s u b s'
  proof (cases b)
    case True
    with that(2) have s': "s' = s @ [u]" "\<not> IsHere (uUuid u) s" "\<not> CheckNickName (uUuid u) (username (uIdentity u)) s"
      by (auto simp: AddEntry_def split: if_splits)
    have "user_info s' = (user_info s)(uUuid u \<mapsto> (username (uIdentity u), uTable u, uPlace u))"
      using s'(2) by (auto simp: s'(1) user_info_def find_user_append IsHere_find split: option.split)
    then show ?thesis
      using s' that(1) True CheckNickName_info [OF that(1)] by (auto simp: users_ok_def IsHere_find find_user_None user_info_def)
  next
    case False
    with that show ?thesis
      using CheckNickName_info [OF that(1)] by (auto simp: AddEntry_def IsHere_find user_info_def split: if_splits)
  qed
  show "users_ok (SetPlayingTable i t p s) \<and>
      user_info (SetPlayingTable i t p s) = (user_info s)(i := map_option (\<lambda>(n, _, _). (n, t, p)) (user_info s i))"
    if "users_ok s" for s i t p
    using that by (auto simp: SetPlayingTable_def users_ok_def update_user_uuids user_info_def find_update_user option.map_comp o_def)
  show "users_ok s' \<and> (b \<longleftrightarrow> user_info s i \<noteq> None \<and> name_free (user_info s) i nick) \<and>
      user_info s' = (if b then (user_info s)(i := map_option (\<lambda>(_, t, p). (nick, t, p)) (user_info s i)) else user_info s)"
    if "users_ok s" "ChangeNickName i nick s = (b, s')" for s i nick b s'
  proof -
    let ?s = "update_user i (\<lambda>u. u\<lparr>uIdentity := (uIdentity u)\<lparr>username := nick\<rparr>\<rparr>) s"
    have new: "user_info ?s = (user_info s)(i := map_option (\<lambda>(_, t, p). (nick, t, p)) (user_info s i))"
      by (auto simp: user_info_def find_update_user option.map_comp o_def)
    have ok: "users_ok ?s" using that(1) by (simp add: users_ok_def update_user_uuids)
    have none: "user_info ?s = user_info s" if "user_info s i = None" using new that by auto
    show ?thesis
      using that(2) new ok none that(1) CheckNickName_info [OF that(1)]
      by (auto simp: ChangeNickName_def IsHere_find user_info_def split: if_splits)
  qed
  show "users_ok (Users_Remove i s) \<and> user_info (Users_Remove i s) = (user_info s)(i := None)" if "users_ok s" for s i
    by (rule Users_Remove_info [OF that])
qed

section \<open>Runs\<close>

text \<open>The specification of one request, on maps.\<close>

fun map_step :: "user_op \<Rightarrow> (nat \<Rightarrow> (string \<times> nat \<times> place) option) \<Rightarrow> nat \<Rightarrow> (string \<times> nat \<times> place) option" where
  "map_step (Add u) m =
     (if m (uUuid u) = None \<and> name_free m (uUuid u) (username (uIdentity u))
      then m(uUuid u \<mapsto> (username (uIdentity u), uTable u, uPlace u)) else m)"
| "map_step (Move i t p) m = m(i := map_option (\<lambda>(n, _, _). (n, t, p)) (m i))"
| "map_step (Rename i nick) m =
     (if name_free m i nick then m(i := map_option (\<lambda>(_, t, p). (nick, t, p)) (m i)) else m)"
| "map_step (Leave i) m = m(i := None)"

fun run_users :: "user_op list \<Rightarrow> user list \<Rightarrow> user list" where
  "run_users [] us = us"
| "run_users (Add u # ops) us = run_users ops (snd (AddEntry u us))"
| "run_users (Move i t p # ops) us = run_users ops (SetPlayingTable i t p us)"
| "run_users (Rename i nick # ops) us = run_users ops (snd (ChangeNickName i nick us))"
| "run_users (Leave i # ops) us = run_users ops (Users_Remove i us)"

context registry
begin

lemma add_refines: "ok s \<Longrightarrow> lookup (snd (add u s)) = map_step (Add u) (lookup s)"
  using add [of s u "fst (add u s)" "snd (add u s)"] by auto

lemma rename_refines: "ok s \<Longrightarrow> lookup (snd (rename i nick s)) = map_step (Rename i nick) (lookup s)"
proof -
  assume "ok s"
  from rename [OF this, of i nick "fst (rename i nick s)" "snd (rename i nick s)"]
  show ?thesis by (cases "lookup s i") (auto simp: fun_upd_idem)
qed

lemma move_refines: "ok s \<Longrightarrow> lookup (move i t p s) = map_step (Move i t p) (lookup s)"
  using move [of s i t p] by simp

lemma remove_refines: "ok s \<Longrightarrow> lookup (remove i s) = map_step (Leave i) (lookup s)"
  using remove [of s i] by simp

end

lemma run_users_registry:
  assumes "users_ok us" "names_unique (user_info us)"
  shows "users_ok (run_users ops us) \<and> names_unique (user_info (run_users ops us)) \<and>
    user_info (run_users ops us) = fold map_step ops (user_info us)"
  using assms
proof (induction ops arbitrary: us)
  case Nil
  then show ?case by simp
next
  case (Cons op ops)
  note ok = users.ok_ops [OF Cons.prems(1)]
  show ?case
  proof (cases op)
    case (Add u)
    show ?thesis
      using Cons.IH [OF ok(1) users.add_names [OF Cons.prems]]
      unfolding Add run_users.simps fold_simps users.add_refines [OF Cons.prems(1)] .
  next
    case (Move i t p)
    show ?thesis
      using Cons.IH [OF ok(2) users.move_names [OF Cons.prems]]
      unfolding Move run_users.simps fold_simps users.move_refines [OF Cons.prems(1)] .
  next
    case (Rename i nick)
    show ?thesis
      using Cons.IH [OF ok(3) users.rename_names [OF Cons.prems]]
      unfolding Rename run_users.simps fold_simps users.rename_refines [OF Cons.prems(1)] .
  next
    case (Leave i)
    show ?thesis
      using Cons.IH [OF ok(4) users.remove_names [OF Cons.prems]]
      unfolding Leave run_users.simps fold_simps users.remove_refines [OF Cons.prems(1)] .
  qed
qed

lemma names_distinct:
  assumes "users_ok us" "names_unique (user_info us)"
  shows "distinct (map (\<lambda>u. username (uIdentity u)) us)"
proof (rule distinct_conv_nth [THEN iffD2], intro allI impI)
  fix i j assume ij: "i < length (map (\<lambda>u. username (uIdentity u)) us)" "j < length (map (\<lambda>u. username (uIdentity u)) us)" "i \<noteq> j"
  have at: "find_user (uUuid (us ! k)) us = Some (us ! k)" if "k < length us" for k
    using assms(1) that
  proof (induction us arbitrary: k)
    case (Cons u us)
    then show ?case by (cases k) (auto simp: users_ok_def)
  qed simp
  have "uUuid (us ! i) \<noteq> uUuid (us ! j)"
    using ij assms(1) by (auto simp: users_ok_def distinct_conv_nth)
  moreover have "user_info us (uUuid (us ! k)) = Some (username (uIdentity (us ! k)), uTable (us ! k), uPlace (us ! k))"
    if "k < length us" for k
    using at [OF that] by (simp add: user_info_def)
  ultimately show "map (\<lambda>u. username (uIdentity u)) us ! i \<noteq> map (\<lambda>u. username (uIdentity u)) us ! j"
    using ij assms(2) by (auto simp: names_unique_def)
qed

section \<open>Property\<close>

text \<open>
  The list of users is a registry with unique names: after any sequence of log-ins, moves between
  tables, changes of name and departures, the list agrees with the map that the same requests build
  (a log-in counts only for a new number with a free name, a change of name only when no other user
  has the name), and no two users share a number or a name.
\<close>

theorem user_list_is_a_registry:
  "user_info (run_users ops []) = fold map_step ops (\<lambda>_. None) \<and>
   distinct (GetAll (run_users ops [])) \<and> distinct (map (\<lambda>u. username (uIdentity u)) (run_users ops []))"
proof -
  have none: "user_info [] = (\<lambda>_. None)" by (simp add: user_info_def fun_eq_iff)
  then have "users_ok []" "names_unique (user_info [])" by (simp_all add: users_ok_def names_unique_def)
  from run_users_registry [OF this] show ?thesis
    unfolding none using names_distinct by (auto simp: users_ok_def GetAll_def)
qed

text \<open>A user who leaves costs every later user the avatar: it becomes the user's name.\<close>

lemma departure_overwrites_avatars:
  "map (avatar \<circ> uIdentity) (Users_Remove 10
     [\<lparr>uUuid = 10, uTable = 1, uPlace = NOWHERE, uIdentity = Identity_new\<rparr>,
      \<lparr>uUuid = 11, uTable = 1, uPlace = NOWHERE,
       uIdentity = \<lparr>username = ''Ann'', avatar = ''ann.png'', gender = 2, token = []\<rparr>\<rparr>]) = [''Ann'']"
  by (simp add: user_assign_def identity_assign_def)

end
