(* ===== verification/Lobby.thy ===== *)
theory Lobby
  imports Table_Facts Unique_Ids User_Lists Json_Reader
begin

text \<open>
  The lobby of a server (Lobby.h, Lobby.cpp; requests of Network.h): its tables, the pools of numbers,
  the connected users and the peers that receive the replies, the handler \<open>Deliver\<close> of every request,
  and the arrival and departure of users. A peer is a number that stands for a session. Observers,
  which only read the messages, the log and the mutex are left out. \<open>None\<close> is undefined behaviour of
  the JSON parser or of a table.
\<close>

section \<open>State\<close>

record request =
  src_uuid :: nat
  dest_uuid :: nat
  arg :: string

record security =
  webId :: string
  gek :: string
  passPhrase :: string

record lobby =
  mTables :: "playing_table list"
  mTableIds :: unique_id
  mUserIds :: unique_id
  mUsers :: "user list"
  lobbyName :: string
  lobbyAdminMode :: bool
  mEvCounter :: nat
  mPeers :: "(nat \<times> nat) list"
  mAllowedClients :: "(string \<times> security) list"

definition cErrorFull :: nat where "cErrorFull = 0"
definition cErrorNickNameUsed :: nat where "cErrorNickNameUsed = 1"
definition cErrorTableIdUnknown :: nat where "cErrorTableIdUnknown = 2"

definition Lobby_new :: "bool \<Rightarrow> lobby" where
  "Lobby_new adminMode =
     \<lparr>mTables = [], mTableIds = UniqueId_new TABLES_UID (TABLES_UID + MAXIMUM_TABLES),
      mUserIds = UniqueId_new USERS_UID MAXIMUM_USERS, mUsers = [], lobbyName = [],
      lobbyAdminMode = adminMode, mEvCounter = 0, mPeers = [], mAllowedClients = []\<rparr>"

definition AddAllowedClient :: "string \<Rightarrow> string \<Rightarrow> string \<Rightarrow> lobby \<Rightarrow> lobby" where
  "AddAllowedClient web key pass l =
     l\<lparr>mAllowedClients := smap_put web \<lparr>webId = web, gek = key, passPhrase = pass\<rparr> (mAllowedClients l)\<rparr>"

definition GetSecurity :: "string \<Rightarrow> lobby \<Rightarrow> security option" where
  "GetSecurity playerId l = map_of (mAllowedClients l) playerId"

section \<open>Tables\<close>

text \<open>The place of the first dealer is drawn at random.\<close>

definition Lobby_CreateTable :: "string \<Rightarrow> game \<Rightarrow> place \<Rightarrow> lobby \<Rightarrow> nat \<times> lobby" where
  "Lobby_CreateTable tableName g randomPlace l =
     (let (ident, pool) = TakeId (mTableIds l);
          l1 = l\<lparr>mTableIds := pool\<rparr>
      in if 0 < ident then
           (let t1 = Table_new\<lparr>mId := ident\<rparr>;
                t2 = t1\<lparr>mName := tableName\<rparr>;
                t3 = SetAdminMode (lobbyAdminMode l1) t2;
                t4 = Table_Initialize (SetupGame g t3);
                t5 = Table_CreateTable 4 randomPlace t4
            in (ident, l1\<lparr>mTables := mTables l1 @ [t5]\<rparr>))
         else (ident, l1))"

definition Lobby_Initialize :: "string \<Rightarrow> (string \<times> place) list \<Rightarrow> lobby \<Rightarrow> lobby" where
  "Lobby_Initialize name tables l =
     fold (\<lambda>(tableName, randomPlace) l. snd (Lobby_CreateTable tableName Game_default randomPlace l)) tables
       (l\<lparr>lobbyName := name, mEvCounter := 0\<rparr>)"

fun erase_table :: "nat \<Rightarrow> playing_table list \<Rightarrow> bool \<times> playing_table list" where
  "erase_table ident [] = (False, [])"
| "erase_table ident (t # ts) =
     (if mId t = ident then (True, ts) else (let (b, ts') = erase_table ident ts in (b, t # ts')))"

definition DestroyTable :: "nat \<Rightarrow> lobby \<Rightarrow> bool \<times> lobby" where
  "DestroyTable ident l =
     (let (ret, ts) = erase_table ident (mTables l)
      in (ret, l\<lparr>mTables := ts, mTableIds := snd (ReleaseId ident (mTableIds l))\<rparr>))"

definition DeleteTables :: "lobby \<Rightarrow> lobby" where
  "DeleteTables l = l\<lparr>mTables := []\<rparr>"

definition GetTableName :: "nat \<Rightarrow> lobby \<Rightarrow> string" where
  "GetTableName tableId l =
     fold (\<lambda>t name. if mId t = tableId then mName t else name) (mTables l) ''error_table_not_found''"

definition GetNumberOfTables :: "lobby \<Rightarrow> nat" where
  "GetNumberOfTables l = length (mTables l)"

definition GetNumberOfPlayers :: "lobby \<Rightarrow> nat" where
  "GetNumberOfPlayers l = length (mUsers l)"

section \<open>Replies\<close>

text \<open>What the peers receive, in order: to the peer of a number, or to all peers for the lobby's number.\<close>

definition Lobby_Send :: "reply list \<Rightarrow> lobby \<Rightarrow> (nat \<times> string) list" where
  "Lobby_Send out l =
     concat (map (\<lambda>r.
       let data = Object_ToString (- 1) (rData r)
       in concat (map (\<lambda>uuid.
            case map_of (mPeers l) uuid of
              Some peer \<Rightarrow> [(peer, data)]
            | None \<Rightarrow> if uuid = LOBBY_UID then map (\<lambda>(u, peer). (peer, data)) (mPeers l) else []) (rDest r))) out)"

definition Lobby_Error :: "nat \<Rightarrow> nat \<Rightarrow> reply list" where
  "Lobby_Error err dest =
     (let errors = [''Table is full'', ''Nickname already used'', ''Unknown table ID'']
      in if err < length errors then
           [\<lparr>rDest = [dest],
             rData = make_object [(''cmd'', JString ''Error''), (''code'', JInt (int err)), (''reason'', JString (errors ! err))]\<rparr>]
         else [])"

definition PlayerStatus :: "nat \<Rightarrow> lobby \<Rightarrow> (string \<times> json) list" where
  "PlayerStatus uuid l =
     (case Users_GetEntry uuid (mUsers l) of
        Some entry \<Rightarrow>
          Identity_ToJson (uIdentity entry)
            (make_object [(''uuid'', JInt (int uuid)), (''table'', JInt (int (uTable entry))),
                          (''place'', JString (Place_ToString (uPlace entry)))])
      | None \<Rightarrow> [])"

definition SendPlayerEvent :: "nat \<Rightarrow> string \<Rightarrow> lobby \<Rightarrow> reply list \<times> lobby" where
  "SendPlayerEvent uuid event l =
     (case Users_GetEntry uuid (mUsers l) of
        Some _ \<Rightarrow>
          (let l1 = l\<lparr>mEvCounter := (mEvCounter l + 1) mod 2 ^ 32\<rparr>
           in ([\<lparr>rDest = GetAll (mUsers l1),
                 rData = make_object [(''cmd'', JString ''LobbyEvent''), (''type'', JString event),
                           (''counter'', JInt (int (mEvCounter l1))), (''player'', JObj (PlayerStatus uuid l1))]\<rparr>], l1))
      | None \<Rightarrow> ([], l))"

definition RemovePlayerFromTable :: "nat \<Rightarrow> nat \<Rightarrow> lobby \<Rightarrow> reply list \<times> lobby" where
  "RemovePlayerFromTable uuid tableId l =
     (let l1 = l\<lparr>mTables := map (\<lambda>t. if mId t = tableId then RemovePlayer uuid t else t) (mTables l)\<rparr>;
          l2 = (if IsHere uuid (mUsers l1) then l1\<lparr>mUsers := SetPlayingTable uuid 0 NOWHERE (mUsers l1)\<rparr> else l1)
      in SendPlayerEvent uuid ''LeaveTable'' l2)"

section \<open>Users\<close>

definition AddUser :: "nat \<Rightarrow> lobby \<Rightarrow> nat \<times> lobby" where
  "AddUser peer l =
     (let (uuid, pool) = TakeId (mUserIds l)
      in (uuid, l\<lparr>mUserIds := pool, mPeers := smap_put uuid peer (mPeers l)\<rparr>))"

text \<open>The replies built here are not sent, and the peer stays.\<close>

definition RemoveUser :: "nat \<Rightarrow> lobby \<Rightarrow> lobby" where
  "RemoveUser uuid l =
     (let tableId = GetPlayerTable uuid (mUsers l);
          l1 = (if tableId \<noteq> LOBBY_UID then snd (RemovePlayerFromTable uuid tableId l) else l)
      in l1\<lparr>mUsers := Users_Remove uuid (mUsers l1), mUserIds := snd (ReleaseId uuid (mUserIds l1))\<rparr>)"

definition RemoveAllUsers :: "lobby \<Rightarrow> lobby" where
  "RemoveAllUsers l = l\<lparr>mUsers := []\<rparr>"

section \<open>Requests\<close>

text \<open>The loop that forwards a message to the table with the number.\<close>

fun forward :: "environment \<Rightarrow> nat \<Rightarrow> json \<Rightarrow> nat \<Rightarrow> playing_table list \<Rightarrow> (reply list \<times> playing_table list) option" where
  "forward env src doc tableId [] = Some ([], [])"
| "forward env src doc tableId (t # ts) =
     Option.bind (if mId t = tableId then ExecuteRequest env src doc t else Some (False, [], t)) (\<lambda>(f, out, t').
       map_option (\<lambda>(out', ts'). (out @ out', t' # ts')) (forward env src doc tableId ts))"

text \<open>The loop that seats a player at the first table with the number: the place, that table, all tables.\<close>

fun seat_player :: "nat \<Rightarrow> nat \<Rightarrow> playing_table list \<Rightarrow> (place \<times> playing_table \<times> playing_table list) option" where
  "seat_player uuid tableId [] = None"
| "seat_player uuid tableId (t # ts) =
     (if mId t = tableId then
        (let ((p, nb), t') = AddPlayer uuid t in Some (p, t', t' # ts))
      else map_option (\<lambda>(p, t', ts'). (p, t', t # ts')) (seat_player uuid tableId ts))"

definition u32_field :: "string \<Rightarrow> json \<Rightarrow> nat" where
  "u32_field key doc = nat (to_u32 (GetInteger (FindValue key doc)))"

definition do_login :: "nat \<Rightarrow> json \<Rightarrow> lobby \<Rightarrow> reply list \<times> lobby" where
  "do_login src doc l =
     (if IsTaken src (mUserIds l) then
        (let entry = \<lparr>uUuid = src, uTable = LOBBY_UID, uPlace = NOWHERE,
                      uIdentity = Identity_FromJson (GetObj doc) Identity_new\<rparr>;
             (added, us) = AddEntry entry (mUsers l)
         in if added then
              (let l1 = l\<lparr>mUsers := us\<rparr>;
                   tables = map (\<lambda>t. JObj (make_object [(''name'', JString (mName t)), (''uuid'', JInt (int (mId t)))])) (mTables l1);
                   players = map (\<lambda>u. JObj (PlayerStatus (uUuid u) l1)) (Users_Get LOBBY_UID (mUsers l1));
                   granted = \<lparr>rDest = [src],
                     rData = make_object [(''cmd'', JString ''AccessGranted''), (''tables'', JArr tables), (''players'', JArr players)]\<rparr>;
                   (out, l2) = SendPlayerEvent src ''New'' l1
               in (granted # out, l2))
            else (Lobby_Error cErrorNickNameUsed src, l))
      else ([], l))"

definition do_join :: "nat \<Rightarrow> json \<Rightarrow> lobby \<Rightarrow> (reply list \<times> lobby) option" where
  "do_join src doc l =
     (let tableId = u32_field ''table_id'' doc
      in if GetPlayerTable src (mUsers l) = LOBBY_UID then
           (case seat_player src tableId (mTables l) of
              None \<Rightarrow> Some (Lobby_Error cErrorTableIdUnknown src, l)
            | Some (assigned, t, ts) \<Rightarrow>
                Option.bind (Engine_GetDeck assigned (mEngine t)) (\<lambda>deck.
                  let l1 = l\<lparr>mTables := ts\<rparr>
                  in if Place_IsValid assigned then
                       (let l2 = l1\<lparr>mUsers := SetPlayingTable src tableId assigned (mUsers l1)\<rparr>;
                            joined = \<lparr>rDest = [src],
                              rData = make_object [(''cmd'', JString ''ReplyJoinTable''), (''table_id'', JInt (int tableId)),
                                (''place'', JString (Place_ToString assigned)), (''deck'', JString (Deck_ToString deck)),
                                (''context'', JObj (SaveToJson (mCtx (mEngine t)) []))]\<rparr>;
                            (out, l3) = SendPlayerEvent src ''JoinTable'' l2
                        in Some (joined # out, l3))
                     else Some (Lobby_Error cErrorFull src, l1)))
         else Some ([], l))"

definition do_quit :: "nat \<Rightarrow> json \<Rightarrow> lobby \<Rightarrow> reply list \<times> lobby" where
  "do_quit src doc l =
     (let tableId = u32_field ''table_id'' doc
      in if GetPlayerTable src (mUsers l) = tableId then RemovePlayerFromTable src tableId l else ([], l))"

definition do_nickname :: "nat \<Rightarrow> json \<Rightarrow> lobby \<Rightarrow> reply list \<times> lobby" where
  "do_nickname src doc l =
     (let (changed, us) = ChangeNickName src (GetString (FindValue ''nickname'' doc)) (mUsers l)
      in if changed then SendPlayerEvent src ''Nick'' (l\<lparr>mUsers := us\<rparr>)
         else (Lobby_Error cErrorNickNameUsed src, l))"

definition lobby_request :: "nat \<Rightarrow> json \<Rightarrow> lobby \<Rightarrow> (bool \<times> reply list \<times> lobby) option" where
  "lobby_request src doc l =
     (let cmd = GetString (FindValue ''cmd'' doc)
      in if cmd = ''ChatMessage'' then
           Some (True, [\<lparr>rDest = [u32_field ''target'' doc], rData = GetObj doc\<rparr>], l)
         else if cmd = ''ReplyLogin'' then Some (True, do_login src doc l)
         else if cmd = ''RequestJoinTable'' then map_option (Pair True) (do_join src doc l)
         else if cmd = ''RequestQuitTable'' then Some (True, do_quit src doc l)
         else if cmd = ''RequestChangeNickname'' then Some (True, do_nickname src doc l)
         else Some (False, [], l))"

definition handle_document :: "environment \<Rightarrow> request \<Rightarrow> json \<Rightarrow> lobby \<Rightarrow> (bool \<times> reply list \<times> lobby) option" where
  "handle_document env req doc l =
     (if IsTaken (dest_uuid req) (mTableIds l) then
        (let tableId = GetPlayerTable (src_uuid req) (mUsers l)
         in if tableId = dest_uuid req then
              map_option (\<lambda>(out, ts). (True, out, l\<lparr>mTables := ts\<rparr>))
                (forward env (src_uuid req) doc tableId (mTables l))
            else Some (False, [], l))
      else if dest_uuid req = LOBBY_UID then lobby_request (src_uuid req) doc l
      else Some (False, [], l))"

text \<open>The result, what the peers receive, and the new lobby.\<close>

definition Lobby_Deliver :: "environment \<Rightarrow> request \<Rightarrow> lobby \<Rightarrow> (bool \<times> (nat \<times> string) list \<times> lobby) option" where
  "Lobby_Deliver env req l =
     (case ParseString (arg req) of
        Document doc \<Rightarrow>
          map_option (\<lambda>(ret, out, l'). (ret, Lobby_Send out l', l')) (handle_document env req doc l)
      | Failure _ \<Rightarrow> Some (False, [], l)
      | _ \<Rightarrow> None)"

end
