(* ===== verification/Table_Example.thy ===== *)
theory Table_Example
  imports Table_Facts
begin

text \<open>
  A table of four players evaluated from its opening to the first card of a deal. The states it goes
  through are concrete reachable tables on which the properties of a table are witnessed.
\<close>

section \<open>A played-out example\<close>

text \<open>Runs a list of messages, each with the number of its sender.\<close>

fun run_messages :: "environment \<Rightarrow> (nat \<times> (string \<times> json) list) list \<Rightarrow> playing_table \<Rightarrow> playing_table option" where
  "run_messages env [] t = Some t"
| "run_messages env ((src, m) # ms) t =
     Option.bind (ExecuteRequest env src (JObj m) t) (\<lambda>(_, _, t'). run_messages env ms t')"

fun run_joins :: "nat list \<Rightarrow> playing_table \<Rightarrow> playing_table" where
  "run_joins [] t = t"
| "run_joins (u # us) t = run_joins us (snd (AddPlayer u t))"

lemma run_messages_reachable:
  "sound_environment n env \<Longrightarrow> reachable n t \<Longrightarrow> run_messages env ms t = Some t' \<Longrightarrow> reachable n t'"
proof (induction ms arbitrary: t)
  case Nil
  then show ?case by simp
next
  case (Cons a ms)
  obtain src m where a: "a = (src, m)" by (cases a)
  with Cons.prems(3) obtain f out t1 where "ExecuteRequest env src (JObj m) t = Some (f, out, t1)" "run_messages env ms t1 = Some t'"
    by (auto simp: bind_eq_Some_conv)
  moreover from this(1) Cons.prems(1,2) have "reachable n t1" by (blast intro: reachable_with.step table_step.message)
  ultimately show ?case using Cons by blast
qed

lemma run_joins_reachable: "reachable n t \<Longrightarrow> reachable n (run_joins us t)"
proof (induction us arbitrary: t)
  case Nil
  then show ?case by simp
next
  case (Cons u us)
  have "reachable n (snd (AddPlayer u t))"
    using Cons.prems by (intro reachable_with.step [OF Cons.prems table_step.join]) (rule prod.collapse [symmetric])
  with Cons.IH show ?case by simp
qed

definition example_env :: environment where
  "example_env = \<lparr>std_shuffle = (\<lambda>seed cs. cs), clock = [7], deal_disk = \<lparr>fileOf = (\<lambda>f. None), canWrite = (\<lambda>f. False)\<rparr>, home_path = []\<rparr>"

lemma example_env_sound: "sound_environment n example_env"
  by (simp add: sound_environment_def shuffle_permutes_def proper_deal_files_def example_env_def LoadFile_def ParseFile_def)

definition acks_of :: "string \<Rightarrow> (nat \<times> (string \<times> json) list) list" where
  "acks_of name = map (\<lambda>u. (u, [(''cmd'', JString ''Ack''), (''step'', JString name)])) [10, 11, 12, 13]"

definition seated_example :: playing_table where
  "seated_example = run_joins [10, 11, 12, 13] (open_table 1000 ''Table 1'' False Game_default 4 SOUTH)"

lemma bind_weak: "x = y \<Longrightarrow> Option.bind x f = Option.bind y f"
  by simp

lemma map_option_weak: "x = y \<Longrightarrow> map_option f x = map_option f y"
  by simp

lemma case_prod_weak: "x = y \<Longrightarrow> case_prod f x = case_prod f y"
  by simp

text \<open>Evaluation from the outside in: a body is entered only when its argument is a value.\<close>

lemmas eval_congs = let_weak_cong if_weak_cong bind_weak map_option_weak case_prod_weak option.case_cong_weak

definition example_hand :: "nat \<Rightarrow> deck" where
  "example_hand i = Deck_empty\<lparr>mDeck := take 18 (drop (i * 18) tarot_cards)\<rparr>"

definition example_dog :: deck where
  "example_dog = Deck_empty\<lparr>mDeck := drop 72 tarot_cards\<rparr>"

lemma Mid_eq:
  assumes "from_pos < Deck_Size d" "from_pos + n \<le> Deck_Size d" "Deck_Size d < 2 ^ 32"
  shows "Deck_Mid from_pos n d = Deck_empty\<lparr>mDeck := take n (drop from_pos (mDeck d))\<rparr>"
proof -
  have "mOwner (Deck_Mid from_pos n d) = mOwner Deck_empty" by (simp add: Deck_Mid_def Let_def)
  with Mid_cards [OF assms] show ?thesis by (intro deck.equality) (simp_all add: Deck_empty_def)
qed

lemma MidFrom_eq:
  assumes "from_pos < Deck_Size d" "Deck_Size d < 2 ^ 32"
  shows "Deck_MidFrom from_pos d = Deck_empty\<lparr>mDeck := drop from_pos (mDeck d)\<rparr>"
proof -
  have "mOwner (Deck_MidFrom from_pos d) = mOwner Deck_empty" by (simp add: Deck_MidFrom_def Deck_Mid_def Let_def)
  with MidFrom_cards [OF assms] show ?thesis by (intro deck.equality) (simp_all add: Deck_empty_def)
qed

lemma example_hand_valid:
  "\<not> Deck_HasOnlyOneOfTrump (example_hand 0)" "\<not> Deck_HasOnlyOneOfTrump (example_hand 1)"
  "\<not> Deck_HasOnlyOneOfTrump (example_hand 2)" "\<not> Deck_HasOnlyOneOfTrump (example_hand 3)"
  by code_simp+

lemma random_example:
  "CreateRandomDeal (\<lambda>s cs. cs) 4 7 DealGenerator_new =
    (True, \<lparr>dgPlayers = [example_hand 0, example_hand 1, example_hand 2, example_hand 3, Deck_empty],
            mDogDeck = example_dog, dgFirstPlayer = NOWHERE, dgNbPlayers = 4, dgSeed = 7\<rparr>)"
proof -
  have deck: "Deck_Shuffle (\<lambda>s cs. cs) 7 (Deck_CreateTarotDeck Deck_empty) = Deck_empty\<lparr>mDeck := tarot_cards\<rparr>"
    by (simp add: Deck_Shuffle_def Deck_CreateTarotDeck_def Deck_Clear_def Deck_empty_def)
  have hand: "deal_hand (Deck_empty\<lparr>mDeck := tarot_cards\<rparr>) 18 i (ps, True) = (ps[i := example_hand i], True)"
    if "i < 4" "ps ! i = Deck_empty" "\<not> Deck_HasOnlyOneOfTrump (example_hand i)" for i ps
  proof -
    have "Deck_Append (Deck_Mid (i * 18) 18 (Deck_empty\<lparr>mDeck := tarot_cards\<rparr>)) Deck_empty = example_hand i"
      using that by (subst Mid_eq) (simp_all add: Deck_Size_def Deck_Append_def example_hand_def Deck_empty_def length_tarot_cards)
    with that(2,3) show ?thesis by (simp add: deal_hand_def)
  qed
  have four: "[0..<4] = [0, 1, 2, 3::nat]" by (simp add: upt_rec)
  have five: "replicate 5 Deck_empty = [Deck_empty, Deck_empty, Deck_empty, Deck_empty, Deck_empty]"
    by (simp add: numeral_eq_Suc)
  have ps: "fold (deal_hand (Deck_empty\<lparr>mDeck := tarot_cards\<rparr>) 18) [0..<4] (replicate 5 Deck_empty, True)
     = ([example_hand 0, example_hand 1, example_hand 2, example_hand 3, Deck_empty], True)"
    by (simp add: four five hand example_hand_valid [simplified])
  have dog: "Deck_MidFrom 72 (Deck_empty\<lparr>mDeck := tarot_cards\<rparr>) = example_dog"
    by (subst MidFrom_eq) (simp_all add: Deck_Size_def example_dog_def Deck_empty_def length_tarot_cards)
  have clear: "dgPlayers (DealGenerator_Clear DealGenerator_new) = replicate 5 Deck_empty"
    by (simp add: DealGenerator_Clear_def DealGenerator_new_def Deck_Clear_def Deck_empty_def)
  show ?thesis
    unfolding CreateRandomDeal_def Let_def
    by (simp add: deck ps clear dog) (simp add: DealGenerator_Clear_def DealGenerator_new_def)
qed

definition example_table :: "engine \<Rightarrow> nat \<Rightarrow> playing_table" where
  "example_table e turns = \<lparr>mEngine = e,
     tPlayers = [\<lparr>chUuid = 10, chAck = False\<rparr>, \<lparr>chUuid = 11, chAck = False\<rparr>, \<lparr>chUuid = 12, chAck = False\<rparr>,
                 \<lparr>chUuid = 13, chAck = False\<rparr>, Challenger_Clear],
     mFull = False, mAdmin = 10, mName = ''Table 1'', mId = 1000, mScore = Score_NewGame turns,
     mGame = Game_default, mAdminMode = False\<rparr>"

lemma replicate_five: "replicate 5 x = [x, x, x, x, x]"
  by (simp add: numeral_eq_Suc)

lemma update_cells:
  "(x # xs)[0 := y] = y # xs" "(a # x # xs)[Suc 0 := y] = a # y # xs"
  "(a # b # x # xs)[2 := y] = a # b # y # xs" "(a # b # c # x # xs)[3 := y] = a # b # c # y # xs"
  by (simp_all add: numeral_eq_Suc)

lemma seated_example_eq: "seated_example = example_table (Engine_CreateTable 4 SOUTH (Engine_Initialize Engine_new)) 5"
  unfolding seated_example_def example_table_def
  by (simp add: open_table_def Table_CreateTable_def Table_Initialize_def SetupGame_def SetAdminMode_def Table_new_def
    Engine_CreateTable_def Score_new_def DEFAULT_NUMBER_OF_TURNS_def AddPlayer_def GetPlayerPlace_def Challenger_Clear_def INVALID_UID_def
    Context_Initialize_def upt_rec Place_of_def replicate_five update_cells del: list_update.simps
    cong: eval_congs)

lemma ack_request:
  "ExecuteRequest env src (JObj [(''cmd'', JString ''Ack''), (''step'', JString name)]) t =
     (if GetPlayerPlace src t = NOWHERE \<or> Ack_FromString name = BAD_STEP then Some (False, [], t)
      else (let (allAcked, t1) = Sync (Ack_FromString name) src t
            in if allAcked then ack_step env (Ack_FromString name) t1 else Some (False, [], t1)))"
proof -
  have "FindValue ''cmd'' (JObj [(''cmd'', JString ''Ack''), (''step'', JString name)]) = JString ''Ack''"
    "FindValue ''step'' (JObj [(''cmd'', JString ''Ack''), (''step'', JString name)]) = JString name"
    by (simp_all add: FindValue_def)
  then show ?thesis by (simp add: ExecuteRequest_def do_ack_def Let_def)
qed

lemma bind_run_nil:
  "Option.bind x (\<lambda>(_, _, t). run_messages env [] t) = map_option (snd \<circ> snd) x"
  by (cases x) auto

lemma ack_round:
  assumes "mNbPlayers (mCtx e) = 4" "mSequence e = sq" "Ack_FromString name = sq" "sq \<noteq> BAD_STEP"
  shows "run_messages env (acks_of name) (example_table e turns)
    = map_option (snd \<circ> snd) (ack_step env sq (example_table e turns))"
  by (simp add: acks_of_def ack_request example_table_def assms GetPlayerPlace_def Place_of_def upt_rec Sync_def AckFromAllPlayers_def
     for_first_def ResetAck_def Challenger_Clear_def INVALID_UID_def bind_run_nil
     cong: eval_congs)


definition table_engine :: engine where
  "table_engine = Engine_NewGame (Engine_CreateTable 4 SOUTH (Engine_Initialize Engine_new))"

definition dealt_engine :: engine where
  "dealt_engine = table_engine\<lparr>
     mPlayers := [example_hand 0, example_hand 1, example_hand 2, example_hand 3, Deck_empty],
     mSequence := WAIT_FOR_CARDS, mDealer := EAST, mCurrentPlayer := NORTH,
     mCtx := (mCtx table_engine)\<lparr>mDog := example_dog\<rparr>\<rparr>"

lemma example_hand_eta: "\<lparr>mOwner = NO_TEAM, mDeck = mDeck (example_hand i)\<rparr> = example_hand i"
  by (simp add: example_hand_def Deck_empty_def)

lemma dealt_engine_eq:
  "Engine_NewDeal example_env Distribution_Initialize table_engine
     = Some (Distribution_Initialize\<lparr>mSeed := 7\<rparr>, dealt_engine)"
  unfolding dealt_engine_def table_engine_def example_env_def
  by (simp add: Engine_NewDeal_def CreateDeal_def draw_deal_def random_example copy_deal_def Distribution_Initialize_def RANDOM_DEAL_def
    CUSTOM_DEAL_def NUMBERED_DEAL_def Engine_NewGame_def Engine_CreateTable_def Engine_Initialize_def Engine_new_def Place_Next_def Place_Value.simps Place_of_def
    upt_rec replicate_five Deck_Clear_def Deck_empty_def Context_Initialize_def Deck_Append_def Context_new_def example_hand_eta
     cong: eval_congs)


lemma example_game: "deals Game_default = [Distribution_Initialize]"
  by (simp add: Game_default_def)

lemma example_table_simps:
  "mEngine (example_table e k) = e" "mScore (example_table e k) = Score_NewGame k" "mAdminMode (example_table e k) = False"
  "mGame (example_table e k) = Game_default" "(example_table e k)\<lparr>mEngine := e'\<rparr> = example_table e' k"
  "(example_table e k)\<lparr>mScore := Score_NewGame k'\<rparr> = example_table e k'"
  by (simp_all add: example_table_def)

lemma example_reset:
  "mNbPlayers (mCtx e) = 4 \<Longrightarrow> ResetAck (example_table e k) = example_table e k"
  by (simp add: ResetAck_def example_table_def for_first_def Challenger_Clear_def INVALID_UID_def)

lemma table_engine_simps:
  "mNbPlayers (mCtx table_engine) = 4" "mSequence table_engine = WAIT_FOR_READY"
  by (simp_all add: table_engine_def Engine_CreateTable_def Engine_Initialize_def Engine_NewGame_def Context_Initialize_def)

lemma dealt_engine_simps:
  "mNbPlayers (mCtx dealt_engine) = 4" "mSequence dealt_engine = WAIT_FOR_CARDS" "mPosition dealt_engine = 0"
  "mBid (mCtx dealt_engine) = Bid_Initialize" "mCurrentPlayer dealt_engine = NORTH" "mDealer dealt_engine = EAST" "mTrickCounter dealt_engine = 0"
  "mPlayers dealt_engine = [example_hand 0, example_hand 1, example_hand 2, example_hand 3, Deck_empty]"
  by (simp_all add: dealt_engine_def table_engine_simps)
    (simp_all add: table_engine_def Engine_CreateTable_def Engine_Initialize_def Engine_NewGame_def Context_Initialize_def Engine_new_def)

lemma run_messages_append:
  "run_messages env (ms @ ms') t = Option.bind (run_messages env ms t) (run_messages env ms')"
proof (induction ms arbitrary: t)
  case (Cons m ms)
  show ?case
    by (cases m) (simp add: Cons.IH split: Option.bind_split)
qed simp

lemma example_acks:
  "Ack_FromString ''AckJoinTable'' = WAIT_FOR_PLAYERS" "Ack_FromString ''Ready'' = WAIT_FOR_READY"
  "Ack_FromString ''NewDeal'' = WAIT_FOR_CARDS" "Ack_FromString ''ShowBid'' = WAIT_FOR_SHOW_BID"
  "Ack_FromString ''StartDeal'' = WAIT_FOR_START_DEAL"
  by (simp_all add: Ack_FromString_def gAckList_def)

lemma dealt_example_run:
  "run_messages example_env (acks_of ''AckJoinTable'' @ acks_of ''Ready'') seated_example = Some (example_table dealt_engine 1)"
proof -
  have 1: "run_messages example_env (acks_of ''AckJoinTable'') seated_example = Some (example_table table_engine 1)"
    unfolding seated_example_eq
    by (subst ack_round [where sq = WAIT_FOR_PLAYERS])
      (simp_all add: Engine_CreateTable_def Context_Initialize_def example_acks ack_step_def Table_NewGame_def
        example_table_simps example_reset table_engine_def Engine_NewGame_def Let_def Game_default_def)
  have deck: "deal_messages [0..<4] (example_table dealt_engine 1) \<noteq> None"
    by (simp add: upt_rec example_table_simps Engine_GetDeck_def dealt_engine_simps Place_of_u32_def Place_of_def arr_get_def
        GetPlayerUuid_def less_place_def example_table_def)
  have 2: "run_messages example_env (acks_of ''Ready'') (example_table table_engine 1) = Some (example_table dealt_engine 1)"
    using deck by (subst ack_round [where sq = WAIT_FOR_READY])
      (auto simp: table_engine_simps example_acks ack_step_def Table_NewDeal_def example_table_simps Score_NewGame_def Game_default_def
        arr_get_def dealt_engine_eq dealt_engine_simps)
  show ?thesis by (simp only: run_messages_append 1 2 bind.bind_lunit)
qed

definition played_engine :: "seq \<Rightarrow> bool \<Rightarrow> engine" where
  "played_engine sq asked = dealt_engine\<lparr>mSequence := sq, mPosition := 0, mHandleAsked := [False, False, asked, False, False],
     mCtx := (mCtx dealt_engine)\<lparr>mBid := \<lparr>taker = NORTH, partner = NOWHERE, contract = GUARD_AGAINST, slam = True\<rparr>,
               mFirstPlayer := NORTH, mDiscard := Deck_SetOwner DEFENSE example_dog\<rparr>\<rparr>"

definition bid_engine :: "engine" where
  "bid_engine = dealt_engine\<lparr>mSequence := WAIT_FOR_SHOW_BID, mPosition := 1, mCurrentPlayer := WEST,
     mCtx := (mCtx dealt_engine)\<lparr>mBid := \<lparr>taker = NORTH, partner = NOWHERE, contract = GUARD_AGAINST, slam = True\<rparr>\<rparr>\<rparr>"

lemmas dealt_engine_record = dealt_engine_def table_engine_def Engine_NewGame_def Engine_CreateTable_def Engine_Initialize_def
  Engine_new_def Context_Initialize_def Context_new_def

lemma played_example_run:
  "run_messages example_env
     (acks_of ''NewDeal'' @
      [(12, [(''cmd'', JString ''ReplyBid''), (''contract'', JString ''Guard against''), (''slam'', JBool True)])] @
      acks_of ''ShowBid'' @ acks_of ''StartDeal'' @
      [(12, [(''cmd'', JString ''Handle''), (''handle'', JString [])])]) (example_table dealt_engine 1)
   = Some (example_table (played_engine WAIT_FOR_PLAYED_CARD True) 1)"
proof -
  have no_handle: "\<not> Deck_TestHandle h (Deck_FromString [])" for h
    by (simp add: Deck_TestHandle_def Deck_FromString_def Deck_SetCards_def Deck_empty_def Deck_Clear_def Card_FromName_def Card_default_invalid
       Deck_Size_def GetHandleType_def)
  let ?one = "\<lambda>e. example_table e 1"
  have 1: "run_messages example_env (acks_of ''NewDeal'') (?one dealt_engine) = Some (?one (dealt_engine\<lparr>mSequence := WAIT_FOR_BID\<rparr>))"
    by (subst ack_round [where sq = WAIT_FOR_CARDS])
      (simp_all add: example_acks ack_step_def dealt_engine_simps example_table_simps SendNextBidSequence_def BidSequence_def IsEndOfTrick_def
         Bid_Initialize_def)
  have 2: "run_messages example_env [(12, [(''cmd'', JString ''ReplyBid''), (''contract'', JString ''Guard against''), (''slam'', JBool True)])]
     (?one (dealt_engine\<lparr>mSequence := WAIT_FOR_BID\<rparr>)) = Some (?one bid_engine)"
    by (simp add: ExecuteRequest_def FindValue_def do_reply_bid_def GetPlayerPlace_def upt_rec example_table_def dealt_engine_simps Place_of_def
       Contract_FromString_def Contract_strings_def Contract_of_def Engine_SetBid_def Context_SetBid_def Bid_Initialize_def bid_engine_def inc8_def Place_Next_def
       less_contract_def Challenger_Clear_def INVALID_UID_def Let_def)
  have 3: "run_messages example_env (acks_of ''ShowBid'') (?one bid_engine) = Some (?one (played_engine WAIT_FOR_START_DEAL False))"
    by (subst ack_round [where sq = WAIT_FOR_SHOW_BID])
      (simp_all add: example_acks ack_step_def dealt_engine_simps example_table_simps SendNextBidSequence_def BidSequence_def IsEndOfTrick_def
         bid_engine_def ManageAfterBidSequence_def ManageDogAfterBid_def Table_StartDeal_def StartDeal_def played_engine_def Score_NewGame_def
         Game_default_def arr_get_def Let_def,
       simp add: dealt_engine_record replicate_five)
  have 4: "run_messages example_env (acks_of ''StartDeal'') (?one (played_engine WAIT_FOR_START_DEAL False)) = Some (?one (played_engine WAIT_FOR_HANDLE True))"
    by (subst ack_round [where sq = WAIT_FOR_START_DEAL])
      (simp_all add: example_acks ack_step_def dealt_engine_simps example_table_simps played_engine_def Table_GameSequence_def Engine_GameSequence_def
         IsEndOfTrick_def arr_get_def Let_def IsLastTrick_def IsDealFinished_def GetPlayerUuid_def,
       simp add: example_table_def dealt_engine_record, blast)
  have 5: "run_messages example_env [(12, [(''cmd'', JString ''Handle''), (''handle'', JString [])])] (?one (played_engine WAIT_FOR_HANDLE True)) = Some (?one (played_engine WAIT_FOR_PLAYED_CARD True))"
    using no_handle
    by (simp add: ExecuteRequest_def FindValue_def do_handle_def Engine_SetHandle_def played_engine_def example_table_simps
        GetPlayerPlace_def upt_rec Place_of_def dealt_engine_simps arr_get_def Table_GameSequence_def Engine_GameSequence_def
         IsEndOfTrick_def Let_def IsLastTrick_def IsDealFinished_def example_table_def)
  show ?thesis by (simp only: run_messages_append 1 2 3 4 5 bind.bind_lunit)
qed

section \<open>The reachable tables of the example\<close>

definition dealt_example :: playing_table where
  "dealt_example = example_table dealt_engine 1"

definition played_example :: playing_table where
  "played_example = example_table (played_engine WAIT_FOR_PLAYED_CARD True) 1"

lemma reachable_seated: "reachable 4 seated_example"
  unfolding seated_example_def
  by (intro run_joins_reachable reachable_with.opened)

lemma reachable_dealt: "reachable 4 dealt_example"
  unfolding dealt_example_def
  using run_messages_reachable [OF example_env_sound reachable_seated dealt_example_run] .

lemma reachable_played: "reachable 4 played_example"
  unfolding played_example_def
  using run_messages_reachable [OF example_env_sound reachable_dealt [unfolded dealt_example_def] played_example_run] .

end
