(* ===== verification/Table_Properties.thy ===== *)
theory Table_Properties
  imports Table_Example
begin

text \<open>What a table guarantees to its players, for every reachable table.\<close>

section \<open>Who can change the deal\<close>

text \<open>A phase that waits for one player is changed by the message it waits for or by the admin alone.\<close>

lemma do_ack_idle:
  assumes "table_inv n t" "mSequence (mEngine t) \<notin> snd ` set gAckList" "do_ack env src doc t = Some (f, out, t')"
  shows "mEngine t' = mEngine t"
proof -
  note D = table_inv_D [OF assms(1)]
  let ?sq = "Ack_FromString (GetString (FindValue ''step'' doc))"
  obtain b t1 where sync: "Sync ?sq src t = (b, t1)" by (cases "Sync ?sq src t")
  have "\<not> b" if "?sq \<noteq> BAD_STEP"
  proof
    assume b
    with Sync_all(1) [OF D(2,3,5,6), of ?sq src] sync have "mSequence (mEngine t) = ?sq" by simp
    with assms(2) Ack_FromString_listed [OF that] show False by metis
  qed
  moreover have "mEngine t1 = mEngine t" using seats_frame(7) [of ?sq src t] sync by simp
  ultimately show ?thesis using assms(3) by (auto simp: do_ack_def sync Let_def split: if_splits)
qed

lemma do_ack_advance:
  assumes "table_inv n t" "do_ack env src doc t = Some (f, out, t')" "mEngine t' \<noteq> mEngine t"
  shows "Ack_FromString (GetString (FindValue ''step'' doc)) = mSequence (mEngine t)"
    "list_all (\<lambda>c. chUuid c = src \<or> chAck c) (take n (tPlayers t))" "no_acks n t'"
proof -
  note D = table_inv_D [OF assms(1)]
  let ?sq = "Ack_FromString (GetString (FindValue ''step'' doc))"
  obtain b t1 where sync: "Sync ?sq src t = (b, t1)" by (cases "Sync ?sq src t")
  have same: "mEngine t1 = mEngine t" using seats_frame(7) [of ?sq src t] sync by simp
  have b: b and step: "ack_step env ?sq t1 = Some (f, out, t')"
    using assms(2,3) same by (auto simp: do_ack_def sync Let_def split: if_splits)
  note A = Sync_all [OF D(2,3,5,6), of ?sq src, unfolded sync fst_conv snd_conv, OF b]
  from A(1) show "?sq = mSequence (mEngine t)" by simp
  from A(2) show "list_all (\<lambda>c. chUuid c = src \<or> chAck c) (take n (tPlayers t))" by (simp add: list_all_iff)
  from ack_step_no_acks [OF A(3) _ step] same D(3) show "no_acks n t'" by simp
qed
lemma request_new_game_cases:
  "snd (do_request_new_game src doc t) = t \<or>
   src = mAdmin t \<and> mSequence (mEngine (snd (do_request_new_game src doc t))) = WAIT_FOR_READY"
  by (simp add: do_request_new_game_def Table_NewGame_def Engine_NewGame_def Let_def)

text \<open>The handler that a message reaches, by its command.\<close>

lemma Execute_by_command:
  assumes "ExecuteRequest env src doc t = Some (f, out, t')" "t' \<noteq> t" "cmd = GetString (FindValue ''cmd'' doc)"
  shows "cmd = ''Ack'' \<and> do_ack env src doc t = Some (f, out, t') \<or>
    cmd = ''RequestNewGame'' \<and> src = mAdmin t \<and> mSequence (mEngine t') = WAIT_FOR_READY \<or>
    cmd = ''ReplyBid'' \<and> t' = snd (do_reply_bid src doc t) \<or>
    cmd = ''Discard'' \<and> do_discard src doc t = Some (out, t') \<or>
    cmd = ''ReplyKingCall'' \<and> do_king_call src doc t = Some (out, t') \<or>
    cmd = ''Handle'' \<and> do_handle src doc t = Some (out, t') \<or>
    cmd = ''Card'' \<and> do_card src doc t = Some (out, t')"
proof -
  have pair: "(out, t') = r \<Longrightarrow> snd r = t'" for r by (cases r) simp
  show ?thesis
    using assms(1,2) request_new_game_cases [of src doc t] unfolding ExecuteRequest_def Let_def assms(3) [symmetric]
    by (auto dest!: pair split: if_splits)
qed

lemma Execute_in_ack_phase:
  assumes "mSequence (mEngine t) \<in> snd ` set gAckList" "ExecuteRequest env src doc t = Some (f, out, t')" "t' \<noteq> t"
  shows "GetString (FindValue ''cmd'' doc) = ''Ack'' \<and> do_ack env src doc t = Some (f, out, t') \<or>
    GetString (FindValue ''cmd'' doc) = ''RequestNewGame'' \<and> src = mAdmin t \<and> mSequence (mEngine t') = WAIT_FOR_READY"
proof -
  have no: "mSequence (mEngine t) \<noteq> s"
    if "s \<in> {WAIT_FOR_BID, WAIT_FOR_DISCARD, WAIT_FOR_KING_CALL, WAIT_FOR_HANDLE, WAIT_FOR_PLAYED_CARD}" for s
    using assms(1) not_acked [OF that] by auto
  have still: "do_discard src doc t \<noteq> Some (out, t')" "do_king_call src doc t \<noteq> Some (out, t')"
    "do_handle src doc t \<noteq> Some (out, t')" "do_card src doc t \<noteq> Some (out, t')" "t' \<noteq> snd (do_reply_bid src doc t)"
    using assms(3) no other_messages_seats(1-3) [where src = src and doc = doc and t = t and t' = t' and out = out]
      king_call_seats [OF _ refl, of src doc t out t'] other_messages_seats(4) [OF refl, of src doc t]
    by auto
  show ?thesis using Execute_by_command [OF assms(2,3) refl] still by blast
qed

lemma Execute_in_card_phase:
  assumes "table_inv n t" "mSequence (mEngine t) = WAIT_FOR_PLAYED_CARD" "ExecuteRequest env src doc t = Some (f, out, t')"
    and "mEngine t' \<noteq> mEngine t"
  shows "GetString (FindValue ''cmd'' doc) = ''Card'' \<and> do_card src doc t = Some (out, t') \<or>
    GetString (FindValue ''cmd'' doc) = ''RequestNewGame'' \<and> src = mAdmin t \<and> mSequence (mEngine t') = WAIT_FOR_READY"
proof -
  have ne: "t' \<noteq> t" using assms(4) by auto
  have still: "do_discard src doc t \<noteq> Some (out, t')" "do_king_call src doc t \<noteq> Some (out, t')"
    "do_handle src doc t \<noteq> Some (out, t')" "t' \<noteq> snd (do_reply_bid src doc t)"
    using ne assms(2) other_messages_seats(1,2) [where src = src and doc = doc and t = t and t' = t' and out = out]
      king_call_seats [OF _ refl, of src doc t out t'] other_messages_seats(4) [OF refl, of src doc t]
    by auto
  have "do_ack env src doc t \<noteq> Some (f, out, t')"
    using do_ack_idle [OF assms(1)] assms(2,4) not_acked [of WAIT_FOR_PLAYED_CARD] by auto
  with Execute_by_command [OF assms(3) ne refl] still show ?thesis by blast
qed

section \<open>Seats\<close>

definition uuids :: "playing_table \<Rightarrow> nat list" where
  "uuids t = map chUuid (tPlayers t)"

lemma map_for_first: "(\<And>x. g (f x) = g x) \<Longrightarrow> map g (for_first n f xs) = map g xs"
  by (simp add: for_first_def o_def) (metis append_take_drop_id map_append)

lemma uuids_frame [simp]: "uuids (t\<lparr>mEngine := e\<rparr>) = uuids t" "uuids (t\<lparr>mGame := g\<rparr>) = uuids t"
  by (simp_all add: uuids_def)

lemma uuids_ResetAck [simp]: "uuids (ResetAck t) = uuids t"
  by (simp add: uuids_def ResetAck_def map_for_first)

lemma uuids_Sync [simp]: "uuids (snd (Sync sq src t)) = uuids t"
proof -
  have "uuids (snd (AckFromAllPlayers u)) = uuids u" for u
    by (simp add: AckFromAllPlayers_def Let_def)
  moreover have "uuids (t\<lparr>tPlayers := for_first k (\<lambda>c. if P c then c\<lparr>chAck := True\<rparr> else c) (tPlayers t)\<rparr>) = uuids t" for k P
    by (simp add: uuids_def map_for_first)
  ultimately show ?thesis by (simp add: Sync_def)
qed

lemma uuids_NewGame [simp]: "uuids (snd (Table_NewGame t)) = uuids t"
  by (simp add: Table_NewGame_def Let_def) (simp add: uuids_def)

lemma uuids_ack_step:
  assumes "ack_step env sq t = Some (f, out, t')"
  shows "uuids t' = uuids t"
proof -
  have "tPlayers t' = tPlayers t \<or> t' = snd (Table_NewGame t)"
    using assms by (auto simp: ack_step_def Let_def dest!: seats_same SendNextBid_seats EndOfDeal_seats split: if_splits)
  then show ?thesis by (auto simp: uuids_def [of t] uuids_def [of t'] simp del: uuids_NewGame) (metis uuids_NewGame uuids_def)
qed

lemma uuids_Execute:
  assumes "ExecuteRequest env src doc t = Some (f, out, t')"
  shows "uuids t' = uuids t"
  using assms
proof (cases rule: Execute_cases)
  case 2
  then show ?thesis by (auto simp: do_ack_def Let_def split_beta dest!: uuids_ack_step split: if_splits)
next
  case 3
  show ?thesis unfolding 3 do_request_new_game_def by simp
next
  case 4
  with other_messages_seats(4) [OF refl, of src doc t] show ?thesis by (auto simp: uuids_def)
next
  case (6 o1)
  then show ?thesis by (auto simp: do_king_call_def Let_def ShowKingCall_def split: if_splits)
qed (auto simp: uuids_def dest: other_messages_seats)

text \<open>No client sits on two seats; a free seat carries the invalid number.\<close>

definition seats_distinct :: "nat \<Rightarrow> playing_table \<Rightarrow> bool" where
  "seats_distinct n t \<longleftrightarrow> (\<forall>i < n. \<forall>j < n. uuids t ! i = uuids t ! j \<longrightarrow> uuids t ! i \<noteq> INVALID_UID \<longrightarrow> i = j)"

lemma seats_distinct_cong: "uuids t' = uuids t \<Longrightarrow> seats_distinct n t \<Longrightarrow> seats_distinct n t'"
  by (simp only: seats_distinct_def)

lemma GetPlayerPlace_fold:
  "fold (\<lambda>i p. if chUuid (ps ! i) = uuid then Place_of i else p) [0..<m] NOWHERE = NOWHERE \<Longrightarrow> m \<le> 5 \<Longrightarrow>
   i < m \<Longrightarrow> chUuid (ps ! i) \<noteq> uuid"
proof (induction m)
  case (Suc m)
  have "Place_of m \<noteq> NOWHERE" using Suc.prems(2) by (metis Place_Value_of Place_Value.simps(6) Suc_le_eq less_irrefl less_imp_le)
  with Suc show ?case by (auto simp: less_Suc_eq split: if_splits)
qed simp

lemma AddPlayer_distinct:
  assumes "seats_distinct n t" "AddPlayer uuid t = (r, t')" "tbPlayers t = n" "n \<le> 5" "length (tPlayers t) = 5"
  shows "seats_distinct n t'"
proof -
  have "t' = t \<or> (GetPlayerPlace uuid t = NOWHERE \<and> (\<exists>k < n. uuids t' = (uuids t)[k := uuid]))"
  proof (cases "find (\<lambda>i. chUuid (tPlayers t ! i) = INVALID_UID) [0..<n]")
    case None
    then show ?thesis using assms(2,3) by (auto simp: AddPlayer_def Let_def split: if_splits)
  next
    case (Some k)
    then have k: "k < n" by (auto simp: find_Some_iff)
    with assms(4) have "Place_Value (Place_of k) = k" by simp
    with Some k assms(2,3,5) show ?thesis
      by (auto simp: AddPlayer_def Let_def uuids_def map_update split: if_splits)
  qed
  then show ?thesis
  proof
    assume a: "GetPlayerPlace uuid t = NOWHERE \<and> (\<exists>k < n. uuids t' = (uuids t)[k := uuid])"
    then obtain k where k: "k < n" "uuids t' = (uuids t)[k := uuid]" by blast
    have "uuids t ! i \<noteq> uuid" if "i < n" for i
      using a that assms(3-5) GetPlayerPlace_fold [of "tPlayers t" uuid n i] by (simp add: GetPlayerPlace_def uuids_def)
    with assms(1,4,5) k show ?thesis
      by (auto simp: seats_distinct_def nth_list_update uuids_def)
  qed (use assms(1) in simp)
qed

lemma RemovePlayer_distinct:
  assumes "seats_distinct n t" "tbPlayers t = n" "n \<le> 5" "length (tPlayers t) = 5"
  shows "seats_distinct n (RemovePlayer uuid t)"
proof (cases "GetPlayerPlace uuid t = NOWHERE")
  case True
  with assms(1) show ?thesis by (simp add: RemovePlayer_def)
next
  case False
  have "uuids (RemovePlayer uuid t) ! i = (if uuids t ! i = uuid then INVALID_UID else uuids t ! i)" if "i < n" for i
    using that False assms(2-4)
    by (auto simp: RemovePlayer_def Let_def uuids_def for_first_def nth_append Challenger_Clear_def)
  with assms(1) show ?thesis by (auto simp: seats_distinct_def)
qed

lemma reachable_distinct:
  assumes "reachable n t" "n \<in> {3, 4, 5}"
  shows "seats_distinct n t"
  using assms(1)
proof induction
  case (opened ident name adminMode g p)
  show ?case
    using assms(2) by (auto simp: seats_distinct_def uuids_def open_table_def Table_CreateTable_def Table_Initialize_def
        SetupGame_def SetAdminMode_def Table_new_def Challenger_Clear_def)
next
  case (step t t')
  note D = table_inv_D(3,5,6) [OF reachable_inv [OF step.hyps(1) assms(2)]]
  from step.hyps(2) have "uuids t' = uuids t \<or> (\<exists>uuid r. AddPlayer uuid t = (r, t')) \<or> (\<exists>uuid. t' = RemovePlayer uuid t)"
    by (elim table_stepE) (auto dest: uuids_Execute)
  then show ?case
    using AddPlayer_distinct [OF step.IH _ D] RemovePlayer_distinct [OF step.IH D] step.IH
      seats_distinct_cong by blast
qed

lemma GetPlayerPlace_seat:
  assumes "seats_distinct n t" "tbPlayers t = n" "n \<le> 5" "length (tPlayers t) = 5" "i < n" "uuids t ! i \<noteq> INVALID_UID"
  shows "GetPlayerPlace (uuids t ! i) t = Place_of i"
proof -
  have "GetPlayerPlace (uuids t ! i) t \<noteq> NOWHERE"
    using GetPlayerPlace_fold [of "tPlayers t" "uuids t ! i" n i] assms by (auto simp: GetPlayerPlace_def uuids_def)
  from GetPlayerPlace_seated [OF assms(3,2) this]
  have "seated n (GetPlayerPlace (uuids t ! i) t)"
    "uuids t ! Place_Value (GetPlayerPlace (uuids t ! i) t) = uuids t ! i"
    using assms(3,4) by (auto simp: uuids_def seated_def)
  with assms(1,5,6) have "Place_Value (GetPlayerPlace (uuids t ! i) t) = i" by (metis seats_distinct_def seated_def)
  then show ?thesis by (metis Place_of_Value)
qed

section \<open>Properties\<close>

text \<open>
  C1. No card is lost, invented or duplicated by a table: provided that the library's shuffle permutes
  and that every deal file on the disk that passes the program's test holds the 78 cards once and names
  a seated first player (the test only counts, so this is a premise on the files), in every table that
  can be reached from its opening by any messages, arrivals and departures, whenever a deal is under
  way the hands, the dog or discard, the current trick and the tricks won are together the 78 cards,
  each once.
\<close>

theorem table_keeps_the_cards:
  assumes "reachable_with P n t" "n \<in> {3, 4, 5}" "dealt_out (mSequence (mEngine t))"
    and env: "\<And>env. P env \<Longrightarrow> shuffle_permutes env \<and> proper_deal_files n env"
  shows "mset (hand_cards n (mEngine t) @ aside (mCtx (mEngine t)) @ mDeck (currentTrick (mEngine t)) @
      trick_cards (mTricks (mCtx (mEngine t)))) = mset tarot_cards \<and>
    distinct (hand_cards n (mEngine t) @ aside (mCtx (mEngine t)) @ mDeck (currentTrick (mEngine t)) @
      trick_cards (mTricks (mCtx (mEngine t))))"
proof -
  have "reachable n t" by (rule reachable_mono [OF assms(1)]) (use env in \<open>simp add: sound_environment_def\<close>)
  then have "engine_ok n (mEngine t)" using table_inv_D(1) [OF reachable_inv [OF _ assms(2)]] by (simp add: table_ok_def)
  from engine_ok_deck [OF this assms(3)] have deck: "whole_deck n (mEngine t)" .
  show ?thesis using deck whole_deck_distinct [OF deck] by (simp only: whole_deck_def deal_cards_def simp_thms)
qed

lemma played_example_phase: "mSequence (mEngine played_example) = WAIT_FOR_PLAYED_CARD"
  by (simp add: played_example_def example_table_simps played_engine_def)

theorem table_keeps_the_cards_witness:
  "length (hand_cards 4 (mEngine played_example) @ aside (mCtx (mEngine played_example)) @
     mDeck (currentTrick (mEngine played_example)) @ trick_cards (mTricks (mCtx (mEngine played_example)))) = 78"
proof -
  have "dealt_out (mSequence (mEngine played_example))" by (simp add: played_example_phase dealt_out_def)
  from table_keeps_the_cards [OF reachable_played _ this, THEN conjunct1] length_tarot_cards
  show ?thesis unfolding sound_environment_def by (metis insertCI size_mset)
qed

text \<open>
  The score board of a table is always balanced: in every reachable table no total is out of
  reach and the totals of the five seats sum to zero.
\<close>

theorem table_score_zero_sum:
  assumes "reachable n t" "n \<in> {3, 4, 5}"
  shows "\<exists>total. (\<forall>p. Place_IsValid p \<longrightarrow> GetTotalPoints p (mScore t) = Some (total p)) \<and>
    total SOUTH + total EAST + total NORTH + total WEST + total FIFTH = 0"
proof -
  have "balanced (mScore t)" using table_inv_D(1) [OF reachable_inv [OF assms]] by (simp add: table_ok_def)
  from balanced_totals [OF this] show ?thesis by (auto simp: add.assoc)
qed

theorem table_score_zero_sum_witness:
  "\<exists>total. (\<forall>p. Place_IsValid p \<longrightarrow> GetTotalPoints p (mScore played_example) = Some (total p)) \<and>
    total SOUTH + total EAST + total NORTH + total WEST + total FIFTH = 0"
  by (rule table_score_zero_sum [OF reachable_played]) simp

text \<open>
  C3. A phase that all players acknowledge ends only when they all have: in a reachable table that
  waits for acknowledgments, a message that changes the deal is either the acknowledgment of this
  very phase by a player after every other seat has acknowledged it, and then all marks are cleared
  for the next phase, or the administrator's request for a new game.
\<close>

theorem phase_ends_when_all_acknowledge:
  assumes "reachable n t" "n \<in> {3, 4, 5}" "mSequence (mEngine t) \<in> snd ` set gAckList"
    and "ExecuteRequest env src doc t = Some (f, out, t')" "mEngine t' \<noteq> mEngine t"
  shows "GetString (FindValue ''cmd'' doc) = ''Ack'' \<and>
      Ack_FromString (GetString (FindValue ''step'' doc)) = mSequence (mEngine t) \<and>
      list_all (\<lambda>c. chUuid c = src \<or> chAck c) (take n (tPlayers t)) \<and>
      list_all (\<lambda>c. \<not> chAck c) (take n (tPlayers t')) \<or>
    GetString (FindValue ''cmd'' doc) = ''RequestNewGame'' \<and> src = mAdmin t \<and>
      mSequence (mEngine t') = WAIT_FOR_READY"
proof -
  note inv = reachable_inv [OF assms(1,2)]
  have "t' \<noteq> t" using assms(5) by auto
  from Execute_in_ack_phase [OF assms(3,4) this] show ?thesis
    using do_ack_advance [OF inv _ assms(5), of env src doc f out] unfolding no_acks_def list_all_iff by blast
qed

lemma SetCard_played:
  assumes "SetCard c p e = Some (ok, e')" "e' \<noteq> e"
  shows "Place_Value p < length (mPlayers e) \<and> Deck_CanPlayCard (mPlayers e ! Place_Value p) c (currentTrick e) \<and>
    e' = e\<lparr>currentTrick := Deck_AppendCard c (currentTrick e),
          mPlayers := (mPlayers e)[Place_Value p := snd (Deck_Remove c (mPlayers e ! Place_Value p))],
          mPosition := inc8 (mPosition e), mCurrentPlayer := Place_Next (nbPlayers e) (mCurrentPlayer e),
          mSequence := WAIT_FOR_SHOW_CARD\<rparr>"
proof (cases "arr_get (mPlayers e) (Place_Value p)")
  case None
  with assms(1) show ?thesis by (simp add: SetCard_def)
next
  case (Some hand)
  then have "Place_Value p < length (mPlayers e)" "hand = mPlayers e ! Place_Value p"
    by (auto simp: arr_get_def split: if_splits)
  with assms Some show ?thesis by (auto simp: SetCard_def split: if_splits)
qed

lemma do_card_played:
  assumes "do_card src doc t = Some (out, t')" "t' \<noteq> t"
  shows "\<exists>ok e'. SetCard (Card_FromName (GetString (FindValue ''card'' doc))) (GetPlayerPlace src t) (mEngine t) = Some (ok, e') \<and>
    t' = t\<lparr>mEngine := e'\<rparr> \<and> GetPlayerPlace src t = mCurrentPlayer (mEngine t)"
  using assms by (auto simp: do_card_def Let_def split: if_splits)

text \<open>
  C2. Only the player whose turn it is can play, and only a legal card: in a reachable table that
  waits for a card, a message that changes the deal is either a card from the client on the current
  seat, a card of that player's hand that the rules of the game allow in this trick, which then
  moves from the hand to the trick, leaves every other hand alone and passes the turn on, or the
  administrator's request for a new game.
\<close>

theorem only_legal_cards_are_played:
  assumes "reachable n t" "n \<in> {3, 4, 5}" "mSequence (mEngine t) = WAIT_FOR_PLAYED_CARD"
    and "ExecuteRequest env src doc t = Some (f, out, t')" "mEngine t' \<noteq> mEngine t"
    and "e = mEngine t" "p = mCurrentPlayer e" "c = Card_FromName (GetString (FindValue ''card'' doc))"
  shows "GetString (FindValue ''cmd'' doc) = ''Card'' \<and> GetPlayerPlace src t = p \<and>
      legal_play (mDeck (mPlayers e ! Place_Value p)) c (currentTrick e) \<and>
      mDeck (currentTrick (mEngine t')) = mDeck (currentTrick e) @ [c] \<and>
      map mDeck (mPlayers (mEngine t')) =
        (map mDeck (mPlayers e))[Place_Value p := filter (\<lambda>x. x \<noteq> c) (mDeck (mPlayers e ! Place_Value p))] \<and>
      mCurrentPlayer (mEngine t') = Place_Next n p \<and> mSequence (mEngine t') = WAIT_FOR_SHOW_CARD \<or>
    GetString (FindValue ''cmd'' doc) = ''RequestNewGame'' \<and> src = mAdmin t \<and>
      mSequence (mEngine t') = WAIT_FOR_READY"
proof -
  note inv = reachable_inv [OF assms(1,2)]
  have nb: "nbPlayers e = n" using table_inv_D(3) [OF inv] by (simp add: assms(6))
  have ne: "t' \<noteq> t" using assms(5) by auto
  from Execute_in_card_phase [OF inv assms(3,4,5)] show ?thesis
  proof (elim disjE conjE)
    assume cmd: "GetString (FindValue ''cmd'' doc) = ''Card''" and "do_card src doc t = Some (out, t')"
    from do_card_played [OF this(2) ne] obtain ok e' where set: "SetCard c p e = Some (ok, e')" and src: "GetPlayerPlace src t = p"
      and t': "t' = t\<lparr>mEngine := e'\<rparr>"
      unfolding assms(6-8) by metis
    have "e' \<noteq> e" using t' assms(5) by (simp add: assms(6))
    note S = SetCard_played [OF set this]
    have eng: "mEngine t' = e'" by (simp add: t')
    from S have play: "legal_play (mDeck (mPlayers e ! Place_Value p)) c (currentTrick e)" by (simp only: CanPlayCard_legal)
    show ?thesis
      using S play cmd src unfolding eng
      by (intro disjI1 conjI) (simp_all add: Deck_AppendCard_def Deck_Remove_def map_update nb assms(7))
  qed simp
qed

lemma playing_hand_nonempty:
  assumes "playing n e" "mPosition e < n"
  shows "mDeck (mPlayers e ! Place_Value (mCurrentPlayer e)) \<noteq> []"
proof -
  have "trick_state n e" "mTrickCounter e < NumberOfCardsInHand n" using assms(1) by (simp_all add: playing_def)
  then have "length (mDeck (mPlayers e ! Place_Value (mCurrentPlayer e))) = NumberOfCardsInHand n - mTrickCounter e"
    using assms(2) by (auto simp: trick_state_def Let_def)
  with \<open>mTrickCounter e < NumberOfCardsInHand n\<close> show ?thesis by auto
qed

text \<open>
  C4. The game never blocks on a player: provided that the library's shuffle permutes and that every
  deal file on the disk that passes the program's test holds the 78 cards once and names a seated first
  player, in every reachable table that waits for a card, the client on the current seat holds at least one card whose message the table accepts; the card joins the
  trick and the table goes on to show it.
\<close>

theorem awaited_player_can_play:
  assumes "reachable_with P n t" "n \<in> {3, 4, 5}" "mSequence (mEngine t) = WAIT_FOR_PLAYED_CARD"
    and env: "\<And>env. P env \<Longrightarrow> shuffle_permutes env \<and> proper_deal_files n env"
    and "e = mEngine t" "p = Place_Value (mCurrentPlayer e)" "chUuid (tPlayers t ! p) \<noteq> INVALID_UID"
  shows "\<exists>c \<in> set (mDeck (mPlayers e ! p)). \<exists>out t'.
    ExecuteRequest env (chUuid (tPlayers t ! p)) (JObj [(''cmd'', JString ''Card''), (''card'', JString (Card_ToString c))]) t
      = Some (False, out, t') \<and>
    mSequence (mEngine t') = WAIT_FOR_SHOW_CARD \<and> mDeck (currentTrick (mEngine t')) = mDeck (currentTrick e) @ [c]"
proof -
  have reach: "reachable n t" by (rule reachable_mono [OF assms(1)]) (use env in \<open>simp add: sound_environment_def\<close>)
  note D = table_inv_D [OF reachable_inv [OF reach assms(2)]]
  have play: "playing n e" "mPosition e < n"
    using engine_ok_D(2) [of n e] D(1) assms(3,5) by (auto simp: table_ok_def)
  have phase: "mSequence e = WAIT_FOR_PLAYED_CARD" using assms(3,5) by simp
  have p: "p < n" using play by (simp add: playing_D(7) [unfolded seated_def] assms(6))
  obtain c where c: "c \<in> set (mDeck (mPlayers e ! p))" "Deck_CanPlayCard (mPlayers e ! p) c (currentTrick e)"
    using playable_exists [OF playing_hand_nonempty [OF play]] unfolding assms(6) by blast
  have valid: "Card_IsValid c" using playing_hand(3) [OF play(1) p] c(1) by blast
  then have name: "Card_FromName (Card_ToString c) = c"
    using name_roundtrip_all tarot_cards_iff by (simp add: list_all_iff)
  have uuid: "chUuid (tPlayers t ! p) = uuids t ! p" using p D(5,6) by (simp add: uuids_def)
  have seat: "GetPlayerPlace (chUuid (tPlayers t ! p)) t = mCurrentPlayer e"
    using GetPlayerPlace_seat [OF reachable_distinct [OF reach assms(2)] D(3,5,6) p] assms(7) unfolding uuid by (simp add: assms(6))
  obtain e' where e': "SetCard c (mCurrentPlayer e) e = Some (True, e')" "mSequence e' = WAIT_FOR_SHOW_CARD"
    "mDeck (currentTrick e') = mDeck (currentTrick e) @ [c]"
    using c(2) playing_hand(2) [OF play(1) p] by (simp add: SetCard_def arr_get_def assms(6) [symmetric] Deck_AppendCard_def)
  let ?doc = "JObj [(''cmd'', JString ''Card''), (''card'', JString (Card_ToString c))]"
  have doc: "FindValue ''cmd'' ?doc = JString ''Card''" "FindValue ''card'' ?doc = JString (Card_ToString c)"
    by (simp_all add: FindValue_def)
  have "\<exists>out. do_card (chUuid (tPlayers t ! p)) ?doc t = Some (out, t\<lparr>mEngine := e'\<rparr>)"
    using e'(1) by (simp add: do_card_def doc name valid seat phase assms(5) [symmetric] Let_def)
  then obtain out where "ExecuteRequest env (chUuid (tPlayers t ! p)) ?doc t = Some (False, out, t\<lparr>mEngine := e'\<rparr>)"
    by (auto simp: ExecuteRequest_def doc)
  with c(1) e'(2,3) show ?thesis by (intro bexI [of _ c] exI [of _ out] exI [of _ "t\<lparr>mEngine := e'\<rparr>"]) simp_all
qed

text \<open>The witnesses: the first card of the example deal, and the last of four acknowledgments.\<close>

definition lead_message :: json where
  "lead_message = JObj [(''cmd'', JString ''Card''), (''card'', JString ''09-D'')]"

lemma lead_card: "Card_FromName ''09-D'' = mk_card 9 DIAMONDS" "Card_IsValid (mk_card 9 DIAMONDS)"
  "Deck_HasCard (mk_card 9 DIAMONDS) (example_hand 2)"
  by code_simp+

lemma played_example_simps:
  "mCurrentPlayer (mEngine played_example) = NORTH" "mPlayers (mEngine played_example) ! 2 = example_hand 2"
  "length (mPlayers (mEngine played_example)) = 5" "mDeck (currentTrick (mEngine played_example)) = []"
  "chUuid (tPlayers played_example ! 2) = 12" "GetPlayerPlace 12 played_example = NORTH"
  by (simp_all add: played_example_def played_engine_def example_table_simps dealt_engine_simps)
    (simp_all add: example_table_def GetPlayerPlace_def dealt_engine_simps upt_rec Place_of_def dealt_engine_record Deck_empty_def
      Challenger_Clear_def INVALID_UID_def)

lemma lead_run:
  "\<exists>out t'. ExecuteRequest example_env 12 lead_message played_example = Some (False, out, t') \<and> mEngine t' \<noteq> mEngine played_example"
proof -
  let ?e = "mEngine played_example" and ?c = "mk_card 9 DIAMONDS"
  have can: "Deck_CanPlayCard (example_hand 2) ?c (currentTrick ?e)"
    using lead_card(3) played_example_simps(4) by (simp add: Deck_CanPlayCard_def Deck_Size_def)
  then obtain e' where e': "SetCard ?c NORTH ?e = Some (True, e')" "mSequence e' = WAIT_FOR_SHOW_CARD"
    by (simp add: SetCard_def arr_get_def played_example_simps)
  have "FindValue ''cmd'' lead_message = JString ''Card''" "FindValue ''card'' lead_message = JString ''09-D''"
    by (simp_all add: FindValue_def lead_message_def)
  then have "\<exists>out. ExecuteRequest example_env 12 lead_message played_example = Some (False, out, played_example\<lparr>mEngine := e'\<rparr>)"
    using e'(1) by (simp add: ExecuteRequest_def do_card_def lead_card played_example_simps played_example_phase Let_def)
  moreover have "e' \<noteq> ?e" using e'(2) played_example_phase by auto
  ultimately show ?thesis by auto
qed

theorem only_legal_cards_are_played_witness:
  "legal_play (mDeck (example_hand 2)) (mk_card 9 DIAMONDS) (currentTrick (mEngine played_example))"
proof -
  obtain out t' where "ExecuteRequest example_env 12 lead_message played_example = Some (False, out, t')"
    "mEngine t' \<noteq> mEngine played_example"
    using lead_run by blast
  from only_legal_cards_are_played [OF reachable_played _ played_example_phase this refl refl refl]
  show ?thesis by (simp add: played_example_simps lead_card FindValue_def lead_message_def)
qed

theorem awaited_player_can_play_witness:
  "\<exists>c \<in> set (mDeck (example_hand 2)). \<exists>out t'.
    ExecuteRequest example_env 12 (JObj [(''cmd'', JString ''Card''), (''card'', JString (Card_ToString c))]) played_example
      = Some (False, out, t') \<and> mSequence (mEngine t') = WAIT_FOR_SHOW_CARD"
  using awaited_player_can_play [OF reachable_played _ played_example_phase _ refl refl, of example_env]
  by (auto simp: sound_environment_def played_example_simps INVALID_UID_def)

definition acked_example :: playing_table where
  "acked_example = dealt_example\<lparr>tPlayers := [\<lparr>chUuid = 10, chAck = True\<rparr>, \<lparr>chUuid = 11, chAck = True\<rparr>,
     \<lparr>chUuid = 12, chAck = True\<rparr>, \<lparr>chUuid = 13, chAck = False\<rparr>, Challenger_Clear]\<rparr>"

lemma acked_example_run:
  "run_messages example_env (take 3 (acks_of ''NewDeal'')) dealt_example = Some acked_example"
  by (simp add: acks_of_def ack_request acked_example_def dealt_example_def example_table_def GetPlayerPlace_def Place_of_def upt_rec
     Sync_def AckFromAllPlayers_def for_first_def Challenger_Clear_def INVALID_UID_def example_acks dealt_engine_simps cong: eval_congs)

lemma acked_example_last:
  "\<exists>out. ExecuteRequest example_env 13 (JObj [(''cmd'', JString ''Ack''), (''step'', JString ''NewDeal'')]) acked_example
     = Some (False, out, example_table (dealt_engine\<lparr>mSequence := WAIT_FOR_BID\<rparr>) 1)"
  by (simp add: ack_request acked_example_def dealt_example_def example_table_def GetPlayerPlace_def Place_of_def upt_rec
     Sync_def AckFromAllPlayers_def for_first_def Challenger_Clear_def INVALID_UID_def example_acks dealt_engine_simps
     ResetAck_def ack_step_def BidSequence_def IsEndOfTrick_def Bid_Initialize_def SendNextBidSequence_def Let_def
     cong: eval_congs)

lemma reachable_acked: "reachable 4 acked_example"
  using run_messages_reachable [OF example_env_sound reachable_dealt acked_example_run] .

theorem phase_ends_when_all_acknowledge_witness:
  "list_all (\<lambda>c. chUuid c = 13 \<or> chAck c) (take 4 (tPlayers acked_example)) \<and>
   mSequence (mEngine acked_example) = WAIT_FOR_CARDS"
proof -
  have seq: "mSequence (mEngine acked_example) = WAIT_FOR_CARDS"
    by (simp add: acked_example_def dealt_example_def example_table_simps dealt_engine_simps)
  then have listed: "mSequence (mEngine acked_example) \<in> snd ` set gAckList" by (simp add: gAckList_def)
  obtain out where run: "ExecuteRequest example_env 13 (JObj [(''cmd'', JString ''Ack''), (''step'', JString ''NewDeal'')]) acked_example
     = Some (False, out, example_table (dealt_engine\<lparr>mSequence := WAIT_FOR_BID\<rparr>) 1)"
    using acked_example_last by blast
  have "mSequence (mEngine (example_table (dealt_engine\<lparr>mSequence := WAIT_FOR_BID\<rparr>) 1)) \<noteq> mSequence (mEngine acked_example)"
    unfolding seq by (simp add: example_table_simps)
  then have "mEngine (example_table (dealt_engine\<lparr>mSequence := WAIT_FOR_BID\<rparr>) 1) \<noteq> mEngine acked_example" by metis
  from phase_ends_when_all_acknowledge [OF reachable_acked _ listed run this] seq show ?thesis
    by (simp add: FindValue_def)
qed

end
