(* ===== verification/Lobby_Facts.thy ===== *)
theory Lobby_Facts
  imports Lobby Table_Properties
begin

text \<open>
  The lobby keeps its books: what it relies on from a table is the locale \<open>game_table\<close>, from the pools
  of numbers \<open>id_pool\<close>, from the list of users \<open>registry\<close>; the invariant of a reachable lobby rests on
  the interpretations of the three.
\<close>

section \<open>The contract of a table\<close>

locale game_table =
  fixes ident :: "'t \<Rightarrow> nat"
    and sits :: "'t \<Rightarrow> nat \<Rightarrow> place \<Rightarrow> bool"
    and acts :: "'t \<Rightarrow> 't \<Rightarrow> bool"
    and join :: "nat \<Rightarrow> 't \<Rightarrow> place \<times> 't"
    and leave :: "nat \<Rightarrow> 't \<Rightarrow> 't"
    and ok :: "'t \<Rightarrow> bool"
  assumes acts: "ok t \<Longrightarrow> acts t t' \<Longrightarrow> ok t' \<and> ident t' = ident t \<and> sits t' = sits t"
    and join: "ok t \<Longrightarrow> join u t = (p, t') \<Longrightarrow> ok t' \<and> ident t' = ident t \<and>
      (if p = NOWHERE then t' = t else sits t' u p \<and> (\<forall>v q. sits t v q \<longrightarrow> sits t' v q))"
    and leave: "ok t \<Longrightarrow> ok (leave u t) \<and> ident (leave u t) = ident t \<and>
      (\<forall>v q. v \<noteq> u \<longrightarrow> sits t v q \<longrightarrow> sits (leave u t) v q)"
begin

text \<open>The register of users tells where they sit.\<close>

definition located :: "(nat \<Rightarrow> (string \<times> nat \<times> place) option) \<Rightarrow> 't list \<Rightarrow> bool" where
  "located m ts \<longleftrightarrow> (\<forall>v nick k p. m v = Some (nick, k, p) \<longrightarrow> (\<forall>t \<in> set ts. ident t = k \<longrightarrow> sits t v p))"

lemma located_acts:
  assumes "located m ts" "\<forall>t \<in> set ts. ok t" "list_all2 (\<lambda>t t'. t' = t \<or> acts t t') ts ts'"
  shows "located m ts' \<and> (\<forall>t \<in> set ts'. ok t) \<and> map ident ts' = map ident ts"
  using assms(3,1,2)
proof (induction rule: list_all2_induct)
  case (Cons t ts t' ts')
  have "ok t" using Cons.prems(2) by simp
  with Cons(1) acts [of t t'] have t': "ok t' \<and> ident t' = ident t \<and> sits t' = sits t" by blast
  have "located m ts" using Cons.prems(1) by (auto simp: located_def)
  with Cons.IH Cons.prems t' show ?case by (auto simp: located_def)
qed simp

lemma located_leave:
  assumes "located m ts" "\<forall>t \<in> set ts. ok t" "m u = None \<or> (\<exists>nick p. m u = Some (nick, k, p))" "0 \<notin> ident ` set ts"
    and "m' = m(u := map_option (\<lambda>(nick, _, _). (nick, 0, NOWHERE)) (m u))"
    and "ts' = map (\<lambda>t. if ident t = k then leave u t else t) ts"
  shows "located m' ts' \<and> (\<forall>t \<in> set ts'. ok t) \<and> map ident ts' = map ident ts"
proof -
  have "sits (if ident t = k then leave u t else t) v p" if "m' v = Some (nick, ident t, p)" "t \<in> set ts" for v nick p t
  proof (cases "v = u")
    case True
    with that(1) have "ident t = 0" unfolding assms(5) by auto
    with that(2) assms(4) show ?thesis by (metis imageI)
  next
    case False
    with that assms(1,2,5) leave show ?thesis by (auto simp: located_def)
  qed
  then have "located m' ts'" unfolding located_def assms(6) using leave assms(2) by (fastforce split: if_splits)
  moreover have "ident (leave u t) = ident t \<and> ok (leave u t)" if "t \<in> set ts" for t using that assms(2) leave by simp
  ultimately show ?thesis using assms(2) unfolding assms(6) by auto
qed

lemma located_join:
  assumes "located m ts" "\<forall>t \<in> set ts. ok t" "distinct (map ident ts)" "ts = ts1 @ t # ts2" "join u t = (p, t')"
    and "ident t = k" "p \<noteq> NOWHERE" "m' = m(u := map_option (\<lambda>(nick, _, _). (nick, k, p)) (m u))"
  shows "located m' (ts1 @ t' # ts2) \<and> (\<forall>t \<in> set (ts1 @ t' # ts2). ok t) \<and> map ident (ts1 @ t' # ts2) = map ident ts"
proof -
  have "ok t" using assms(2,4) by simp
  note j = join [OF this assms(5)]
  have others: "ident s \<noteq> k" if "s \<in> set (ts1 @ ts2)" for s using that assms(3,4,6) by (auto simp: image_iff)
  have "sits s v q" if "m' v = Some (nick, ident s, q)" "s \<in> set (ts1 @ t' # ts2)" for v nick q s
  proof (cases "s \<in> set (ts1 @ ts2)")
    case True
    with others that(1) have "m v = Some (nick, ident s, q)" unfolding assms(8) by (auto split: if_splits)
    with True assms(1,4) show ?thesis by (auto simp: located_def)
  next
    case False
    with that(2) have s: "s = t'" by auto
    with j assms(6,7) that(1) assms(1,4) show ?thesis
      unfolding assms(8) by (auto simp: located_def split: if_splits)
  qed
  then show ?thesis using assms(2,4) j by (auto simp: located_def)
qed

lemma located_mono: "located m ts \<Longrightarrow> \<forall>v nick k p. m' v = Some (nick, k, p) \<longrightarrow> k \<in> ident ` set ts \<longrightarrow> (\<exists>nick. m v = Some (nick, k, p)) \<Longrightarrow> located m' ts"
  unfolding located_def by blast

end

section \<open>The tables fulfil it\<close>

lemma mId_same:
  "Table_NewDeal env t = Some (out, t') \<Longrightarrow> mId t' = mId t"
  "Table_StartDeal t = Some (out, t') \<Longrightarrow> mId t' = mId t"
  "Table_GameSequence t = Some (out, t') \<Longrightarrow> mId t' = mId t"
  by (auto simp: Table_NewDeal_def Table_StartDeal_def Table_GameSequence_def Let_def bind_eq_Some_conv split_beta
      split: if_splits seq.splits)

lemma mId_bid: "SendNextBidSequence t = Some (out, t') \<Longrightarrow> mId t' = mId t"
  by (auto simp: SendNextBidSequence_def mId_same split: seq.splits)

lemma mId_EndOfDeal: "Table_EndOfDeal env t = Some (out, t') \<Longrightarrow> mId t' = mId t"
  by (auto simp: Table_EndOfDeal_def Let_def bind_eq_Some_conv dest: mId_same(1) split: if_splits)

lemma mId_NewGame: "mId (snd (Table_NewGame t)) = mId t"
  by (simp add: Table_NewGame_def Let_def ResetAck_def)

lemma mId_ack_step: "ack_step env sq t = Some (f, out, t') \<Longrightarrow> mId t' = mId t"
  using mId_NewGame [of t]
  by (auto simp: ack_step_def Let_def dest!: mId_same mId_bid mId_EndOfDeal split: if_splits)

lemma mId_Sync: "mId (snd (Sync sq src t)) = mId t"
  by (simp add: Sync_def AckFromAllPlayers_def Let_def ResetAck_def)

lemma mId_Execute:
  assumes "ExecuteRequest env src doc t = Some (f, out, t')"
  shows "mId t' = mId t"
  using assms
proof (cases rule: Execute_cases)
  case 2
  then show ?thesis using mId_Sync by (auto simp: do_ack_def Let_def split_beta dest!: mId_ack_step split: if_splits)
next
  case 3
  show ?thesis unfolding 3 by (simp add: do_request_new_game_def mId_NewGame)
next
  case 4
  show ?thesis unfolding 4 by (simp add: do_reply_bid_def Let_def split_beta)
next
  case (5 o1)
  then show ?thesis by (auto simp: do_discard_def Let_def bind_eq_Some_conv dest!: mId_same(2) split: if_splits)
next
  case (6 o1)
  then show ?thesis by (auto simp: do_king_call_def Let_def ShowKingCall_def ResetAck_def split: if_splits)
next
  case (7 o1)
  then show ?thesis by (auto simp: do_handle_def Let_def bind_eq_Some_conv dest!: mId_same(3) split: if_splits)
next
  case (8 o1)
  then show ?thesis by (auto simp: do_card_def Let_def split: if_splits)
qed simp

definition table_acts :: "playing_table \<Rightarrow> playing_table \<Rightarrow> bool" where
  "table_acts t t' \<longleftrightarrow> (\<exists>env src doc f out. sound_environment 4 env \<and> ExecuteRequest env src doc t = Some (f, out, t'))"

definition sits_at :: "playing_table \<Rightarrow> nat \<Rightarrow> place \<Rightarrow> bool" where
  "sits_at t v p \<longleftrightarrow> Place_Value p < 4 \<and> v \<noteq> INVALID_UID \<and> uuids t ! Place_Value p = v"

definition join_table :: "nat \<Rightarrow> playing_table \<Rightarrow> place \<times> playing_table" where
  "join_table u t = (let ((p, nb), t') = AddPlayer u t in (p, t'))"

lemma lobby_table:
  assumes "reachable 4 t"
  shows "tbPlayers t = 4" "length (tPlayers t) = 5" "length (uuids t) = 5"
  using table_inv_D [OF reachable_inv [OF assms]] by (simp_all add: uuids_def)

lemma AddPlayer_join:
  assumes "reachable 4 t" "AddPlayer u t = ((p, nb), t')"
  shows "reachable 4 t' \<and> mId t' = mId t \<and>
    (if p = NOWHERE then t' = t else sits_at t' u p \<and> (\<forall>v q. sits_at t v q \<longrightarrow> sits_at t' v q))"
proof (cases "p = NOWHERE")
  case True
  then have "t' = t" using assms(2)
    by (auto simp: AddPlayer_def Let_def split: if_splits option.splits)
  with True assms(1) show ?thesis by simp
next
  case False
  note T = lobby_table [OF assms(1)]
  obtain i where f: "find (\<lambda>i. chUuid (tPlayers t ! i) = INVALID_UID) [0..<tbPlayers t] = Some i"
    using assms(2) False by (cases "find (\<lambda>i. chUuid (tPlayers t ! i) = INVALID_UID) [0..<tbPlayers t]")
      (auto simp: AddPlayer_def Let_def split: if_splits)
  from f T(1) have "find (\<lambda>i. chUuid (tPlayers t ! i) = INVALID_UID) [0..<4] = Some i" by simp
  then have free: "i < 4" "chUuid (tPlayers t ! i) = INVALID_UID" unfolding find_interval by auto
  have i: "p = Place_of i" "GetPlayerPlace u t = NOWHERE"
    "tPlayers t' = (tPlayers t)[Place_Value p := (tPlayers t ! Place_Value p)\<lparr>chUuid := u\<rparr>]" "mId t' = mId t"
    using assms(2) False free(1) by (auto simp: AddPlayer_def Let_def f split: if_splits)
  have p: "Place_Value p = i" using i(1) free(1) by simp
  have seats: "uuids t' = (uuids t)[i := u]" using i(3) unfolding p by (simp add: uuids_def map_update)
  have "u \<noteq> INVALID_UID"
    using GetPlayerPlace_fold [of "tPlayers t" u 4 i] i(2) free T(1) by (auto simp: GetPlayerPlace_def)
  moreover have "uuids t ! i = INVALID_UID" using free T(2) by (simp add: uuids_def)
  moreover have "reachable 4 t'" using assms by (intro reachable_with.step [OF assms(1)]) (auto intro: table_step.join)
  ultimately show ?thesis
    using False free(1) p seats T(3) i(4) by (auto simp: sits_at_def nth_list_update)
qed

lemma RemovePlayer_leave:
  assumes "reachable 4 t"
  shows "reachable 4 (RemovePlayer u t) \<and> mId (RemovePlayer u t) = mId t \<and>
    (\<forall>v q. v \<noteq> u \<longrightarrow> sits_at t v q \<longrightarrow> sits_at (RemovePlayer u t) v q)"
proof -
  note T = lobby_table [OF assms]
  have "sits_at (RemovePlayer u t) v q" if "v \<noteq> u" "sits_at t v q" for v q
  proof (cases "GetPlayerPlace u t = NOWHERE")
    case False
    then have "tPlayers (RemovePlayer u t) = for_first 4 (\<lambda>c. if chUuid c = u then Challenger_Clear else c) (tPlayers t)"
      by (simp add: RemovePlayer_def Let_def T(1))
    with that T(2) show ?thesis by (auto simp: sits_at_def uuids_def for_first_def nth_append)
  qed (use that in \<open>simp add: RemovePlayer_def\<close>)
  moreover have "reachable 4 (RemovePlayer u t)" using assms by (rule reachable_with.step) (rule table_step.leave)
  ultimately show ?thesis by (simp add: RemovePlayer_def Let_def)
qed

interpretation tables: game_table mId sits_at table_acts join_table RemovePlayer "reachable 4"
proof
  show "reachable 4 t' \<and> mId t' = mId t \<and> sits_at t' = sits_at t" if ok: "reachable 4 t" and act: "table_acts t t'" for t t'
  proof -
    obtain env src doc f out where e: "sound_environment 4 env" "ExecuteRequest env src doc t = Some (f, out, t')"
      using act by (auto simp: table_acts_def)
    have "reachable 4 t'" by (rule reachable_with.step [OF ok table_step.message [where P = "sound_environment 4", OF e]])
    moreover have "sits_at t' = sits_at t" using uuids_Execute [OF e(2)] by (simp add: sits_at_def fun_eq_iff)
    ultimately show ?thesis using mId_Execute [OF e(2)] by simp
  qed
  show "reachable 4 t' \<and> mId t' = mId t \<and>
      (if p = NOWHERE then t' = t else sits_at t' u p \<and> (\<forall>v q. sits_at t v q \<longrightarrow> sits_at t' v q))"
    if "reachable 4 t" "join_table u t = (p, t')" for t u p t'
    using that AddPlayer_join [OF that(1), of u] by (cases "AddPlayer u t") (auto simp: join_table_def)
  show "reachable 4 (RemovePlayer u t) \<and> mId (RemovePlayer u t) = mId t \<and>
      (\<forall>v q. v \<noteq> u \<longrightarrow> sits_at t v q \<longrightarrow> sits_at (RemovePlayer u t) v q)" if "reachable 4 t" for t u
    by (rule RemovePlayer_leave [OF that])
qed

section \<open>The invariant\<close>

definition pool_from :: "nat \<Rightarrow> unique_id \<Rightarrow> bool" where
  "pool_from lo u \<longleftrightarrow> pool_ok u \<and> mMin u = lo \<and> (\<forall>i. IsTaken i u \<longrightarrow> lo \<le> i)"

text \<open>Where a user may be: nowhere, in the lobby, at a table of the lobby.\<close>

definition known_place :: "playing_table list \<Rightarrow> (nat \<Rightarrow> (string \<times> nat \<times> place) option) \<Rightarrow> bool" where
  "known_place ts m \<longleftrightarrow> (\<forall>v nick k p. m v = Some (nick, k, p) \<longrightarrow> k = 0 \<or> k = LOBBY_UID \<or> k \<in> mId ` set ts)"

definition books_ok :: "unique_id \<Rightarrow> unique_id \<Rightarrow> user list \<Rightarrow> playing_table list \<Rightarrow> bool" where
  "books_ok tids uids us ts \<longleftrightarrow>
     pool_from TABLES_UID tids \<and> pool_from USERS_UID uids \<and>
     users_ok us \<and> names_unique (user_info us) \<and> (\<forall>v. user_info us v \<noteq> None \<longrightarrow> IsTaken v uids) \<and>
     distinct (map mId ts) \<and> (\<forall>t \<in> set ts. IsTaken (mId t) tids) \<and> (\<forall>t \<in> set ts. reachable 4 t) \<and>
     known_place ts (user_info us) \<and> tables.located (user_info us) ts"

definition lobby_ok :: "lobby \<Rightarrow> bool" where
  "lobby_ok l \<longleftrightarrow> books_ok (mTableIds l) (mUserIds l) (mUsers l) (mTables l)"

lemma pool_new: "0 < lo \<Longrightarrow> lo < hi \<Longrightarrow> pool_from lo (UniqueId_new lo hi)"
  by (simp add: pool_from_def pool_ok_new) (simp add: UniqueId_new_def IsTaken_def)

lemma pool_take:
  assumes "pool_from lo u" "TakeId u = (i, u')"
  shows "pool_from lo u' \<and> (\<forall>j. IsTaken j u' \<longleftrightarrow> IsTaken j u \<or> i \<noteq> 0 \<and> j = i) \<and> (i \<noteq> 0 \<longrightarrow> \<not> IsTaken i u \<and> lo \<le> i)"
proof (cases "i = 0")
  case True
  with assms ids.take_full [of u u'] show ?thesis by (simp add: pool_from_def)
next
  case False
  with assms ids.take_fresh [of u i u'] TakeId_found [OF assms(2) False] show ?thesis
    by (auto simp: pool_from_def)
qed

lemma pool_release:
  assumes "pool_from lo u"
  shows "pool_from lo (snd (ReleaseId i u)) \<and> (\<forall>j. IsTaken j (snd (ReleaseId i u)) \<longleftrightarrow> IsTaken j u \<and> j \<noteq> i)"
proof -
  have "mMin (snd (ReleaseId i u)) = mMin u" by (simp add: ReleaseId_def Let_def)
  with assms ids.release_frees [of u i "fst (ReleaseId i u)" "snd (ReleaseId i u)"] show ?thesis
    by (auto simp: pool_from_def)
qed

lemma books_D:
  assumes "books_ok tids uids us ts"
  shows "pool_from TABLES_UID tids" "pool_from USERS_UID uids" "users_ok us" "names_unique (user_info us)"
    "\<forall>v. user_info us v \<noteq> None \<longrightarrow> IsTaken v uids" "distinct (map mId ts)" "\<forall>t \<in> set ts. IsTaken (mId t) tids"
    "\<forall>t \<in> set ts. reachable 4 t" "known_place ts (user_info us)" "tables.located (user_info us) ts"
  using assms by (simp_all add: books_ok_def)

lemma table_numbers: "books_ok tids uids us ts \<Longrightarrow> t \<in> set ts \<Longrightarrow> 1000 \<le> mId t"
  using books_D(1,7) by (fastforce simp: pool_from_def TABLES_UID_def)

text \<open>Only new places have to be checked.\<close>

lemma places_from:
  assumes "books_ok tids uids us ts"
    and "\<And>v nick k p. m v = Some (nick, k, p) \<Longrightarrow> k = 0 \<or> k = LOBBY_UID \<or> (\<exists>nick. user_info us v = Some (nick, k, p))"
  shows "known_place ts m \<and> tables.located m ts"
proof -
  note B = books_D [OF assms(1)]
  have none: "mId t \<noteq> 0 \<and> mId t \<noteq> LOBBY_UID" if "t \<in> set ts" for t
    using table_numbers [OF assms(1) that] by (simp add: LOBBY_UID_def)
  have "known_place ts m" unfolding known_place_def
  proof (intro allI impI)
    fix v nick k p assume "m v = Some (nick, k, p)"
    from assms(2) [OF this] B(9) show "k = 0 \<or> k = LOBBY_UID \<or> k \<in> mId ` set ts" unfolding known_place_def by blast
  qed
  moreover have "tables.located m ts" unfolding tables.located_def
  proof (intro allI impI ballI)
    fix v nick k p t assume a: "m v = Some (nick, k, p)" "t \<in> set ts" "mId t = k"
    from assms(2) [OF a(1)] none [OF a(2)] a(3) obtain nick' where "user_info us v = Some (nick', k, p)" by blast
    with B(10) a(2,3) show "sits_at t v p" unfolding tables.located_def by blast
  qed
  ultimately show ?thesis ..
qed

text \<open>A new table.\<close>

lemma books_create:
  assumes "books_ok tids uids us ts" "TakeId tids = (i, tids')" "i \<noteq> 0" "reachable 4 t" "mId t = i"
  shows "books_ok tids' uids us (ts @ [t])"
proof -
  note B = books_D [OF assms(1)]
  have take: "pool_from TABLES_UID tids'" "\<forall>j. IsTaken j tids' \<longleftrightarrow> IsTaken j tids \<or> j = i" "\<not> IsTaken i tids" "1000 \<le> i"
    using pool_take [OF B(1) assms(2)] assms(3) by (auto simp: TABLES_UID_def)
  have new: "i \<notin> mId ` set ts" using B(7) take(3) by auto
  have none: "user_info us v \<noteq> Some (nick, i, p)" for v nick p
  proof
    assume "user_info us v = Some (nick, i, p)"
    with B(9) have "i = 0 \<or> i = LOBBY_UID \<or> i \<in> mId ` set ts" unfolding known_place_def by blast
    with new take(4) show False by (simp add: LOBBY_UID_def)
  qed
  have "tables.located (user_info us) (ts @ [t])" unfolding tables.located_def
    using B(10) assms(5) none by (fastforce simp: tables.located_def)
  moreover have "known_place (ts @ [t]) (user_info us)" unfolding known_place_def
    using B(9) [unfolded known_place_def] by fastforce
  ultimately show ?thesis using B take new assms(4,5) by (auto simp: books_ok_def)
qed

lemma books_take: "books_ok tids uids us ts \<Longrightarrow> TakeId tids = (0, tids') \<Longrightarrow> books_ok tids' uids us ts"
  using ids.take_full [of tids tids'] by (auto simp: books_ok_def pool_from_def)

text \<open>Users who arrive, log in, change their name, leave.\<close>

lemma books_arrive: "books_ok tids uids us ts \<Longrightarrow> TakeId uids = (i, uids') \<Longrightarrow> books_ok tids uids' us ts"
  using pool_take [of USERS_UID uids i uids'] by (auto simp: books_ok_def)

lemma books_login:
  assumes "books_ok tids uids us ts" "IsTaken (uUuid u) uids" "uTable u = LOBBY_UID"
  shows "books_ok tids uids (snd (AddEntry u us)) ts"
proof -
  note B = books_D [OF assms(1)]
  obtain b us' where add: "AddEntry u us = (b, us')" by (cases "AddEntry u us")
  have info: "user_info us' = user_info us \<or>
      user_info us' = (user_info us)(uUuid u \<mapsto> (username (uIdentity u), LOBBY_UID, uPlace u))"
    using users.add [OF B(3) add] assms(3) by auto
  have "known_place ts (user_info us') \<and> tables.located (user_info us') ts"
  proof (rule places_from [OF assms(1)])
    fix v nick k p assume "user_info us' v = Some (nick, k, p)"
    with info show "k = 0 \<or> k = LOBBY_UID \<or> (\<exists>nick. user_info us v = Some (nick, k, p))"
      by (auto split: if_splits)
  qed
  moreover have "\<forall>v. user_info us' v \<noteq> None \<longrightarrow> IsTaken v uids" using info B(5) assms(2) by (auto split: if_splits)
  ultimately show ?thesis
    using B users.ok_ops(1) [OF B(3), of u] users.add_names [OF B(3,4), of u] add by (simp add: books_ok_def)
qed

lemma books_rename:
  assumes "books_ok tids uids us ts"
  shows "books_ok tids uids (snd (ChangeNickName i nick us)) ts"
proof -
  note B = books_D [OF assms]
  obtain b us' where ren: "ChangeNickName i nick us = (b, us')" by (cases "ChangeNickName i nick us")
  have info: "user_info us' = user_info us \<or>
      user_info us' = (user_info us)(i := map_option (\<lambda>(_, t, p). (nick, t, p)) (user_info us i))"
    using users.rename [OF B(3) ren] by auto
  have "known_place ts (user_info us') \<and> tables.located (user_info us') ts"
  proof (rule places_from [OF assms])
    fix v n k p assume "user_info us' v = Some (n, k, p)"
    with info show "k = 0 \<or> k = LOBBY_UID \<or> (\<exists>nick. user_info us v = Some (nick, k, p))"
      by (auto split: if_splits)
  qed
  moreover have "\<forall>v. user_info us' v \<noteq> None \<longrightarrow> IsTaken v uids" using B(5) info by (auto split: if_splits)
  ultimately show ?thesis
    using B users.ok_ops(3) [OF B(3), of i nick] users.rename_names [OF B(3,4), of i nick] ren by (simp add: books_ok_def)
qed

lemma books_depart:
  assumes "books_ok tids uids us ts"
  shows "books_ok tids (snd (ReleaseId i uids)) (Users_Remove i us) ts"
proof -
  note B = books_D [OF assms]
  have info: "user_info (Users_Remove i us) = (user_info us)(i := None)" using users.remove [OF B(3)] by simp
  have "known_place ts (user_info (Users_Remove i us)) \<and> tables.located (user_info (Users_Remove i us)) ts"
    by (rule places_from [OF assms]) (auto simp: info split: if_splits)
  moreover have "\<forall>v. user_info (Users_Remove i us) v \<noteq> None \<longrightarrow> IsTaken v (snd (ReleaseId i uids))"
    using B(5) pool_release [OF B(2), of i] unfolding info by auto
  ultimately show ?thesis
    using B pool_release [OF B(2), of i] users.ok_ops(4) [OF B(3), of i] users.remove_names [OF B(3,4), of i]
    by (simp add: books_ok_def)
qed

text \<open>Seats taken and given up, messages to a table.\<close>

lemma books_again:
  assumes "books_ok tids uids us ts" "map mId ts' = map mId ts" "users_ok us'" "names_unique (user_info us')"
    and "\<forall>v. user_info us' v \<noteq> None \<longrightarrow> user_info us v \<noteq> None"
    and "known_place ts (user_info us')" "tables.located (user_info us') ts' \<and> (\<forall>t \<in> set ts'. reachable 4 t)"
  shows "books_ok tids uids us' ts'"
proof -
  note B = books_D [OF assms(1)]
  have nums: "mId ` set ts' = mId ` set ts" using assms(2) by (metis list.set_map)
  then have "\<forall>t \<in> set ts'. IsTaken (mId t) tids" using B(7) by (metis imageE imageI)
  moreover have "known_place ts' (user_info us')" using assms(6) unfolding known_place_def nums .
  moreover have "distinct (map mId ts')" using B(6) unfolding assms(2) .
  ultimately show ?thesis using B(1,2,5) assms(3-5,7) unfolding books_ok_def by blast
qed

lemma books_acts:
  assumes "books_ok tids uids us ts" "list_all2 (\<lambda>t t'. t' = t \<or> table_acts t t') ts ts'"
  shows "books_ok tids uids us ts'"
proof -
  note B = books_D [OF assms(1)]
  note T = tables.located_acts [OF B(10,8) assms(2)]
  show ?thesis by (rule books_again [OF assms(1) _ B(3,4) _ B(9)]) (use T in blast)+
qed

lemma books_leave:
  assumes "books_ok tids uids us ts" "user_info us u = None \<or> (\<exists>nick p. user_info us u = Some (nick, k, p))"
  shows "books_ok tids uids (SetPlayingTable u 0 NOWHERE us) (map (\<lambda>t. if mId t = k then RemovePlayer u t else t) ts)"
    (is "books_ok _ _ ?us ?ts")
proof -
  note B = books_D [OF assms(1)]
  have info: "user_info ?us = (user_info us)(u := map_option (\<lambda>(nick, _, _). (nick, 0, NOWHERE)) (user_info us u))"
    using users.move [OF B(3)] by simp
  have "0 \<notin> mId ` set ts" using table_numbers [OF assms(1)] by fastforce
  note T = tables.located_leave [OF B(10,8) assms(2) this info refl]
  have place: "known_place ts (user_info ?us)"
  proof (rule conjunct1 [OF places_from [OF assms(1)]])
    fix v nick k p assume "user_info ?us v = Some (nick, k, p)"
    then show "k = 0 \<or> k = LOBBY_UID \<or> (\<exists>nick. user_info us v = Some (nick, k, p))"
      unfolding info by (cases "v = u") auto
  qed
  show ?thesis
  proof (rule books_again [OF assms(1) _ users.ok_ops(2) [OF B(3)] users.move_names [OF B(3,4)] _ place])
    show "\<forall>v. user_info ?us v \<noteq> None \<longrightarrow> user_info us v \<noteq> None" unfolding info by simp
  qed (use T in blast)+
qed

lemma seat_player_first:
  "seat_player u k ts = Some (p, t', ts') \<Longrightarrow>
   \<exists>ts1 t ts2. ts = ts1 @ t # ts2 \<and> ts' = ts1 @ t' # ts2 \<and> mId t = k \<and> join_table u t = (p, t')"
proof (induction ts arbitrary: ts')
  case (Cons t ts)
  show ?case
  proof (cases "mId t = k")
    case True
    with Cons.prems have "join_table u t = (p, t') \<and> ts' = t' # ts"
      by (auto simp: join_table_def Let_def split: prod.splits)
    with True show ?thesis by (intro exI [of _ "[]"]) auto
  next
    case False
    with Cons.prems obtain ts3 where s: "seat_player u k ts = Some (p, t', ts3)" "ts' = t # ts3" by auto
    from Cons.IH [OF s(1)] obtain ts1 t0 ts2 where
      "ts = ts1 @ t0 # ts2 \<and> ts3 = ts1 @ t' # ts2 \<and> mId t0 = k \<and> join_table u t0 = (p, t')" by blast
    with s(2) show ?thesis by (intro exI [of _ "t # ts1"] exI [of _ t0] exI [of _ ts2]) simp
  qed
qed simp

lemma books_seat:
  assumes "books_ok tids uids us ts" "seat_player u k ts = Some (p, t', ts')"
  shows "if p = NOWHERE then ts' = ts else books_ok tids uids (SetPlayingTable u k p us) ts'"
proof -
  note B = books_D [OF assms(1)]
  from seat_player_first [OF assms(2)] obtain ts1 t ts2 where
    ts: "ts = ts1 @ t # ts2" "ts' = ts1 @ t' # ts2" "mId t = k" "join_table u t = (p, t')" by blast
  have t: "reachable 4 t" using B(8) ts(1) by simp
  show ?thesis
  proof (cases "p = NOWHERE")
    case True
    with tables.join [OF t ts(4)] ts(1,2) show ?thesis by simp
  next
    case False
    let ?us = "SetPlayingTable u k p us"
    have info: "user_info ?us = (user_info us)(u := map_option (\<lambda>(nick, _, _). (nick, k, p)) (user_info us u))"
      using users.move [OF B(3)] by simp
    note T = tables.located_join [OF B(10,8,6) ts(1,4,3) False info]
    have "k \<in> mId ` set ts" using ts(1,3) by auto
    then have place: "known_place ts (user_info ?us)"
      using B(9) unfolding known_place_def info by (auto split: if_splits)
    show ?thesis unfolding if_not_P [OF False]
    proof (rule books_again [OF assms(1) _ users.ok_ops(2) [OF B(3)] users.move_names [OF B(3,4)] _ place])
      show "\<forall>v. user_info ?us v \<noteq> None \<longrightarrow> user_info us v \<noteq> None" unfolding info by simp
    qed (use T ts(2) in blast)+
  qed
qed

section \<open>Every operation keeps the books\<close>

lemma SendPlayerEvent_frame [frame]: "\<exists>c. snd (SendPlayerEvent u event l) = l\<lparr>mEvCounter := c\<rparr>"
proof (cases "Users_GetEntry u (mUsers l)")
  case None
  then have "snd (SendPlayerEvent u event l) = l\<lparr>mEvCounter := mEvCounter l\<rparr>" by (simp add: SendPlayerEvent_def)
  then show ?thesis by blast
qed (auto simp: SendPlayerEvent_def Let_def)

lemma lobby_ok_event: "lobby_ok l \<Longrightarrow> lobby_ok (snd (SendPlayerEvent u event l))"
  using SendPlayerEvent_frame [of u event l] by (auto simp: lobby_ok_def)

lemma lobby_ok_create [keeps]: "lobby_ok l \<Longrightarrow> lobby_ok (snd (Lobby_CreateTable name g p l))"
proof -
  assume ok: "lobby_ok l"
  obtain i pool where take: "TakeId (mTableIds l) = (i, pool)" by (cases "TakeId (mTableIds l)")
  show ?thesis
  proof (cases "i = 0")
    case True
    with ok take books_take show ?thesis by (auto simp: lobby_ok_def Lobby_CreateTable_def)
  next
    case False
    let ?t = "open_table i name (lobbyAdminMode l) g 4 p"
    have "reachable 4 ?t" by (rule reachable_with.opened)
    moreover have "mId ?t = i"
      by (simp add: open_table_def Table_CreateTable_def Table_Initialize_def SetupGame_def SetAdminMode_def)
    ultimately have "books_ok pool (mUserIds l) (mUsers l) (mTables l @ [?t])"
      using books_create [OF _ take False] ok by (simp add: lobby_ok_def)
    moreover have "snd (Lobby_CreateTable name g p l) = l\<lparr>mTableIds := pool, mTables := mTables l @ [?t]\<rparr>"
      using False by (simp add: Lobby_CreateTable_def take Let_def open_table_def)
    ultimately show ?thesis by (simp add: lobby_ok_def)
  qed
qed

lemma lobby_ok_init [keeps]: "lobby_ok l \<Longrightarrow> lobby_ok (Lobby_Initialize name tables l)"
proof -
  have "lobby_ok l \<Longrightarrow> lobby_ok (fold (\<lambda>(n, p) l. snd (Lobby_CreateTable n Game_default p l)) tables l)" for l
    by (induction tables arbitrary: l) (auto intro: lobby_ok_create)
  then show "lobby_ok l \<Longrightarrow> lobby_ok (Lobby_Initialize name tables l)"
    by (simp add: Lobby_Initialize_def) (simp add: lobby_ok_def)
qed

lemma lobby_ok_arrive [keeps]: "lobby_ok l \<Longrightarrow> lobby_ok (snd (AddUser peer l))"
  by (auto simp: lobby_ok_def AddUser_def split_beta intro: books_arrive [of _ _ _ _ "fst (TakeId (mUserIds l))"])

lemma SetPlayingTable_absent: "\<not> IsHere u us \<Longrightarrow> SetPlayingTable u k p us = us"
proof -
  have "u \<notin> uUuid ` set us \<Longrightarrow> update_user u f us = us" for f by (induction us) auto
  then show "\<not> IsHere u us \<Longrightarrow> SetPlayingTable u k p us = us"
    by (simp add: SetPlayingTable_def IsHere_find find_user_None)
qed

lemma user_info_table: "user_info us u = None \<and> GetPlayerTable u us = LOBBY_UID \<or>
    (\<exists>nick p. user_info us u = Some (nick, GetPlayerTable u us, p))"
  by (auto simp: user_info_def GetPlayerTable_def split: option.split)

lemma RemovePlayerFromTable_frame:
  "\<exists>c. snd (RemovePlayerFromTable u k l) = l\<lparr>mTables := map (\<lambda>t. if mId t = k then RemovePlayer u t else t) (mTables l),
     mUsers := SetPlayingTable u 0 NOWHERE (mUsers l), mEvCounter := c\<rparr>"
proof -
  define l2 where "l2 = l\<lparr>mTables := map (\<lambda>t. if mId t = k then RemovePlayer u t else t) (mTables l),
     mUsers := SetPlayingTable u 0 NOWHERE (mUsers l)\<rparr>"
  have "RemovePlayerFromTable u k l = SendPlayerEvent u ''LeaveTable'' l2"
  proof (cases "IsHere u (mUsers l)")
    case False
    then show ?thesis by (simp add: RemovePlayerFromTable_def Let_def l2_def SetPlayingTable_absent)
  qed (simp add: RemovePlayerFromTable_def Let_def l2_def)
  with SendPlayerEvent_frame [of u "''LeaveTable''" l2] show ?thesis by (auto simp: l2_def)
qed

lemma lobby_ok_leave [keeps]:
  assumes "lobby_ok l" "k = GetPlayerTable u (mUsers l)"
  shows "lobby_ok (snd (RemovePlayerFromTable u k l))"
proof -
  have "user_info (mUsers l) u = None \<or> (\<exists>nick p. user_info (mUsers l) u = Some (nick, k, p))"
    using user_info_table [of "mUsers l" u] assms(2) by blast
  with books_leave [of "mTableIds l" "mUserIds l" "mUsers l" "mTables l" u k] assms(1)
    RemovePlayerFromTable_frame [of u k l]
  show ?thesis by (auto simp: lobby_ok_def)
qed

lemma lobby_ok_depart [keeps]: "lobby_ok l \<Longrightarrow> lobby_ok (RemoveUser u l)"
proof -
  assume ok: "lobby_ok l"
  define l1 where "l1 = (if GetPlayerTable u (mUsers l) \<noteq> LOBBY_UID
    then snd (RemovePlayerFromTable u (GetPlayerTable u (mUsers l)) l) else l)"
  have "lobby_ok l1" using ok lobby_ok_leave [OF ok refl] by (simp add: l1_def)
  moreover have "RemoveUser u l = l1\<lparr>mUsers := Users_Remove u (mUsers l1), mUserIds := snd (ReleaseId u (mUserIds l1))\<rparr>"
    unfolding RemoveUser_def Let_def l1_def [symmetric] ..
  ultimately show ?thesis using books_depart by (simp add: lobby_ok_def)
qed

lemma do_login_frame:
  "snd (do_login src doc l) = l \<or> IsTaken src (mUserIds l) \<and>
   (\<exists>c. snd (do_login src doc l) = l\<lparr>mUsers := snd (AddEntry \<lparr>uUuid = src, uTable = LOBBY_UID, uPlace = NOWHERE,
      uIdentity = Identity_FromJson (GetObj doc) Identity_new\<rparr> (mUsers l)), mEvCounter := c\<rparr>)"
  (is "_ \<or> _ \<and> (\<exists>c. _ = l\<lparr>mUsers := snd ?add, mEvCounter := c\<rparr>)")
proof (cases "IsTaken src (mUserIds l) \<and> fst ?add")
  case True
  then have "snd (do_login src doc l) = snd (SendPlayerEvent src ''New'' (l\<lparr>mUsers := snd ?add\<rparr>))"
    by (simp add: do_login_def Let_def split_beta)
  with True SendPlayerEvent_frame [of src "''New''" "l\<lparr>mUsers := snd ?add\<rparr>"] show ?thesis by auto
next
  case False
  then have "snd (do_login src doc l) = l" by (simp add: do_login_def Let_def split_beta)
  then show ?thesis ..
qed

lemma do_join_frame:
  assumes "do_join src doc l = Some (out, l')"
  shows "l' = l \<or> GetPlayerTable src (mUsers l) = LOBBY_UID \<and>
    (\<exists>p t ts. seat_player src (u32_field ''table_id'' doc) (mTables l) = Some (p, t, ts) \<and>
      (if p = NOWHERE then l' = l\<lparr>mTables := ts\<rparr>
       else \<exists>c. l' = l\<lparr>mTables := ts, mUsers := SetPlayingTable src (u32_field ''table_id'' doc) p (mUsers l), mEvCounter := c\<rparr>))"
proof -
  let ?k = "u32_field ''table_id'' doc"
  show ?thesis
  proof (cases "GetPlayerTable src (mUsers l) = LOBBY_UID \<and> seat_player src ?k (mTables l) \<noteq> None")
    case True
    then obtain p t ts where s: "GetPlayerTable src (mUsers l) = LOBBY_UID" "seat_player src ?k (mTables l) = Some (p, t, ts)"
      by auto
    then obtain deck where deck: "Engine_GetDeck p (mEngine t) = Some deck"
      using assms by (auto simp: do_join_def Let_def bind_eq_Some_conv)
    show ?thesis
    proof (cases "p = NOWHERE")
      case True
      then have "\<not> Place_IsValid p" by (simp add: Place_IsValid_def)
      then have "l' = l\<lparr>mTables := ts\<rparr>" using assms s deck by (simp add: do_join_def Let_def)
      with s True show ?thesis by simp
    next
      case False
      then have "Place_IsValid p" by (cases p) (simp_all add: Place_IsValid_def less_place_def)
      then have "l' = snd (SendPlayerEvent src ''JoinTable'' (l\<lparr>mTables := ts, mUsers := SetPlayingTable src ?k p (mUsers l)\<rparr>))"
        using assms s deck by (simp add: do_join_def Let_def split_beta)
      with s False SendPlayerEvent_frame [of src "''JoinTable''" "l\<lparr>mTables := ts, mUsers := SetPlayingTable src ?k p (mUsers l)\<rparr>"]
      show ?thesis by auto
    qed
  next
    case False
    then have "l' = l"
      using assms by (cases "seat_player src ?k (mTables l)") (auto simp: do_join_def Let_def split: if_splits)
    then show ?thesis ..
  qed
qed

lemma forward_acts:
  assumes "sound_environment 4 env" "forward env src doc k ts = Some (out, ts')"
  shows "list_all2 (\<lambda>t t'. t' = t \<or> table_acts t t') ts ts'"
  using assms(2)
proof (induction ts arbitrary: out ts')
  case (Cons t ts)
  obtain f o1 t' where t': "(if mId t = k then ExecuteRequest env src doc t else Some (False, [], t)) = Some (f, o1, t')"
    using Cons.prems by (auto simp: bind_eq_Some_conv)
  obtain o2 ts2 where ts2: "forward env src doc k ts = Some (o2, ts2)" "ts' = t' # ts2"
    using Cons.prems t' by (auto split: if_splits)
  have "t' = t \<or> table_acts t t'" using t' assms(1) by (auto simp: table_acts_def split: if_splits)
  with Cons.IH [OF ts2(1)] ts2(2) show ?case by simp
qed simp

lemma lobby_ok_quit [keeps]: "lobby_ok l \<Longrightarrow> lobby_ok (snd (do_quit src doc l))"
  using lobby_ok_leave [OF _ refl, of l src] by (auto simp: do_quit_def Let_def)

lemma lobby_ok_request [keeps]:
  assumes "lobby_ok l" "lobby_request src doc l = Some (ret, out, l')"
  shows "lobby_ok l'"
proof -
  have ok: "books_ok (mTableIds l) (mUserIds l) (mUsers l) (mTables l)" using assms(1) by (simp add: lobby_ok_def)
  have login: "lobby_ok (snd (do_login src doc l))"
    using do_login_frame [of src doc l] assms(1) books_login [OF ok] by (auto simp: lobby_ok_def)
  have join: "lobby_ok l''" if "do_join src doc l = Some (o1, l'')" for o1 l''
    using do_join_frame [OF that] assms(1) books_seat [OF ok] by (fastforce simp: lobby_ok_def split: if_splits)
  have nick: "lobby_ok (snd (do_nickname src doc l))"
    using assms(1) books_rename [OF ok]
    by (auto simp: do_nickname_def split_beta lobby_ok_def intro: lobby_ok_event [unfolded lobby_ok_def, of "l\<lparr>mUsers := x\<rparr>" for x, simplified])
  from assms(2) login join nick lobby_ok_quit [OF assms(1), of src doc] assms(1) show ?thesis
    by (auto simp: lobby_request_def Let_def split: if_splits)
qed

lemma lobby_ok_document [keeps]:
  assumes "lobby_ok l" "sound_environment 4 env" "handle_document env req doc l = Some (ret, out, l')"
  shows "lobby_ok l'"
proof (cases "IsTaken (dest_uuid req) (mTableIds l)")
  case True
  have ok: "books_ok (mTableIds l) (mUserIds l) (mUsers l) (mTables l)" using assms(1) by (simp add: lobby_ok_def)
  show ?thesis
  proof (cases "GetPlayerTable (src_uuid req) (mUsers l) = dest_uuid req")
    case here: True
    then obtain o2 ts where f: "forward env (src_uuid req) doc (dest_uuid req) (mTables l) = Some (o2, ts)" "l' = l\<lparr>mTables := ts\<rparr>"
      using assms(3) True by (auto simp: handle_document_def)
    from books_acts [OF ok forward_acts [OF assms(2) f(1)]] show ?thesis by (simp add: lobby_ok_def f(2))
  next
    case False
    with assms(1,3) True show ?thesis by (simp add: handle_document_def)
  qed
next
  case False
  then have "l' = l \<or> lobby_request (src_uuid req) doc l = Some (ret, out, l')"
    using assms(3) by (simp add: handle_document_def split: if_splits)
  with assms(1) lobby_ok_request show ?thesis by blast
qed

lemma Lobby_Deliver_cases:
  assumes "Lobby_Deliver env req l = Some (ret, out, l')"
  obtains "l' = l" | doc o1 where "handle_document env req doc l = Some (ret, o1, l')"
  using assms unfolding Lobby_Deliver_def by (cases "ParseString (arg req)") auto

lemma lobby_ok_deliver [keeps]:
  assumes "lobby_ok l" "sound_environment 4 env" "Lobby_Deliver env req l = Some (ret, out, l')"
  shows "lobby_ok l'"
  using assms(3) by (cases rule: Lobby_Deliver_cases) (use assms(1,2) lobby_ok_document in blast)+

section \<open>Reachable lobbies\<close>

text \<open>
  A server's lobby and what happens to it: tables are opened, clients connect and disconnect, requests
  with any sender's number and any text arrive. Nothing in the program closes a table or drops all users.
\<close>

inductive lobby_step :: "lobby \<Rightarrow> lobby \<Rightarrow> bool" where
  opens: "lobby_step l (snd (Lobby_CreateTable name g p l))"
| initialized: "lobby_step l (Lobby_Initialize name tables l)"
| allowed: "lobby_step l (AddAllowedClient web key pass l)"
| connects: "lobby_step l (snd (AddUser peer l))"
| disconnects: "lobby_step l (RemoveUser uuid l)"
| requests: "sound_environment 4 env \<Longrightarrow> Lobby_Deliver env req l = Some (ret, out, l') \<Longrightarrow> lobby_step l l'"

inductive_cases lobby_stepE: "lobby_step l l'"

inductive lobby_reachable :: "lobby \<Rightarrow> bool" where
  started: "lobby_reachable (Lobby_new adminMode)"
| step: "lobby_reachable l \<Longrightarrow> lobby_step l l' \<Longrightarrow> lobby_reachable l'"

lemma lobby_ok_new: "lobby_ok (Lobby_new adminMode)"
  by (simp add: lobby_ok_def Lobby_new_def books_ok_def pool_new TABLES_UID_def USERS_UID_def MAXIMUM_USERS_def
      MAXIMUM_TABLES_def users_ok_def names_unique_def known_place_def tables.located_def user_info_def)

lemma lobby_step_ok: "lobby_step l l' \<Longrightarrow> lobby_ok l \<Longrightarrow> lobby_ok l'"
proof (induction rule: lobby_step.induct)
  case (allowed l web key pass)
  then show ?case by (simp add: lobby_ok_def AddAllowedClient_def)
qed (auto intro: keeps)

lemma lobby_reachable_ok: "lobby_reachable l \<Longrightarrow> lobby_ok l"
  by (induction rule: lobby_reachable.induct) (auto intro: lobby_ok_new lobby_step_ok)

end
