(* ===== verification/Sessions.thy ===== *)
theory Sessions
  imports Protocol Lobby_Facts
begin

text \<open>
  The sessions of the server and of the client (Server.h, Server.cpp, Session.cpp): each connected peer
  has a session with its own protocol state; a frame is received in two parts, the header and the
  body; the first body of a session has to show the pass phrase, the later ones are requests to the
  lobby, whose replies go out through the sessions of their peers. A peer is the index of its session.
  What the network does is a sequence of events; a part arrives as a whole. \<open>None\<close> is undefined
  behaviour or \<open>abort()\<close>.
\<close>

section \<open>State\<close>

datatype awaited = Await_Header | Await_Body | Closed

record session =
  sUuid :: nat
  sProto :: protocol
  mIsPending :: bool
  sSec :: security
  sHeader :: header
  sAwait :: awaited

record server =
  sLobby :: lobby
  sPeers :: "session list"

text \<open>The buffer of a new session is not initialized.\<close>

definition PeerSession_new :: "string \<Rightarrow> session" where
  "PeerSession_new buffer =
     \<lparr>sUuid = 0, sProto = Protocol_new buffer, mIsPending = True,
      sSec = \<lparr>webId = [], gek = [], passPhrase = []\<rparr>, sHeader = Header_new, sAwait = Await_Header\<rparr>"

text \<open>The place of the first dealer of the table is drawn at random.\<close>

definition Server_new :: "place \<Rightarrow> server" where
  "Server_new randomPlace =
     \<lparr>sLobby = snd (Lobby_CreateTable ''Local game'' Game_default randomPlace (Lobby_new False)), sPeers = []\<rparr>"

definition AddClient :: "string \<Rightarrow> string \<Rightarrow> string \<Rightarrow> server \<Rightarrow> server" where
  "AddClient web key pass st = st\<lparr>sLobby := AddAllowedClient web key pass (sLobby st)\<rparr>"

definition with_session :: "nat \<Rightarrow> (session \<Rightarrow> session) \<Rightarrow> server \<Rightarrow> server" where
  "with_session i f st = st\<lparr>sPeers := (sPeers st)[i := f (sPeers st ! i)]\<rparr>"

section \<open>Sending\<close>

text \<open>The frame that a session writes, with the number of its peer as the destination.\<close>

definition PeerSession_Deliver ::
  "(bytes \<Rightarrow> bytes \<Rightarrow> bytes) \<Rightarrow> memory \<Rightarrow> nat \<Rightarrow> string \<Rightarrow> server \<Rightarrow> ((nat \<times> string) list \<times> server) option" where
  "PeerSession_Deliver aes mem i data st =
     (let s = sPeers st ! i
      in map_option (\<lambda>(frame, p). ([(i, frame)], with_session i (\<lambda>s. s\<lparr>sProto := p\<rparr>) st))
           (Protocol_Build aes mem LOBBY_UID (sUuid s) data [] (sProto s)))"

fun deliver_all ::
  "(bytes \<Rightarrow> bytes \<Rightarrow> bytes) \<Rightarrow> memory \<Rightarrow> (nat \<times> string) list \<Rightarrow> server \<Rightarrow> ((nat \<times> string) list \<times> server) option" where
  "deliver_all aes mem [] st = Some ([], st)"
| "deliver_all aes mem ((i, data) # out) st =
     Option.bind (PeerSession_Deliver aes mem i data st) (\<lambda>(fs, st1).
       map_option (\<lambda>(fs', st2). (fs @ fs', st2)) (deliver_all aes mem out st1))"

section \<open>Receiving\<close>

definition PeerSession_Start :: "string \<Rightarrow> server \<Rightarrow> server" where
  "PeerSession_Start buffer st =
     (let i = length (sPeers st);
          (uuid, l) = AddUser i (sLobby st)
      in st\<lparr>sLobby := l, sPeers := sPeers st @ [(PeerSession_new buffer)\<lparr>sUuid := uuid\<rparr>]\<rparr>)"

definition remove_user :: "nat \<Rightarrow> server \<Rightarrow> server" where
  "remove_user uuid st = st\<lparr>sLobby := RemoveUser uuid (sLobby st)\<rparr>"

text \<open>The keys of the player whose identifier is the prefix of the first frame.\<close>

definition load_security :: "lobby \<Rightarrow> session \<Rightarrow> session" where
  "load_security l s =
     (let h = ParsePrefix (sHeader s) (sProto s);
          s1 = s\<lparr>sHeader := h\<rparr>
      in case GetSecurity (h_prefix h) l of
           Some sec \<Rightarrow> s1\<lparr>sSec := sec, sProto := SetSecurity (gek sec) (sProto s1)\<rparr>
         | None \<Rightarrow> s1)"

definition login_request :: "nat \<Rightarrow> string" where
  "login_request uuid = Object_ToString (- 1) (make_object [(''cmd'', JString ''RequestLogin''), (''uuid'', JInt (int uuid))])"

definition HandleBody ::
  "environment \<Rightarrow> (bytes \<Rightarrow> bytes \<Rightarrow> bytes) \<Rightarrow> memory \<Rightarrow> nat \<Rightarrow> server \<Rightarrow> ((nat \<times> string) list \<times> server) option" where
  "HandleBody env aes mem i st =
     (let s = (if mIsPending (sPeers st ! i) then load_security (sLobby st) (sPeers st ! i) else sPeers st ! i);
          st1 = with_session i (\<lambda>_. s) st
      in Option.bind (DecryptPayload aes mem [] (sHeader s) (sProto s)) (\<lambda>(ok, text).
           if ok then
             (if mIsPending s then
                (if text = passPhrase (sSec s) then
                   PeerSession_Deliver aes mem i (login_request (sUuid s)) (with_session i (\<lambda>s. s\<lparr>mIsPending := False\<rparr>) st1)
                 else Some ([], remove_user (sUuid s) st1))
              else
                Option.bind (Lobby_Deliver env \<lparr>src_uuid = src_uid (sHeader s), dest_uuid = dst_uid (sHeader s), arg = text\<rparr> (sLobby st1))
                  (\<lambda>(ret, out, l). deliver_all aes mem out (st1\<lparr>sLobby := l\<rparr>)))
           else Some ([], remove_user (sUuid s) st1)))"

definition ReadHeader :: "nat \<Rightarrow> string \<Rightarrow> server \<Rightarrow> server option" where
  "ReadHeader i data st =
     (let p = receive_header data (sProto (sPeers st ! i))
      in map_option (\<lambda>(ok, h). with_session i (\<lambda>s. s\<lparr>sProto := p, sHeader := h, sAwait := (if ok then Await_Body else Await_Header)\<rparr>) st)
           (ParseHeader (sHeader (sPeers st ! i)) p))"

definition ReadBody ::
  "environment \<Rightarrow> (bytes \<Rightarrow> bytes \<Rightarrow> bytes) \<Rightarrow> memory \<Rightarrow> nat \<Rightarrow> string \<Rightarrow> server \<Rightarrow> ((nat \<times> string) list \<times> server) option" where
  "ReadBody env aes mem i data st =
     HandleBody env aes mem i
       (with_session i (\<lambda>s. s\<lparr>sProto := receive_body data (sProto s), sAwait := Await_Header\<rparr>) st)"

section \<open>Events\<close>

text \<open>
  A connection; a header of 28 characters; a body of the announced length; the end of a connection
  while a header is awaited, which removes the user; and an error while a body is awaited, which does not.
  There is no event of its own for a header or body that arrives in part, and for the other errors of a
  read, after which the code goes on with what the buffer holds: as the characters received are
  arbitrary, these are the events of a header or body that repeats what the buffer held.
\<close>

datatype net_event =
  Peer_Connected string | Header_Received nat string | Body_Received nat string
| Peer_Disconnected nat | Body_Error nat

definition server_event ::
  "environment \<Rightarrow> (bytes \<Rightarrow> bytes \<Rightarrow> bytes) \<Rightarrow> memory \<Rightarrow> net_event \<Rightarrow> server \<Rightarrow> ((nat \<times> string) list \<times> server) option" where
  "server_event env aes mem ev st =
     (case ev of
        Peer_Connected buffer \<Rightarrow> Some ([], PeerSession_Start buffer st)
      | Header_Received i data \<Rightarrow> map_option (Pair []) (ReadHeader i data st)
      | Body_Received i data \<Rightarrow> ReadBody env aes mem i data st
      | Peer_Disconnected i \<Rightarrow>
          Some ([], with_session i (\<lambda>s. s\<lparr>sAwait := Closed\<rparr>) (remove_user (sUuid (sPeers st ! i)) st))
      | Body_Error i \<Rightarrow> Some ([], with_session i (\<lambda>s. s\<lparr>sAwait := Closed\<rparr>) st))"

text \<open>The events that can happen to a state.\<close>

definition event_ok :: "net_event \<Rightarrow> server \<Rightarrow> bool" where
  "event_ok ev st =
     (case ev of
        Peer_Connected buffer \<Rightarrow> length buffer = PROTO_HEADER_SIZE + PROTO_MAX_BODY_SIZE
      | Header_Received i data \<Rightarrow>
          i < length (sPeers st) \<and> sAwait (sPeers st ! i) = Await_Header \<and> length data = PROTO_HEADER_SIZE
      | Body_Received i data \<Rightarrow>
          i < length (sPeers st) \<and> sAwait (sPeers st ! i) = Await_Body \<and> length data = BodyLength (sHeader (sPeers st ! i))
      | Peer_Disconnected i \<Rightarrow> i < length (sPeers st) \<and> sAwait (sPeers st ! i) = Await_Header
      | Body_Error i \<Rightarrow> i < length (sPeers st) \<and> sAwait (sPeers st ! i) = Await_Body)"

section \<open>The client\<close>

definition BuildConnectionPacket ::
  "(bytes \<Rightarrow> bytes \<Rightarrow> bytes) \<Rightarrow> memory \<Rightarrow> string \<Rightarrow> string \<Rightarrow> protocol \<Rightarrow> (string \<times> protocol) option" where
  "BuildConnectionPacket aes mem web pass p = Protocol_Build aes mem 0 LOBBY_UID pass web p"

definition Session_Initialize :: "string \<Rightarrow> protocol \<Rightarrow> protocol" where
  "Session_Initialize key p = SetSecurity key p"

text \<open>The frames that the client writes for its messages, one for each destination.\<close>

fun send_frames ::
  "(bytes \<Rightarrow> bytes \<Rightarrow> bytes) \<Rightarrow> memory \<Rightarrow> nat \<Rightarrow> (nat \<times> string) list \<Rightarrow> protocol \<Rightarrow> (string list \<times> protocol) option" where
  "send_frames aes mem my_uid [] p = Some ([], p)"
| "send_frames aes mem my_uid ((dest, data) # out) p =
     Option.bind (Protocol_Build aes mem my_uid dest data [] p) (\<lambda>(frame, p1).
       map_option (\<lambda>(fs, p2). (frame # fs, p2)) (send_frames aes mem my_uid out p1))"

definition Session_Send ::
  "(bytes \<Rightarrow> bytes \<Rightarrow> bytes) \<Rightarrow> memory \<Rightarrow> nat \<Rightarrow> reply list \<Rightarrow> protocol \<Rightarrow> (string list \<times> protocol) option" where
  "Session_Send aes mem my_uid out p =
     send_frames aes mem my_uid
       (concat (map (\<lambda>r. map (\<lambda>dest. (dest, Object_ToString (- 1) (rData r))) (rDest r)) out)) p"

text \<open>A body that the client received: the request for its listener.\<close>

definition Session_ReadBody ::
  "(bytes \<Rightarrow> bytes \<Rightarrow> bytes) \<Rightarrow> memory \<Rightarrow> header \<Rightarrow> string \<Rightarrow> protocol \<Rightarrow> (request option \<times> protocol) option" where
  "Session_ReadBody aes mem h data p =
     (let p1 = receive_body data p
      in map_option (\<lambda>(ok, text). (if ok then Some \<lparr>src_uuid = src_uid h, dest_uuid = dst_uid h, arg = text\<rparr> else None, p1))
           (DecryptPayload aes mem [] h p1))"

end
