(* ===== verification/Protocol_Facts.thy ===== *)
theory Protocol_Facts
  imports Protocol
begin

text \<open>
  Facts on frames: the hexadecimal fields of the header and how they are read back, encryption and
  decryption over the specification of the mode, and the text of a frame.
\<close>
section \<open>Characters and bytes\<close>

lemma length_bytes_of [simp]: "length (bytes_of s) = length s"
  by (simp add: bytes_of_def)

lemma length_text_of [simp]: "length (text_of b) = length b"
  by (simp add: text_of_def)

lemma bytes_of_text_of [simp]: "bytes_of (text_of b) = b"
proof -
  have "of_nat (of_char (char_of (unat x) :: char)) = x" for x :: u8
    using unsigned_less [of x, where 'a = nat] by simp
  then have "map (\<lambda>x. of_nat (of_char (char_of (unat x) :: char))) b = b" by (rule map_idI)
  then show ?thesis by (simp add: bytes_of_def text_of_def o_def)
qed

lemma text_of_bytes_of [simp]: "text_of (bytes_of s) = s"
proof -
  have "char_of (unat (of_nat (of_char ch) :: u8)) = ch" for ch
    using nat_of_char_less_256 [of ch] by (simp add: unsigned_of_nat take_bit_nat_eq_self)
  then have "map (\<lambda>ch. char_of (unat (of_nat (of_char ch) :: u8))) s = s" by (rule map_idI)
  then show ?thesis by (simp add: bytes_of_def text_of_def o_def)
qed

section \<open>The fields of the header\<close>

definition lower_hex :: string where "lower_hex = ''0123456789abcdef''"

lemma lower_hex_digits:
  "list_all (\<lambda>a. isxdigit (lower_hex ! a) \<and> CharToInt (lower_hex ! a) = a) [0..<16]"
  by code_simp

lemma lower_hex_digit:
  assumes "a < 16"
  shows "isxdigit (lower_hex ! a)" "CharToInt (lower_hex ! a) = a"
  using assms lower_hex_digits unfolding list_all_iff by simp_all

lemma hex_string_rec:
  "hex_string n = (if n < 16 then [lower_hex ! n] else hex_string (n div 16) @ [lower_hex ! (n mod 16)])"
  by (subst hex_string.simps) (simp add: lower_hex_def Let_def)

lemma digits16_snoc: "digits16 (ds @ [d]) = digits16 ds * 16 + CharToInt d"
  by (simp add: digits16_def)

lemma hex_string_digits: "list_all isxdigit (hex_string n) \<and> digits16 (hex_string n) = n \<and> hex_string n \<noteq> []"
proof (induction n rule: less_induct)
  case (less n)
  show ?case
  proof (cases "n < 16")
    case True
    then show ?thesis by (subst (1 2 3) hex_string_rec) (simp add: lower_hex_digit digits16_def)
  next
    case False
    then have "n div 16 < n" "n mod 16 < 16" by simp_all
    with less False show ?thesis
      by (subst (1 2 3) hex_string_rec) (simp add: lower_hex_digit digits16_snoc)
  qed
qed

lemma length_hex_string: "n < 16 ^ Suc k \<Longrightarrow> length (hex_string n) \<le> Suc k"
proof (induction k arbitrary: n)
  case 0
  then show ?case by (subst hex_string_rec) simp
next
  case (Suc k)
  then have "n div 16 < 16 ^ Suc k" by (simp add: less_mult_imp_div_less)
  with Suc.IH show ?case by (subst hex_string_rec) simp
qed

lemma digits16_pad: "digits16 (pad0 w s) = digits16 s"
proof -
  have "fold (\<lambda>ch n. n * 16 + CharToInt ch) (replicate k (CHR ''0'')) (0 :: nat) = 0" for k
    by (induction k) (simp_all add: CharToInt_def)
  then show ?thesis by (simp add: digits16_def pad0_def)
qed

definition field4 :: "nat \<Rightarrow> string" where
  "field4 n = pad0 4 (hex_string n)"

lemma field4:
  assumes "n < 65536"
  shows "length (field4 n) = 4" "list_all isxdigit (field4 n)" "digits16 (field4 n) = n"
proof -
  from assms length_hex_string [of n 3] have "length (hex_string n) \<le> 4" by simp
  then show "length (field4 n) = 4" by (simp add: field4_def pad0_def)
  show "list_all isxdigit (field4 n)"
    using hex_string_digits [of n] by (auto simp: field4_def pad0_def list_all_iff isxdigit_def is_digit_def)
  show "digits16 (field4 n) = n" using hex_string_digits [of n] by (simp add: field4_def digits16_pad)
qed

lemma isxdigit_plain: "isxdigit ch \<Longrightarrow> \<not> is_space ch \<and> ch \<noteq> CHR ''-'' \<and> ch \<noteq> CHR ''+'' \<and> ch \<noteq> CHR ''x'' \<and> ch \<noteq> CHR ''X''"
  by (auto simp: isxdigit_def is_digit_def is_space_def)

lemma not_xdigit_colon: "\<not> isxdigit (CHR '':'')"
  by (simp add: isxdigit_def is_digit_def)

lemma read16_digits:
  assumes "ds \<noteq> []" "list_all isxdigit ds"
  shows "read16 (ds @ CHR '':'' # s) = (False, digits16 ds, CHR '':'' # s)"
proof -
  obtain a r where ds: "ds = a # r" using assms by (cases ds) auto
  have a: "isxdigit a" "list_all isxdigit r" using assms ds by simp_all
  have second: "x \<noteq> CHR ''x'' \<and> x \<noteq> CHR ''X''" if "r @ CHR '':'' # s = x # t" for x t
    using that a isxdigit_plain by (cases r) auto
  have s3: "(case ds @ CHR '':'' # s of z # x # d # t \<Rightarrow>
      if z = CHR ''0'' \<and> (x = CHR ''x'' \<or> x = CHR ''X'') \<and> isxdigit d then d # t else ds @ CHR '':'' # s
      | _ \<Rightarrow> ds @ CHR '':'' # s) = ds @ CHR '':'' # s"
    using second ds by (auto split: list.split)
  have t: "takeWhile isxdigit (ds @ CHR '':'' # s) = ds" "dropWhile isxdigit (ds @ CHR '':'' # s) = CHR '':'' # s"
    using assms not_xdigit_colon by (simp_all add: list_all_iff takeWhile_append2 dropWhile_append2)
  have s1: "dropWhile is_space (ds @ CHR '':'' # s) = ds @ CHR '':'' # s"
    using a isxdigit_plain ds by simp
  have s2: "(case ds @ CHR '':'' # s of ch # q \<Rightarrow> if ch = CHR ''-'' then (True, q) else if ch = CHR ''+'' then (False, q)
      else (False, ds @ CHR '':'' # s) | [] \<Rightarrow> (False, ds @ CHR '':'' # s)) = (False, ds @ CHR '':'' # s)"
    using a isxdigit_plain ds by simp
  show ?thesis
    unfolding read16_def s1 Let_def s2 prod.case s3 t using assms by simp
qed

lemma digits16_bound: "digits16 ds < 16 ^ length ds" if "list_all isxdigit ds"
  using that
proof (induction ds rule: rev_induct)
  case (snoc d ds)
  then have "CharToInt d < 16" by (auto simp: isxdigit_def is_digit_def CharToInt_def)
  with snoc show ?case by (simp add: digits16_snoc)
qed (simp add: digits16_def)

lemma ParseUint_field:
  assumes "list_all isxdigit ds" "0 < length ds" "length ds \<le> 4"
  shows "ParseUint32 (ds @ CHR '':'' # s) (length ds) = (True, digits16 ds)"
    and "ParseUint16 (ds @ CHR '':'' # s) (length ds) = (True, digits16 ds)"
proof -
  have "(16 :: nat) ^ length ds \<le> 16 ^ 4" using assms by (intro power_increasing) simp_all
  with digits16_bound [OF assms(1)] have "digits16 ds < 65536" by simp
  then have "strtoul16 (ds @ CHR '':'' # s) = (digits16 ds, length ds)"
    using read16_digits [of ds s] assms by (auto simp: strtoul16_def)
  with \<open>digits16 ds < 65536\<close> assms
  show "ParseUint32 (ds @ CHR '':'' # s) (length ds) = (True, digits16 ds)"
    and "ParseUint16 (ds @ CHR '':'' # s) (length ds) = (True, digits16 ds)"
    by (simp_all add: ParseUint32_def ParseUint16_def)
qed

section \<open>The header\<close>

definition header_text :: "nat \<Rightarrow> nat \<Rightarrow> nat \<Rightarrow> nat \<Rightarrow> nat \<Rightarrow> string" where
  "header_text a b c e f =
     ''01'' @ CHR '':'' # field4 a @ CHR '':'' # field4 b @ CHR '':'' # field4 c @ CHR '':'' #
     field4 e @ CHR '':'' # field4 f @ [CHR '':'']"

lemma frame_header_text: "frame_header src dst sz counter pfx = header_text src dst sz counter (length pfx) @ pfx @ [CHR '':'']"
proof -
  have "hex_string 1 = ''1''" by (subst hex_string_rec) (simp add: lower_hex_def)
  then have "hex_field 2 cOptionCypheredData = ''01:''" by (simp add: hex_field_def cOptionCypheredData_def pad0_def)
  then show ?thesis by (simp add: frame_header_def header_text_def hex_field_def field4_def)
qed

lemma length_header_text:
  "a < 65536 \<Longrightarrow> b < 65536 \<Longrightarrow> c < 65536 \<Longrightarrow> e < 65536 \<Longrightarrow> f < 65536 \<Longrightarrow> length (header_text a b c e f) = 28"
  by (simp add: header_text_def field4)

lemma ParseHeader_text:
  assumes l: "a < 65536" "b < 65536" "c < 65536" "e < 65536" "f < 65536"
    and d: "mData p = header_text a b c e f @ rest"
  shows "ParseHeader h p =
    (if PROTO_MAX_BODY_SIZE \<le> c + f + 1 then None
     else Some (True, h\<lparr>h_option := 1, src_uid := a, dst_uid := b, payload_size := c, frame_counter := e, prefix_size := f\<rparr>))"
proof -
  note f4 = field4 [OF l(1)] field4 [OF l(2)] field4 [OF l(3)] field4 [OF l(4)] field4 [OF l(5)]
  let ?d = "header_text a b c e f @ rest"
  have drops: "drop 3 ?d = field4 a @ CHR '':'' # drop 8 ?d" "drop 8 ?d = field4 b @ CHR '':'' # drop 13 ?d"
    "drop 13 ?d = field4 c @ CHR '':'' # drop 18 ?d" "drop 18 ?d = field4 e @ CHR '':'' # drop 23 ?d"
    "drop 23 ?d = field4 f @ CHR '':'' # drop 28 ?d" "?d = ''01'' @ CHR '':'' # drop 3 ?d"
    by (simp_all add: header_text_def f4)
  have colons: "?d ! 2 = CHR '':''" "?d ! 7 = CHR '':''" "?d ! 12 = CHR '':''" "?d ! 17 = CHR '':''" "?d ! 22 = CHR '':''" "?d ! 27 = CHR '':''"
    by (simp_all add: header_text_def f4 nth_append)
  have parse: "ParseUint32 (field4 n @ CHR '':'' # s) 4 = (True, n)" if "n < 65536" for n s
    using ParseUint_field(1) [of "field4 n" s] field4 [OF that] by simp
  have opt: "ParseUint16 ?d 2 = (True, 1)"
  proof -
    have "ParseUint16 (''01'' @ CHR '':'' # drop 3 ?d) 2 = (True, 1)"
      using ParseUint_field(2) [of "''01''" "drop 3 ?d"]
      by (simp add: isxdigit_def is_digit_def digits16_def CharToInt_def numeral_2_eq_2)
    then show ?thesis using drops(6) by metis
  qed
  have "(c + f + 1) mod 2 ^ 32 = c + f + 1" using l by simp
  then have big: "(payload_size (h\<lparr>h_option := 1, src_uid := a, dst_uid := b, payload_size := c, frame_counter := e, prefix_size := f\<rparr>) +
      prefix_size (h\<lparr>h_option := 1, src_uid := a, dst_uid := b, payload_size := c, frame_counter := e, prefix_size := f\<rparr>) + 1) mod 2 ^ 32
      = c + f + 1" by simp
  show ?thesis
    unfolding ParseHeader_def d Let_def read_field_def prod.case opt
    by (simp only: drops(1) parse l prod.case if_True colons) (simp only: drops(2-5) parse l prod.case if_True simp_thms big)
qed

section \<open>Encryption\<close>

definition cipher_key :: "memory \<Rightarrow> protocol \<Rightarrow> bytes" where
  "cipher_key mem p = take 16 (bytes_of (mKey p @ after_key mem))"

lemma cipher_key_long: "16 \<le> length (mKey p) \<Longrightarrow> cipher_key mem p = take 16 (bytes_of (mKey p))"
  by (simp add: cipher_key_def bytes_of_def)

lemma gcm_key_ok:
  "cipher_ctx (gcm_key aes mem p) = aes (cipher_key mem p)"
  "table_ok (gcm_key aes mem p) (hash_key_of (aes (cipher_key mem p)))"
proof -
  obtain ret ctx where s: "mbedtls_gcm_setkey aes (bytes_of (mKey p @ after_key mem)) 128 mbedtls_gcm_init = (ret, ctx)"
    by (metis surj_pair)
  note k = setkey_spec [OF length_init _ s, simplified]
  show c: "cipher_ctx (gcm_key aes mem p) = aes (cipher_key mem p)"
    using k by (simp add: gcm_key_def s cipher_key_def)
  show "table_ok (gcm_key aes mem p) (hash_key_of (aes (cipher_key mem p)))"
    using k c by (simp add: gcm_key_def s hash_key_of_ctx)
qed

abbreviation stream_of :: "(bytes \<Rightarrow> bytes \<Rightarrow> bytes) \<Rightarrow> memory \<Rightarrow> protocol \<Rightarrow> string \<Rightarrow> string \<Rightarrow> bytes" where
  "stream_of aes mem p iv s \<equiv>
     gcm_stream (aes (cipher_key mem p)) (hash_key_of (aes (cipher_key mem p))) (bytes_of iv) (bytes_of s)"

abbreviation tag_of :: "(bytes \<Rightarrow> bytes \<Rightarrow> bytes) \<Rightarrow> memory \<Rightarrow> protocol \<Rightarrow> string \<Rightarrow> string \<Rightarrow> bytes \<Rightarrow> bytes" where
  "tag_of aes mem p iv aad c \<equiv>
     gcm_tag (aes (cipher_key mem p)) (hash_key_of (aes (cipher_key mem p))) (bytes_of iv) (bytes_of aad) c 16"

text \<open>
  The tag of a frame by the GCM standard: under the first 16 bytes of the key and the constant
  initial value, of the header as clear data and the message encrypted.
\<close>

definition frame_tag :: "(bytes \<Rightarrow> bytes \<Rightarrow> bytes) \<Rightarrow> string \<Rightarrow> string \<Rightarrow> string \<Rightarrow> string" where
  "frame_tag aes key hdr msg =
     (let e = aes (take 16 (bytes_of key)); h = hash_key_of e; iv = bytes_of ''000000000000''
      in text_of (gcm_tag e h iv (bytes_of hdr) (gcm_stream e h iv (bytes_of msg)) 16))"

definition frame_cipher :: "(bytes \<Rightarrow> bytes \<Rightarrow> bytes) \<Rightarrow> string \<Rightarrow> string \<Rightarrow> string" where
  "frame_cipher aes key msg =
     (let e = aes (take 16 (bytes_of key)); h = hash_key_of e
      in text_of (gcm_stream e h (bytes_of ''000000000000'') (bytes_of msg)))"

lemma Encrypt_spec:
  assumes "block_cipher (aes (cipher_key mem p))" "length iv = 12" "length aad < 2 ^ 61" "length s \<le> 0xFFFFFFFE0"
  shows "Encrypt aes mem aad s iv front p =
    Some (front @ iv @ text_of (stream_of aes mem p iv s) @ text_of (tag_of aes mem p iv aad (stream_of aes mem p iv s)))"
    and "length (stream_of aes mem p iv s) = length s"
proof -
  have i: "take 12 (bytes_of iv) = bytes_of iv" using assms(2) by simp
  have "\<exists>ctx'. mbedtls_gcm_crypt_and_tag MBEDTLS_GCM_ENCRYPT (bytes_of iv) (bytes_of aad) (bytes_of s) 16 (gcm_key aes mem p) =
     (0, Some (stream_of aes mem p iv s), tag_of aes mem p iv aad (stream_of aes mem p iv s), ctx')"
    using encrypt_spec(1) [OF gcm_key_ok(2), of aes mem p "bytes_of iv" "bytes_of aad" "bytes_of s" 16] assms
    by (simp add: gcm_key_ok)
  then show "Encrypt aes mem aad s iv front p =
    Some (front @ iv @ text_of (stream_of aes mem p iv s) @ text_of (tag_of aes mem p iv aad (stream_of aes mem p iv s)))"
    by (auto simp: Encrypt_def cTagSize_def i)
  show "length (stream_of aes mem p iv s) = length s"
    using encrypt_spec(2) [OF gcm_key_ok(2), of aes mem p "bytes_of iv" "bytes_of aad" "bytes_of s" 16] assms
    by (simp add: gcm_key_ok)
qed

lemma Decrypt_spec:
  assumes "block_cipher (aes (cipher_key mem p))" "length iv = 12" "length tag = 16" "length aad < 2 ^ 61" "length c \<le> 0xFFFFFFFE0"
  shows "Decrypt aes mem aad (iv @ c @ tag) (28 + length c) output p =
    Some (tag_computed mem = tag,
      output @ (if bytes_of tag = tag_of aes mem p iv aad (bytes_of c) then text_of (stream_of aes mem p iv c)
                else replicate (length c) (CHR 0x00)))"
proof -
  have pre: "block_cipher (cipher_ctx (gcm_key aes mem p))" unfolding gcm_key_ok(1) by (rule assms(1))
  have q: "0 < length (bytes_of iv)" "length (bytes_of iv) < 2 ^ 61" "length (bytes_of aad) < 2 ^ 61"
    "length (bytes_of c) \<le> 0xFFFFFFFE0" "4 \<le> length (bytes_of tag)" "length (bytes_of tag) \<le> 16"
    using assms by simp_all
  have "\<exists>ctx'. mbedtls_gcm_auth_decrypt (bytes_of iv) (bytes_of aad) (bytes_of tag) (bytes_of c) (gcm_key aes mem p) =
    (if bytes_of tag = tag_of aes mem p iv aad (bytes_of c)
     then (0, Some (stream_of aes mem p iv c), ctx') else (AUTH_FAILED, Some (zeros (length c)), ctx'))"
    using auth_decrypt_spec [OF gcm_key_ok(2) pre q] unfolding gcm_key_ok(1) length_bytes_of assms(3) .
  then obtain ctx' where d: "mbedtls_gcm_auth_decrypt (bytes_of iv) (bytes_of aad) (bytes_of tag) (bytes_of c) (gcm_key aes mem p) =
    (if bytes_of tag = tag_of aes mem p iv aad (bytes_of c)
     then (0, Some (stream_of aes mem p iv c), ctx') else (AUTH_FAILED, Some (zeros (length c)), ctx'))" by blast
  have z: "text_of (zeros n) = replicate n (CHR 0x00)" for n by (simp add: text_of_def zeros_def char_of_def)
  show ?thesis
    using d assms(2,3) by (simp add: Decrypt_def cTagSize_def cIVSize_def z)
qed

section \<open>A frame\<close>

lemma Build_spec:
  fixes src dst :: nat
  assumes aes: "block_cipher (aes (cipher_key mem p))"
    and size: "2 * (28 + length msg) + length pfx + 1 < 10240"
  defines "hdr \<equiv> frame_header src dst (2 * (28 + length msg)) (mTxFrameCounter p) pfx"
    and "c \<equiv> stream_of aes mem p ''000000000000'' msg"
  assumes hdr: "length hdr < 2 ^ 61"
  shows "Protocol_Build aes mem src dst msg pfx p =
    Some (hdr @ ToHex (''000000000000'' @ text_of c @ text_of (tag_of aes mem p ''000000000000'' hdr c)),
      p\<lparr>mTxFrameCounter := (mTxFrameCounter p + 1) mod 2 ^ 32\<rparr>)"
    and "length c = length msg"
proof -
  let ?iv = "''000000000000''"
  have "(cIVSize + length msg + cTagSize) * 2 mod 2 ^ 32 = 2 * (28 + length msg)"
    using size by (simp add: cIVSize_def cTagSize_def)
  moreover have "Encrypt aes mem hdr msg ?iv [] p = Some ([] @ ?iv @ text_of c @ text_of (tag_of aes mem p ?iv hdr c))"
    unfolding c_def using Encrypt_spec(1) [where aes = aes and mem = mem and p = p and iv = ?iv and aad = hdr and s = msg and front = "[]"] aes hdr size by simp
  ultimately show "Protocol_Build aes mem src dst msg pfx p =
    Some (hdr @ ToHex (?iv @ text_of c @ text_of (tag_of aes mem p ?iv hdr c)),
      p\<lparr>mTxFrameCounter := (mTxFrameCounter p + 1) mod 2 ^ 32\<rparr>)"
    unfolding Protocol_Build_def Let_def by (simp only: hdr_def [symmetric] append_Nil option.map)
  show "length c = length msg"
    unfolding c_def using Encrypt_spec(2) [where aes = aes and mem = mem and p = p and iv = ?iv and aad = hdr and s = msg] aes hdr size by simp
qed

text \<open>The length of the text of a frame, and its header at the front.\<close>

lemma frame_text:
  fixes src dst :: nat
  assumes "src < 65536" "dst < 65536" "mTxFrameCounter p < 65536"
    and "2 * (28 + length msg) + length pfx + 1 < 10240"
  shows "frame_header src dst (2 * (28 + length msg)) (mTxFrameCounter p) pfx =
      header_text src dst (2 * (28 + length msg)) (mTxFrameCounter p) (length pfx) @ pfx @ [CHR '':'']"
    and "length (header_text src dst (2 * (28 + length msg)) (mTxFrameCounter p) (length pfx)) = 28"
  using assms by (simp_all add: frame_header_text length_header_text)

lemma DecryptPayload_frame:
  assumes aes: "block_cipher (aes (cipher_key mem q))"
    and aad: "length aad = 29 + length pfx" and c: "length c = n"
    and q: "mData q = aad @ ToHex (''000000000000'' @ text_of c @ text_of t) @ rest" "length t = 16"
    and h: "prefix_size h = length pfx" "payload_size h = 2 * (28 + n)" "2 * (28 + n) + length pfx + 1 < 10240"
  shows "DecryptPayload aes mem [] h q =
    Some (tag_computed mem = text_of t,
      if t = tag_of aes mem q ''000000000000'' aad c then text_of (stream_of aes mem q ''000000000000'' (text_of c))
      else replicate n (CHR 0x00))"
proof -
  let ?iv = "''000000000000''"
  let ?raw = "?iv @ text_of c @ text_of t"
  have raw: "length ?raw = 28 + n" using c q(2) by simp
  have start: "(PROTO_HEADER_SIZE + prefix_size h + 1) mod 2 ^ 32 = length aad"
    using h aad by (simp add: PROTO_HEADER_SIZE_def)
  have "HexStringToUint8 (ToHex ?raw) (replicate (28 + n) (CHR 0x00)) = Some ?raw"
    by (rule HexStringToUint8_ToHex) (simp only: raw length_replicate)
  moreover have "take (2 * (28 + n)) (drop (length aad) (mData q)) = ToHex ?raw"
    using q(1) length_ToHex [of ?raw] raw by (simp del: length_ToHex)
  moreover have "take (length aad) (mData q) = aad" using q(1) by simp
  moreover have "length aad + 2 * (28 + n) \<le> length (mData q)"
    using q(1) length_ToHex [of ?raw] raw by (simp del: length_ToHex)
  moreover have "Decrypt aes mem aad ?raw (28 + n) [] q = Some (tag_computed mem = text_of t,
      [] @ (if bytes_of (text_of t) = tag_of aes mem q ?iv aad (bytes_of (text_of c)) then text_of (stream_of aes mem q ?iv (text_of c))
            else replicate (length (text_of c)) (CHR 0x00)))"
    using Decrypt_spec [of aes mem q ?iv "text_of t" aad "text_of c" "[]"] aes aad c q(2) h by simp
  ultimately show ?thesis
    using h c unfolding DecryptPayload_def start by (simp add: Let_def del: length_append)
qed

lemma ParseHeader_bound:
  assumes "ParseHeader h p = Some (True, h')"
  shows "BodyLength h' < PROTO_MAX_BODY_SIZE"
proof -
  from assms have "(payload_size h' + prefix_size h' + 1) mod 2 ^ 32 < PROTO_MAX_BODY_SIZE"
    by (auto simp: ParseHeader_def Let_def split: if_splits prod.splits)
  then show ?thesis by (simp add: BodyLength_def ac_simps)
qed

lemma receive_body_length:
  "length (mData p) = PROTO_HEADER_SIZE + PROTO_MAX_BODY_SIZE \<Longrightarrow> length s \<le> PROTO_MAX_BODY_SIZE \<Longrightarrow>
   length (mData (receive_body s p)) = PROTO_HEADER_SIZE + PROTO_MAX_BODY_SIZE"
  by (simp add: receive_body_def PROTO_HEADER_SIZE_def PROTO_MAX_BODY_SIZE_def)

end
