(* ===== verification/Aes.thy ===== *)
theory Aes
  imports Gcm
begin

text \<open>
  The block cipher under the authenticated encryption (mbedtls, library/aes.c, the portable code with
  tables generated at the first key): the tables, the key schedules, and one block encrypted and
  decrypted. The tables are static memory, a record passed along; what the two local arrays of
  \<open>aes_gen_tables\<close> hold before they are written is an argument. A value of type \<open>int\<close> that holds a byte
  is a 32-bit word. \<open>RK++\<close> is an index into the buffer of round keys.
\<close>

section \<open>Bytes of a word\<close>

definition BYTE_0 :: "u32 \<Rightarrow> u8" where "BYTE_0 x = ucast (x AND 0xff)"
definition BYTE_1 :: "u32 \<Rightarrow> u8" where "BYTE_1 x = ucast (drop_bit 8 x AND 0xff)"
definition BYTE_2 :: "u32 \<Rightarrow> u8" where "BYTE_2 x = ucast (drop_bit 16 x AND 0xff)"
definition BYTE_3 :: "u32 \<Rightarrow> u8" where "BYTE_3 x = ucast (drop_bit 24 x AND 0xff)"

definition GET_UINT32_LE :: "bytes \<Rightarrow> nat \<Rightarrow> u32" where
  "GET_UINT32_LE data offset =
     ucast (data ! offset) OR push_bit 8 (ucast (data ! (offset + 1))) OR
     push_bit 16 (ucast (data ! (offset + 2))) OR push_bit 24 (ucast (data ! (offset + 3)))"

definition PUT_UINT32_LE :: "u32 \<Rightarrow> bytes" where
  "PUT_UINT32_LE n = [BYTE_0 n, BYTE_1 n, BYTE_2 n, BYTE_3 n]"

section \<open>Tables\<close>

record aes_tables =
  aes_FSb :: bytes
  aes_FT0 :: "u32 list"
  aes_FT1 :: "u32 list"
  aes_FT2 :: "u32 list"
  aes_FT3 :: "u32 list"
  aes_RSb :: bytes
  aes_RT0 :: "u32 list"
  aes_RT1 :: "u32 list"
  aes_RT2 :: "u32 list"
  aes_RT3 :: "u32 list"
  aes_RCON :: "u32 list"
  aes_init_done :: bool

text \<open>Static memory starts as zeros.\<close>

definition aes_static :: aes_tables where
  "aes_static =
     \<lparr>aes_FSb = replicate 256 0, aes_FT0 = replicate 256 0, aes_FT1 = replicate 256 0, aes_FT2 = replicate 256 0,
      aes_FT3 = replicate 256 0, aes_RSb = replicate 256 0, aes_RT0 = replicate 256 0, aes_RT1 = replicate 256 0,
      aes_RT2 = replicate 256 0, aes_RT3 = replicate 256 0, aes_RCON = replicate 10 0, aes_init_done = False\<rparr>"

definition ROTL8 :: "u32 \<Rightarrow> u32" where
  "ROTL8 x = (push_bit 8 x AND 0xFFFFFFFF) OR drop_bit 24 x"

definition XTIME :: "u32 \<Rightarrow> u32" where
  "XTIME x = push_bit 1 x XOR (if x AND 0x80 \<noteq> 0 then 0x1B else 0)"

definition MUL :: "u32 list \<Rightarrow> nat list \<Rightarrow> u32 \<Rightarrow> u32 \<Rightarrow> u32" where
  "MUL pw lg x y = (if x \<noteq> 0 \<and> y \<noteq> 0 then pw ! ((lg ! unat x + lg ! unat y) mod 255) else 0)"

text \<open>The first loop: the powers of 3 and their exponents.\<close>

definition pow_log_step :: "nat \<Rightarrow> u32 \<times> u32 list \<times> nat list \<Rightarrow> u32 \<times> u32 list \<times> nat list" where
  "pow_log_step i = (\<lambda>(x, pw, lg). (ucast (BYTE_0 (x XOR XTIME x)), pw[i := x], lg[unat x := i]))"

text \<open>The second loop: the round constants.\<close>

definition rcon_step :: "nat \<Rightarrow> u32 \<times> u32 list \<Rightarrow> u32 \<times> u32 list" where
  "rcon_step i = (\<lambda>(x, rcon). (ucast (BYTE_0 (XTIME x)), rcon[i := x]))"

text \<open>The third loop: the forward and the reverse S-box.\<close>

definition rotate_byte :: "u32 \<Rightarrow> u32" where
  "rotate_byte y = ucast (BYTE_0 (push_bit 1 y OR drop_bit 7 y))"

definition sbox_value :: "u32 \<Rightarrow> u32" where
  "sbox_value x0 =
     (let y = rotate_byte x0; x = x0 XOR y;
          y = rotate_byte y; x = x XOR y;
          y = rotate_byte y; x = x XOR y;
          y = rotate_byte y
      in x XOR (y XOR 0x63))"

definition sbox_step :: "u32 list \<Rightarrow> nat list \<Rightarrow> nat \<Rightarrow> bytes \<times> bytes \<Rightarrow> bytes \<times> bytes" where
  "sbox_step pw lg i = (\<lambda>(fsb, rsb).
     let x = sbox_value (pw ! (255 - lg ! i))
     in (fsb[i := ucast x], rsb[unat x := of_nat i]))"

text \<open>The fourth loop: the forward and the reverse tables.\<close>

definition aes_table_step :: "u32 list \<Rightarrow> nat list \<Rightarrow> nat \<Rightarrow> aes_tables \<Rightarrow> aes_tables" where
  "aes_table_step pw lg i t =
     (let x = ucast (aes_FSb t ! i);
          y = ucast (BYTE_0 (XTIME x));
          z = ucast (BYTE_0 (y XOR x));
          ft0 = y XOR push_bit 8 x XOR push_bit 16 x XOR push_bit 24 z;
          ft1 = ROTL8 ft0;
          ft2 = ROTL8 ft1;
          ft3 = ROTL8 ft2;
          x = ucast (aes_RSb t ! i);
          rt0 = MUL pw lg 0x0E x XOR push_bit 8 (MUL pw lg 0x09 x) XOR
                push_bit 16 (MUL pw lg 0x0D x) XOR push_bit 24 (MUL pw lg 0x0B x);
          rt1 = ROTL8 rt0;
          rt2 = ROTL8 rt1;
          rt3 = ROTL8 rt2
      in t\<lparr>aes_FT0 := (aes_FT0 t)[i := ft0], aes_FT1 := (aes_FT1 t)[i := ft1], aes_FT2 := (aes_FT2 t)[i := ft2],
           aes_FT3 := (aes_FT3 t)[i := ft3], aes_RT0 := (aes_RT0 t)[i := rt0], aes_RT1 := (aes_RT1 t)[i := rt1],
           aes_RT2 := (aes_RT2 t)[i := rt2], aes_RT3 := (aes_RT3 t)[i := rt3]\<rparr>)"

definition aes_gen_tables :: "u32 list \<times> nat list \<Rightarrow> aes_tables \<Rightarrow> aes_tables" where
  "aes_gen_tables garbage t =
     (let (_, pw, lg) = fold pow_log_step [0..<256] (1, garbage);
          (_, rcon) = fold rcon_step [0..<10] (1, aes_RCON t);
          (fsb, rsb) = fold (sbox_step pw lg) [1..<256] ((aes_FSb t)[0 := 0x63], (aes_RSb t)[0x63 := 0])
      in fold (aes_table_step pw lg) [0..<256] (t\<lparr>aes_RCON := rcon, aes_FSb := fsb, aes_RSb := rsb\<rparr>))"

section \<open>Context and key schedules\<close>

record aes_context =
  aes_nr :: nat
  rk_offset :: nat
  aes_buf :: "u32 list"

definition mbedtls_aes_init :: aes_context where
  "mbedtls_aes_init = \<lparr>aes_nr = 0, rk_offset = 0, aes_buf = replicate 68 0\<rparr>"

definition AES_INVALID_KEY_LENGTH :: int where "AES_INVALID_KEY_LENGTH = - 32"
definition AES_BAD_INPUT_DATA :: int where "AES_BAD_INPUT_DATA = - 33"

text \<open>The alignment of the hardware paths is not needed: the offset is 0.\<close>

definition mbedtls_aes_rk_offset :: "u32 list \<Rightarrow> nat" where
  "mbedtls_aes_rk_offset b = 0"

text \<open>The four bytes of a word through the S-box, rotated by one place and in place.\<close>

definition sub_rotated :: "aes_tables \<Rightarrow> u32 \<Rightarrow> u32" where
  "sub_rotated t w =
     ucast (aes_FSb t ! unat (BYTE_1 w)) XOR push_bit 8 (ucast (aes_FSb t ! unat (BYTE_2 w))) XOR
     push_bit 16 (ucast (aes_FSb t ! unat (BYTE_3 w))) XOR push_bit 24 (ucast (aes_FSb t ! unat (BYTE_0 w)))"

definition sub_straight :: "aes_tables \<Rightarrow> u32 \<Rightarrow> u32" where
  "sub_straight t w =
     ucast (aes_FSb t ! unat (BYTE_0 w)) XOR push_bit 8 (ucast (aes_FSb t ! unat (BYTE_1 w))) XOR
     push_bit 16 (ucast (aes_FSb t ! unat (BYTE_2 w))) XOR push_bit 24 (ucast (aes_FSb t ! unat (BYTE_3 w)))"

text \<open>The bodies of the three loops; \<open>b\<close> is where \<open>RK\<close> points to in round \<open>i\<close>.\<close>

definition expand128 :: "aes_tables \<Rightarrow> nat \<Rightarrow> u32 list \<Rightarrow> u32 list" where
  "expand128 t i rk =
     (let b = 4 * i;
          rk = rk[b + 4 := rk ! b XOR aes_RCON t ! i XOR sub_rotated t (rk ! (b + 3))];
          rk = rk[b + 5 := rk ! (b + 1) XOR rk ! (b + 4)];
          rk = rk[b + 6 := rk ! (b + 2) XOR rk ! (b + 5)]
      in rk[b + 7 := rk ! (b + 3) XOR rk ! (b + 6)])"

definition expand192 :: "aes_tables \<Rightarrow> nat \<Rightarrow> u32 list \<Rightarrow> u32 list" where
  "expand192 t i rk =
     (let b = 6 * i;
          rk = rk[b + 6 := rk ! b XOR aes_RCON t ! i XOR sub_rotated t (rk ! (b + 5))];
          rk = rk[b + 7 := rk ! (b + 1) XOR rk ! (b + 6)];
          rk = rk[b + 8 := rk ! (b + 2) XOR rk ! (b + 7)];
          rk = rk[b + 9 := rk ! (b + 3) XOR rk ! (b + 8)];
          rk = rk[b + 10 := rk ! (b + 4) XOR rk ! (b + 9)]
      in rk[b + 11 := rk ! (b + 5) XOR rk ! (b + 10)])"

definition expand256 :: "aes_tables \<Rightarrow> nat \<Rightarrow> u32 list \<Rightarrow> u32 list" where
  "expand256 t i rk =
     (let b = 8 * i;
          rk = rk[b + 8 := rk ! b XOR aes_RCON t ! i XOR sub_rotated t (rk ! (b + 7))];
          rk = rk[b + 9 := rk ! (b + 1) XOR rk ! (b + 8)];
          rk = rk[b + 10 := rk ! (b + 2) XOR rk ! (b + 9)];
          rk = rk[b + 11 := rk ! (b + 3) XOR rk ! (b + 10)];
          rk = rk[b + 12 := rk ! (b + 4) XOR sub_straight t (rk ! (b + 11))];
          rk = rk[b + 13 := rk ! (b + 5) XOR rk ! (b + 12)];
          rk = rk[b + 14 := rk ! (b + 6) XOR rk ! (b + 13)]
      in rk[b + 15 := rk ! (b + 7) XOR rk ! (b + 14)])"

definition load_key :: "bytes \<Rightarrow> nat \<Rightarrow> u32 list \<Rightarrow> u32 list" where
  "load_key key n rk = fold (\<lambda>i rk. rk[i := GET_UINT32_LE key (4 * i)]) [0..<n] rk"

text \<open>The buffer starts at offset 0, so \<open>RK\<close> is the buffer itself.\<close>

definition mbedtls_aes_setkey_enc ::
  "u32 list \<times> nat list \<Rightarrow> bytes \<Rightarrow> nat \<Rightarrow> aes_context \<times> aes_tables \<Rightarrow> int \<times> aes_context \<times> aes_tables" where
  "mbedtls_aes_setkey_enc garbage key keybits = (\<lambda>(ctx, t).
     if keybits \<noteq> 128 \<and> keybits \<noteq> 192 \<and> keybits \<noteq> 256 then (AES_INVALID_KEY_LENGTH, ctx, t)
     else
       (let rounds = (if keybits = 128 then 10 else if keybits = 192 then 12 else 14);
            t1 = (if aes_init_done t then t else (aes_gen_tables garbage t)\<lparr>aes_init_done := True\<rparr>);
            rk = load_key key (keybits div 32) (aes_buf ctx);
            rk1 = (if rounds = 10 then fold (expand128 t1) [0..<10] rk
                   else if rounds = 12 then fold (expand192 t1) [0..<8] rk
                   else fold (expand256 t1) [0..<7] rk)
        in (0, ctx\<lparr>aes_nr := rounds, rk_offset := mbedtls_aes_rk_offset (aes_buf ctx), aes_buf := rk1\<rparr>, t1)))"

definition inverse_mixed :: "aes_tables \<Rightarrow> u32 \<Rightarrow> u32" where
  "inverse_mixed t sk =
     aes_RT0 t ! unat (aes_FSb t ! unat (BYTE_0 sk)) XOR aes_RT1 t ! unat (aes_FSb t ! unat (BYTE_1 sk)) XOR
     aes_RT2 t ! unat (aes_FSb t ! unat (BYTE_2 sk)) XOR aes_RT3 t ! unat (aes_FSb t ! unat (BYTE_3 sk))"

definition four_words :: "u32 list \<Rightarrow> nat \<Rightarrow> u32 list" where
  "four_words sk i = [sk ! i, sk ! (i + 1), sk ! (i + 2), sk ! (i + 3)]"

text \<open>The words \<open>*RK++\<close> writes, from the last round key back to the first.\<close>

definition inverse_words :: "aes_tables \<Rightarrow> nat \<Rightarrow> u32 list \<Rightarrow> u32 list" where
  "inverse_words t rounds sk =
     four_words sk (rounds * 4) @
     concat (map (\<lambda>i. map (inverse_mixed t) (four_words sk (i * 4))) (rev [1..<rounds])) @
     four_words sk 0"

definition mbedtls_aes_setkey_dec ::
  "u32 list \<times> nat list \<Rightarrow> bytes \<Rightarrow> nat \<Rightarrow> aes_context \<times> aes_tables \<Rightarrow> int \<times> aes_context \<times> aes_tables" where
  "mbedtls_aes_setkey_dec garbage key keybits = (\<lambda>(ctx, t).
     let ctx1 = ctx\<lparr>rk_offset := mbedtls_aes_rk_offset (aes_buf ctx)\<rparr>;
         (ret, cty, t1) = mbedtls_aes_setkey_enc garbage key keybits (mbedtls_aes_init, t)
     in if ret \<noteq> 0 then (ret, ctx1, t1)
        else (let ws = inverse_words t1 (aes_nr cty) (aes_buf cty)
              in (ret, ctx1\<lparr>aes_nr := aes_nr cty, aes_buf := ws @ drop (length ws) (aes_buf ctx1)\<rparr>, t1)))"

section \<open>One block\<close>

type_synonym quad = "u32 \<times> u32 \<times> u32 \<times> u32"

definition AES_FROUND :: "aes_tables \<Rightarrow> u32 list \<Rightarrow> nat \<Rightarrow> quad \<Rightarrow> quad" where
  "AES_FROUND t rk k = (\<lambda>(y0, y1, y2, y3).
     let column = (\<lambda>r a b c d. r XOR aes_FT0 t ! unat (BYTE_0 a) XOR aes_FT1 t ! unat (BYTE_1 b) XOR
                                aes_FT2 t ! unat (BYTE_2 c) XOR aes_FT3 t ! unat (BYTE_3 d))
     in (column (rk ! k) y0 y1 y2 y3, column (rk ! (k + 1)) y1 y2 y3 y0,
         column (rk ! (k + 2)) y2 y3 y0 y1, column (rk ! (k + 3)) y3 y0 y1 y2))"

definition AES_RROUND :: "aes_tables \<Rightarrow> u32 list \<Rightarrow> nat \<Rightarrow> quad \<Rightarrow> quad" where
  "AES_RROUND t rk k = (\<lambda>(y0, y1, y2, y3).
     let column = (\<lambda>r a b c d. r XOR aes_RT0 t ! unat (BYTE_0 a) XOR aes_RT1 t ! unat (BYTE_1 b) XOR
                                aes_RT2 t ! unat (BYTE_2 c) XOR aes_RT3 t ! unat (BYTE_3 d))
     in (column (rk ! k) y0 y3 y2 y1, column (rk ! (k + 1)) y1 y0 y3 y2,
         column (rk ! (k + 2)) y2 y1 y0 y3, column (rk ! (k + 3)) y3 y2 y1 y0))"

definition last_column :: "bytes \<Rightarrow> u32 \<Rightarrow> u32 \<Rightarrow> u32 \<Rightarrow> u32 \<Rightarrow> u32 \<Rightarrow> u32" where
  "last_column sb r a b c d =
     r XOR ucast (sb ! unat (BYTE_0 a)) XOR push_bit 8 (ucast (sb ! unat (BYTE_1 b))) XOR
     push_bit 16 (ucast (sb ! unat (BYTE_2 c))) XOR push_bit 24 (ucast (sb ! unat (BYTE_3 d)))"

definition last_fround :: "aes_tables \<Rightarrow> u32 list \<Rightarrow> nat \<Rightarrow> quad \<Rightarrow> quad" where
  "last_fround t rk k = (\<lambda>(y0, y1, y2, y3).
     let column = last_column (aes_FSb t)
     in (column (rk ! k) y0 y1 y2 y3, column (rk ! (k + 1)) y1 y2 y3 y0,
         column (rk ! (k + 2)) y2 y3 y0 y1, column (rk ! (k + 3)) y3 y0 y1 y2))"

definition last_rround :: "aes_tables \<Rightarrow> u32 list \<Rightarrow> nat \<Rightarrow> quad \<Rightarrow> quad" where
  "last_rround t rk k = (\<lambda>(y0, y1, y2, y3).
     let column = last_column (aes_RSb t)
     in (column (rk ! k) y0 y3 y2 y1, column (rk ! (k + 1)) y1 y0 y3 y2,
         column (rk ! (k + 2)) y2 y1 y0 y3, column (rk ! (k + 3)) y3 y2 y1 y0))"

definition load_block :: "u32 list \<Rightarrow> nat \<Rightarrow> bytes \<Rightarrow> quad" where
  "load_block rk k input =
     (GET_UINT32_LE input 0 XOR rk ! k, GET_UINT32_LE input 4 XOR rk ! (k + 1),
      GET_UINT32_LE input 8 XOR rk ! (k + 2), GET_UINT32_LE input 12 XOR rk ! (k + 3))"

definition store_block :: "quad \<Rightarrow> bytes" where
  "store_block = (\<lambda>(x0, x1, x2, x3). PUT_UINT32_LE x0 @ PUT_UINT32_LE x1 @ PUT_UINT32_LE x2 @ PUT_UINT32_LE x3)"

text \<open>The loop runs two rounds at a time, \<open>n\<close> times; \<open>k\<close> is the index of the next round key word.\<close>

fun round_pairs :: "(nat \<Rightarrow> quad \<Rightarrow> quad) \<Rightarrow> nat \<Rightarrow> nat \<Rightarrow> quad \<Rightarrow> nat \<times> quad" where
  "round_pairs rnd 0 k x = (k, x)"
| "round_pairs rnd (Suc n) k x = (let y = rnd k x in round_pairs rnd n (k + 8) (rnd (k + 4) y))"

definition mbedtls_internal_aes_encrypt :: "aes_tables \<Rightarrow> aes_context \<Rightarrow> bytes \<Rightarrow> int \<times> bytes" where
  "mbedtls_internal_aes_encrypt t ctx input =
     (let rk = aes_buf ctx;
          k0 = rk_offset ctx;
          (k, x) = round_pairs (AES_FROUND t rk) (aes_nr ctx div 2 - 1) (k0 + 4) (load_block rk k0 input);
          y = AES_FROUND t rk k x
      in (0, store_block (last_fround t rk (k + 4) y)))"

definition mbedtls_internal_aes_decrypt :: "aes_tables \<Rightarrow> aes_context \<Rightarrow> bytes \<Rightarrow> int \<times> bytes" where
  "mbedtls_internal_aes_decrypt t ctx input =
     (let rk = aes_buf ctx;
          k0 = rk_offset ctx;
          (k, x) = round_pairs (AES_RROUND t rk) (aes_nr ctx div 2 - 1) (k0 + 4) (load_block rk k0 input);
          y = AES_RROUND t rk k x
      in (0, store_block (last_rround t rk (k + 4) y)))"

definition AES_ENCRYPT :: int where "AES_ENCRYPT = 1"
definition AES_DECRYPT :: int where "AES_DECRYPT = 0"

text \<open>Nothing is written where the mode is not one of the two.\<close>

definition mbedtls_aes_crypt_ecb :: "aes_tables \<Rightarrow> aes_context \<Rightarrow> int \<Rightarrow> bytes \<Rightarrow> int \<times> bytes" where
  "mbedtls_aes_crypt_ecb t ctx mode input =
     (if mode \<noteq> AES_ENCRYPT \<and> mode \<noteq> AES_DECRYPT then (AES_BAD_INPUT_DATA, [])
      else if mode = AES_ENCRYPT then mbedtls_internal_aes_encrypt t ctx input
      else mbedtls_internal_aes_decrypt t ctx input)"

text \<open>
  What the cipher layer makes of it for the mode: a context that \<open>aes_ctx_alloc\<close> clears, the key set
  for encryption, and then one block at a time.
\<close>

definition aes_cipher :: "u32 list \<times> nat list \<Rightarrow> aes_tables \<Rightarrow> bytes \<Rightarrow> bytes \<Rightarrow> bytes" where
  "aes_cipher garbage t key block =
     (let (ret, ctx, t1) = mbedtls_aes_setkey_enc garbage key (8 * length key) (mbedtls_aes_init, t)
      in snd (mbedtls_aes_crypt_ecb t1 ctx AES_ENCRYPT block))"

end
