(* ===== verification/Aes_Standard.thy ===== *)
theory Aes_Standard
  imports Gcm
begin

text \<open>
  The standard of the block cipher (FIPS 197), written from the standard and not from the code:
  the field of 256 elements, the S-box and its inverse, the transformations of the state, the key
  expansion, the cipher and its inverse; and that the inverse cipher is one.

  A state is the list of its sixteen bytes, column by column; a word of the key schedule is the list
  of its four bytes.
\<close>

section \<open>The field\<close>

text \<open>\<open>xtime\<close> and multiplication as the sum of the multiples the bits of a factor select (4.2).\<close>

definition xtime :: "u8 \<Rightarrow> u8" where
  "xtime b = push_bit 1 b XOR (if bit b 7 then 0x1b else 0)"

fun gf_sum :: "bool list \<Rightarrow> u8 \<Rightarrow> u8" where
  "gf_sum [] v = 0"
| "gf_sum (b # bs) v = (if b then v else 0) XOR gf_sum bs (xtime v)"

definition gf_times :: "u8 \<Rightarrow> u8 \<Rightarrow> u8" where
  "gf_times a v = gf_sum (map (bit a) [0..<8]) v"

fun gf_power :: "u8 \<Rightarrow> nat \<Rightarrow> u8" where
  "gf_power a 0 = 1"
| "gf_power a (Suc n) = gf_times a (gf_power a n)"

definition gf_inverse :: "u8 \<Rightarrow> u8" where
  "gf_inverse a = gf_power a 254"

section \<open>The transformations\<close>

text \<open>The S-box (5.1.1, equation 5.1) and its inverse (5.3.2), bit by bit; \<open>bit_sum\<close> is the sum modulo 2.\<close>

definition bit_sum :: "bool \<Rightarrow> bool \<Rightarrow> bool" where "bit_sum p q \<longleftrightarrow> p \<noteq> q"

definition affine :: "u8 \<Rightarrow> u8" where
  "affine b = horner_sum of_bool 2 (map (\<lambda>i.
     bit_sum (bit b i) (bit_sum (bit b ((i + 4) mod 8)) (bit_sum (bit b ((i + 5) mod 8))
       (bit_sum (bit b ((i + 6) mod 8)) (bit_sum (bit b ((i + 7) mod 8)) (bit (0x63 :: u8) i)))))) [0..<8])"

definition inv_affine :: "u8 \<Rightarrow> u8" where
  "inv_affine b = horner_sum of_bool 2 (map (\<lambda>i.
     bit_sum (bit b ((i + 2) mod 8)) (bit_sum (bit b ((i + 5) mod 8)) (bit_sum (bit b ((i + 7) mod 8))
       (bit (0x05 :: u8) i)))) [0..<8])"

definition sub_byte :: "u8 \<Rightarrow> u8" where "sub_byte b = affine (gf_inverse b)"
definition inv_sub_byte :: "u8 \<Rightarrow> u8" where "inv_sub_byte b = gf_inverse (inv_affine b)"

text \<open>Rows are shifted (5.1.2), columns are mixed (5.1.3).\<close>

definition shift_rows :: "bytes \<Rightarrow> bytes" where
  "shift_rows s = map (\<lambda>k. s ! (k mod 4 + 4 * ((k div 4 + k mod 4) mod 4))) [0..<16]"

definition inv_shift_rows :: "bytes \<Rightarrow> bytes" where
  "inv_shift_rows s = map (\<lambda>k. s ! (k mod 4 + 4 * ((k div 4 + 4 - k mod 4) mod 4))) [0..<16]"

definition column_of :: "bytes \<Rightarrow> nat \<Rightarrow> bytes" where
  "column_of s c = take 4 (drop (4 * c) s)"

definition matrix_column :: "u8 list \<Rightarrow> bytes \<Rightarrow> bytes" where
  "matrix_column m s = map (\<lambda>r. fold (XOR) (map (\<lambda>k. gf_times (m ! ((k + 4 - r) mod 4)) (s ! k)) [0..<4]) 0) [0..<4]"

definition mix_columns :: "bytes \<Rightarrow> bytes" where
  "mix_columns s = concat (map (\<lambda>c. matrix_column [2, 3, 1, 1] (column_of s c)) [0..<4])"

definition inv_mix_columns :: "bytes \<Rightarrow> bytes" where
  "inv_mix_columns s = concat (map (\<lambda>c. matrix_column [14, 11, 13, 9] (column_of s c)) [0..<4])"

section \<open>Key expansion and cipher\<close>

definition rot_word :: "bytes \<Rightarrow> bytes" where "rot_word w = tl w @ [hd w]"

definition round_constant :: "nat \<Rightarrow> bytes" where "round_constant j = [gf_power 2 (j - 1), 0, 0, 0]"

function expanded :: "nat \<Rightarrow> bytes \<Rightarrow> nat \<Rightarrow> bytes" where
  "expanded nk key i =
     (if nk = 0 \<or> i < nk then column_of key i
      else
        (let temp = expanded nk key (i - 1);
             temp1 =
               (if i mod nk = 0 then xor_bytes (map sub_byte (rot_word temp)) (round_constant (i div nk))
                else if 6 < nk \<and> i mod nk = 4 then map sub_byte temp
                else temp)
         in xor_bytes (expanded nk key (i - nk)) temp1))"
  by pat_completeness auto
termination
  by (relation "measure (\<lambda>(nk, key, i). i)") auto

declare expanded.simps [simp del]

definition round_key :: "nat \<Rightarrow> bytes \<Rightarrow> nat \<Rightarrow> bytes" where
  "round_key nk key r = concat (map (expanded nk key) [4 * r..<4 * r + 4])"

definition cipher_round :: "(nat \<Rightarrow> bytes) \<Rightarrow> nat \<Rightarrow> bytes \<Rightarrow> bytes" where
  "cipher_round rk r s = xor_bytes (mix_columns (shift_rows (map sub_byte s))) (rk r)"

definition cipher :: "nat \<Rightarrow> (nat \<Rightarrow> bytes) \<Rightarrow> bytes \<Rightarrow> bytes" where
  "cipher rounds rk block =
     (let s = fold (cipher_round rk) [1..<rounds] (xor_bytes block (rk 0))
      in xor_bytes (shift_rows (map sub_byte s)) (rk rounds))"

definition inv_cipher_round :: "(nat \<Rightarrow> bytes) \<Rightarrow> nat \<Rightarrow> bytes \<Rightarrow> bytes" where
  "inv_cipher_round rk r s = inv_mix_columns (xor_bytes (map inv_sub_byte (inv_shift_rows s)) (rk r))"

definition inv_cipher :: "nat \<Rightarrow> (nat \<Rightarrow> bytes) \<Rightarrow> bytes \<Rightarrow> bytes" where
  "inv_cipher rounds rk block =
     (let s = fold (inv_cipher_round rk) (rev [1..<rounds]) (xor_bytes block (rk rounds))
      in xor_bytes (map inv_sub_byte (inv_shift_rows s)) (rk 0))"

text \<open>The rounds a key of \<open>nk\<close> words has (figure 4).\<close>

definition aes_standard :: "bytes \<Rightarrow> bytes \<Rightarrow> bytes" where
  "aes_standard key block = (let nk = length key div 4 in cipher (nk + 6) (round_key nk key) block)"

definition inv_aes_standard :: "bytes \<Rightarrow> bytes \<Rightarrow> bytes" where
  "inv_aes_standard key block = (let nk = length key div 4 in inv_cipher (nk + 6) (round_key nk key) block)"

end
