(* ===== verification/Aes_Field.thy ===== *)
theory Aes_Field
  imports Aes_Standard
begin

text \<open>
  The field of the standard: multiplication is bilinear, commutative and associative, 3 generates the
  other elements than 0, the power 254 inverts, and the S-box has its inverse.
\<close>

section \<open>Multiplication\<close>

lemma less_8_cases: "(n :: nat) < 8 \<longleftrightarrow> n = 0 \<or> n = 1 \<or> n = 2 \<or> n = 3 \<or> n = 4 \<or> n = 5 \<or> n = 6 \<or> n = 7"
  by auto

lemma below_8: "[0..<8] = [0, 1, 2, 3, 4, 5, 6, 7 :: nat]"
  by code_simp

lemma xtime_xor: "xtime (a XOR b) = xtime a XOR xtime b"
  by (rule bit_word_eqI) (auto simp: xtime_def bit_simps)

lemma xtime_0 [simp]: "xtime 0 = 0"
  by (simp add: xtime_def)

lemma gf_sum_xor: "gf_sum bs (a XOR b) = gf_sum bs a XOR gf_sum bs b"
  by (induction bs arbitrary: a b) (simp_all add: xtime_xor ac_simps)

lemma gf_sum_xtime: "gf_sum bs (xtime v) = xtime (gf_sum bs v)"
  by (induction bs arbitrary: v) (simp_all add: xtime_xor)

lemma gf_sum_0 [simp]: "gf_sum bs 0 = 0"
  by (induction bs) simp_all

lemma gf_times_xor_right: "gf_times a (b XOR c) = gf_times a b XOR gf_times a c"
  by (simp add: gf_times_def gf_sum_xor)

lemma gf_times_xor_left: "gf_times (a XOR b) v = gf_times a v XOR gf_times b v"
proof -
  have "gf_sum (map (bit (a XOR b)) is) v = gf_sum (map (bit a) is) v XOR gf_sum (map (bit b) is) v" for "is"
    by (induction "is" arbitrary: v) (auto simp: bit_xor_iff ac_simps)
  then show ?thesis by (simp add: gf_times_def)
qed

lemma gf_times_xtime: "gf_times a (xtime b) = xtime (gf_times a b)"
  by (simp add: gf_times_def gf_sum_xtime)

lemma gf_times_0 [simp]: "gf_times a 0 = 0" "gf_times 0 a = 0"
  by (simp_all add: gf_times_def below_8)

lemma gf_times_1 [simp]: "gf_times 1 a = a"
  by (simp add: gf_times_def below_8)

text \<open>Two additive functions that agree on the eight powers of two are equal.\<close>

definition xor_additive :: "(u8 \<Rightarrow> u8) \<Rightarrow> bool" where
  "xor_additive f \<longleftrightarrow> (\<forall>a b. f (a XOR b) = f a XOR f b)"

lemma xor_additive_0: "xor_additive f \<Longrightarrow> f 0 = 0"
  unfolding xor_additive_def by (metis xor_self_eq)

lemma take_bit_xor: "take_bit (Suc n) v = take_bit n v XOR (if bit v n then push_bit n 1 else 0 :: u8)"
  by (rule bit_word_eqI) (auto simp: bit_simps less_Suc_eq)

lemma xor_additive_ext:
  assumes "xor_additive f" "xor_additive g" "list_all (\<lambda>v. f v = g v) [1, 2, 4, 8, 16, 32, 64, 128]"
  shows "f v = g v"
proof -
  have "f (push_bit n 1) = g (push_bit n 1)" if "n < 8" for n
    using that assms(3) by (auto simp: less_8_cases)
  then have "f (take_bit n v) = g (take_bit n v)" if "n \<le> 8" for n
    using that
  proof (induction n)
    case 0
    then show ?case by (simp add: xor_additive_0 [OF assms(1)] xor_additive_0 [OF assms(2)])
  next
    case (Suc n)
    then have "f (if bit v n then push_bit n 1 else 0) = g (if bit v n then push_bit n 1 else 0)"
      using \<open>\<And>n. n < 8 \<Longrightarrow> f (push_bit n 1) = g (push_bit n 1)\<close> [of n]
      by (simp add: xor_additive_0 [OF assms(1)] xor_additive_0 [OF assms(2)])
    with Suc show ?case using assms(1,2) by (simp add: take_bit_xor xor_additive_def)
  qed
  from this [of 8] show ?thesis by (simp add: take_bit_word_eq_self)
qed

lemma gf_times_one_right [simp]: "gf_times a 1 = a"
proof (rule xor_additive_ext [where g = "\<lambda>a. a"])
  show "list_all (\<lambda>v. gf_times v 1 = v) [1, 2, 4, 8, 16, 32, 64, 128]"
    by (simp add: gf_times_def below_8 xtime_def)
qed (simp_all add: xor_additive_def gf_times_xor_left)

lemma xtime_powers:
  "xtime 1 = 2" "xtime 2 = 4" "xtime 4 = 8" "xtime 8 = 16" "xtime 16 = 32" "xtime 32 = 64" "xtime 64 = 128"
  by (simp_all add: xtime_def)

lemma gf_times_commute: "gf_times a b = gf_times b a"
proof (rule xor_additive_ext [where f = "\<lambda>a. gf_times a b"])
  note x = gf_times_xtime [of b]
  have "gf_times b 2 = xtime b" using x [of 1] by (simp add: xtime_powers)
  moreover from this have "gf_times b 4 = xtime (xtime b)" using x [of 2] by (simp add: xtime_powers)
  moreover from this have "gf_times b 8 = xtime (xtime (xtime b))" using x [of 4] by (simp add: xtime_powers)
  moreover from this have "gf_times b 16 = xtime (xtime (xtime (xtime b)))" using x [of 8] by (simp add: xtime_powers)
  moreover from this have "gf_times b 32 = xtime (xtime (xtime (xtime (xtime b))))"
    using x [of 16] by (simp add: xtime_powers)
  moreover from this have "gf_times b 64 = xtime (xtime (xtime (xtime (xtime (xtime b)))))"
    using x [of 32] by (simp add: xtime_powers)
  moreover from this have "gf_times b 128 = xtime (xtime (xtime (xtime (xtime (xtime (xtime b))))))"
    using x [of 64] by (simp add: xtime_powers)
  ultimately show "list_all (\<lambda>v. gf_times v b = gf_times b v) [1, 2, 4, 8, 16, 32, 64, 128]"
    by (simp add: gf_times_def [of "numeral w" for w] below_8)
qed (simp_all add: xor_additive_def gf_times_xor_left gf_times_xor_right)

lemma gf_times_left_commute: "gf_times a (gf_times b c) = gf_times b (gf_times a c)"
proof -
  have "gf_times a (gf_sum bs c) = gf_sum bs (gf_times a c)" for bs
    by (induction bs arbitrary: c) (simp_all add: gf_times_xor_right gf_times_xtime)
  then show ?thesis by (simp add: gf_times_def [of b])
qed

lemma gf_times_assoc: "gf_times (gf_times a b) c = gf_times a (gf_times b c)"
  by (metis gf_times_commute gf_times_left_commute)

lemmas gf_ac = gf_times_assoc gf_times_commute gf_times_left_commute

section \<open>Powers\<close>

lemma gf_power_add: "gf_power a (m + n) = gf_times (gf_power a m) (gf_power a n)"
  by (induction m) (simp_all add: gf_times_assoc)

lemma gf_power_one [simp]: "gf_power 1 n = 1"
  by (induction n) simp_all

lemma gf_power_mult: "gf_power a (m * n) = gf_power (gf_power a m) n"
  by (induction n) (simp_all add: gf_power_add)

text \<open>The powers of 3 come back to 1 after 255 steps and not before.\<close>

lemma times_3: "gf_times 3 x = x XOR xtime x"
  by (simp add: gf_times_def below_8)

definition powers_of_3 :: "u8 list" where
  "powers_of_3 =
  [1, 3, 5, 15, 17, 51, 85, 255, 26, 46, 114, 150, 161, 248, 19, 53,
   95, 225, 56, 72, 216, 115, 149, 164, 247, 2, 6, 10, 30, 34, 102, 170,
   229, 52, 92, 228, 55, 89, 235, 38, 106, 190, 217, 112, 144, 171, 230, 49,
   83, 245, 4, 12, 20, 60, 68, 204, 79, 209, 104, 184, 211, 110, 178, 205,
   76, 212, 103, 169, 224, 59, 77, 215, 98, 166, 241, 8, 24, 40, 120, 136,
   131, 158, 185, 208, 107, 189, 220, 127, 129, 152, 179, 206, 73, 219, 118, 154,
   181, 196, 87, 249, 16, 48, 80, 240, 11, 29, 39, 105, 187, 214, 97, 163,
   254, 25, 43, 125, 135, 146, 173, 236, 47, 113, 147, 174, 233, 32, 96, 160,
   251, 22, 58, 78, 210, 109, 183, 194, 93, 231, 50, 86, 250, 21, 63, 65,
   195, 94, 226, 61, 71, 201, 64, 192, 91, 237, 44, 116, 156, 191, 218, 117,
   159, 186, 213, 100, 172, 239, 42, 126, 130, 157, 188, 223, 122, 142, 137, 128,
   155, 182, 193, 88, 232, 35, 101, 175, 234, 37, 111, 177, 200, 67, 197, 84,
   252, 31, 33, 99, 165, 244, 7, 9, 27, 45, 119, 153, 176, 203, 70, 202,
   69, 207, 74, 222, 121, 139, 134, 145, 168, 227, 62, 66, 198, 81, 243, 14,
   18, 54, 90, 238, 41, 123, 141, 140, 143, 138, 133, 148, 167, 242, 13, 23,
   57, 75, 221, 124, 132, 151, 162, 253, 28, 36, 108, 180, 199, 82, 246, 1]"

fun tripled :: "u8 list \<Rightarrow> bool" where
  "tripled (x # y # zs) \<longleftrightarrow> y = x XOR xtime x \<and> tripled (y # zs)"
| "tripled _ \<longleftrightarrow> True"

lemma nth_tripled: "tripled (x # xs) \<Longrightarrow> i \<le> length xs \<Longrightarrow> (x # xs) ! i = gf_times (gf_power 3 i) x"
proof (induction xs arbitrary: x i)
  case (Cons y xs)
  show ?case
  proof (cases i)
    case (Suc j)
    have "(y # xs) ! j = gf_times (gf_power 3 j) y" by (rule Cons.IH) (use Cons.prems Suc in auto)
    with Cons.prems(1) have "(x # y # xs) ! i = gf_times (gf_power 3 j) (gf_times 3 x)" by (simp add: Suc times_3)
    then show ?thesis by (simp only: Suc gf_power.simps gf_ac)
  qed simp
qed simp

lemma powers_of_3_tripled: "tripled powers_of_3"
  unfolding powers_of_3_def by (simp add: xtime_def)

lemma powers_of_3_ones: "length powers_of_3 = 256 \<and> hd powers_of_3 = 1 \<and> powers_of_3 ! 255 = 1 \<and> 1 \<notin> set (tl (butlast powers_of_3))"
  unfolding powers_of_3_def by simp

lemma nth_powers_of_3: "i < 256 \<Longrightarrow> powers_of_3 ! i = gf_power 3 i"
proof -
  assume i: "i < 256"
  obtain xs where xs: "powers_of_3 = 1 # xs"
    using powers_of_3_ones by (metis length_0_conv list.collapse zero_neq_numeral)
  have "length (1 # xs) = 256" unfolding xs [symmetric] by (rule powers_of_3_ones [THEN conjunct1])
  with i have "i \<le> length xs" by simp
  with nth_tripled [of 1 xs i] powers_of_3_tripled show ?thesis by (simp only: xs gf_times_one_right)
qed

lemma power_3_255: "gf_power 3 255 = 1"
  using nth_powers_of_3 [of 255] powers_of_3_ones by simp

lemma power_3_period: "gf_power 3 (255 + n) = gf_power 3 n"
  by (simp add: gf_power_add power_3_255)

lemma power_3_mod: "gf_power 3 (n mod 255) = gf_power 3 n"
proof -
  have "gf_power 3 n = gf_power 3 (255 * (n div 255) + n mod 255)" by simp
  also have "\<dots> = gf_power 3 (n mod 255)" unfolding gf_power_add gf_power_mult [of 3 255] power_3_255 by simp
  finally show ?thesis by simp
qed

lemma power_3_not_1: "0 < n \<Longrightarrow> n < 255 \<Longrightarrow> gf_power 3 n \<noteq> 1"
proof -
  assume n: "0 < n" "n < 255"
  have "tl (butlast powers_of_3) ! (n - 1) = gf_power 3 n"
    using n powers_of_3_ones nth_powers_of_3 [of n] by (simp add: nth_tl nth_butlast)
  moreover have "tl (butlast powers_of_3) ! (n - 1) \<noteq> 1"
    using n powers_of_3_ones nth_mem [of "n - 1" "tl (butlast powers_of_3)"] by fastforce
  ultimately show ?thesis by simp
qed

lemma power_3_nonzero: "gf_power 3 n \<noteq> 0"
proof
  assume "gf_power 3 n = 0"
  then have "gf_power 3 (n * 255) = gf_power 0 255" by (simp only: gf_power_mult)
  moreover have "gf_power 0 (Suc m) = 0" for m by simp
  then have "gf_power 0 255 = 0" by (metis numeral_eq_Suc)
  moreover have "gf_power 3 (n * 255) = gf_power (gf_power 3 255) n" by (metis gf_power_mult mult.commute)
  ultimately show False by (simp add: power_3_255)
qed

lemma power_3_inj: "inj_on (gf_power 3) {1..255}"
proof -
  have "gf_power 3 i \<noteq> gf_power 3 j" if "i < j" "1 \<le> i" "j \<le> 255" for i j
  proof
    assume e: "gf_power 3 i = gf_power 3 j"
    have "gf_times (gf_power 3 (255 - i)) (gf_power 3 i) = gf_times (gf_power 3 (255 - i)) (gf_power 3 j)" by (simp add: e)
    then have "gf_power 3 (255 - i + i) = gf_power 3 (255 - i + j)" by (simp only: gf_power_add)
    moreover have "255 - i + i = 255" "255 - i + j = 255 + (j - i)" using that by simp_all
    ultimately have "gf_power 3 (j - i) = 1" by (metis power_3_255 power_3_period)
    moreover have "0 < j - i" "j - i < 255" using that by linarith+
    ultimately show False using power_3_not_1 by blast
  qed
  then show ?thesis unfolding inj_on_def by (metis atLeastAtMost_iff linorder_neqE_nat)
qed

lemma power_3_onto: "x \<noteq> 0 \<Longrightarrow> \<exists>l. 1 \<le> l \<and> l \<le> 255 \<and> gf_power 3 l = x"
proof -
  assume x: "x \<noteq> 0"
  have "card (gf_power 3 ` {1..255}) = 255" using card_image [OF power_3_inj] by simp
  moreover have "gf_power 3 ` {1..255} \<subseteq> UNIV - {0}" using power_3_nonzero by auto
  moreover have "card (UNIV - {0 :: u8}) = 255" by (simp add: card_Diff_singleton card_word)
  ultimately have "gf_power 3 ` {1..255} = UNIV - {0}" by (intro card_subset_eq) simp_all
  with x have "x \<in> gf_power 3 ` {1..255}" by simp
  then show ?thesis by auto
qed

section \<open>Inverses\<close>

lemma power_255: "x \<noteq> 0 \<Longrightarrow> gf_power x 255 = 1"
proof -
  assume "x \<noteq> 0"
  then obtain l where "x = gf_power 3 l" using power_3_onto by metis
  then have "gf_power x 255 = gf_power (gf_power 3 255) l" by (metis gf_power_mult mult.commute)
  then show ?thesis by (simp only: power_3_255 gf_power_one)
qed

lemma gf_inverse_power: "1 \<le> l \<Longrightarrow> l \<le> 255 \<Longrightarrow> gf_inverse (gf_power 3 l) = gf_power 3 (255 - l)"
proof -
  assume l: "1 \<le> l" "l \<le> 255"
  have "gf_power 3 (l * 254) = gf_power 3 (255 * (l - 1) + (255 - l))"
    using l by (intro arg_cong [where f = "gf_power 3"]) linarith
  also have "\<dots> = gf_power 3 (255 - l)" unfolding gf_power_add gf_power_mult [of 3 255] power_3_255 by simp
  finally show ?thesis by (simp add: gf_inverse_def gf_power_mult)
qed

lemma gf_inverse_0 [simp]: "gf_inverse 0 = 0"
proof -
  have "gf_power 0 (Suc n) = 0" for n by simp
  from this [of 253] show ?thesis by (simp add: gf_inverse_def)
qed

lemma gf_inverse_nonzero: "x \<noteq> 0 \<Longrightarrow> gf_inverse x \<noteq> 0"
  by (metis power_3_onto gf_inverse_power power_3_nonzero)

lemma gf_inverse_inverse [simp]: "gf_inverse (gf_inverse x) = x"
proof (cases "x = 0")
  case False
  have "gf_inverse (gf_inverse x) = gf_power x (254 * 254)" by (simp only: gf_inverse_def gf_power_mult)
  also have "\<dots> = gf_power x (255 * 253 + 1)" by simp
  also have "\<dots> = x" unfolding gf_power_add gf_power_mult power_255 [OF False] by simp
  finally show ?thesis .
qed simp

lemma gf_inverse_is_inverse: "x \<noteq> 0 \<Longrightarrow> gf_times x (gf_inverse x) = 1"
  using power_255 [of x] by (simp add: gf_inverse_def gf_power.simps(2) [symmetric] del: gf_power.simps(2))

section \<open>The inverse cipher\<close>

lemma bit_sum_ac: "bit_sum p q = bit_sum q p" "bit_sum (bit_sum p q) r = bit_sum p (bit_sum q r)"
  "bit_sum p (bit_sum q r) = bit_sum q (bit_sum p r)"
  by (auto simp: bit_sum_def)

lemma bit_sum_cancel [simp]: "bit_sum p p = False" "bit_sum p (bit_sum p q) = q" "bit_sum p False = p"
  "bit_sum False p = p"
  by (auto simp: bit_sum_def)

lemma bit_affine: "i < 8 \<Longrightarrow> bit (affine b) i \<longleftrightarrow>
    bit_sum (bit b i) (bit_sum (bit b ((i + 4) mod 8)) (bit_sum (bit b ((i + 5) mod 8))
       (bit_sum (bit b ((i + 6) mod 8)) (bit_sum (bit b ((i + 7) mod 8)) (bit (0x63 :: u8) i)))))"
  by (simp add: affine_def bit_horner_sum_bit_word_iff)

lemma bit_inv_affine: "i < 8 \<Longrightarrow> bit (inv_affine b) i \<longleftrightarrow>
    bit_sum (bit b ((i + 2) mod 8)) (bit_sum (bit b ((i + 5) mod 8)) (bit_sum (bit b ((i + 7) mod 8)) (bit (0x05 :: u8) i)))"
  by (simp add: inv_affine_def bit_horner_sum_bit_word_iff)

lemma inv_affine_affine [simp]: "inv_affine (affine b) = b"
proof (rule bit_word_eqI)
  fix n
  assume "n < LENGTH(8)"
  then have "n < 8" by simp
  then show "bit (inv_affine (affine b)) n = bit b n"
    unfolding less_8_cases by (elim disjE) (simp_all add: bit_inv_affine bit_affine bit_sum_ac numeral_2_eq_2 [symmetric])
qed

lemma affine_inv_affine [simp]: "affine (inv_affine b) = b"
proof (rule bit_word_eqI)
  fix n
  assume "n < LENGTH(8)"
  then have "n < 8" by simp
  then show "bit (affine (inv_affine b)) n = bit b n"
    unfolding less_8_cases by (elim disjE) (simp_all add: bit_inv_affine bit_affine bit_sum_ac numeral_2_eq_2 [symmetric])
qed

lemma inv_sub_byte_sub_byte [simp]: "inv_sub_byte (sub_byte b) = b"
  by (simp add: inv_sub_byte_def sub_byte_def)

lemma sub_byte_inv_sub_byte [simp]: "sub_byte (inv_sub_byte b) = b"
  by (simp add: inv_sub_byte_def sub_byte_def)

lemma sub_byte_inj: "sub_byte a = sub_byte b \<longleftrightarrow> a = b"
  by (metis inv_sub_byte_sub_byte)

text \<open>A state byte by byte.\<close>

lemma state_cases:
  assumes "length s = 16"
  obtains a0 a1 a2 a3 b0 b1 b2 b3 c0 c1 c2 c3 d0 d1 d2 d3
  where "s = [a0, a1, a2, a3, b0, b1, b2, b3, c0, c1, c2, c3, d0, d1, d2, d3]"
  using assms by (auto simp: length_Suc_conv eval_nat_numeral)

lemma below_4: "[0..<4] = [0, 1, 2, 3 :: nat]"
  by code_simp

lemma upt_16: "[0..<16] = [0, 1, 2, 3, 4, 5, 6, 7, 8, 9, 10, 11, 12, 13, 14, 15 :: nat]"
  by code_simp

lemma length_shift_rows [simp]: "length (shift_rows s) = 16"
  by (simp add: shift_rows_def)

lemma length_inv_shift_rows [simp]: "length (inv_shift_rows s) = 16"
  by (simp add: inv_shift_rows_def)

lemma inv_shift_rows_shift_rows: "length s = 16 \<Longrightarrow> inv_shift_rows (shift_rows s) = s"
  by (elim state_cases) (simp add: shift_rows_def inv_shift_rows_def upt_16)

lemma shift_rows_map: "length s = 16 \<Longrightarrow> shift_rows (map f s) = map f (shift_rows s)"
  by (elim state_cases) (simp add: shift_rows_def upt_16)

lemma inv_shift_rows_map: "length s = 16 \<Longrightarrow> inv_shift_rows (map f s) = map f (inv_shift_rows s)"
  by (elim state_cases) (simp add: inv_shift_rows_def upt_16)

text \<open>The products with the entries of the two matrices.\<close>

lemma small_products:
  "gf_times 2 a = xtime a" "gf_times 3 a = a XOR xtime a"
  "gf_times 9 a = a XOR xtime (xtime (xtime a))" "gf_times 11 a = a XOR xtime a XOR xtime (xtime (xtime a))"
  "gf_times 13 a = a XOR xtime (xtime a) XOR xtime (xtime (xtime a))"
  "gf_times 14 a = xtime a XOR xtime (xtime a) XOR xtime (xtime (xtime a))"
  by (simp_all add: gf_times_def below_8 ac_simps)

lemma length_matrix_column [simp]: "length (matrix_column m s) = 4"
  by (simp add: matrix_column_def)

lemma mix_column_bytes:
  "matrix_column [2, 3, 1, 1] [a, b, c, d] =
    [gf_times 2 a XOR gf_times 3 b XOR c XOR d, a XOR gf_times 2 b XOR gf_times 3 c XOR d,
     a XOR b XOR gf_times 2 c XOR gf_times 3 d, gf_times 3 a XOR b XOR c XOR gf_times 2 d]"
  by (simp add: matrix_column_def below_4 ac_simps)

lemma inv_mix_column_bytes:
  "matrix_column [14, 11, 13, 9] [a, b, c, d] =
    [gf_times 14 a XOR gf_times 11 b XOR gf_times 13 c XOR gf_times 9 d,
     gf_times 9 a XOR gf_times 14 b XOR gf_times 11 c XOR gf_times 13 d,
     gf_times 13 a XOR gf_times 9 b XOR gf_times 14 c XOR gf_times 11 d,
     gf_times 11 a XOR gf_times 13 b XOR gf_times 9 c XOR gf_times 14 d]"
  by (simp add: matrix_column_def below_4 ac_simps)

lemma xor_cancel: "(a :: 'a :: len word) XOR (a XOR b) = b"
  by (simp add: xor.assoc [symmetric])

lemma inv_mix_mix_column: "matrix_column [14, 11, 13, 9] (matrix_column [2, 3, 1, 1] [a, b, c, d]) = [a, b, c, d]"
  unfolding mix_column_bytes inv_mix_column_bytes small_products
  by (simp add: xtime_xor xor_cancel ac_simps)

lemma column_bytes:
  "column_of [a0, a1, a2, a3, b0, b1, b2, b3, c0, c1, c2, c3, d0, d1, d2, d3] 0 = [a0, a1, a2, a3]"
  "column_of [a0, a1, a2, a3, b0, b1, b2, b3, c0, c1, c2, c3, d0, d1, d2, d3] (Suc 0) = [b0, b1, b2, b3]"
  "column_of [a0, a1, a2, a3, b0, b1, b2, b3, c0, c1, c2, c3, d0, d1, d2, d3] 2 = [c0, c1, c2, c3]"
  "column_of [a0, a1, a2, a3, b0, b1, b2, b3, c0, c1, c2, c3, d0, d1, d2, d3] 3 = [d0, d1, d2, d3]"
  by (simp_all add: column_of_def)

lemma columns_of_concat:
  assumes "length p = 4" "length q = 4" "length r = 4" "length s = 4"
  shows "map (column_of (p @ q @ r @ s)) [0, 1, 2, 3] = [p, q, r, s]"
  using assms by (simp add: column_of_def)

lemma length_mix_columns [simp]: "length (mix_columns s) = 16" "length (inv_mix_columns s) = 16"
  by (simp_all add: mix_columns_def inv_mix_columns_def below_4)

lemma inv_mix_columns_mix_columns: "length s = 16 \<Longrightarrow> inv_mix_columns (mix_columns s) = s"
proof (elim state_cases)
  fix a0 a1 a2 a3 b0 b1 b2 b3 c0 c1 c2 c3 d0 d1 d2 d3
  assume s: "s = [a0, a1, a2, a3, b0, b1, b2, b3, c0, c1, c2, c3, d0, d1, d2, d3]"
  let ?m = "matrix_column [2, 3, 1, 1]"
  have m: "mix_columns s = ?m [a0, a1, a2, a3] @ ?m [b0, b1, b2, b3] @ ?m [c0, c1, c2, c3] @ ?m [d0, d1, d2, d3]"
    by (simp add: mix_columns_def below_4 s column_bytes)
  have "map (column_of (mix_columns s)) [0, 1, 2, 3] = [?m [a0, a1, a2, a3], ?m [b0, b1, b2, b3], ?m [c0, c1, c2, c3], ?m [d0, d1, d2, d3]]"
    unfolding m by (rule columns_of_concat) simp_all
  then show ?thesis by (simp add: inv_mix_columns_def below_4 inv_mix_mix_column s)
qed

lemma length_xor_bytes' [simp]: "length (xor_bytes a b) = min (length a) (length b)"
  by (simp add: xor_bytes_def)

lemma xor_bytes_twice: "length a = length k \<Longrightarrow> xor_bytes (xor_bytes a k) k = a"
  by (induction a k rule: list_induct2) (simp_all add: xor_bytes_def xor.assoc)

lemma length_cipher_round: "length (rk r) = 16 \<Longrightarrow> length (cipher_round rk r s) = 16"
  by (simp add: cipher_round_def)

lemma length_rounds:
  assumes "\<And>r. length (rk r) = 16" "length s = 16"
  shows "length (fold (cipher_round rk) rs s) = 16"
  using assms(2) by (induction rs arbitrary: s) (simp_all add: length_cipher_round assms(1))

lemma inv_cipher_rounds:
  assumes "\<And>r. length (rk r) = 16" "length s = 16"
  shows "fold (inv_cipher_round rk) (rev [1..<n]) (shift_rows (map sub_byte (fold (cipher_round rk) [1..<n] s))) =
    shift_rows (map sub_byte s)"
proof (induction n)
  case (Suc n)
  show ?case
  proof (cases "n = 0")
    case False
    let ?t = "fold (cipher_round rk) [1..<n] s"
    have t: "length ?t = 16" by (rule length_rounds [OF assms])
    have "inv_cipher_round rk n (shift_rows (map sub_byte (cipher_round rk n ?t))) = shift_rows (map sub_byte ?t)"
      by (simp add: inv_cipher_round_def inv_shift_rows_shift_rows length_cipher_round assms(1) comp_def)
        (simp add: cipher_round_def xor_bytes_twice assms(1) inv_mix_columns_mix_columns)
    with Suc False show ?thesis by simp
  qed simp
qed simp

lemma inv_cipher_cipher:
  assumes "\<And>r. length (rk r) = 16" "length block = 16"
  shows "inv_cipher n rk (cipher n rk block) = block"
proof -
  have "length (fold (cipher_round rk) [1..<n] (xor_bytes block (rk 0))) = 16"
    by (rule length_rounds) (simp_all add: assms)
  then show ?thesis
    using inv_cipher_rounds [of rk "xor_bytes block (rk 0)" n] assms
    by (simp add: inv_cipher_def cipher_def Let_def xor_bytes_twice inv_shift_rows_shift_rows comp_def)
qed

end
