(* ===== verification/Aes_Facts.thy ===== *)
theory Aes_Facts
  imports Aes Aes_Field
begin

text \<open>
  The code of the block cipher against the standard: what the generated tables hold, what the key
  schedules leave in the buffer, and what the rounds compute.
\<close>

section \<open>Words of four bytes\<close>

definition le4 :: "u8 \<Rightarrow> u8 \<Rightarrow> u8 \<Rightarrow> u8 \<Rightarrow> u32" where
  "le4 a b c d = ucast a OR push_bit 8 (ucast b) OR push_bit 16 (ucast c) OR push_bit 24 (ucast d)"

lemma bit_u8_less: "bit (a :: u8) n \<Longrightarrow> n < 8"
  using bit_imp_le_length [of a n] by simp

lemma bit_le4:
  "bit (le4 a b c d) n \<longleftrightarrow>
    (if n < 8 then bit a n else if n < 16 then bit b (n - 8) else if n < 24 then bit c (n - 16) else bit d (n - 24))"
  by (auto simp: le4_def bit_simps dest: bit_u8_less)

lemma low_byte: "x AND 0xff = take_bit 8 (x :: u32)"
  by (simp add: take_bit_eq_mask mask_eq_decr_exp)

lemma bit_BYTES:
  "bit (BYTE_0 x) n \<longleftrightarrow> n < 8 \<and> bit x n" "bit (BYTE_1 x) n \<longleftrightarrow> n < 8 \<and> bit x (8 + n)"
  "bit (BYTE_2 x) n \<longleftrightarrow> n < 8 \<and> bit x (16 + n)" "bit (BYTE_3 x) n \<longleftrightarrow> n < 8 \<and> bit x (24 + n)"
  unfolding BYTE_0_def BYTE_1_def BYTE_2_def BYTE_3_def low_byte by (auto simp: bit_simps)

lemma bytes_of_le4 [simp]:
  "BYTE_0 (le4 a b c d) = a" "BYTE_1 (le4 a b c d) = b" "BYTE_2 (le4 a b c d) = c" "BYTE_3 (le4 a b c d) = d"
  by (rule bit_word_eqI; simp add: bit_BYTES bit_le4)+

lemma le4_xor: "le4 a b c d XOR le4 a' b' c' d' = le4 (a XOR a') (b XOR b') (c XOR c') (d XOR d')"
  by (rule bit_word_eqI) (simp add: bit_le4 bit_xor_iff)

lemma xor_bytes_le4: "ucast a XOR push_bit 8 (ucast b) XOR push_bit 16 (ucast c) XOR push_bit 24 (ucast d) = le4 a b c d"
  by (rule bit_word_eqI) (auto simp: le4_def bit_simps dest: bit_u8_less)

lemma GET_UINT32_LE_le4: "GET_UINT32_LE s i = le4 (s ! i) (s ! (i + 1)) (s ! (i + 2)) (s ! (i + 3))"
  by (simp add: GET_UINT32_LE_def le4_def)

lemma PUT_UINT32_LE_le4: "PUT_UINT32_LE (le4 a b c d) = [a, b, c, d]"
  by (simp add: PUT_UINT32_LE_def)

lemma ROTL8_le4: "ROTL8 (le4 a b c d) = le4 d a b c"
proof -
  have "(0xFFFFFFFF :: u32) = - 1" by simp
  then have "ROTL8 x = push_bit 8 x OR drop_bit 24 x" for x by (simp only: ROTL8_def bit.conj_one_right)
  then show ?thesis
    by (intro bit_word_eqI) (auto simp: bit_simps bit_le4 dest: bit_u8_less)
qed

lemma BYTE_0_ucast [simp]: "BYTE_0 (ucast (b :: u8)) = b"
  by (rule bit_word_eqI) (simp add: bit_BYTES bit_simps)

lemma ucast_u8_u32 [simp]: "(ucast (ucast (b :: u8) :: u32) :: u8) = b"
  by (rule bit_word_eqI) (simp add: bit_simps)

lemma u8_less: "unat (x :: u8) < 256"
  using unsigned_less [of x] by simp

lemma unat_ucast_u8 [simp]: "unat (ucast (b :: u8) :: u32) = unat b"
proof -
  have "unat b < 2 ^ 32" by (rule less_trans [OF u8_less]) simp
  then show ?thesis by (simp add: unsigned_ucast_eq take_bit_nat_eq_self)
qed

lemma ucast_u8_xor: "ucast (a :: u8) XOR ucast b = (ucast (a XOR b) :: u32)"
  by (rule bit_word_eqI) (simp add: bit_simps)

lemma ucast_u8_eq_0 [simp]: "(ucast (a :: u8) :: u32) = 0 \<longleftrightarrow> a = 0"
  by (metis BYTE_0_ucast ucast_0)

section \<open>The tables\<close>

lemma bit_shl: "bit (push_bit 1 (x :: 'a :: len word)) n \<longleftrightarrow> 1 \<le> n \<and> n < LENGTH('a) \<and> bit x (n - 1)"
  by (auto simp only: bit_push_bit_iff possible_bit_word)

lemma bit_times_2: "bit (x * 2 :: 'a :: len word) n \<longleftrightarrow> 1 \<le> n \<and> n < LENGTH('a) \<and> bit x (n - 1)"
  using bit_shl [of x n] by simp

lemma BYTE_0_XTIME: "BYTE_0 (XTIME (ucast b)) = xtime b"
proof -
  have "(0x80 :: u32) = 2 ^ 7" by simp
  then have "(ucast b :: u32) AND 0x80 \<noteq> 0 \<longleftrightarrow> bit b 7"
    by (simp only: and_exp_eq_0_iff_not_bit) (simp add: bit_simps)
  moreover have "bit (0x1b :: u32) n = bit (0x1b :: u8) n" if "n < 8" for n
    using that unfolding less_8_cases by auto
  moreover have "bit (ucast b :: u32) (n - 1) = bit b (n - 1)" for n by (auto simp: bit_simps dest: bit_u8_less)
  ultimately show ?thesis
    by (intro bit_word_eqI) (auto simp: bit_BYTES XTIME_def xtime_def bit_xor_iff bit_times_2)
qed

lemma BYTE_0_xor: "BYTE_0 (a XOR c) = BYTE_0 a XOR BYTE_0 c"
  by (rule bit_word_eqI) (simp add: bit_BYTES bit_xor_iff)

lemma BYTE_0_triple: "BYTE_0 (ucast b XOR XTIME (ucast b)) = gf_times 3 b"
  by (simp add: BYTE_0_xor BYTE_0_XTIME small_products)

text \<open>The loop of the powers: the powers of 3, and every element's exponent between 1 and 255.\<close>

definition powers_ok :: "nat \<Rightarrow> u32 list \<times> nat list \<Rightarrow> bool" where
  "powers_ok n = (\<lambda>(pw, lg). length pw = 256 \<and> length lg = 256 \<and> (\<forall>i < n. pw ! i = ucast (gf_power 3 i)) \<and>
     (\<forall>l. 1 \<le> l \<longrightarrow> l < n \<longrightarrow> lg ! unat (gf_power 3 l) = l))"

lemma pow_log_loop:
  assumes "length (fst garbage) = 256" "length (snd garbage) = 256"
  shows "n \<le> 256 \<Longrightarrow> \<exists>r. fold pow_log_step [0..<n] (1, garbage) = (ucast (gf_power 3 n), r) \<and> powers_ok n r"
proof (induction n)
  case 0
  then show ?case using assms by (cases garbage) (simp add: powers_ok_def)
next
  case (Suc n)
  then obtain pw lg where r: "fold pow_log_step [0..<n] (1, garbage) = (ucast (gf_power 3 n), pw, lg)" "powers_ok n (pw, lg)"
    by auto
  have "fold pow_log_step [0..<Suc n] (1, garbage) =
      (ucast (gf_power 3 (Suc n)), pw[n := ucast (gf_power 3 n)], lg[unat (gf_power 3 n) := n])"
    by (simp add: r(1) pow_log_step_def BYTE_0_triple)
  moreover have "unat (gf_power 3 n) \<noteq> unat (gf_power 3 l)" if "1 \<le> l" "l < n" for l
    using that Suc.prems inj_onD [OF power_3_inj, of n l] by (auto simp: word_unat_eq_iff)
  ultimately show ?case using r(2) Suc.prems
    by (auto simp: powers_ok_def nth_list_update less_Suc_eq u8_less)
qed

lemma MUL_gf_times:
  assumes "powers_ok 256 (pw, lg)"
  shows "MUL pw lg (ucast a) (ucast b) = ucast (gf_times a b)"
proof (cases "a = 0 \<or> b = 0")
  case False
  then obtain l m where l: "1 \<le> l" "l \<le> 255" "a = gf_power 3 l" and m: "1 \<le> m" "m \<le> 255" "b = gf_power 3 m"
    using power_3_onto by metis
  with assms have "lg ! unat a = l" "lg ! unat b = m" by (auto simp: powers_ok_def)
  moreover have "(l + m) mod 255 < 256" by (rule less_trans [OF mod_less_divisor]) simp_all
  with assms have "pw ! ((l + m) mod 255) = ucast (gf_power 3 ((l + m) mod 255))" by (auto simp: powers_ok_def)
  ultimately show ?thesis using False l(3) m(3) by (simp add: MUL_def power_3_mod gf_power_add)
qed (auto simp: MUL_def)

text \<open>The S-box.\<close>

lemma bit_xor_sum: "bit (a XOR b :: 'a :: len word) n = bit_sum (bit a n) (bit b n)"
  by (simp add: bit_xor_iff bit_sum_def)

lemma bit_rotate_byte: "bit (rotate_byte (ucast (b :: u8))) n \<longleftrightarrow> n < 8 \<and> bit b ((n + 7) mod 8)"
proof (cases "n < 8")
  case True
  have u: "bit (ucast b :: u32) m = bit b m" for m by (auto simp: bit_simps dest: bit_u8_less)
  have "\<not> bit b (7 + m)" if "1 \<le> m" for m using that by (auto dest: bit_u8_less)
  then have "bit (rotate_byte (ucast b)) n \<longleftrightarrow> (if n = 0 then bit b 7 else bit b (n - 1))"
    using True by (auto simp: rotate_byte_def bit_unsigned_iff bit_BYTES bit_or_iff bit_times_2 bit_drop_bit_eq u)
  moreover have "(n + 7) mod 8 = (if n = 0 then 7 else n - 1)" using True unfolding less_8_cases by auto
  ultimately show ?thesis using True by simp
next
  case False
  then show ?thesis by (auto simp: rotate_byte_def bit_simps dest: bit_u8_less)
qed

lemma rotate_byte_u8: "rotate_byte x = ucast (BYTE_0 (rotate_byte x))"
  by (simp add: rotate_byte_def)

lemma sbox_value_affine: "sbox_value (ucast b) = ucast (affine b)"
proof -
  define y1 where "y1 = BYTE_0 (rotate_byte (ucast b))"
  define y2 where "y2 = BYTE_0 (rotate_byte (ucast y1))"
  define y3 where "y3 = BYTE_0 (rotate_byte (ucast y2))"
  define y4 where "y4 = BYTE_0 (rotate_byte (ucast y3))"
  have r: "rotate_byte (ucast b) = ucast y1" "rotate_byte (ucast y1) = ucast y2" "rotate_byte (ucast y2) = ucast y3"
    "rotate_byte (ucast y3) = ucast y4"
    unfolding y1_def y2_def y3_def y4_def by (rule rotate_byte_u8)+
  have rb: "bit c n \<longleftrightarrow> n < 8 \<and> bit a ((n + 7) mod 8)" if "rotate_byte (ucast a) = ucast c" for a c :: u8 and n
  proof -
    have "bit (ucast c :: u32) n \<longleftrightarrow> n < 8 \<and> bit a ((n + 7) mod 8)" using bit_rotate_byte [of a n] that by simp
    then show ?thesis by (auto simp: bit_simps dest: bit_u8_less)
  qed
  have "sbox_value (ucast b) = ucast (b XOR y1 XOR y2 XOR y3 XOR y4 XOR 0x63)"
  proof -
    have "(0x63 :: u32) = ucast (0x63 :: u8)" by simp
    then show ?thesis unfolding sbox_value_def Let_def r by (simp only: ucast_u8_xor xor.assoc)
  qed
  moreover have "b XOR y1 XOR y2 XOR y3 XOR y4 XOR 0x63 = affine b"
  proof (rule bit_word_eqI)
    fix n
    assume "n < LENGTH(8)"
    then have "n < 8" by simp
    then show "bit (b XOR y1 XOR y2 XOR y3 XOR y4 XOR 0x63) n = bit (affine b) n"
      unfolding less_8_cases
      by (elim disjE) (simp_all add: bit_xor_sum rb [OF r(1)] rb [OF r(2)] rb [OF r(3)] rb [OF r(4)] bit_affine bit_sum_ac
          numeral_2_eq_2 [symmetric] del: bit_xor_iff)
  qed
  ultimately show ?thesis by simp
qed

text \<open>What the tables hold, byte by byte.\<close>

definition sboxes_ok :: "bytes \<Rightarrow> bytes \<Rightarrow> bool" where
  "sboxes_ok fsb rsb \<longleftrightarrow> (\<forall>x. fsb ! unat x = sub_byte x) \<and> (\<forall>x. rsb ! unat x = inv_sub_byte x)"

definition tables_ok :: "aes_tables \<Rightarrow> bool" where
  "tables_ok t \<longleftrightarrow> sboxes_ok (aes_FSb t) (aes_RSb t) \<and>
     (\<forall>x. aes_FT0 t ! unat x = le4 (gf_times 2 (sub_byte x)) (sub_byte x) (sub_byte x) (gf_times 3 (sub_byte x))) \<and>
     (\<forall>x. aes_FT1 t ! unat x = le4 (gf_times 3 (sub_byte x)) (gf_times 2 (sub_byte x)) (sub_byte x) (sub_byte x)) \<and>
     (\<forall>x. aes_FT2 t ! unat x = le4 (sub_byte x) (gf_times 3 (sub_byte x)) (gf_times 2 (sub_byte x)) (sub_byte x)) \<and>
     (\<forall>x. aes_FT3 t ! unat x = le4 (sub_byte x) (sub_byte x) (gf_times 3 (sub_byte x)) (gf_times 2 (sub_byte x))) \<and>
     (\<forall>x. aes_RT0 t ! unat x = le4 (gf_times 14 (inv_sub_byte x)) (gf_times 9 (inv_sub_byte x))
        (gf_times 13 (inv_sub_byte x)) (gf_times 11 (inv_sub_byte x))) \<and>
     (\<forall>x. aes_RT1 t ! unat x = le4 (gf_times 11 (inv_sub_byte x)) (gf_times 14 (inv_sub_byte x))
        (gf_times 9 (inv_sub_byte x)) (gf_times 13 (inv_sub_byte x))) \<and>
     (\<forall>x. aes_RT2 t ! unat x = le4 (gf_times 13 (inv_sub_byte x)) (gf_times 11 (inv_sub_byte x))
        (gf_times 14 (inv_sub_byte x)) (gf_times 9 (inv_sub_byte x))) \<and>
     (\<forall>x. aes_RT3 t ! unat x = le4 (gf_times 9 (inv_sub_byte x)) (gf_times 13 (inv_sub_byte x))
        (gf_times 11 (inv_sub_byte x)) (gf_times 14 (inv_sub_byte x))) \<and>
     (\<forall>i < 10. aes_RCON t ! i = ucast (gf_power 2 i))"

lemma all_bytes: "(\<forall>x :: u8. P (unat x) x) \<longleftrightarrow> (\<forall>i < 256. P i (of_nat i))"
proof
  assume *: "\<forall>x :: u8. P (unat x) x"
  show "\<forall>i < 256. P i (of_nat i)"
  proof (intro allI impI)
    fix i :: nat
    assume "i < 256"
    then have "unat (of_nat i :: u8) = i" by (simp add: unat_of_nat take_bit_nat_eq_self)
    with * show "P i (of_nat i)" by metis
  qed
next
  assume *: "\<forall>i < 256. P i (of_nat i :: u8)"
  show "\<forall>x :: u8. P (unat x) x"
  proof
    fix x :: u8
    show "P (unat x) x" using * [rule_format, OF u8_less [of x]] by simp
  qed
qed

lemma sbox_loop:
  assumes "powers_ok 256 (pw, lg)" "length fsb = 256" "length rsb = 256"
  shows "1 \<le> n \<Longrightarrow> n \<le> 256 \<Longrightarrow>
    (let (f, r) = fold (sbox_step pw lg) [1..<n] (fsb[0 := 0x63], rsb[0x63 := 0])
     in length f = 256 \<and> length r = 256 \<and> (\<forall>i < n. f ! i = sub_byte (of_nat i) \<and> r ! unat (sub_byte (of_nat i)) = of_nat i))"
proof (induction n rule: nat_induct_at_least)
  case base
  have "sub_byte 0 = 0x63"
    by (rule bit_word_eqI) (auto simp: sub_byte_def bit_affine bit_sum_def)
  then show ?case using assms by (simp add: Let_def)
next
  case (Suc n)
  obtain f r where fr: "fold (sbox_step pw lg) [1..<n] (fsb[0 := 0x63], rsb[0x63 := 0]) = (f, r)"
    by (cases "fold (sbox_step pw lg) [1..<n] (fsb[0 := 0x63], rsb[0x63 := 0])")
  with Suc have IH: "length f = 256" "length r = 256"
    "\<forall>i < n. f ! i = sub_byte (of_nat i) \<and> r ! unat (sub_byte (of_nat i)) = of_nat i" by simp_all
  let ?x = "of_nat n :: u8"
  have un: "unat (of_nat i :: u8) = i" if "i < 256" for i using that by (simp add: unat_of_nat take_bit_nat_eq_self)
  have "?x \<noteq> 0" using Suc un [of n] by auto
  then obtain l where l: "1 \<le> l" "l \<le> 255" "gf_power 3 l = ?x" using power_3_onto by metis
  then have "lg ! unat ?x = l" using assms(1) by (auto simp: powers_ok_def)
  then have "lg ! n = l" using un Suc by simp
  moreover have "pw ! (255 - l) = ucast (gf_inverse ?x)"
    using assms(1) l gf_inverse_power [of l] by (auto simp: powers_ok_def)
  ultimately have step: "fold (sbox_step pw lg) [1..<Suc n] (fsb[0 := 0x63], rsb[0x63 := 0]) =
      (f[n := sub_byte ?x], r[unat (sub_byte ?x) := ?x])"
    using Suc(1) fr by (simp add: sbox_step_def Let_def sbox_value_affine sub_byte_def)
  have "unat (sub_byte (of_nat i)) \<noteq> unat (sub_byte ?x)" if "i < n" for i
  proof
    assume "unat (sub_byte (of_nat i)) = unat (sub_byte ?x)"
    then have "(of_nat i :: u8) = ?x" by (metis word_unat_eq_iff sub_byte_inj)
    then show False using un [of i] un [of n] that Suc by simp
  qed
  note ne = this this [symmetric]
  from IH Suc(3) ne show ?case unfolding step by (auto simp: less_Suc_eq nth_list_update u8_less)
qed

lemma sbox_loop_ok:
  assumes "powers_ok 256 (pw, lg)" "length fsb = 256" "length rsb = 256"
  shows "\<exists>f r. fold (sbox_step pw lg) [1..<256] (fsb[0 := 0x63], rsb[0x63 := 0]) = (f, r) \<and> sboxes_ok f r"
proof -
  obtain f r where fr: "fold (sbox_step pw lg) [1..<256] (fsb[0 := 0x63], rsb[0x63 := 0]) = (f, r)" by fastforce
  with sbox_loop [OF assms, of 256] have "\<forall>i < 256. f ! i = sub_byte (of_nat i) \<and> r ! unat (sub_byte (of_nat i)) = of_nat i"
    by simp
  then have "\<forall>x. f ! unat x = sub_byte x \<and> r ! unat (sub_byte x) = x"
    using all_bytes [of "\<lambda>i x. f ! i = sub_byte x \<and> r ! unat (sub_byte x) = x"] by simp
  then have "sboxes_ok f r" unfolding sboxes_ok_def by (metis sub_byte_inv_sub_byte)
  with fr show ?thesis by blast
qed

lemma rcon_loop:
  assumes "length rcon = 10"
  shows "n \<le> 10 \<Longrightarrow> \<exists>r. fold rcon_step [0..<n] (1, rcon) = (ucast (gf_power 2 n), r) \<and> length r = 10 \<and>
    (\<forall>i < n. r ! i = ucast (gf_power 2 i))"
proof (induction n)
  case (Suc n)
  then obtain r where r: "fold rcon_step [0..<n] (1, rcon) = (ucast (gf_power 2 n), r)" "length r = 10"
    "\<forall>i < n. r ! i = ucast (gf_power 2 i)" by auto
  have "fold rcon_step [0..<Suc n] (1, rcon) = rcon_step n (fold rcon_step [0..<n] (1, rcon))" by simp
  also have "\<dots> = (ucast (gf_power 2 (Suc n)), r[n := ucast (gf_power 2 n)])"
    unfolding r(1) by (simp add: rcon_step_def BYTE_0_XTIME small_products)
  finally show ?case using Suc.prems r(2,3) by (auto simp: less_Suc_eq nth_list_update)
qed (use assms in simp)

text \<open>The last loop fills eight tables; each entry depends on the S-boxes alone.\<close>

definition ft_entry :: "u8 \<Rightarrow> u32" where
  "ft_entry s = le4 (gf_times 2 s) s s (gf_times 3 s)"

definition rt_entry :: "u8 \<Rightarrow> u32" where
  "rt_entry s = le4 (gf_times 14 s) (gf_times 9 s) (gf_times 13 s) (gf_times 11 s)"

definition arrays_sized :: "aes_tables \<Rightarrow> bool" where
  "arrays_sized t \<longleftrightarrow> length (aes_FSb t) = 256 \<and> length (aes_RSb t) = 256 \<and> length (aes_RCON t) = 10 \<and>
     list_all (\<lambda>a. length a = 256) [aes_FT0 t, aes_FT1 t, aes_FT2 t, aes_FT3 t, aes_RT0 t, aes_RT1 t, aes_RT2 t, aes_RT3 t]"

lemma table_step_entries:
  assumes "powers_ok 256 (pw, lg)"
  shows "aes_table_step pw lg i t =
    (let f = ft_entry (aes_FSb t ! i); r = rt_entry (aes_RSb t ! i)
     in t\<lparr>aes_FT0 := (aes_FT0 t)[i := f], aes_FT1 := (aes_FT1 t)[i := ROTL8 f],
          aes_FT2 := (aes_FT2 t)[i := ROTL8 (ROTL8 f)], aes_FT3 := (aes_FT3 t)[i := ROTL8 (ROTL8 (ROTL8 f))],
          aes_RT0 := (aes_RT0 t)[i := r], aes_RT1 := (aes_RT1 t)[i := ROTL8 r],
          aes_RT2 := (aes_RT2 t)[i := ROTL8 (ROTL8 r)], aes_RT3 := (aes_RT3 t)[i := ROTL8 (ROTL8 (ROTL8 r))]\<rparr>)"
proof -
  have "MUL pw lg 0x0E (ucast s) XOR push_bit 8 (MUL pw lg 0x09 (ucast s)) XOR
      push_bit 16 (MUL pw lg 0x0D (ucast s)) XOR push_bit 24 (MUL pw lg 0x0B (ucast s)) = rt_entry s" for s
    using MUL_gf_times [OF assms, of "0x0E" s] MUL_gf_times [OF assms, of "0x09" s] MUL_gf_times [OF assms, of "0x0D" s]
      MUL_gf_times [OF assms, of "0x0B" s]
    by (simp add: rt_entry_def xor_bytes_le4)
  moreover have "ucast (BYTE_0 (XTIME (ucast s))) XOR push_bit 8 (ucast s) XOR push_bit 16 (ucast s) XOR
      push_bit 24 (ucast (BYTE_0 (ucast (BYTE_0 (XTIME (ucast s))) XOR ucast s))) = ft_entry s" for s
    by (simp add: ft_entry_def xor_bytes_le4 BYTE_0_XTIME BYTE_0_xor small_products xor.commute)
  ultimately show ?thesis unfolding aes_table_step_def Let_def by simp
qed

definition filled :: "bytes \<Rightarrow> bytes \<Rightarrow> nat \<Rightarrow> aes_tables \<Rightarrow> bool" where
  "filled f b n u \<longleftrightarrow>
    (\<forall>i < n. aes_FT0 u ! i = ft_entry (f ! i) \<and> aes_FT1 u ! i = ROTL8 (ft_entry (f ! i)) \<and>
       aes_FT2 u ! i = ROTL8 (ROTL8 (ft_entry (f ! i))) \<and> aes_FT3 u ! i = ROTL8 (ROTL8 (ROTL8 (ft_entry (f ! i)))) \<and>
       aes_RT0 u ! i = rt_entry (b ! i) \<and> aes_RT1 u ! i = ROTL8 (rt_entry (b ! i)) \<and>
       aes_RT2 u ! i = ROTL8 (ROTL8 (rt_entry (b ! i))) \<and> aes_RT3 u ! i = ROTL8 (ROTL8 (ROTL8 (rt_entry (b ! i)))))"

lemma table_loop:
  assumes "powers_ok 256 (pw, lg)" "arrays_sized t"
  shows "n \<le> 256 \<Longrightarrow> (let u = fold (aes_table_step pw lg) [0..<n] t in arrays_sized u \<and>
    aes_FSb u = aes_FSb t \<and> aes_RSb u = aes_RSb t \<and> aes_RCON u = aes_RCON t \<and> filled (aes_FSb t) (aes_RSb t) n u)"
proof (induction n)
  case 0
  then show ?case using assms(2) by (simp add: Let_def filled_def)
next
  case (Suc n)
  let ?u = "fold (aes_table_step pw lg) [0..<n] t"
  have "fold (aes_table_step pw lg) [0..<Suc n] t = aes_table_step pw lg n ?u" by simp
  with Suc show ?case
    unfolding table_step_entries [OF assms(1)] Let_def arrays_sized_def filled_def
    by (auto simp: nth_list_update less_Suc_eq)
qed

lemma gen_tables_ok:
  assumes "length (fst garbage) = 256" "length (snd garbage) = 256" "arrays_sized t"
  shows "tables_ok (aes_gen_tables garbage t)"
proof -
  obtain pw lg where p: "fold pow_log_step [0..<256] (1, garbage) = (ucast (gf_power 3 256), pw, lg)" "powers_ok 256 (pw, lg)"
    using pow_log_loop [OF assms(1,2), of 256] by auto
  obtain rcon where r: "fold rcon_step [0..<10] (1, aes_RCON t) = (ucast (gf_power 2 10), rcon)" "length rcon = 10"
    "\<forall>i < 10. rcon ! i = ucast (gf_power 2 i)"
    using rcon_loop [of "aes_RCON t" 10] assms(3) by (auto simp: arrays_sized_def)
  have len: "length (aes_FSb t) = 256" "length (aes_RSb t) = 256" using assms(3) by (simp_all add: arrays_sized_def)
  obtain f b where s: "fold (sbox_step pw lg) [1..<256] ((aes_FSb t)[0 := 0x63], (aes_RSb t)[0x63 := 0]) = (f, b)"
    "sboxes_ok f b" using sbox_loop_ok [OF p(2) len] by blast
  have fl: "length (fst (fold (sbox_step pw lg) xs z)) = length (fst z) \<and> length (snd (fold (sbox_step pw lg) xs z)) = length (snd z)"
    for xs z by (induction xs arbitrary: z) (simp_all add: sbox_step_def Let_def split: prod.split)
  let ?t = "t\<lparr>aes_RCON := rcon, aes_FSb := f, aes_RSb := b\<rparr>"
  have "arrays_sized ?t"
    using assms(3) r(2) fl [of "[1..<256]" "((aes_FSb t)[0 := 0x63], (aes_RSb t)[0x63 := 0])"] unfolding s(1)
    by (simp add: arrays_sized_def)
  from table_loop [OF p(2) this, of 256] obtain u where u: "fold (aes_table_step pw lg) [0..<256] ?t = u"
    "aes_FSb u = f" "aes_RSb u = b" "aes_RCON u = rcon" "filled f b 256 u" by (simp add: Let_def)
  have "aes_gen_tables garbage t = u" using p(1) r(1) s(1) u(1) by (simp add: aes_gen_tables_def)
  moreover have "tables_ok u"
    using u(2-5) s(2) r(3) u8_less by (simp add: tables_ok_def sboxes_ok_def ft_entry_def rt_entry_def ROTL8_le4 filled_def)
  ultimately show ?thesis by simp
qed

lemma static_sized: "arrays_sized aes_static"
  by (simp add: arrays_sized_def aes_static_def)

end
