(* ===== verification/Aes_Schedule.thy ===== *)
theory Aes_Schedule
  imports Aes_Facts
begin

text \<open>The key schedules of the code leave the words of the standard's key expansion in the buffer.\<close>

section \<open>Words of the expansion\<close>

definition le_word :: "bytes \<Rightarrow> u32" where
  "le_word w = le4 (w ! 0) (w ! 1) (w ! 2) (w ! 3)"

lemma word_cases:
  assumes "length w = 4"
  obtains a b c d where "w = [a, b, c, d]"
  using assms by (auto simp: length_Suc_conv eval_nat_numeral)

lemma le_word_xor: "length v = 4 \<Longrightarrow> length w = 4 \<Longrightarrow> le_word (xor_bytes v w) = le_word v XOR le_word w"
  by (elim word_cases) (simp add: le_word_def xor_bytes_def le4_xor)

lemma FSb_entry: "tables_ok t \<Longrightarrow> aes_FSb t ! unat x = sub_byte x"
  by (simp add: tables_ok_def sboxes_ok_def)

lemma RSb_entry: "tables_ok t \<Longrightarrow> aes_RSb t ! unat x = inv_sub_byte x"
  by (simp add: tables_ok_def sboxes_ok_def)

lemma sub_rotated_word: "tables_ok t \<Longrightarrow> length w = 4 \<Longrightarrow> sub_rotated t (le_word w) = le_word (map sub_byte (rot_word w))"
  by (elim word_cases) (simp add: sub_rotated_def le_word_def FSb_entry xor_bytes_le4 rot_word_def)

lemma sub_straight_word: "tables_ok t \<Longrightarrow> length w = 4 \<Longrightarrow> sub_straight t (le_word w) = le_word (map sub_byte w)"
  by (elim word_cases) (simp add: sub_straight_def le_word_def FSb_entry xor_bytes_le4)

lemma round_constant_word:
  assumes "tables_ok t" "i < 10"
  shows "aes_RCON t ! i = le_word (round_constant (Suc i))"
proof -
  have "le4 a 0 0 0 = ucast a" for a by (simp add: le4_def)
  then show ?thesis using assms by (simp add: tables_ok_def le_word_def round_constant_def)
qed

lemma length_round_constant [simp]: "length (round_constant j) = 4"
  by (simp add: round_constant_def)

lemma length_rot_word [simp]: "length w = 4 \<Longrightarrow> length (rot_word w) = 4"
  by (simp add: rot_word_def)

lemma length_expanded: "length key = 4 * nk \<Longrightarrow> 0 < nk \<Longrightarrow> length (expanded nk key i) = 4"
proof (induction i rule: less_induct)
  case (less i)
  show ?case
  proof (cases "i < nk")
    case True
    then have "4 * i + 4 \<le> length key" using less.prems by simp
    with True show ?thesis by (simp add: expanded.simps column_of_def)
  next
    case False
    with less have "length (expanded nk key (i - 1)) = 4" "length (expanded nk key (i - nk)) = 4" by simp_all
    with False less.prems show ?thesis by (subst expanded.simps) (simp add: Let_def)
  qed
qed

text \<open>The word \<open>i\<close> of the expansion as the code holds it, and its three equations.\<close>

definition key_word :: "nat \<Rightarrow> bytes \<Rightarrow> nat \<Rightarrow> u32" where
  "key_word nk key i = le_word (expanded nk key i)"

lemma key_word_first:
  assumes "length key = 4 * nk" "i < nk"
  shows "key_word nk key i = GET_UINT32_LE key (4 * i)"
proof -
  have "4 * i + 3 < length key" using assms by simp
  then show ?thesis using assms(2)
    by (simp add: key_word_def expanded.simps le_word_def column_of_def GET_UINT32_LE_le4)
qed

lemma key_word_plain:
  assumes "length key = 4 * nk" "0 < nk" "nk \<le> i" "i mod nk \<noteq> 0" "nk \<le> 6 \<or> i mod nk \<noteq> 4"
  shows "key_word nk key i = key_word nk key (i - nk) XOR key_word nk key (i - 1)"
  using assms unfolding key_word_def
  by (subst expanded.simps) (auto simp: Let_def le_word_xor length_expanded)

lemma key_word_sub:
  assumes "length key = 4 * nk" "tables_ok t" "nk \<le> i" "6 < nk" "i mod nk = 4"
  shows "key_word nk key i = key_word nk key (i - nk) XOR sub_straight t (key_word nk key (i - 1))"
  using assms unfolding key_word_def
  by (subst expanded.simps) (auto simp: Let_def le_word_xor length_expanded sub_straight_word [OF assms(2)])

lemma key_word_rot:
  assumes "length key = 4 * nk" "0 < nk" "tables_ok t" "i < 10"
  shows "key_word nk key (nk * i + nk) =
    key_word nk key (nk * i) XOR aes_RCON t ! i XOR sub_rotated t (key_word nk key (nk * i + (nk - 1)))"
proof -
  have "nk * i + nk - 1 = nk * i + (nk - 1)" using assms(2) by simp
  moreover
  have "(nk * i + nk) mod nk = 0" "(nk * i + nk) div nk = Suc i" using assms(2) by simp_all
  ultimately show ?thesis
    using assms unfolding key_word_def
    by (subst expanded.simps)
      (simp add: Let_def le_word_xor length_expanded sub_rotated_word [OF assms(3)] round_constant_word [OF assms(3)] ac_simps)
qed

lemma key_word_run:
  assumes "length key = 4 * nk" "0 < j" "j < nk" "nk \<le> 6 \<or> j \<noteq> 4"
  shows "key_word nk key (nk * i + nk + j) = key_word nk key (nk * i + j) XOR key_word nk key (nk * i + nk + (j - 1))"
proof -
  have "(nk * i + nk + j) mod nk = (j + nk * (i + 1)) mod nk" by (simp add: algebra_simps)
  also have "\<dots> = j" using assms(3) by (simp only: mod_mult_self2 mod_less)
  finally have "(nk * i + nk + j) mod nk = j" .
  moreover have "nk * i + nk + j - nk = nk * i + j" "nk * i + nk + j - 1 = nk * i + nk + (j - 1)" using assms(2) by simp_all
  ultimately show ?thesis using key_word_plain [of key nk "nk * i + nk + j"] assms by simp
qed

lemma key_word_run4:
  assumes "length key = 32" "tables_ok t"
  shows "key_word 8 key (8 * i + 12) = key_word 8 key (8 * i + 4) XOR sub_straight t (key_word 8 key (8 * i + 11))"
proof -
  have "(8 * i + 12) mod 8 = (4 + 8 * (i + 1)) mod 8" by simp
  also have "\<dots> = 4" by (simp only: mod_mult_self2) simp
  finally show ?thesis using key_word_sub [of key 8 t "8 * i + 12"] assms by (simp add: add.commute)
qed

section \<open>The schedules\<close>

text \<open>The first \<open>n\<close> words of a buffer of 68 are known.\<close>

definition known :: "nat \<Rightarrow> (nat \<Rightarrow> u32) \<Rightarrow> u32 list \<Rightarrow> bool" where
  "known n w rk \<longleftrightarrow> length rk = 68 \<and> (\<forall>j < n. rk ! j = w j)"

lemma known_step: "known n w rk \<Longrightarrow> n < 68 \<Longrightarrow> v = w n \<Longrightarrow> known (Suc n) w (rk[n := v])"
  by (auto simp: known_def nth_list_update less_Suc_eq)

lemma known_nth: "known n w rk \<Longrightarrow> j < n \<Longrightarrow> rk ! j = w j"
  by (simp add: known_def)

lemma load_key_known:
  assumes "length key = 4 * nk" "0 < nk" "nk \<le> 68" "length rk = 68"
  shows "known nk (key_word nk key) (load_key key nk rk)"
proof -
  have "known n (key_word nk key) (load_key key n rk)" if "n \<le> nk" for n
    using that
  proof (induction n)
    case 0
    then show ?case using assms(4) by (simp add: known_def load_key_def)
  next
    case (Suc n)
    then show ?case
      using known_step [of n "key_word nk key" "load_key key n rk" "GET_UINT32_LE key (4 * n)"] assms
      by (simp add: load_key_def key_word_first)
  qed
  then show ?thesis by simp
qed

lemma expand128_known:
  assumes "length key = 16" "tables_ok t" "i < 10" "known (4 * i + 4) (key_word 4 key) rk"
  shows "known (4 * i + 8) (key_word 4 key) (expand128 t i rk)"
proof -
  let ?w = "key_word 4 key"
  have run: "?w (4 * i + 4 + j) = ?w (4 * i + j) XOR ?w (4 * i + 4 + (j - 1))" if "0 < j" "j < 4" for j
    using key_word_run [of key 4 j i] assms(1) that by simp
  define r1 where "r1 = rk[4 * i + 4 := rk ! (4 * i) XOR aes_RCON t ! i XOR sub_rotated t (rk ! (4 * i + 3))]"
  define r2 where "r2 = r1[4 * i + 5 := r1 ! (4 * i + 1) XOR r1 ! (4 * i + 4)]"
  define r3 where "r3 = r2[4 * i + 6 := r2 ! (4 * i + 2) XOR r2 ! (4 * i + 5)]"
  have e: "expand128 t i rk = r3[4 * i + 7 := r3 ! (4 * i + 3) XOR r3 ! (4 * i + 6)]"
    by (simp add: expand128_def Let_def r1_def r2_def r3_def)
  have "known (Suc (4 * i + 4)) ?w r1"
    unfolding r1_def using key_word_rot [of key 4 t i] assms known_nth [OF assms(4)] by (intro known_step) simp_all
  then have "known (Suc (4 * i + 5)) ?w r2"
    unfolding r2_def using run [of 1] assms(3) by (intro known_step) (simp_all add: known_def add.commute)
  then have "known (Suc (4 * i + 6)) ?w r3"
    unfolding r3_def using run [of 2] assms(3) by (intro known_step) (simp_all add: known_def add.commute)
  then have "known (Suc (4 * i + 7)) ?w (expand128 t i rk)"
    unfolding e using run [of 3] assms(3) by (intro known_step) (simp_all add: known_def add.commute)
  then show ?thesis by (simp add: add.commute)
qed

lemma expand192_known:
  assumes "length key = 24" "tables_ok t" "i < 8" "known (6 * i + 6) (key_word 6 key) rk"
  shows "known (6 * i + 12) (key_word 6 key) (expand192 t i rk)"
proof -
  let ?w = "key_word 6 key"
  have run: "?w (6 * i + 6 + j) = ?w (6 * i + j) XOR ?w (6 * i + 6 + (j - 1))" if "0 < j" "j < 6" for j
    using key_word_run [of key 6 j i] assms(1) that by simp
  define r1 where "r1 = rk[6 * i + 6 := rk ! (6 * i) XOR aes_RCON t ! i XOR sub_rotated t (rk ! (6 * i + 5))]"
  define r2 where "r2 = r1[6 * i + 7 := r1 ! (6 * i + 1) XOR r1 ! (6 * i + 6)]"
  define r3 where "r3 = r2[6 * i + 8 := r2 ! (6 * i + 2) XOR r2 ! (6 * i + 7)]"
  define r4 where "r4 = r3[6 * i + 9 := r3 ! (6 * i + 3) XOR r3 ! (6 * i + 8)]"
  define r5 where "r5 = r4[6 * i + 10 := r4 ! (6 * i + 4) XOR r4 ! (6 * i + 9)]"
  have e: "expand192 t i rk = r5[6 * i + 11 := r5 ! (6 * i + 5) XOR r5 ! (6 * i + 10)]"
    by (simp add: expand192_def Let_def r1_def r2_def r3_def r4_def r5_def)
  have "known (Suc (6 * i + 6)) ?w r1"
    unfolding r1_def using key_word_rot [of key 6 t i] assms known_nth [OF assms(4)] by (intro known_step) simp_all
  then have "known (Suc (6 * i + 7)) ?w r2"
    unfolding r2_def using run [of 1] assms(3) by (intro known_step) (simp_all add: known_def add.commute)
  then have "known (Suc (6 * i + 8)) ?w r3"
    unfolding r3_def using run [of 2] assms(3) by (intro known_step) (simp_all add: known_def add.commute)
  then have "known (Suc (6 * i + 9)) ?w r4"
    unfolding r4_def using run [of 3] assms(3) by (intro known_step) (simp_all add: known_def add.commute)
  then have "known (Suc (6 * i + 10)) ?w r5"
    unfolding r5_def using run [of 4] assms(3) by (intro known_step) (simp_all add: known_def add.commute)
  then have "known (Suc (6 * i + 11)) ?w (expand192 t i rk)"
    unfolding e using run [of 5] assms(3) by (intro known_step) (simp_all add: known_def add.commute)
  then show ?thesis by (simp add: add.commute)
qed

lemma expand256_known:
  assumes "length key = 32" "tables_ok t" "i < 7" "known (8 * i + 8) (key_word 8 key) rk"
  shows "known (8 * i + 16) (key_word 8 key) (expand256 t i rk)"
proof -
  let ?w = "key_word 8 key"
  have run: "?w (8 * i + 8 + j) = ?w (8 * i + j) XOR ?w (8 * i + 8 + (j - 1))" if "0 < j" "j < 8" "j \<noteq> 4" for j
    using key_word_run [of key 8 j i] assms(1) that by simp
  define r1 where "r1 = rk[8 * i + 8 := rk ! (8 * i) XOR aes_RCON t ! i XOR sub_rotated t (rk ! (8 * i + 7))]"
  define r2 where "r2 = r1[8 * i + 9 := r1 ! (8 * i + 1) XOR r1 ! (8 * i + 8)]"
  define r3 where "r3 = r2[8 * i + 10 := r2 ! (8 * i + 2) XOR r2 ! (8 * i + 9)]"
  define r4 where "r4 = r3[8 * i + 11 := r3 ! (8 * i + 3) XOR r3 ! (8 * i + 10)]"
  define r5 where "r5 = r4[8 * i + 12 := r4 ! (8 * i + 4) XOR sub_straight t (r4 ! (8 * i + 11))]"
  define r6 where "r6 = r5[8 * i + 13 := r5 ! (8 * i + 5) XOR r5 ! (8 * i + 12)]"
  define r7 where "r7 = r6[8 * i + 14 := r6 ! (8 * i + 6) XOR r6 ! (8 * i + 13)]"
  have e: "expand256 t i rk = r7[8 * i + 15 := r7 ! (8 * i + 7) XOR r7 ! (8 * i + 14)]"
    by (simp add: expand256_def Let_def r1_def r2_def r3_def r4_def r5_def r6_def r7_def)
  have "known (Suc (8 * i + 8)) ?w r1"
    unfolding r1_def using key_word_rot [of key 8 t i] assms known_nth [OF assms(4)] by (intro known_step) simp_all
  then have "known (Suc (8 * i + 9)) ?w r2"
    unfolding r2_def using run [of 1] assms(3) by (intro known_step) (simp_all add: known_def add.commute)
  then have "known (Suc (8 * i + 10)) ?w r3"
    unfolding r3_def using run [of 2] assms(3) by (intro known_step) (simp_all add: known_def add.commute)
  then have "known (Suc (8 * i + 11)) ?w r4"
    unfolding r4_def using run [of 3] assms(3) by (intro known_step) (simp_all add: known_def add.commute)
  then have "known (Suc (8 * i + 12)) ?w r5"
    unfolding r5_def using key_word_run4 [OF assms(1,2), of i] assms(3) by (intro known_step) (simp_all add: known_def add.commute)
  then have "known (Suc (8 * i + 13)) ?w r6"
    unfolding r6_def using run [of 5] assms(3) by (intro known_step) (simp_all add: known_def add.commute)
  then have "known (Suc (8 * i + 14)) ?w r7"
    unfolding r7_def using run [of 6] assms(3) by (intro known_step) (simp_all add: known_def add.commute)
  then have "known (Suc (8 * i + 15)) ?w (expand256 t i rk)"
    unfolding e using run [of 7] assms(3) by (intro known_step) (simp_all add: known_def add.commute)
  then show ?thesis by (simp add: add.commute)
qed

lemma expand_loop:
  assumes "\<And>i rk. i < m \<Longrightarrow> known (nk * i + nk) w rk \<Longrightarrow> known (nk * i + 2 * nk) w (step i rk)" "known nk w rk"
  shows "known (nk * m + nk) w (fold step [0..<m] rk)"
proof -
  have "n \<le> m \<Longrightarrow> known (nk * n + nk) w (fold step [0..<n] rk)" for n
  proof (induction n)
    case (Suc n)
    then show ?case using assms(1) [of n "fold step [0..<n] rk"] by (simp add: algebra_simps mult_2_right)
  qed (use assms(2) in simp)
  then show ?thesis by simp
qed

text \<open>The statics are in order: generated by the first key, kept by the others.\<close>

definition statics_ok :: "aes_tables \<Rightarrow> bool" where
  "statics_ok t \<longleftrightarrow> (if aes_init_done t then tables_ok t else arrays_sized t)"

definition garbage_ok :: "u32 list \<times> nat list \<Rightarrow> bool" where
  "garbage_ok g \<longleftrightarrow> length (fst g) = 256 \<and> length (snd g) = 256"

definition key_sized :: "bytes \<Rightarrow> bool" where
  "key_sized key \<longleftrightarrow> length key = 16 \<or> length key = 24 \<or> length key = 32"

lemma setkey_enc_schedule:
  assumes "statics_ok t" "garbage_ok g" "key_sized key" "length (aes_buf ctx) = 68"
  shows "\<exists>ctx1 t1. mbedtls_aes_setkey_enc g key (8 * length key) (ctx, t) = (0, ctx1, t1) \<and>
    aes_nr ctx1 = length key div 4 + 6 \<and> rk_offset ctx1 = 0 \<and> aes_init_done t1 \<and> tables_ok t1 \<and>
    known (4 * (aes_nr ctx1 + 1)) (key_word (length key div 4) key) (aes_buf ctx1)"
proof -
  let ?t1 = "if aes_init_done t then t else (aes_gen_tables g t)\<lparr>aes_init_done := True\<rparr>"
  have ok: "tables_ok ?t1" using assms(1,2) gen_tables_ok [of g t] by (auto simp: statics_ok_def garbage_ok_def tables_ok_def)
  have less: "known m w rk" if "known n w rk" "m \<le> n" for m n w rk using that by (auto simp: known_def)
  consider "length key = 16" | "length key = 24" | "length key = 32" using assms(3) by (auto simp: key_sized_def)
  then show ?thesis
  proof cases
    case 1
    have "known (4 * 10 + 4) (key_word 4 key) (fold (expand128 ?t1) [0..<10] (load_key key 4 (aes_buf ctx)))"
      by (rule expand_loop) (use expand128_known [OF 1 ok] load_key_known [of key 4] 1 assms(4) in simp_all)
    then show ?thesis using 1 ok by (simp add: mbedtls_aes_setkey_enc_def Let_def mbedtls_aes_rk_offset_def)
  next
    case 2
    have "known (6 * 8 + 6) (key_word 6 key) (fold (expand192 ?t1) [0..<8] (load_key key 6 (aes_buf ctx)))"
      by (rule expand_loop) (use expand192_known [OF 2 ok] load_key_known [of key 6] 2 assms(4) in simp_all)
    then show ?thesis using 2 ok less [of 54 _ _ 52] by (simp add: mbedtls_aes_setkey_enc_def Let_def mbedtls_aes_rk_offset_def)
  next
    case 3
    have "known (8 * 7 + 8) (key_word 8 key) (fold (expand256 ?t1) [0..<7] (load_key key 8 (aes_buf ctx)))"
      by (rule expand_loop) (use expand256_known [OF 3 ok] load_key_known [of key 8] 3 assms(4) in simp_all)
    then show ?thesis using 3 ok less [of 64 _ _ 60] by (simp add: mbedtls_aes_setkey_enc_def Let_def mbedtls_aes_rk_offset_def)
  qed
qed

end
