(* ===== verification/Aes_Properties.thy ===== *)
theory Aes_Properties
  imports Aes_Schedule
begin

text \<open>
  The rounds of the code are the rounds of the standard, so a block encrypts to what the standard says
  and decrypts again.
\<close>

section \<open>A state as four words\<close>

definition quad_of :: "bytes \<Rightarrow> quad" where
  "quad_of s = (le4 (s ! 0) (s ! 1) (s ! 2) (s ! 3), le4 (s ! 4) (s ! 5) (s ! 6) (s ! 7),
     le4 (s ! 8) (s ! 9) (s ! 10) (s ! 11), le4 (s ! 12) (s ! 13) (s ! 14) (s ! 15))"

definition key_at :: "u32 list \<Rightarrow> nat \<Rightarrow> bytes \<Rightarrow> bool" where
  "key_at rk k key \<longleftrightarrow> length key = 16 \<and> (rk ! k, rk ! (k + 1), rk ! (k + 2), rk ! (k + 3)) = quad_of key"

lemma store_block_quad: "length s = 16 \<Longrightarrow> store_block (quad_of s) = s"
  by (elim state_cases) (simp add: store_block_def quad_of_def PUT_UINT32_LE_le4)

section \<open>One round\<close>

lemma FT_entries:
  assumes "tables_ok t"
  shows "aes_FT0 t ! unat x = le4 (gf_times 2 (sub_byte x)) (sub_byte x) (sub_byte x) (gf_times 3 (sub_byte x))"
    and "aes_FT1 t ! unat x = le4 (gf_times 3 (sub_byte x)) (gf_times 2 (sub_byte x)) (sub_byte x) (sub_byte x)"
    and "aes_FT2 t ! unat x = le4 (sub_byte x) (gf_times 3 (sub_byte x)) (gf_times 2 (sub_byte x)) (sub_byte x)"
    and "aes_FT3 t ! unat x = le4 (sub_byte x) (sub_byte x) (gf_times 3 (sub_byte x)) (gf_times 2 (sub_byte x))"
  using assms by (simp_all add: tables_ok_def)

lemma RT_entries:
  assumes "tables_ok t"
  shows "aes_RT0 t ! unat x = le4 (gf_times 14 (inv_sub_byte x)) (gf_times 9 (inv_sub_byte x))
        (gf_times 13 (inv_sub_byte x)) (gf_times 11 (inv_sub_byte x))"
    and "aes_RT1 t ! unat x = le4 (gf_times 11 (inv_sub_byte x)) (gf_times 14 (inv_sub_byte x))
        (gf_times 9 (inv_sub_byte x)) (gf_times 13 (inv_sub_byte x))"
    and "aes_RT2 t ! unat x = le4 (gf_times 13 (inv_sub_byte x)) (gf_times 11 (inv_sub_byte x))
        (gf_times 14 (inv_sub_byte x)) (gf_times 9 (inv_sub_byte x))"
    and "aes_RT3 t ! unat x = le4 (gf_times 9 (inv_sub_byte x)) (gf_times 13 (inv_sub_byte x))
        (gf_times 11 (inv_sub_byte x)) (gf_times 14 (inv_sub_byte x))"
  using assms by (simp_all add: tables_ok_def)

lemma mix_columns_bytes:
  "mix_columns [a0, a1, a2, a3, b0, b1, b2, b3, c0, c1, c2, c3, d0, d1, d2, d3] =
    matrix_column [2, 3, 1, 1] [a0, a1, a2, a3] @ matrix_column [2, 3, 1, 1] [b0, b1, b2, b3] @
    matrix_column [2, 3, 1, 1] [c0, c1, c2, c3] @ matrix_column [2, 3, 1, 1] [d0, d1, d2, d3]"
  by (simp add: mix_columns_def below_4 column_bytes)

lemma inv_mix_columns_bytes:
  "inv_mix_columns [a0, a1, a2, a3, b0, b1, b2, b3, c0, c1, c2, c3, d0, d1, d2, d3] =
    matrix_column [14, 11, 13, 9] [a0, a1, a2, a3] @ matrix_column [14, 11, 13, 9] [b0, b1, b2, b3] @
    matrix_column [14, 11, 13, 9] [c0, c1, c2, c3] @ matrix_column [14, 11, 13, 9] [d0, d1, d2, d3]"
  by (simp add: inv_mix_columns_def below_4 column_bytes)

lemma shift_rows_bytes:
  "shift_rows [a0, a1, a2, a3, b0, b1, b2, b3, c0, c1, c2, c3, d0, d1, d2, d3] =
    [a0, b1, c2, d3, b0, c1, d2, a3, c0, d1, a2, b3, d0, a1, b2, c3]"
  by (simp add: shift_rows_def upt_16)

lemma inv_shift_rows_bytes:
  "inv_shift_rows [a0, a1, a2, a3, b0, b1, b2, b3, c0, c1, c2, c3, d0, d1, d2, d3] =
    [a0, d1, c2, b3, b0, a1, d2, c3, c0, b1, a2, d3, d0, c1, b2, a3]"
  by (simp add: inv_shift_rows_def upt_16)

lemma key_at_words:
  "key_at rk k [a0, a1, a2, a3, b0, b1, b2, b3, c0, c1, c2, c3, d0, d1, d2, d3] \<longleftrightarrow>
    rk ! k = le4 a0 a1 a2 a3 \<and> rk ! Suc k = le4 b0 b1 b2 b3 \<and> rk ! (k + 2) = le4 c0 c1 c2 c3 \<and> rk ! (k + 3) = le4 d0 d1 d2 d3"
  by (simp add: key_at_def quad_of_def)

lemma load_block_quad:
  assumes "length s = 16" "key_at rk k key"
  shows "load_block rk k s = quad_of (xor_bytes s key)"
proof -
  have "length key = 16" using assms(2) by (simp add: key_at_def)
  with assms show ?thesis
    by (elim state_cases) (simp add: key_at_words load_block_def quad_of_def GET_UINT32_LE_le4 le4_xor xor_bytes_def)
qed

lemma FROUND_quad:
  assumes "tables_ok t" "length s = 16" "key_at rk k key"
  shows "AES_FROUND t rk k (quad_of s) = quad_of (xor_bytes (mix_columns (shift_rows (map sub_byte s))) key)"
proof -
  have "length key = 16" using assms(3) by (simp add: key_at_def)
  with assms(2,3) show ?thesis
    by (elim state_cases)
      (simp add: key_at_words AES_FROUND_def Let_def quad_of_def FT_entries [OF assms(1)] le4_xor shift_rows_bytes
        mix_columns_bytes mix_column_bytes xor_bytes_def ac_simps)
qed

lemma last_fround_quad:
  assumes "tables_ok t" "length s = 16" "key_at rk k key"
  shows "last_fround t rk k (quad_of s) = quad_of (xor_bytes (shift_rows (map sub_byte s)) key)"
proof -
  have x: "r XOR ucast a XOR push_bit 8 (ucast b) XOR push_bit 16 (ucast c) XOR push_bit 24 (ucast d) = r XOR le4 a b c d"
    for r :: u32 and a b c d :: u8 by (simp add: xor_bytes_le4 [symmetric] xor.assoc)
  have "length key = 16" using assms(3) by (simp add: key_at_def)
  with assms(2,3) show ?thesis
    by (elim state_cases)
      (simp add: key_at_words last_fround_def last_column_def Let_def quad_of_def FSb_entry [OF assms(1)] x le4_xor
        shift_rows_bytes xor_bytes_def xor.commute)
qed

lemma RROUND_quad:
  assumes "tables_ok t" "length s = 16" "key_at rk k key"
  shows "AES_RROUND t rk k (quad_of s) = quad_of (xor_bytes (inv_mix_columns (map inv_sub_byte (inv_shift_rows s))) key)"
proof -
  have "length key = 16" using assms(3) by (simp add: key_at_def)
  with assms(2,3) show ?thesis
    by (elim state_cases)
      (simp add: key_at_words AES_RROUND_def Let_def quad_of_def RT_entries [OF assms(1)] le4_xor inv_shift_rows_bytes
        inv_mix_columns_bytes inv_mix_column_bytes xor_bytes_def ac_simps)
qed

lemma last_rround_quad:
  assumes "tables_ok t" "length s = 16" "key_at rk k key"
  shows "last_rround t rk k (quad_of s) = quad_of (xor_bytes (map inv_sub_byte (inv_shift_rows s)) key)"
proof -
  have x: "r XOR ucast a XOR push_bit 8 (ucast b) XOR push_bit 16 (ucast c) XOR push_bit 24 (ucast d) = r XOR le4 a b c d"
    for r :: u32 and a b c d :: u8 by (simp add: xor_bytes_le4 [symmetric] xor.assoc)
  have "length key = 16" using assms(3) by (simp add: key_at_def)
  with assms(2,3) show ?thesis
    by (elim state_cases)
      (simp add: key_at_words last_rround_def last_column_def Let_def quad_of_def RSb_entry [OF assms(1)] x le4_xor
        inv_shift_rows_bytes xor_bytes_def xor.commute)
qed

section \<open>All rounds\<close>

lemma round_pairs_fold:
  assumes "\<And>r s. length s = 16 \<Longrightarrow> r < m \<Longrightarrow> rnd (4 * r) (quad_of s) = quad_of (f r s) \<and> length (f r s) = 16"
  shows "length s = 16 \<Longrightarrow> r + 2 * n \<le> m \<Longrightarrow>
    round_pairs rnd n (4 * r) (quad_of s) = (4 * (r + 2 * n), quad_of (fold f [r..<r + 2 * n] s)) \<and>
    length (fold f [r..<r + 2 * n] s) = 16"
proof (induction n arbitrary: r s)
  case (Suc n)
  have 1: "rnd (4 * r) (quad_of s) = quad_of (f r s)" "length (f r s) = 16"
    using assms [of s r] Suc.prems by simp_all
  have 2: "rnd (4 * Suc r) (quad_of (f r s)) = quad_of (f (Suc r) (f r s))" "length (f (Suc r) (f r s)) = 16"
    using assms [OF 1(2), of "Suc r"] Suc.prems by simp_all
  have "[r..<r + 2 * Suc n] = r # Suc r # [Suc (Suc r)..<Suc (Suc r) + 2 * n]" by (simp add: upt_conv_Cons)
  with Suc.IH [OF 2(2), of "Suc (Suc r)"] Suc.prems 1 2 show ?case by (simp add: Let_def algebra_simps)
qed simp

text \<open>
  The two directions at once: rounds that compute \<open>f\<close> and a last round that computes \<open>g\<close>, for an even
  number of rounds.
\<close>

lemma block_rounds:
  assumes "even n" "2 \<le> n" "length s = 16" "key_at rk 0 k0"
    and "\<And>r s. length s = 16 \<Longrightarrow> 0 < r \<Longrightarrow> r < n \<Longrightarrow> rnd (4 * r) (quad_of s) = quad_of (f r s) \<and> length (f r s) = 16"
    and "\<And>s. length s = 16 \<Longrightarrow> final (4 * n) (quad_of s) = quad_of (g s) \<and> length (g s) = 16"
  shows "(let (k, x) = round_pairs rnd (n div 2 - 1) 4 (load_block rk 0 s) in store_block (final (k + 4) (rnd k x))) =
    g (fold f [1..<n] (xor_bytes s k0))"
proof -
  define m where "m = n div 2 - 1"
  have n: "n = Suc (1 + 2 * m)" using assms(1,2) by (auto simp: m_def elim: evenE)
  have k: "length (xor_bytes s k0) = 16" using assms(3,4) by (simp add: key_at_def)
  let ?f = "\<lambda>r. if r = 0 then (\<lambda>s. s) else f r" and ?rnd = "\<lambda>k. if k = 0 then (\<lambda>x. x) else rnd k"
  have "round_pairs ?rnd m (4 * 1) (quad_of (xor_bytes s k0)) =
      (4 * (1 + 2 * m), quad_of (fold ?f [1..<1 + 2 * m] (xor_bytes s k0))) \<and> length (fold ?f [1..<1 + 2 * m] (xor_bytes s k0)) = 16"
    by (rule round_pairs_fold [of n]) (use assms(5) k n in auto)
  moreover have "fold ?f rs z = fold f rs z" if "0 \<notin> set rs" for rs z using that by (induction rs arbitrary: z) auto
  moreover have "0 < k \<Longrightarrow> round_pairs ?rnd j k x = round_pairs rnd j k x" for j k x
    by (induction j arbitrary: k x) (simp_all add: Let_def)
  ultimately have p: "round_pairs rnd m 4 (quad_of (xor_bytes s k0)) =
      (4 * (1 + 2 * m), quad_of (fold f [1..<1 + 2 * m] (xor_bytes s k0)))" "length (fold f [1..<1 + 2 * m] (xor_bytes s k0)) = 16"
    by simp_all
  have step: "rnd (4 * (1 + 2 * m)) (quad_of (fold f [1..<1 + 2 * m] (xor_bytes s k0))) = quad_of (fold f [1..<n] (xor_bytes s k0))"
    "length (fold f [1..<n] (xor_bytes s k0)) = 16"
    using assms(5) [OF p(2), of "1 + 2 * m"] by (simp_all add: n)
  have "4 * (1 + 2 * m) + 4 = 4 * n" by (simp add: n)
  with assms(6) [OF step(2)] show ?thesis
    unfolding m_def [symmetric] load_block_quad [OF assms(3,4)] p(1) prod.case Let_def step(1)
    by (simp only: store_block_quad)
qed

text \<open>The round keys in the buffer of an encryption key and of a decryption key.\<close>

lemma length_round_key: "length key = 4 * nk \<Longrightarrow> 0 < nk \<Longrightarrow> length (round_key nk key r) = 16"
  by (simp add: round_key_def length_expanded upt_conv_Cons)

lemma round_key_at:
  assumes "length key = 4 * nk" "0 < nk" "known (4 * (n + 1)) (key_word nk key) rk" "r \<le> n"
  shows "key_at rk (4 * r) (round_key nk key r)"
proof -
  obtain w0 w1 w2 w3 where w: "expanded nk key (4 * r) = w0" "expanded nk key (4 * r + 1) = w1"
    "expanded nk key (4 * r + 2) = w2" "expanded nk key (4 * r + 3) = w3" by simp
  then have "length w0 = 4" "length w1 = 4" "length w2 = 4" "length w3 = 4" using length_expanded [OF assms(1,2)] by auto
  moreover have "round_key nk key r = w0 @ w1 @ w2 @ w3"
    using w by (simp add: round_key_def upt_conv_Cons numeral_3_eq_3 numeral_2_eq_2)
  moreover have "rk ! (4 * r + j) = le_word (expanded nk key (4 * r + j))" if "j < 4" for j
    using assms(3,4) that by (simp add: known_def key_word_def)
  from this [of 0] this [of 1] this [of 2] this [of 3]
  have "rk ! (4 * r) = le_word w0" "rk ! Suc (4 * r) = le_word w1" "rk ! (4 * r + 2) = le_word w2" "rk ! (4 * r + 3) = le_word w3"
    using w by simp_all
  ultimately show ?thesis by (elim word_cases) (simp add: key_at_words le_word_def)
qed

section \<open>Encryption\<close>

definition words_of :: "bytes \<Rightarrow> nat" where
  "words_of key = length key div 4"

lemma key_sized_words: "key_sized key \<Longrightarrow> length key = 4 * words_of key \<and> 0 < words_of key \<and> even (words_of key + 6)"
  by (auto simp: key_sized_def words_of_def)

lemma encrypt_rounds:
  assumes "tables_ok t" "length key = 4 * nk" "0 < nk" "even (nk + 6)" "aes_nr ctx = nk + 6" "rk_offset ctx = 0"
    and "known (4 * (aes_nr ctx + 1)) (key_word nk key) (aes_buf ctx)" "length block = 16"
  shows "mbedtls_internal_aes_encrypt t ctx block = (0, cipher (nk + 6) (round_key nk key) block)"
proof -
  let ?n = "nk + 6" and ?rk = "aes_buf ctx"
  have at: "key_at ?rk (4 * r) (round_key nk key r)" if "r \<le> ?n" for r
    using round_key_at [OF assms(2,3), of ?n ?rk r] assms(5,7) that by simp
  have len: "length (round_key nk key r) = 16" for r by (rule length_round_key [OF assms(2,3)])
  have "(let (k, x) = round_pairs (AES_FROUND t ?rk) (?n div 2 - 1) 4 (load_block ?rk 0 block)
      in store_block (last_fround t ?rk (k + 4) (AES_FROUND t ?rk k x))) =
    xor_bytes (shift_rows (map sub_byte (fold (cipher_round (round_key nk key)) [1..<?n] (xor_bytes block (round_key nk key 0)))))
      (round_key nk key ?n)"
    by (rule block_rounds)
      (use assms(4,8) at [of 0] at [of ?n] at FROUND_quad [OF assms(1)] last_fround_quad [OF assms(1)] len in
        \<open>simp_all add: cipher_round_def\<close>)
  moreover obtain k x where "round_pairs (AES_FROUND t ?rk) (?n div 2 - 1) 4 (load_block ?rk 0 block) = (k, x)" by (meson surj_pair)
  ultimately show ?thesis
    unfolding mbedtls_internal_aes_encrypt_def cipher_def Let_def assms(5,6) by simp
qed

lemma aes_block_encrypted:
  assumes "statics_ok t" "garbage_ok g" "key_sized key" "length (aes_buf ctx) = 68" "length block = 16"
  shows "\<exists>ctx1 t1. mbedtls_aes_setkey_enc g key (8 * length key) (ctx, t) = (0, ctx1, t1) \<and> statics_ok t1 \<and>
    mbedtls_aes_crypt_ecb t1 ctx1 AES_ENCRYPT block = (0, aes_standard key block)"
proof -
  let ?nk = "words_of key"
  have w: "length key = 4 * ?nk" "0 < ?nk" "even (?nk + 6)" using key_sized_words [OF assms(3)] by simp_all
  obtain ctx1 t1 where set: "mbedtls_aes_setkey_enc g key (8 * length key) (ctx, t) = (0, ctx1, t1)"
    and c: "aes_nr ctx1 = ?nk + 6" "rk_offset ctx1 = 0" "aes_init_done t1" "tables_ok t1"
    and k: "known (4 * (aes_nr ctx1 + 1)) (key_word ?nk key) (aes_buf ctx1)"
    using setkey_enc_schedule [OF assms(1-4)] unfolding words_of_def by blast
  have "mbedtls_internal_aes_encrypt t1 ctx1 block = (0, aes_standard key block)"
    using encrypt_rounds [OF c(4) w c(1,2) k assms(5)] unfolding aes_standard_def Let_def words_of_def [symmetric] .
  then have "mbedtls_aes_crypt_ecb t1 ctx1 AES_ENCRYPT block = (0, aes_standard key block)"
    by (simp add: mbedtls_aes_crypt_ecb_def)
  with set c(3,4) show ?thesis by (simp add: statics_ok_def)
qed

text \<open>
  C34. The block cipher is the one of the standard: whatever the tables' memory held before and
  whichever keys were set before, a key of 16, 24 or 32 bytes is accepted, the generated tables are kept
  in order for the next key, and a block encrypts to the cipher of FIPS 197 under the expanded key.
\<close>

theorem aes_encrypts_by_the_standard:
  assumes "statics_ok t" "garbage_ok g" "key_sized key" "length (aes_buf ctx) = 68" "length block = 16"
  shows "\<exists>ctx1 t1. mbedtls_aes_setkey_enc g key (8 * length key) (ctx, t) = (0, ctx1, t1) \<and> statics_ok t1 \<and>
    mbedtls_aes_crypt_ecb t1 ctx1 AES_ENCRYPT block = (0, aes_standard key block)"
  by (rule aes_block_encrypted [OF assms])

text \<open>The first key of the program, of sixteen bytes: the vector of the standard's appendix C.1.\<close>

definition example_garbage :: "u32 list \<times> nat list" where
  "example_garbage = (replicate 256 0xdead, replicate 256 7)"

lemma example_statics: "statics_ok aes_static" "garbage_ok example_garbage"
  by (simp_all add: statics_ok_def static_sized garbage_ok_def example_garbage_def) (simp add: aes_static_def)

theorem aes_encrypts_by_the_standard_witness:
  "\<exists>ctx1 t1. mbedtls_aes_setkey_enc example_garbage (map of_nat [0..<16]) 128 (mbedtls_aes_init, aes_static) = (0, ctx1, t1) \<and>
     mbedtls_aes_crypt_ecb t1 ctx1 AES_ENCRYPT (map (\<lambda>i. of_nat (17 * i)) [0..<16]) =
       (0, aes_standard (map of_nat [0..<16]) (map (\<lambda>i. of_nat (17 * i)) [0..<16]))"
  using aes_encrypts_by_the_standard [OF example_statics, of "map of_nat [0..<16]" mbedtls_aes_init "map (\<lambda>i. of_nat (17 * i)) [0..<16]"]
  by (auto simp: key_sized_def mbedtls_aes_init_def)

section \<open>Decryption\<close>

lemma inverse_mixed_bytes:
  "tables_ok t \<Longrightarrow> inverse_mixed t (le4 a b c d) =
    le_word (matrix_column [14, 11, 13, 9] [a, b, c, d])"
  by (simp add: inverse_mixed_def FSb_entry RT_entries le4_xor inv_mix_column_bytes le_word_def)

lemma inverse_mixed_key:
  assumes "tables_ok t" "key_at rk k key"
  shows "map (inverse_mixed t) (four_words rk k) = (case quad_of (inv_mix_columns key) of (a, b, c, d) \<Rightarrow> [a, b, c, d])"
proof -
  have "length key = 16" using assms(2) by (simp add: key_at_def)
  with assms(2) show ?thesis
    by (elim state_cases)
      (simp add: four_words_def key_at_words quad_of_def inverse_mixed_bytes [OF assms(1)] inv_mix_columns_bytes le_word_def
        inv_mix_column_bytes)
qed

lemma four_words_key: "key_at rk k key \<Longrightarrow> four_words rk k = (case quad_of key of (a, b, c, d) \<Rightarrow> [a, b, c, d])"
  by (auto simp: four_words_def key_at_def split: prod.splits)

definition dec_key :: "nat \<Rightarrow> (nat \<Rightarrow> bytes) \<Rightarrow> nat \<Rightarrow> bytes" where
  "dec_key n rk r = (if r = 0 \<or> r = n then rk (n - r) else inv_mix_columns (rk (n - r)))"

definition quad_list :: "quad \<Rightarrow> u32 list" where
  "quad_list = (\<lambda>(a, b, c, d). [a, b, c, d])"

lemma length_quad_list [simp]: "length (quad_list q) = 4"
  by (simp add: quad_list_def split: prod.split)

lemma nth_concat_fours:
  assumes "i < length qs" "j < 4"
  shows "concat (map quad_list qs) ! (4 * i + j) = quad_list (qs ! i) ! j"
  using assms
proof (induction qs arbitrary: i)
  case (Cons q qs)
  then show ?case by (cases i) (simp_all add: nth_append)
qed simp

lemma dec_keys_at:
  assumes "tables_ok t" "0 < n" "\<And>r. r \<le> n \<Longrightarrow> key_at sk (4 * r) (rk r)" "r \<le> n"
  shows "key_at (inverse_words t n sk @ rest) (4 * r) (dec_key n rk r)"
proof -
  have len: "length (rk r) = 16" if "r \<le> n" for r using assms(3) [OF that] by (simp add: key_at_def)
  have four: "four_words sk (k * 4) = quad_list (quad_of (rk k))" if "k \<le> n" for k
    using four_words_key [OF assms(3) [OF that]] by (simp add: quad_list_def mult.commute)
  have mixed: "map (inverse_mixed t) (four_words sk (k * 4)) = quad_list (quad_of (inv_mix_columns (rk k)))" if "k \<le> n" for k
    using inverse_mixed_key [OF assms(1) assms(3) [OF that]] by (simp add: quad_list_def mult.commute)
  let ?qs = "map (\<lambda>r. quad_of (dec_key n rk r)) [0..<Suc n]"
  have "rev [1..<n] = map (\<lambda>r. n - r) [1..<n]"
    by (rule nth_equalityI) (simp_all add: rev_nth)
  then have "concat (map (\<lambda>i. map (inverse_mixed t) (four_words sk (i * 4))) (rev [1..<n])) =
      concat (map (\<lambda>r. quad_list (quad_of (dec_key n rk r))) [1..<n])"
    by (auto simp: mixed dec_key_def intro!: arg_cong [where f = concat])
  moreover have "[0..<Suc n] = 0 # [1..<n] @ [n]" using assms(2) by (simp add: upt_conv_Cons)
  ultimately have "inverse_words t n sk = concat (map quad_list ?qs)"
    using four [of 0] four [of n] by (simp add: inverse_words_def dec_key_def comp_def)
  then have "(inverse_words t n sk @ rest) ! (4 * r + j) = quad_list (quad_of (dec_key n rk r)) ! j" if "j < 4" for j
  proof -
    have "length (concat (map quad_list ?qs)) = 4 * Suc n" by (simp add: length_concat comp_def sum_list_triv)
    moreover have "4 * r + j < 4 * Suc n" using assms(4) that by simp
    ultimately have "4 * r + j < length (concat (map quad_list ?qs))" by (simp only:)
    then have "(concat (map quad_list ?qs) @ rest) ! (4 * r + j) = concat (map quad_list ?qs) ! (4 * r + j)"
      by (simp only: nth_append if_True)
    moreover have "?qs ! r = quad_of (dec_key n rk r)" using assms(4) by (simp add: nth_append)
    ultimately show ?thesis
      using nth_concat_fours [of r ?qs j] assms(4) that \<open>inverse_words t n sk = concat (map quad_list ?qs)\<close> by simp
  qed
  from this [of 0] this [of 1] this [of 2] this [of 3] show ?thesis
    using len [of "n - r"] by (auto simp: key_at_def dec_key_def quad_list_def split: prod.splits)
qed

lemma inv_mix_columns_xor:
  "length a = 16 \<Longrightarrow> length b = 16 \<Longrightarrow> inv_mix_columns (xor_bytes a b) = xor_bytes (inv_mix_columns a) (inv_mix_columns b)"
  by (elim state_cases) (simp add: xor_bytes_def inv_mix_columns_bytes inv_mix_column_bytes gf_times_xor_right ac_simps)

lemma decrypt_rounds:
  assumes "tables_ok t" "even n" "2 \<le> n" "aes_nr ctx = n" "rk_offset ctx = 0" "\<And>r. length (rk r) = 16"
    and at: "\<And>r. r \<le> n \<Longrightarrow> key_at (aes_buf ctx) (4 * r) (dec_key n rk r)" and "length block = 16"
  shows "mbedtls_internal_aes_decrypt t ctx block = (0, inv_cipher n rk block)"
proof -
  let ?b = "aes_buf ctx" and ?f = "\<lambda>r. inv_cipher_round rk (n - r)"
  have k0: "dec_key n rk 0 = rk n" and kn: "dec_key n rk n = rk 0" using assms(3) by (simp_all add: dec_key_def)
  have "AES_RROUND t ?b (4 * r) (quad_of s) = quad_of (?f r s) \<and> length (?f r s) = 16"
    if "length s = 16" "0 < r" "r < n" for r s
    using RROUND_quad [OF assms(1) that(1) at [of r]] that assms(6)
    by (simp add: inv_cipher_round_def inv_mix_columns_xor dec_key_def)
  moreover have "last_rround t ?b (4 * n) (quad_of s) = quad_of (xor_bytes (map inv_sub_byte (inv_shift_rows s)) (rk 0)) \<and>
      length (xor_bytes (map inv_sub_byte (inv_shift_rows s)) (rk 0)) = 16" if "length s = 16" for s
    using last_rround_quad [OF assms(1) that at [of n]] kn assms(6) by simp
  moreover have "key_at ?b 0 (rk n)" using at [of 0] k0 by simp
  ultimately have "(let (k, x) = round_pairs (AES_RROUND t ?b) (n div 2 - 1) 4 (load_block ?b 0 block)
      in store_block (last_rround t ?b (k + 4) (AES_RROUND t ?b k x))) =
    xor_bytes (map inv_sub_byte (inv_shift_rows (fold ?f [1..<n] (xor_bytes block (rk n))))) (rk 0)"
    using assms(2,3,8) by (intro block_rounds) simp_all
  moreover have "fold ?f [1..<n] z = fold (inv_cipher_round rk) (rev [1..<n]) z" for z
  proof -
    have "rev [1..<n] = map (\<lambda>r. n - r) [1..<n]" by (rule nth_equalityI) (simp_all add: rev_nth)
    then show ?thesis by (simp add: fold_map comp_def)
  qed
  moreover obtain k x where "round_pairs (AES_RROUND t ?b) (n div 2 - 1) 4 (load_block ?b 0 block) = (k, x)" by (meson surj_pair)
  ultimately show ?thesis
    unfolding mbedtls_internal_aes_decrypt_def inv_cipher_def Let_def assms(4,5) by simp
qed

text \<open>
  C35. What the cipher encrypts it decrypts: with one context set for encryption and another set for
  decryption under the same key, the second gives back every block of the first; and it decrypts any
  other block by the inverse cipher of the standard.
\<close>

theorem aes_decrypts_what_it_encrypts:
  assumes "statics_ok t" "garbage_ok g" "key_sized key" "length (aes_buf ectx) = 68" "length (aes_buf dctx) = 68" "length block = 16"
  shows "\<exists>e t1 d t2. mbedtls_aes_setkey_enc g key (8 * length key) (ectx, t) = (0, e, t1) \<and>
    mbedtls_aes_setkey_dec g key (8 * length key) (dctx, t1) = (0, d, t2) \<and>
    mbedtls_aes_crypt_ecb t2 d AES_DECRYPT (snd (mbedtls_aes_crypt_ecb t2 e AES_ENCRYPT block)) = (0, block) \<and>
    mbedtls_aes_crypt_ecb t2 d AES_DECRYPT block = (0, inv_aes_standard key block)"
proof -
  let ?nk = "words_of key"
  have w: "length key = 4 * ?nk" "0 < ?nk" "even (?nk + 6)" using key_sized_words [OF assms(3)] by simp_all
  have lrk: "length (round_key ?nk key r) = 16" for r by (rule length_round_key [OF w(1,2)])
  obtain e t1 where e: "mbedtls_aes_setkey_enc g key (8 * length key) (ectx, t) = (0, e, t1)"
    "aes_nr e = ?nk + 6" "rk_offset e = 0" "aes_init_done t1" "tables_ok t1" "known (4 * (aes_nr e + 1)) (key_word ?nk key) (aes_buf e)"
    using setkey_enc_schedule [OF assms(1-4)] unfolding words_of_def by blast
  have st: "statics_ok t1" using e(4,5) by (simp add: statics_ok_def)
  obtain c t2 where c: "mbedtls_aes_setkey_enc g key (8 * length key) (mbedtls_aes_init, t1) = (0, c, t2)"
    "aes_nr c = ?nk + 6" "tables_ok t2" "known (4 * (aes_nr c + 1)) (key_word ?nk key) (aes_buf c)"
    using setkey_enc_schedule [OF st assms(2,3), of mbedtls_aes_init] unfolding words_of_def by (auto simp: mbedtls_aes_init_def)
  let ?ws = "inverse_words t2 (aes_nr c) (aes_buf c)"
  let ?d = "dctx\<lparr>rk_offset := 0, aes_nr := aes_nr c, aes_buf := ?ws @ drop (length ?ws) (aes_buf dctx)\<rparr>"
  have d: "mbedtls_aes_setkey_dec g key (8 * length key) (dctx, t1) = (0, ?d, t2)"
    using c(1) by (simp add: mbedtls_aes_setkey_dec_def Let_def mbedtls_aes_rk_offset_def)
  have "key_at (aes_buf c) (4 * r) (round_key ?nk key r)" if "r \<le> ?nk + 6" for r
    using round_key_at [OF w(1,2) c(4)] that c(2) by simp
  then have at: "key_at (aes_buf ?d) (4 * r) (dec_key (?nk + 6) (round_key ?nk key) r)" if "r \<le> ?nk + 6" for r
    using dec_keys_at [OF c(3), of "?nk + 6" "aes_buf c" "round_key ?nk key" r] that c(2) by simp
  have dec: "mbedtls_aes_crypt_ecb t2 ?d AES_DECRYPT b = (0, inv_aes_standard key b)" if "length b = 16" for b
    using decrypt_rounds [OF c(3) w(3) _ _ _ lrk at that] c(2)
    by (simp add: mbedtls_aes_crypt_ecb_def AES_DECRYPT_def AES_ENCRYPT_def inv_aes_standard_def words_of_def Let_def)
  have "mbedtls_aes_crypt_ecb t2 e AES_ENCRYPT block = (0, aes_standard key block)"
    using encrypt_rounds [OF c(3) w e(2,3,6) assms(6)]
    by (simp add: mbedtls_aes_crypt_ecb_def aes_standard_def words_of_def Let_def)
  moreover have "inv_aes_standard key (aes_standard key block) = block" "length (aes_standard key block) = 16"
    using inv_cipher_cipher [of "round_key ?nk key", OF lrk assms(6)] lrk
    by (simp_all add: inv_aes_standard_def aes_standard_def words_of_def [symmetric] Let_def cipher_def)
  ultimately have "mbedtls_aes_crypt_ecb t2 ?d AES_DECRYPT (snd (mbedtls_aes_crypt_ecb t2 e AES_ENCRYPT block)) = (0, block)"
    using dec by simp
  with e(1) d dec [OF assms(6)] show ?thesis by blast
qed

theorem aes_decrypts_what_it_encrypts_witness:
  "\<exists>e t1 d t2. mbedtls_aes_setkey_enc example_garbage (replicate 32 7) 256 (mbedtls_aes_init, aes_static) = (0, e, t1) \<and>
    mbedtls_aes_setkey_dec example_garbage (replicate 32 7) 256 (mbedtls_aes_init, t1) = (0, d, t2) \<and>
    mbedtls_aes_crypt_ecb t2 d AES_DECRYPT (snd (mbedtls_aes_crypt_ecb t2 e AES_ENCRYPT (replicate 16 9))) = (0, replicate 16 9)"
  using aes_decrypts_what_it_encrypts [OF example_statics, of "replicate 32 7" mbedtls_aes_init mbedtls_aes_init "replicate 16 9"]
  by (auto simp: key_sized_def mbedtls_aes_init_def)

end
