(* ===== verification/Gcm_Properties.thy ===== *)
theory Gcm_Properties
  imports Gcm_Facts Aes_Properties
begin

text \<open>
  The authenticated encryption against the standard: the code computes the mode's key stream and tag,
  and what was sealed opens with its tag only.
\<close>

section \<open>The mode\<close>

text \<open>
  After a key was set, \<open>mbedtls_gcm_crypt_and_tag\<close> computes the mode of the standard: the key
  stream of the incremented counters added to the input, and the tag over the padded additional data,
  the padded ciphertext and their lengths, in both directions.
\<close>

theorem encryption_is_the_standard:
  assumes "mbedtls_gcm_setkey aes key keybits mbedtls_gcm_init = (0, ctx)"
    and "block_cipher (aes (take (keybits div 8) key))"
    and "0 < length iv" "length iv < 2 ^ 61" "length add < 2 ^ 61" "length input \<le> 0xFFFFFFFE0" "4 \<le> t" "t \<le> 16"
  defines "e \<equiv> aes (take (keybits div 8) key)"
  defines "out \<equiv> gcm_stream e (hash_key_of e) iv input"
  shows "\<exists>ctx'. mbedtls_gcm_crypt_and_tag mode iv add input t ctx =
    (0, Some out, gcm_tag e (hash_key_of e) iv add (if mode = MBEDTLS_GCM_ENCRYPT then out else input) t, ctx')"
proof -
  have "keybits \<in> {128, 192, 256}" using assms(1) by (auto simp: mbedtls_gcm_setkey_def BAD_INPUT_def split: if_splits)
  note k = setkey_spec [OF length_init this assms(1)]
  have c: "cipher_ctx ctx = e" using k by (simp add: e_def)
  have "block_cipher (cipher_ctx ctx)" using assms(2) by (simp add: c e_def)
  from crypt_spec [OF k(3) this assms(3-8), of mode] show ?thesis
    by (cases "mode = MBEDTLS_GCM_ENCRYPT") (simp_all add: c hash_key_of_ctx out_def hashed_def)
qed

text \<open>
  C37. What was sealed opens: with the same additional data and the tag, \<open>mbedtls_gcm_auth_decrypt\<close> returns
  the input, and with any other tag it fails and clears the output.
\<close>

theorem sealed_data_opens_with_its_tag:
  assumes "mbedtls_gcm_setkey aes key keybits mbedtls_gcm_init = (0, ctx)"
    and "block_cipher (aes (take (keybits div 8) key))"
    and size: "0 < length iv" "length iv < 2 ^ 61" "length add < 2 ^ 61" "length input \<le> 0xFFFFFFFE0" "4 \<le> t" "t \<le> 16"
    and seal: "mbedtls_gcm_crypt_and_tag MBEDTLS_GCM_ENCRYPT iv add input t ctx = (ret, Some sealed, tag, ctx1)"
    and tag': "length tag' = t"
  shows "\<exists>ctx2. mbedtls_gcm_auth_decrypt iv add tag' sealed ctx =
    (if tag' = tag then (0, Some input, ctx2) else (AUTH_FAILED, Some (zeros (length input)), ctx2))"
proof -
  have "keybits \<in> {128, 192, 256}" using assms(1) by (auto simp: mbedtls_gcm_setkey_def BAD_INPUT_def split: if_splits)
  note k = setkey_spec [OF length_init this assms(1)]
  have e: "block_cipher (cipher_ctx ctx)" using assms(2) k by simp
  from encrypt_spec [OF k(3) e size] seal
  have s: "sealed = gcm_stream (cipher_ctx ctx) (hash_key ctx) iv input" "length sealed = length input"
    "tag = gcm_tag (cipher_ctx ctx) (hash_key ctx) iv add sealed t" by auto
  from auth_decrypt_spec [OF k(3) e size(1-3), of sealed tag'] size s(2) tag' obtain ctx2 where
    "mbedtls_gcm_auth_decrypt iv add tag' sealed ctx =
      (if tag' = gcm_tag (cipher_ctx ctx) (hash_key ctx) iv add sealed t
       then (0, Some (gcm_stream (cipher_ctx ctx) (hash_key ctx) iv sealed), ctx2)
       else (AUTH_FAILED, Some (zeros (length sealed)), ctx2))" by auto
  moreover have "gcm_stream (cipher_ctx ctx) (hash_key ctx) iv sealed = input"
    using e by (simp add: s(1) gcm_stream_involution)
  ultimately show ?thesis using s(2,3) by auto
qed

section \<open>Instances\<close>

text \<open>The block cipher of the library, from the first key of the program on.\<close>

lemma aes_cipher_standard:
  assumes "statics_ok t" "garbage_ok g" "key_sized key" "length block = 16"
  shows "aes_cipher g t key block = aes_standard key block"
proof -
  have "length (aes_buf mbedtls_aes_init) = 68" by (simp add: mbedtls_aes_init_def)
  from aes_block_encrypted [OF assms(1-3) this assms(4)] show ?thesis by (auto simp: aes_cipher_def)
qed

lemma length_aes_standard: "key_sized key \<Longrightarrow> length block = 16 \<Longrightarrow> length (aes_standard key block) = 16"
  using key_sized_words [of key] length_round_key [of key "words_of key"]
  by (simp add: aes_standard_def cipher_def Let_def words_of_def [symmetric])

lemma aes_cipher_ok: "statics_ok t \<Longrightarrow> garbage_ok g \<Longrightarrow> key_sized key \<Longrightarrow> block_cipher (aes_cipher g t key)"
  by (simp add: block_cipher_def aes_cipher_standard length_aes_standard)

definition example_aes :: "bytes \<Rightarrow> bytes \<Rightarrow> bytes" where
  "example_aes = aes_cipher example_garbage aes_static"

lemma example_aes_ok: "length key = 16 \<Longrightarrow> block_cipher (example_aes key)"
  unfolding example_aes_def by (rule aes_cipher_ok) (simp_all add: example_statics key_sized_def)

definition example_gcm :: gcm_context where
  "example_gcm = snd (mbedtls_gcm_setkey example_aes (replicate 16 7) 128 mbedtls_gcm_init)"

lemma example_setkey: "mbedtls_gcm_setkey example_aes (replicate 16 7) 128 mbedtls_gcm_init = (0, example_gcm)"
  by (simp add: example_gcm_def mbedtls_gcm_setkey_def)

lemma sealed_data_opens_with_its_tag_witness:
  "\<exists>sealed tag ctx1 ctx2.
     mbedtls_gcm_crypt_and_tag MBEDTLS_GCM_ENCRYPT (replicate 12 1) [5] [1, 2, 3] 16 example_gcm = (0, Some sealed, tag, ctx1) \<and>
     length tag = 16 \<and> mbedtls_gcm_auth_decrypt (replicate 12 1) [5] tag sealed example_gcm = (0, Some [1, 2, 3], ctx2)"
proof -
  have x: "block_cipher (example_aes (replicate 16 7))" by (simp add: example_aes_ok)
  note k = setkey_spec [OF length_init _ example_setkey, simplified]
  have "cipher_ctx example_gcm = example_aes (replicate 16 7)" using k by simp
  then have "\<exists>ctx1. mbedtls_gcm_crypt_and_tag MBEDTLS_GCM_ENCRYPT (replicate 12 1) [5] [1, 2, 3] 16 example_gcm =
      (0, Some (gcm_stream (example_aes (replicate 16 7)) (hash_key example_gcm) (replicate 12 1) [1, 2, 3]),
       gcm_tag (example_aes (replicate 16 7)) (hash_key example_gcm) (replicate 12 1) [5]
         (gcm_stream (example_aes (replicate 16 7)) (hash_key example_gcm) (replicate 12 1) [1, 2, 3]) 16, ctx1)"
    using encrypt_spec(1) [OF k(3), of "replicate 12 1" "[5]" "[1, 2, 3]" 16] x by simp
  then obtain sealed tag ctx1 where
    s: "mbedtls_gcm_crypt_and_tag MBEDTLS_GCM_ENCRYPT (replicate 12 1) [5] [1, 2, 3] 16 example_gcm = (0, Some sealed, tag, ctx1)"
    and t: "length tag = 16" using x by (auto simp: length_gcm_tag)
  from sealed_data_opens_with_its_tag [OF example_setkey _ _ _ _ _ _ _ s t] x s t show ?thesis by auto
qed

section \<open>The mode over the cipher of the standard\<close>

text \<open>
  AES-GCM as the two standards define it: FIPS 197 under the counter mode and the hash of NIST
  SP 800-38D, whose counter is the big-endian number of the last four bytes.
\<close>

function standard_gctr :: "(bytes \<Rightarrow> bytes) \<Rightarrow> bytes \<Rightarrow> bytes \<Rightarrow> bytes" where
  "standard_gctr e icb s = (if s = [] then [] else xor_bytes (e icb) (take 16 s) @ standard_gctr e (inc32 icb) (drop 16 s))"
  by pat_completeness auto
termination
  by (relation "measure (\<lambda>(e, y, s). length s)") auto

declare standard_gctr.simps [simp del]

definition aes_gcm_text :: "bytes \<Rightarrow> bytes \<Rightarrow> bytes \<Rightarrow> bytes" where
  "aes_gcm_text key iv s =
     (let e = aes_standard key in standard_gctr e (inc32 (first_counter (hash_key_of e) iv)) s)"

definition aes_gcm_tag :: "bytes \<Rightarrow> bytes \<Rightarrow> bytes \<Rightarrow> bytes \<Rightarrow> nat \<Rightarrow> bytes" where
  "aes_gcm_tag key iv add c t = (let e = aes_standard key in gcm_tag e (hash_key_of e) iv add c t)"

lemma gctr_standard:
  assumes "\<And>b. length b = 16 \<Longrightarrow> e b = e' b"
  shows "length y = 16 \<Longrightarrow> gctr e y s = standard_gctr e' y s"
proof (induction s arbitrary: y rule: length_induct)
  case (1 s)
  show ?case
  proof (cases "s = []")
    case False
    then have "gctr e (gcm_incr y) (drop 16 s) = standard_gctr e' (gcm_incr y) (drop 16 s)" using 1 by simp
    then show ?thesis
      using False 1(2) by (subst gctr.simps, subst standard_gctr.simps) (simp add: assms incr_is_inc32)
  qed (simp add: gctr.simps standard_gctr.simps)
qed

text \<open>
  C36. The frames of the program are sealed with AES-GCM as the standards define it: with a key of 16,
  24 or 32 bytes, the two parts of the library together, its tables generated at the first key,
  compute the key stream of the incremented counters added to the input, and the tag over the padded
  additional data, the padded ciphertext and their lengths, in both directions.
\<close>

theorem frames_are_sealed_by_the_standard:
  assumes "statics_ok statics" "garbage_ok g" "key_sized key"
    and "0 < length iv" "length iv < 2 ^ 61" "length add < 2 ^ 61" "length input \<le> 0xFFFFFFFE0" "4 \<le> t" "t \<le> 16"
  shows "\<exists>ctx ctx'. mbedtls_gcm_setkey (aes_cipher g statics) key (8 * length key) mbedtls_gcm_init = (0, ctx) \<and>
    mbedtls_gcm_crypt_and_tag mode iv add input t ctx =
      (0, Some (aes_gcm_text key iv input),
       aes_gcm_tag key iv add (if mode = MBEDTLS_GCM_ENCRYPT then aes_gcm_text key iv input else input) t, ctx')"
proof -
  let ?e = "aes_cipher g statics key" and ?s = "aes_standard key" and ?n = "8 * length key"
  have same: "?e b = ?s b" if "length b = 16" for b by (rule aes_cipher_standard [OF assms(1-3) that])
  have bits: "?n \<in> {128, 192, 256}" "take (?n div 8) key = key" using assms(3) by (auto simp: key_sized_def)
  then obtain ctx where set: "mbedtls_gcm_setkey (aes_cipher g statics) key ?n mbedtls_gcm_init = (0, ctx)"
    by (auto simp: mbedtls_gcm_setkey_def)
  have h: "hash_key_of ?e = hash_key_of ?s" by (simp add: hash_key_of_def same)
  let ?h = "hash_key_of ?s"
  have "length (gcm_incr (first_counter ?h iv)) = 16" by (simp add: length_first_counter)
  from gctr_standard [OF same this]
  have "gcm_stream ?e ?h iv input = aes_gcm_text key iv input"
    unfolding gcm_stream_def aes_gcm_text_def Let_def incr_is_inc32 [OF length_first_counter] .
  moreover have "gcm_tag ?e ?h iv add c t = aes_gcm_tag key iv add c t" for c
    by (simp add: gcm_tag_def aes_gcm_tag_def Let_def same length_first_counter)
  ultimately show ?thesis
    using encryption_is_the_standard [OF set _ assms(4-9), of mode] aes_cipher_ok [OF assms(1-3)] set bits(2)
    by (auto simp: h)
qed

theorem frames_are_sealed_by_the_standard_witness:
  "\<exists>ctx ctx'. mbedtls_gcm_setkey (aes_cipher example_garbage aes_static) (replicate 16 7) 128 mbedtls_gcm_init = (0, ctx) \<and>
    mbedtls_gcm_crypt_and_tag MBEDTLS_GCM_ENCRYPT (replicate 12 1) [5] [1, 2, 3] 16 ctx =
      (0, Some (aes_gcm_text (replicate 16 7) (replicate 12 1) [1, 2, 3]),
       aes_gcm_tag (replicate 16 7) (replicate 12 1) [5] (aes_gcm_text (replicate 16 7) (replicate 12 1) [1, 2, 3]) 16, ctx')"
  using frames_are_sealed_by_the_standard [OF example_statics, of "replicate 16 7" "replicate 12 1" "[5]" "[1, 2, 3]" 16
      MBEDTLS_GCM_ENCRYPT]
  by (simp add: key_sized_def)

end
