(* ===== verification/Protocol_Properties.thy ===== *)
theory Protocol_Properties
  imports Protocol_Facts Gcm_Properties
begin

text \<open>
  What the frames promise: a round trip between two peers with the same key, the bounds of the
  received body, and the cases in which the checks do not hold what they seem to.
\<close>
section \<open>What arrives is what was sent\<close>

definition receive_frame :: "string \<Rightarrow> protocol \<Rightarrow> protocol" where
  "receive_frame frame q = receive_body (drop PROTO_HEADER_SIZE frame) (receive_header (take PROTO_HEADER_SIZE frame) q)"

lemma receive_frame_data:
  assumes "PROTO_HEADER_SIZE \<le> length frame"
  shows "mData (receive_frame frame q) = frame @ drop (length frame) (mData q)"
  using assms by (simp add: receive_frame_def receive_body_def receive_header_def min_def)

lemma frame_received:
  assumes aes: "block_cipher (aes (take 16 (bytes_of (mKey p))))"
    and key: "16 \<le> length (mKey p)" "mKey q = mKey p" and buffer: "length (mData q) = PROTO_HEADER_SIZE + PROTO_MAX_BODY_SIZE"
    and ids: "src < 65536" "dst < 65536" "mTxFrameCounter p < 65536"
    and size: "2 * (28 + length msg) + length pfx + 1 < PROTO_MAX_BODY_SIZE"
    and build: "Protocol_Build aes mem src dst msg pfx p = Some (frame, p')"
  defines "hdr \<equiv> take (29 + length pfx) frame"
  shows "\<exists>h'. h' = h\<lparr>h_option := 1, src_uid := src, dst_uid := dst, payload_size := 2 * (28 + length msg),
      frame_counter := mTxFrameCounter p, prefix_size := length pfx\<rparr> \<and>
    ParseHeader h (receive_header (take PROTO_HEADER_SIZE frame) q) = Some (True, h') \<and>
    length frame = PROTO_HEADER_SIZE + BodyLength h' \<and>
    ParsePrefix h' (receive_frame frame q) = (if pfx = [] then h' else h'\<lparr>h_prefix := pfx\<rparr>) \<and>
    DecryptPayload aes mem' [] (ParsePrefix h' (receive_frame frame q)) (receive_frame frame q) =
      Some (tag_computed mem' = frame_tag aes (mKey p) hdr msg, msg) \<and>
    frame = hdr @ ToHex (''000000000000'' @ frame_cipher aes (mKey p) msg @ frame_tag aes (mKey p) hdr msg) \<and>
    p' = p\<lparr>mTxFrameCounter := mTxFrameCounter p + 1\<rparr>"
proof -
  have k: "cipher_key mem p = take 16 (bytes_of (mKey p))" "cipher_key mem' r = take 16 (bytes_of (mKey p))" if "mKey r = mKey p" for r
    using key that by (simp_all add: cipher_key_long)
  have aes1: "block_cipher (aes (cipher_key mem p))" using aes k by simp
  have small: "2 * (28 + length msg) + length pfx + 1 < 10240" using size by (simp add: PROTO_MAX_BODY_SIZE_def)
  note ft = frame_text [OF ids small]
  define hf where "hf = frame_header src dst (2 * (28 + length msg)) (mTxFrameCounter p) pfx"
  define htx where "htx = header_text src dst (2 * (28 + length msg)) (mTxFrameCounter p) (length pfx)"
  define c where "c = stream_of aes mem p ''000000000000'' msg"
  define t where "t = tag_of aes mem p ''000000000000'' hf c"
  have hdr: "hf = htx @ pfx @ [CHR '':'']" "length htx = 28" using ft by (simp_all add: hf_def htx_def)
  then have lh: "length hf = 29 + length pfx" "length hf < 2 ^ 61" using small by simp_all
  note bs = Build_spec [where aes = aes and mem = mem and p = p and src = src and dst = dst and msg = msg and pfx = pfx,
    OF aes1 small, folded hf_def, OF lh(2), folded c_def, folded t_def]
  let ?payload = "ToHex (''000000000000'' @ text_of c @ text_of t)"
  from bs(1) build have frame: "frame = htx @ pfx @ CHR '':'' # ?payload"
    and p': "p' = p\<lparr>mTxFrameCounter := (mTxFrameCounter p + 1) mod 2 ^ 32\<rparr>" by (simp_all add: hdr(1))
  have hf: "hdr = hf" using lh(1) hdr by (simp add: hdr_def frame)
  have whole: "frame = hf @ ?payload" using hdr(1) by (simp add: frame)
  have sealed: "frame_tag aes (mKey p) hdr msg = text_of t" "frame_cipher aes (mKey p) msg = text_of c"
    by (simp_all add: frame_tag_def frame_cipher_def Let_def hf t_def c_def k)
  have lt: "length t = 16"
    unfolding t_def using aes1 by (simp add: length_gcm_tag)
  have lp: "length ?payload = 2 * (28 + length msg)" using bs(2) lt by simp
  let ?h = "h\<lparr>h_option := 1, src_uid := src, dst_uid := dst, payload_size := 2 * (28 + length msg),
    frame_counter := mTxFrameCounter p, prefix_size := length pfx\<rparr>"
  let ?q1 = "receive_header (take PROTO_HEADER_SIZE frame) q" and ?q2 = "receive_frame frame q"
  have q1: "mData ?q1 = htx @ drop 28 (mData q)"
    using hdr(2) by (simp add: receive_header_def frame PROTO_HEADER_SIZE_def)
  then have parse: "ParseHeader h ?q1 = Some (True, ?h)"
    using ParseHeader_text [OF ids(1,2) _ ids(3), of "2 * (28 + length msg)" "length pfx" ?q1 "drop 28 (mData q)" h] small
    by (simp add: htx_def PROTO_MAX_BODY_SIZE_def)
  have body: "BodyLength ?h = 2 * (28 + length msg) + length pfx + 1" using small by (simp add: BodyLength_def)
  have lf: "length frame = PROTO_HEADER_SIZE + BodyLength ?h"
    unfolding body using hdr(2) lp by (simp add: frame PROTO_HEADER_SIZE_def del: length_ToHex)
  have q2: "mData ?q2 = hf @ ?payload @ drop (length frame) (mData q)"
    using receive_frame_data [of frame q] hdr(2) by (simp add: frame hdr(1) PROTO_HEADER_SIZE_def)
  have pre: "ParsePrefix ?h ?q2 = (if pfx = [] then ?h else ?h\<lparr>h_prefix := pfx\<rparr>)"
    using small hdr(2) by (simp add: ParsePrefix_def q2 hdr(1) PROTO_MAX_BODY_SIZE_def)
  have key2: "mKey ?q2 = mKey p" using key by (simp add: receive_frame_def receive_body_def receive_header_def)
  have "DecryptPayload aes mem' [] (ParsePrefix ?h ?q2) ?q2 = Some (tag_computed mem' = text_of t,
      if t = tag_of aes mem' ?q2 ''000000000000'' hf c then text_of (stream_of aes mem' ?q2 ''000000000000'' (text_of c))
      else replicate (length msg) (CHR 0x00))"
    using small lt by (intro DecryptPayload_frame [OF _ lh(1) bs(2) q2 lt]) (use aes k key2 pre in simp_all)
  moreover have "t = tag_of aes mem' ?q2 ''000000000000'' hf c" by (simp add: t_def k key2)
  moreover have "text_of (stream_of aes mem' ?q2 ''000000000000'' (text_of c)) = msg"
    unfolding c_def using aes by (simp add: k key2 gcm_stream_involution)
  ultimately have dec: "DecryptPayload aes mem' [] (ParsePrefix ?h ?q2) ?q2 = Some (tag_computed mem' = text_of t, msg)" by simp
  have next_counter: "p' = p\<lparr>mTxFrameCounter := mTxFrameCounter p + 1\<rparr>" using ids(3) by (simp add: p')
  have parts: "frame = hdr @ ToHex (''000000000000'' @ frame_cipher aes (mKey p) msg @ frame_tag aes (mKey p) hdr msg)"
    unfolding sealed unfolding hf by (rule whole)
  show ?thesis
    by (intro exI [of _ ?h] conjI refl parse lf pre dec [folded sealed(1)] parts next_counter)
qed

text \<open>
  C32. A frame that \<open>Build\<close> makes, when the key has at least 16 bytes, identifiers and counter are below
  65536 and the body is smaller than the buffer (outside these limits the header is rejected or the
  receiver aborts), is the header, and in hexadecimal the constant initial value, the encrypted message
  and the tag of the GCM standard. A peer with the same key reads the header's fields, the size of the
  body, the prefix and the message back, the counter moves on, and the verdict is whether the local
  array that the code never writes holds exactly this tag.
\<close>

theorem frame_roundtrip:
  assumes aes: "block_cipher (aes (take 16 (bytes_of (mKey p))))"
    and key: "16 \<le> length (mKey p)" "mKey q = mKey p" and buffer: "length (mData q) = PROTO_HEADER_SIZE + PROTO_MAX_BODY_SIZE"
    and ids: "src < 65536" "dst < 65536" "mTxFrameCounter p < 65536"
    and size: "2 * (28 + length msg) + length pfx + 1 < PROTO_MAX_BODY_SIZE"
    and build: "Protocol_Build aes mem src dst msg pfx p = Some (frame, p')"
  defines "hdr \<equiv> take (29 + length pfx) frame"
  shows "frame = hdr @ ToHex (''000000000000'' @ frame_cipher aes (mKey p) msg @ frame_tag aes (mKey p) hdr msg) \<and>
    (\<exists>h'. ParseHeader h (receive_header (take PROTO_HEADER_SIZE frame) q) = Some (True, h') \<and>
    length frame = PROTO_HEADER_SIZE + BodyLength h' \<and>
    src_uid h' = src \<and> dst_uid h' = dst \<and> frame_counter h' = mTxFrameCounter p \<and>
    (pfx \<noteq> [] \<longrightarrow> h_prefix (ParsePrefix h' (receive_frame frame q)) = pfx) \<and>
    DecryptPayload aes mem' [] (ParsePrefix h' (receive_frame frame q)) (receive_frame frame q) =
      Some (tag_computed mem' = frame_tag aes (mKey p) hdr msg, msg)) \<and>
    mTxFrameCounter p' = mTxFrameCounter p + 1"
  using frame_received [OF assms(1-9), of h mem', folded hdr_def] by (auto split: if_splits)

section \<open>Bounds\<close>

text \<open>
  When \<open>ParseHeader\<close> does not abort and reads the fields, the body it announces is smaller than
  the room behind the header, so that receiving it stays in the buffer.
\<close>

theorem body_fits_the_buffer:
  assumes "ParseHeader h p = Some (True, h')" "length (mData p) = PROTO_HEADER_SIZE + PROTO_MAX_BODY_SIZE"
    and "length s = BodyLength h'"
  shows "length (mData (receive_body s p)) = PROTO_HEADER_SIZE + PROTO_MAX_BODY_SIZE"
  using ParseHeader_bound [OF assms(1)] assms(2,3) by (simp add: receive_body_length)

text \<open>
  A message that is too long for the buffer is sent all the same, and its header makes the
  receiver abort: with a prefix of \<open>k\<close> characters the limit is \<open>10240\<close> for \<open>57 + k\<close> and twice the message.
\<close>

theorem long_message_aborts_the_receiver:
  assumes "PROTO_MAX_BODY_SIZE \<le> 2 * (28 + length msg) + length pfx + 1"
    and "2 * (28 + length msg) < 65536" "length pfx < 65536" "src < 65536" "dst < 65536" "mTxFrameCounter p < 65536"
    and "Protocol_Build aes mem src dst msg pfx p = Some (frame, p')"
  shows "ParseHeader h (receive_header (take PROTO_HEADER_SIZE frame) q) = None"
proof -
  let ?sz = "2 * (28 + length msg)"
  have "(cIVSize + length msg + cTagSize) * 2 mod 2 ^ 32 = ?sz" using assms(2) by (simp add: cIVSize_def cTagSize_def)
  with assms(7) obtain payload where "frame = frame_header src dst ?sz (mTxFrameCounter p) pfx @ ToHex payload"
    by (auto simp: Protocol_Build_def Let_def)
  then have "take 28 frame = header_text src dst ?sz (mTxFrameCounter p) (length pfx)"
    using length_header_text [of src dst ?sz "mTxFrameCounter p" "length pfx"] assms by (simp add: frame_header_text)
  then have "mData (receive_header (take PROTO_HEADER_SIZE frame) q) =
      header_text src dst ?sz (mTxFrameCounter p) (length pfx) @ drop 28 (mData q)"
    by (simp add: receive_header_def PROTO_HEADER_SIZE_def)
  from ParseHeader_text [OF assms(4,5,2,6,3) this] assms(1) show ?thesis by simp
qed

definition received_bytes :: "header \<Rightarrow> protocol \<Rightarrow> string option" where
  "received_bytes h p =
     HexStringToUint8 (take (payload_size h) (drop ((PROTO_HEADER_SIZE + prefix_size h + 1) mod 2 ^ 32) (mData p)))
       (replicate (payload_size h div 2) (CHR 0x00))"

lemma received_bytes_key [simp]: "received_bytes h (p\<lparr>mKey := key\<rparr>) = received_bytes h p"
  by (simp add: received_bytes_def)

lemma verdict_compares:
  assumes "DecryptPayload aes mem out h p = Some (ok, msg)"
  shows "\<exists>ciphered. received_bytes h p = Some ciphered \<and>
    ok = (tag_computed mem = take cTagSize (drop (payload_size h div 2 - cTagSize) ciphered))"
proof -
  from assms obtain ciphered where c: "received_bytes h p = Some ciphered"
    and d: "Decrypt aes mem (take ((PROTO_HEADER_SIZE + prefix_size h + 1) mod 2 ^ 32) (mData p)) ciphered (payload_size h div 2) out p = Some (ok, msg)"
    by (auto simp: DecryptPayload_def received_bytes_def Let_def bind_eq_Some_conv split: if_split_asm)
  from d have "ok = (tag_computed mem = take cTagSize (drop (payload_size h div 2 - cTagSize) ciphered))"
    by (auto simp: Decrypt_def Let_def split: if_split_asm prod.split_asm)
  with c show ?thesis by blast
qed

text \<open>
  C39. The result of \<open>DecryptPayload\<close> says nothing of the authenticity of the frame: it is the same
  with every key and every cipher, for it only compares the received tag with memory.
\<close>

theorem verdict_ignores_the_key:
  assumes "DecryptPayload aes mem out h p = Some (ok, msg)"
    and "DecryptPayload aes' mem out h (p\<lparr>mKey := key\<rparr>) = Some (ok', msg')"
  shows "ok = ok'"
  using verdict_compares [OF assms(1)] verdict_compares [OF assms(2)] by auto

text \<open>
  A size of \<open>-001\<close> is read as the largest number of 32 bits, the sum with the prefix and the
  separator wraps to nothing and passes the check, the body is empty, and the decryption that
  follows reads outside of the buffer.
\<close>

theorem negative_size_passes_the_check:
  assumes "mData p = ''01:0000:0001:-001:0000:0000:'' @ s" "length s = PROTO_MAX_BODY_SIZE"
  shows "\<exists>h'. ParseHeader h p = Some (True, h') \<and> payload_size h' = 2 ^ 32 - 1 \<and> BodyLength h' = 0 \<and>
    DecryptPayload aes mem out h' p = None"
proof -
  let ?h = "h\<lparr>h_option := 1, src_uid := 0, dst_uid := 1, payload_size := 2 ^ 32 - 1, frame_counter := 0, prefix_size := 0\<rparr>"
  have digit: "isxdigit (CHR ''0'')" "isxdigit (CHR ''1'')" "CharToInt (CHR ''0'') = 0" "CharToInt (CHR ''1'') = 1"
    by (simp_all add: isxdigit_def is_digit_def CharToInt_def)
  have field: "ParseUint32 (CHR ''0'' # CHR ''0'' # CHR ''0'' # d # CHR '':'' # t) 4 = (True, CharToInt d)" if "isxdigit d" for d t
    using ParseUint_field(1) [of "[CHR ''0'', CHR ''0'', CHR ''0'', d]" t] that digit by (simp add: digits16_def eval_nat_numeral)
  have minus: "ParseUint32 (CHR ''-'' # CHR ''0'' # CHR ''0'' # CHR ''1'' # CHR '':'' # t) 4 = (True, 2 ^ 32 - 1)" for t
    by (simp add: ParseUint32_def strtoul16_def read16_def is_space_def digit not_xdigit_colon digits16_def)
  have opt: "ParseUint16 (CHR ''0'' # CHR ''1'' # CHR '':'' # t) 2 = (True, 1)" for t
    using ParseUint_field(2) [of "[CHR ''0'', CHR ''1'']" t] digit by (simp add: digits16_def numeral_2_eq_2)
  have "ParseHeader h p = Some (True, ?h)"
    using assms(1) by (simp add: ParseHeader_def read_field_def field minus opt digit PROTO_MAX_BODY_SIZE_def)
  moreover have "BodyLength ?h = 0" by (simp add: BodyLength_def)
  moreover have "DecryptPayload aes mem out ?h p = None"
    using assms by (simp add: DecryptPayload_def PROTO_HEADER_SIZE_def PROTO_MAX_BODY_SIZE_def)
  ultimately show ?thesis by (intro exI [of _ ?h]) simp
qed

section \<open>Instances\<close>

definition example_peer :: protocol where
  "example_peer = SetSecurity ''0123456789abcdef'' (Protocol_new (replicate 10268 (CHR '' '')))"

definition example_memory :: memory where
  "example_memory = \<lparr>after_key = [], tag_computed = replicate 16 (CHR ''t'')\<rparr>"

lemma example_key: "mKey example_peer = ''0123456789abcdef''" "mTxFrameCounter example_peer = 0"
  "mData example_peer = replicate 10268 (CHR '' '')"
  by (simp_all add: example_peer_def SetSecurity_def Protocol_new_def)

lemma example_cipher_key: "cipher_key example_memory example_peer = bytes_of ''0123456789abcdef''"
  by (simp add: cipher_key_def example_key example_memory_def bytes_of_def)

lemma example_cipher: "block_cipher (example_aes (cipher_key example_memory example_peer))"
  unfolding example_cipher_key by (rule example_aes_ok) simp

lemma Build_returns:
  assumes "block_cipher (aes (cipher_key mem p))" "length pfx < 65536" "length msg < 65536"
    and "src < 65536" "dst < 65536" "mTxFrameCounter p < 65536" "2 * (28 + length msg) < 65536"
  shows "\<exists>frame p'. Protocol_Build aes mem src dst msg pfx p = Some (frame, p')"
proof -
  let ?hdr = "frame_header src dst (2 * (28 + length msg)) (mTxFrameCounter p) pfx"
  have "(cIVSize + length msg + cTagSize) * 2 mod 2 ^ 32 = 2 * (28 + length msg)"
    using assms(3) by (simp add: cIVSize_def cTagSize_def)
  moreover have "length ?hdr < 2 ^ 61"
    using assms by (simp add: frame_header_text length_header_text)
  then have "\<exists>c. Encrypt aes mem ?hdr msg ''000000000000'' [] p = Some c"
    using Encrypt_spec(1) [where aes = aes and mem = mem and p = p and iv = "''000000000000''" and aad = ?hdr and s = msg and front = "[]"]
      assms by auto
  ultimately show ?thesis by (auto simp: Protocol_Build_def Let_def)
qed

lemma frame_roundtrip_witness:
  "\<exists>frame p' h'. Protocol_Build example_aes example_memory 10 1 ''{}'' ''web'' example_peer = Some (frame, p') \<and>
    ParseHeader Header_new (receive_header (take PROTO_HEADER_SIZE frame) example_peer) = Some (True, h') \<and>
    src_uid h' = 10 \<and> dst_uid h' = 1 \<and> h_prefix (ParsePrefix h' (receive_frame frame example_peer)) = ''web'' \<and>
    DecryptPayload example_aes example_memory [] (ParsePrefix h' (receive_frame frame example_peer)) (receive_frame frame example_peer) =
      Some (tag_computed example_memory = frame_tag example_aes ''0123456789abcdef'' (take 32 frame) ''{}'', ''{}'')"
proof -
  obtain frame p' where b: "Protocol_Build example_aes example_memory 10 1 ''{}'' ''web'' example_peer = Some (frame, p')"
    using Build_returns [of example_aes example_memory example_peer "''web''" "''{}''" 10 1] example_cipher
    by (auto simp: example_key)
  have "block_cipher (example_aes (take 16 (bytes_of (mKey example_peer))))"
    by (rule example_aes_ok) (simp add: example_key)
  from frame_roundtrip [OF this _ refl _ _ _ _ _ b, of Header_new example_memory] show ?thesis
    using b by (auto simp: example_key PROTO_HEADER_SIZE_def PROTO_MAX_BODY_SIZE_def)
qed

lemma body_fits_the_buffer_witness:
  "length (mData (receive_body [CHR '':''] (receive_header (header_text 10 1 0 0 0) example_peer))) = PROTO_HEADER_SIZE + PROTO_MAX_BODY_SIZE"
proof -
  let ?p = "receive_header (header_text 10 1 0 0 0) example_peer"
  have "mData ?p = header_text 10 1 0 0 0 @ drop 28 (mData example_peer)"
    by (simp add: receive_header_def PROTO_HEADER_SIZE_def)
  from ParseHeader_text [OF _ _ _ _ _ this, of Header_new]
  have "ParseHeader Header_new ?p = Some (True, Header_new\<lparr>h_option := 1, src_uid := 10, dst_uid := 1, payload_size := 0, frame_counter := 0, prefix_size := 0\<rparr>)"
    by (simp add: PROTO_MAX_BODY_SIZE_def)
  moreover have "length (mData ?p) = PROTO_HEADER_SIZE + PROTO_MAX_BODY_SIZE"
    by (simp add: receive_header_def length_header_text example_key PROTO_HEADER_SIZE_def PROTO_MAX_BODY_SIZE_def)
  ultimately show ?thesis by (rule body_fits_the_buffer) (simp add: BodyLength_def)
qed

lemma long_message_aborts_the_receiver_witness:
  "\<exists>frame p'. Protocol_Build example_aes example_memory 1 10 (replicate 5092 (CHR ''x'')) [] example_peer = Some (frame, p') \<and>
    ParseHeader Header_new (receive_header (take PROTO_HEADER_SIZE frame) example_peer) = None"
proof -
  obtain frame p' where b: "Protocol_Build example_aes example_memory 1 10 (replicate 5092 (CHR ''x'')) [] example_peer = Some (frame, p')"
    using Build_returns [of example_aes example_memory example_peer "[]" "replicate 5092 (CHR ''x'')" 1 10] example_cipher
    by (auto simp: example_key)
  from long_message_aborts_the_receiver [OF _ _ _ _ _ _ b, of Header_new example_peer]
  have "ParseHeader Header_new (receive_header (take PROTO_HEADER_SIZE frame) example_peer) = None"
    by (simp add: example_key PROTO_MAX_BODY_SIZE_def)
  with b show ?thesis by blast
qed

text \<open>A frame of an empty message with a tag of zeros, in the buffer of a peer.\<close>

definition example_received :: protocol where
  "example_received = example_peer\<lparr>mData := header_text 10 1 56 0 0 @ '':'' @ ToHex (''000000000000'' @ text_of [] @ text_of (zeros 16)) @ []\<rparr>"

lemma example_verdict:
  assumes "16 \<le> length k"
  shows "\<exists>msg. DecryptPayload example_aes example_memory [] (Header_new\<lparr>payload_size := 56\<rparr>) (example_received\<lparr>mKey := k\<rparr>) = Some (False, msg)"
proof -
  let ?q = "example_received\<lparr>mKey := k\<rparr>" and ?aad = "header_text 10 1 56 0 0 @ '':''"
  have "block_cipher (example_aes (cipher_key example_memory ?q))"
    using assms by (intro example_aes_ok) (simp add: cipher_key_def)
  moreover have "mData ?q = ?aad @ ToHex (''000000000000'' @ text_of [] @ text_of (zeros 16)) @ []"
    by (simp add: example_received_def)
  moreover have "length ?aad = 29 + length ([] :: string)" by (simp add: length_header_text)
  ultimately obtain msg where
    d: "DecryptPayload example_aes example_memory [] (Header_new\<lparr>payload_size := 56\<rparr>) ?q = Some (tag_computed example_memory = text_of (zeros 16), msg)"
    using DecryptPayload_frame [where aes = example_aes and mem = example_memory and q = ?q and aad = ?aad and pfx = "[]"
      and c = "[]" and n = 0 and t = "zeros 16" and rest = "[]" and h = "Header_new\<lparr>payload_size := 56\<rparr>"]
    by (simp add: Header_new_def)
  have "hd (tag_computed example_memory) \<noteq> hd (text_of (zeros 16))"
    by (simp add: example_memory_def text_of_def zeros_def hd_map char_of_def)
  then have "(tag_computed example_memory = text_of (zeros 16)) = False" by metis
  with d show ?thesis by simp
qed

lemma verdict_ignores_the_key_witness:
  "\<exists>ok msg msg'. DecryptPayload example_aes example_memory [] (Header_new\<lparr>payload_size := 56\<rparr>)
      (example_received\<lparr>mKey := ''0123456789abcdef''\<rparr>) = Some (ok, msg) \<and>
    DecryptPayload example_aes example_memory [] (Header_new\<lparr>payload_size := 56\<rparr>)
      (example_received\<lparr>mKey := ''0123456789abcdef'', mKey := ''another key of 16''\<rparr>) = Some (ok, msg')"
proof -
  from example_verdict [of "''0123456789abcdef''"] obtain msg where
    1: "DecryptPayload example_aes example_memory [] (Header_new\<lparr>payload_size := 56\<rparr>) (example_received\<lparr>mKey := ''0123456789abcdef''\<rparr>) = Some (False, msg)"
    by auto
  from example_verdict [of "''another key of 16''"] obtain msg' where
    2: "DecryptPayload example_aes example_memory [] (Header_new\<lparr>payload_size := 56\<rparr>)
      (example_received\<lparr>mKey := ''0123456789abcdef'', mKey := ''another key of 16''\<rparr>) = Some (False, msg')"
    by auto
  from verdict_ignores_the_key [OF 1 2] 1 2 show ?thesis by blast
qed

lemma negative_size_passes_the_check_witness:
  "let p = example_peer\<lparr>mData := ''01:0000:0001:-001:0000:0000:'' @ replicate 10240 (CHR ''x'')\<rparr>
   in \<exists>h'. ParseHeader Header_new p = Some (True, h') \<and> payload_size h' = 2 ^ 32 - 1 \<and> BodyLength h' = 0 \<and>
     DecryptPayload example_aes example_memory [] h' p = None"
  unfolding Let_def
  by (rule negative_size_passes_the_check [where s = "replicate 10240 (CHR ''x'')"]) (simp_all add: PROTO_MAX_BODY_SIZE_def)

end
