(* ===== verification/Lobby_Properties.thy ===== *)
theory Lobby_Properties
  imports Lobby_Facts
begin

text \<open>What a server's lobby guarantees, and where it fails its users.\<close>

section \<open>An example\<close>

text \<open>A request whose text is a written document.\<close>

definition message :: "nat \<Rightarrow> nat \<Rightarrow> (string \<times> json) list \<Rightarrow> request" where
  "message src dst m = \<lparr>src_uuid = src, dest_uuid = dst, arg = json_string (- 1) (JObj m)\<rparr>"

lemma Deliver_message:
  "json_ok (JObj m) \<Longrightarrow> Lobby_Deliver env (message src dst m) l =
     map_option (\<lambda>(ret, out, l'). (ret, Lobby_Send out l', l')) (handle_document env (message src dst m) (JObj m) l)"
proof -
  assume ok: "json_ok (JObj m)"
  have "ParseString (arg (message src dst m)) = Document (JObj m)"
    unfolding message_def request.simps by (rule parse_written [OF ok]) simp
  then show ?thesis by (simp add: Lobby_Deliver_def)
qed

lemma lobby_number_free: "lobby_ok l \<Longrightarrow> \<not> IsTaken LOBBY_UID (mTableIds l)"
  by (auto simp: lobby_ok_def books_ok_def pool_from_def LOBBY_UID_def TABLES_UID_def)

lemma request_step:
  assumes "lobby_reachable l" "json_ok (JObj m)" "lobby_request src (JObj m) l = Some (ret, out, l')"
  shows "lobby_reachable l'"
proof -
  have "handle_document example_env (message src LOBBY_UID m) (JObj m) l = Some (ret, out, l')"
    using assms(3) lobby_number_free [OF lobby_reachable_ok [OF assms(1)]]
    by (simp add: handle_document_def message_def)
  then have "Lobby_Deliver example_env (message src LOBBY_UID m) l = Some (ret, Lobby_Send out l', l')"
    by (simp add: Deliver_message [OF assms(2)])
  from lobby_reachable.step [OF assms(1) lobby_step.requests [OF example_env_sound this]] show ?thesis .
qed

definition opened_lobby :: lobby where
  "opened_lobby = snd (AddUser 8 (snd (AddUser 7 (snd (Lobby_CreateTable ''A'' Game_default SOUTH (Lobby_new False))))))"

definition login_message :: "string \<Rightarrow> (string \<times> json) list" where
  "login_message nick = [(''cmd'', JString ''ReplyLogin''), (''nickname'', JString nick)]"

definition table_message :: "string \<Rightarrow> (string \<times> json) list" where
  "table_message cmd = [(''cmd'', JString cmd), (''table_id'', JInt 1000)]"

text \<open>User 10 logs in and joins the table.\<close>

definition joined_lobby :: lobby where
  "joined_lobby = snd (the (do_join 10 (JObj (table_message ''RequestJoinTable''))
     (snd (do_login 10 (JObj (login_message ''Ann'')) opened_lobby))))"

lemma opened_reachable: "lobby_reachable opened_lobby"
  unfolding opened_lobby_def
  by (intro lobby_reachable.step [OF _ lobby_step.connects] lobby_reachable.step [OF _ lobby_step.opens]
      lobby_reachable.started)

lemma messages_ok: "json_ok (JObj (login_message ''Ann''))" "json_ok (JObj (table_message ''RequestJoinTable''))"
  "json_ok (JObj (table_message ''RequestQuitTable''))"
  by (simp_all add: login_message_def table_message_def plain_key_def plain_text_def iscntrl_def less_char_def)

lemma FindValue_cmd: "FindValue ''cmd'' (JObj ((''cmd'', v) # m)) = v"
  by (simp add: FindValue_key)

lemma FindValue_table: "u32_field ''table_id'' (JObj (table_message cmd)) = 1000"
  by (simp add: u32_field_def table_message_def FindValue_key GetInteger_def to_i32_def to_u32_def)

lemma login_reachable: "lobby_reachable (snd (do_login 10 (JObj (login_message ''Ann'')) opened_lobby))"
  by (rule request_step [OF opened_reachable messages_ok(1), of 10 True "fst (do_login 10 (JObj (login_message ''Ann'')) opened_lobby)"])
     (simp add: lobby_request_def login_message_def FindValue_cmd)

lemma opened_parts: "mTables opened_lobby = [open_table 1000 ''A'' False Game_default 4 SOUTH]"
  "mUsers opened_lobby = []" "mUserIds opened_lobby = \<lparr>mMin = 10, mMax = 200, mUsedIds = [10, 11]\<rparr>"
  "mPeers opened_lobby = [(10, 7), (11, 8)]"
proof -
  have t: "TakeId (UniqueId_new TABLES_UID (TABLES_UID + MAXIMUM_TABLES)) =
      (1000, \<lparr>mMin = 1000, mMax = 1050, mUsedIds = [1000]\<rparr>)"
    by (subst TakeId_lowest [of _ 1000]) (simp_all add: UniqueId_new_def TABLES_UID_def MAXIMUM_TABLES_def IsTaken_def)
  have u: "TakeId (UniqueId_new USERS_UID MAXIMUM_USERS) = (10, \<lparr>mMin = 10, mMax = 200, mUsedIds = [10]\<rparr>)"
    by (subst TakeId_lowest [of _ 10]) (simp_all add: UniqueId_new_def USERS_UID_def MAXIMUM_USERS_def IsTaken_def)
  have v: "TakeId \<lparr>mMin = 10, mMax = 200, mUsedIds = [10]\<rparr> = (11, \<lparr>mMin = 10, mMax = 200, mUsedIds = [10, 11]\<rparr>)"
    by (subst TakeId_lowest [of _ 11]) (auto simp: IsTaken_def)
  show "mTables opened_lobby = [open_table 1000 ''A'' False Game_default 4 SOUTH]" "mUsers opened_lobby = []"
    "mUserIds opened_lobby = \<lparr>mMin = 10, mMax = 200, mUsedIds = [10, 11]\<rparr>" "mPeers opened_lobby = [(10, 7), (11, 8)]"
    by (simp_all add: opened_lobby_def AddUser_def Lobby_CreateTable_def Lobby_new_def t u v open_table_def Let_def)
qed

definition example_user :: "nat \<Rightarrow> place \<Rightarrow> user" where
  "example_user k p = \<lparr>uUuid = 10, uTable = k, uPlace = p,
     uIdentity = \<lparr>username = ''Ann'', avatar = [], gender = 0, token = []\<rparr>\<rparr>"

lemma logged_parts:
  "mTables (snd (do_login 10 (JObj (login_message ''Ann'')) opened_lobby)) = mTables opened_lobby"
  "mUsers (snd (do_login 10 (JObj (login_message ''Ann'')) opened_lobby)) = [example_user LOBBY_UID NOWHERE]"
  by (simp_all add: do_login_def opened_parts IsTaken_def AddEntry_def IsHere_def CheckNickName_def
      Identity_FromJson_def login_message_def Object_GetValue_def Identity_new_def GenderFromString_def gender_defs
      SendPlayerEvent_def Users_GetEntry_def Let_def example_user_def)

lemma open_parts:
  "tbPlayers (open_table i name b g 4 p) = 4" "tPlayers (open_table i name b g 4 p) = replicate 5 Challenger_Clear"
  "mId (open_table i name b g 4 p) = i" "length (mPlayers (mEngine (open_table i name b g 4 p))) = 5"
  by (simp_all add: open_table_def Table_CreateTable_def Table_Initialize_def SetupGame_def SetAdminMode_def Table_new_def
      map_replicate_const Engine_CreateTable_def Engine_Initialize_def Engine_new_def Context_Initialize_def)

lemma join_open:
  "u \<noteq> 0 \<Longrightarrow> \<exists>t'. AddPlayer u (open_table i name b g 4 p) = ((SOUTH, 4), t') \<and> mId t' = i \<and>
     mEngine t' = mEngine (open_table i name b g 4 p)"
  by (simp add: AddPlayer_def open_parts GetPlayerPlace_def upt_rec Challenger_Clear_def INVALID_UID_def Place_of_def Let_def)

lemma joined_run:
  "\<exists>out. do_join 10 (JObj (table_message ''RequestJoinTable'')) (snd (do_login 10 (JObj (login_message ''Ann'')) opened_lobby)) =
     Some (out, joined_lobby)"
  "mUsers joined_lobby = [example_user 1000 SOUTH]" "map mId (mTables joined_lobby) = [1000]"
proof -
  let ?l = "snd (do_login 10 (JObj (login_message ''Ann'')) opened_lobby)"
  let ?t = "open_table 1000 ''A'' False Game_default 4 SOUTH"
  obtain t' where t': "AddPlayer 10 ?t = ((SOUTH, 4), t')" "mId t' = 1000" "mEngine t' = mEngine ?t"
    using join_open [of 10 1000 "''A''" False Game_default SOUTH] by auto
  have seat: "seat_player 10 1000 (mTables ?l) = Some (SOUTH, t', [t'])"
    by (simp add: logged_parts opened_parts open_parts t')
  have deck: "Engine_GetDeck SOUTH (mEngine t') = Some (mPlayers (mEngine ?t) ! 0)"
    using open_parts(4) [of 1000 "''A''" False Game_default SOUTH] by (simp add: Engine_GetDeck_def less_place_def t'(3))
  have place: "SetPlayingTable 10 1000 SOUTH (mUsers ?l) = [example_user 1000 SOUTH]"
    by (simp add: logged_parts SetPlayingTable_def example_user_def)
  have at: "GetPlayerTable 10 (mUsers ?l) = LOBBY_UID" by (simp add: logged_parts GetPlayerTable_def example_user_def)
  have valid: "Place_IsValid SOUTH" by (simp add: Place_IsValid_def less_place_def)
  have "\<exists>out l'. do_join 10 (JObj (table_message ''RequestJoinTable'')) ?l = Some (out, l') \<and>
      mUsers l' = [example_user 1000 SOUTH] \<and> mTables l' = [t']"
  proof -
    obtain c where "snd (SendPlayerEvent 10 ''JoinTable'' (?l\<lparr>mTables := [t'], mUsers := [example_user 1000 SOUTH]\<rparr>)) =
        ?l\<lparr>mTables := [t'], mUsers := [example_user 1000 SOUTH], mEvCounter := c\<rparr>"
      using SendPlayerEvent_frame [of 10 "''JoinTable''" "?l\<lparr>mTables := [t'], mUsers := [example_user 1000 SOUTH]\<rparr>"] by auto
    then show ?thesis
      by (simp add: do_join_def FindValue_table at seat deck valid place Let_def split_beta)
  qed
  then show "\<exists>out. do_join 10 (JObj (table_message ''RequestJoinTable'')) ?l = Some (out, joined_lobby)"
    "mUsers joined_lobby = [example_user 1000 SOUTH]" "map mId (mTables joined_lobby) = [1000]"
    using t'(2) by (auto simp: joined_lobby_def)
qed

lemma joined_reachable: "lobby_reachable joined_lobby"
proof -
  obtain out where "do_join 10 (JObj (table_message ''RequestJoinTable'')) (snd (do_login 10 (JObj (login_message ''Ann'')) opened_lobby)) =
      Some (out, joined_lobby)" using joined_run(1) by blast
  then have "lobby_request 10 (JObj (table_message ''RequestJoinTable'')) (snd (do_login 10 (JObj (login_message ''Ann'')) opened_lobby)) =
      Some (True, out, joined_lobby)"
    by (simp add: lobby_request_def table_message_def FindValue_cmd)
  from request_step [OF login_reachable messages_ok(2) this] show ?thesis .
qed

section \<open>Properties\<close>

lemma user_info_member: "users_ok us \<Longrightarrow> u \<in> set us \<Longrightarrow> user_info us (uUuid u) = Some (username (uIdentity u), uTable u, uPlace u)"
  by (induction us) (auto simp: user_info_def users_ok_def)

text \<open>
  C10. The lobby keeps its books: in every lobby a server can reach, whatever its clients send, no two
  tables, no two users and no two names are the same, every logged-in user holds its number in the
  pool, and every user is either in the lobby, nowhere (after leaving a table), or recorded at a table
  that exists and really has the user's number on the recorded seat.
\<close>

theorem lobby_keeps_its_books:
  assumes "lobby_reachable l"
  shows "distinct (map mId (mTables l)) \<and> distinct (GetAll (mUsers l)) \<and>
    distinct (map (\<lambda>u. username (uIdentity u)) (mUsers l)) \<and>
    (\<forall>u \<in> set (mUsers l). IsTaken (uUuid u) (mUserIds l) \<and>
       (uTable u = 0 \<or> uTable u = LOBBY_UID \<or>
        (\<exists>t \<in> set (mTables l). mId t = uTable u \<and> IsTaken (mId t) (mTableIds l) \<and> Place_Value (uPlace u) < tbPlayers t \<and>
           chUuid (tPlayers t ! Place_Value (uPlace u)) = uUuid u)))"
proof -
  have "books_ok (mTableIds l) (mUserIds l) (mUsers l) (mTables l)"
    using lobby_reachable_ok [OF assms] by (simp add: lobby_ok_def)
  note B = books_D [OF this]
  have "IsTaken (uUuid u) (mUserIds l) \<and> (uTable u = 0 \<or> uTable u = LOBBY_UID \<or>
        (\<exists>t \<in> set (mTables l). mId t = uTable u \<and> IsTaken (mId t) (mTableIds l) \<and> Place_Value (uPlace u) < tbPlayers t \<and>
           chUuid (tPlayers t ! Place_Value (uPlace u)) = uUuid u))" if u: "u \<in> set (mUsers l)" for u
  proof -
    note info = user_info_member [OF B(3) u]
    have "IsTaken (uUuid u) (mUserIds l)" using info B(5) by simp
    moreover have "uTable u = 0 \<or> uTable u = LOBBY_UID \<or> uTable u \<in> mId ` set (mTables l)"
      using B(9) info unfolding known_place_def by blast
    moreover have "Place_Value (uPlace u) < tbPlayers t \<and> chUuid (tPlayers t ! Place_Value (uPlace u)) = uUuid u"
      if t: "t \<in> set (mTables l)" "mId t = uTable u" for t
    proof -
      have r: "reachable 4 t" using B(8) t(1) by blast
      have "sits_at t (uUuid u) (uPlace u)" using B(10) info t unfolding tables.located_def by blast
      then show ?thesis using lobby_table [OF r] by (auto simp: sits_at_def uuids_def)
    qed
    ultimately show ?thesis using B(7) by (metis imageE)
  qed
  then show ?thesis using B(3,6) names_distinct [OF B(3,4)] by (simp add: GetAll_def users_ok_def)
qed

lemma lobby_keeps_its_books_witness:
  "\<exists>t \<in> set (mTables joined_lobby). mId t = 1000 \<and> chUuid (tPlayers t ! 0) = 10"
  using lobby_keeps_its_books [OF joined_reachable] joined_run(2) by (auto simp: example_user_def LOBBY_UID_def)

text \<open>
  C26. Every table of a reachable lobby is a reachable table of four players: what the lobby does to a
  table is only to open it, seat and remove players and forward messages, so everything proved of
  reachable tables holds of the tables of a server.
\<close>

theorem lobby_runs_its_tables:
  assumes "lobby_reachable l" "t \<in> set (mTables l)"
  shows "reachable 4 t"
  using lobby_reachable_ok [OF assms(1)] assms(2) by (auto simp: lobby_ok_def books_ok_def)

lemma lobby_runs_its_tables_witness: "reachable 4 (hd (mTables joined_lobby))"
proof (rule lobby_runs_its_tables [OF joined_reachable])
  have "mTables joined_lobby \<noteq> []" using joined_run(3) by auto
  then show "hd (mTables joined_lobby) \<in> set (mTables joined_lobby)" by simp
qed

lemma RemovePlayerFromTable_others:
  assumes "books_ok (mTableIds l) (mUserIds l) (mUsers l) (mTables l)" "v \<noteq> u" "mId t \<noteq> k" "t \<in> set (mTables l)"
  shows "user_info (mUsers (snd (RemovePlayerFromTable u k l))) v = user_info (mUsers l) v \<and>
    t \<in> set (mTables (snd (RemovePlayerFromTable u k l)))"
proof -
  obtain c where c: "snd (RemovePlayerFromTable u k l) = l\<lparr>mTables := map (\<lambda>t. if mId t = k then RemovePlayer u t else t) (mTables l),
     mUsers := SetPlayingTable u 0 NOWHERE (mUsers l), mEvCounter := c\<rparr>"
    using RemovePlayerFromTable_frame by blast
  have "t \<in> (\<lambda>t. if mId t = k then RemovePlayer u t else t) ` set (mTables l)"
    using assms(3,4) by (intro image_eqI [of _ _ t]) simp_all
  then show ?thesis using users.move [OF books_D(3) [OF assms(1)], of u 0 NOWHERE] assms(2) by (simp add: c)
qed

text \<open>What one operation leaves alone: the record of other users, the tables but one.\<close>

lemma forward_others:
  "forward env src doc k ts = Some (out, ts') \<Longrightarrow> t \<in> set ts \<Longrightarrow> mId t \<noteq> k \<Longrightarrow> t \<in> set ts'"
proof (induction ts arbitrary: out ts')
  case (Cons t0 ts)
  obtain f o1 t' o2 ts2 where
    "(if mId t0 = k then ExecuteRequest env src doc t0 else Some (False, [], t0)) = Some (f, o1, t')"
    "forward env src doc k ts = Some (o2, ts2)" "ts' = t' # ts2"
    using Cons.prems(1) by (auto simp: bind_eq_Some_conv)
  with Cons.IH Cons.prems(2,3) show ?case by (auto split: if_splits)
qed simp

lemma join_table_frame: "join_table u t = (p, t') \<Longrightarrow> mId t' = mId t \<and> mEngine t' = mEngine t \<and> mScore t' = mScore t"
  by (auto simp: join_table_def AddPlayer_def Let_def split: if_splits)

definition same_game :: "playing_table \<Rightarrow> playing_table \<Rightarrow> bool" where
  "same_game t t' \<longleftrightarrow> mId t' = mId t \<and> mEngine t' = mEngine t \<and> mScore t' = mScore t"

definition others_same :: "nat \<Rightarrow> lobby \<Rightarrow> lobby \<Rightarrow> bool" where
  "others_same src l l' \<longleftrightarrow>
     (\<forall>v. v \<noteq> src \<longrightarrow> user_info (mUsers l') v = user_info (mUsers l) v) \<and>
     (if GetPlayerTable src (mUsers l) = LOBBY_UID
      then list_all2 same_game (mTables l) (mTables l')
      else \<forall>t \<in> set (mTables l). mId t \<noteq> GetPlayerTable src (mUsers l) \<longrightarrow> t \<in> set (mTables l'))"

lemma same_games: "list_all2 same_game ts ts"
  by (induction ts) (simp_all add: same_game_def)

lemma others_same_tables:
  "mTables l' = mTables l \<Longrightarrow> \<forall>v. v \<noteq> src \<longrightarrow> user_info (mUsers l') v = user_info (mUsers l) v \<Longrightarrow> others_same src l l'"
  by (simp add: others_same_def same_games)

lemma others_login:
  assumes "users_ok (mUsers l)"
  shows "others_same src l (snd (do_login src doc l))"
proof -
  let ?u = "\<lparr>uUuid = src, uTable = LOBBY_UID, uPlace = NOWHERE, uIdentity = Identity_FromJson (GetObj doc) Identity_new\<rparr>"
  have "user_info (snd (AddEntry ?u (mUsers l))) v = user_info (mUsers l) v" if "v \<noteq> src" for v
    using users.add [OF assms, of ?u "fst (AddEntry ?u (mUsers l))" "snd (AddEntry ?u (mUsers l))"] that by auto
  with do_login_frame [of src doc l] show ?thesis by (intro others_same_tables) auto
qed

lemma others_nickname:
  assumes "users_ok (mUsers l)"
  shows "others_same src l (snd (do_nickname src doc l))"
proof -
  let ?nick = "GetString (FindValue ''nickname'' doc)"
  obtain b us where ren: "ChangeNickName src ?nick (mUsers l) = (b, us)" by (cases "ChangeNickName src ?nick (mUsers l)")
  have "user_info us v = user_info (mUsers l) v" if "v \<noteq> src" for v
    using users.rename [OF assms ren] that by auto
  moreover have "mTables (snd (do_nickname src doc l)) = mTables l"
    "mUsers (snd (do_nickname src doc l)) = us \<or> mUsers (snd (do_nickname src doc l)) = mUsers l"
    using SendPlayerEvent_frame [of src "''Nick''" "l\<lparr>mUsers := us\<rparr>"] by (auto simp: do_nickname_def ren)
  ultimately show ?thesis by (intro others_same_tables) auto
qed

lemma others_quit:
  assumes "books_ok (mTableIds l) (mUserIds l) (mUsers l) (mTables l)"
  shows "others_same src l (snd (do_quit src doc l))"
proof -
  let ?k = "GetPlayerTable src (mUsers l)"
  have same: "others_same src l l" by (simp add: others_same_tables)
  have "others_same src l (snd (RemovePlayerFromTable src ?k l))"
  proof (cases "?k = LOBBY_UID")
    case True
    have "mId t \<noteq> LOBBY_UID" if "t \<in> set (mTables l)" for t
      using table_numbers [OF assms that] by (simp add: LOBBY_UID_def)
    then have "map (\<lambda>t. if mId t = ?k then RemovePlayer src t else t) (mTables l) = mTables l"
      unfolding True by (intro map_idI) simp
    then have "mTables (snd (RemovePlayerFromTable src ?k l)) = mTables l"
      using RemovePlayerFromTable_frame [of src ?k l] by auto
    moreover have "user_info (mUsers (snd (RemovePlayerFromTable src ?k l))) v = user_info (mUsers l) v" if "v \<noteq> src" for v
      using RemovePlayerFromTable_frame [of src ?k l] users.move [OF books_D(3) [OF assms], of src 0 NOWHERE] that by auto
    ultimately show ?thesis by (intro others_same_tables) auto
  next
    case False
    then show ?thesis
      using RemovePlayerFromTable_others [OF assms, of _ src _ ?k] RemovePlayerFromTable_frame [of src ?k l]
        users.move [OF books_D(3) [OF assms], of src 0 NOWHERE]
      by (auto simp: others_same_def)
  qed
  with same show ?thesis by (cases "?k = u32_field ''table_id'' doc") (simp_all add: do_quit_def)
qed

lemma others_join:
  assumes "books_ok (mTableIds l) (mUserIds l) (mUsers l) (mTables l)" "do_join src doc l = Some (out, l')"
  shows "others_same src l l'"
proof -
  let ?k = "u32_field ''table_id'' doc"
  from do_join_frame [OF assms(2)] consider "l' = l"
    | p t ts where "GetPlayerTable src (mUsers l) = LOBBY_UID" "seat_player src ?k (mTables l) = Some (p, t, ts)"
      "mTables l' = ts" "mUsers l' = mUsers l \<or> mUsers l' = SetPlayingTable src ?k p (mUsers l)"
    by (auto split: if_splits)
  then show ?thesis
  proof cases
    case 1
    then show ?thesis by (simp add: others_same_tables)
  next
    case 2
    from seat_player_first [OF 2(2)] obtain ts1 t0 ts2 where s: "mTables l = ts1 @ t0 # ts2" "ts = ts1 @ t # ts2"
      "join_table src t0 = (p, t)" by blast
    have "same_game t0 t" using join_table_frame [OF s(3)] by (simp add: same_game_def)
    then have "list_all2 same_game (mTables l) (mTables l')"
      unfolding 2(3) s(1,2) by (simp add: list_all2_append same_games)
    moreover have "user_info (mUsers l') v = user_info (mUsers l) v" if "v \<noteq> src" for v
      using 2(4) users.move [OF books_D(3) [OF assms(1)], of src ?k p] that by auto
    ultimately show ?thesis using 2(1) by (simp add: others_same_def)
  qed
qed

lemma deliver_others:
  assumes "lobby_ok l" "Lobby_Deliver env req l = Some (ret, out, l')"
  shows "others_same (src_uuid req) l l'"
proof -
  have ok: "books_ok (mTableIds l) (mUserIds l) (mUsers l) (mTables l)"
    using assms(1) by (simp add: lobby_ok_def)
  show ?thesis
    using assms(2)
  proof (cases rule: Lobby_Deliver_cases)
    case 1
    then show ?thesis by (simp add: others_same_tables)
  next
    case (2 doc o1)
    show ?thesis
    proof (cases "IsTaken (dest_uuid req) (mTableIds l)")
      case True
      with lobby_number_free [OF assms(1)] have dest: "dest_uuid req \<noteq> LOBBY_UID" by auto
      have "l' = l \<or> (\<exists>o2 ts. GetPlayerTable (src_uuid req) (mUsers l) = dest_uuid req \<and>
          forward env (src_uuid req) doc (dest_uuid req) (mTables l) = Some (o2, ts) \<and> l' = l\<lparr>mTables := ts\<rparr>)"
        using 2 True by (auto simp: handle_document_def Let_def split: if_splits)
      with dest show ?thesis by (auto simp: others_same_def same_games dest: forward_others)
    next
      case False
      then have "l' = l \<or> lobby_request (src_uuid req) doc l = Some (ret, o1, l')"
        using 2 by (simp add: handle_document_def split: if_splits)
      then show ?thesis
        using others_login [OF books_D(3) [OF ok]] others_nickname [OF books_D(3) [OF ok]] others_quit [OF ok] others_join [OF ok]
          others_same_tables [of l l "src_uuid req"]
        by (auto simp: lobby_request_def Let_def split: if_splits) (metis snd_conv)+
    qed
  qed
qed

text \<open>
  C11. A request stays with its sender: it changes the record of no other user; a sender who is at a
  table can change no other table; and a sender who is at none can change no game at all, neither the
  deal nor the scores of any table, whatever the request says.
\<close>

theorem request_stays_with_its_sender:
  assumes "lobby_reachable l" "Lobby_Deliver env req l = Some (ret, out, l')"
  shows "(\<forall>v. v \<noteq> src_uuid req \<longrightarrow> user_info (mUsers l') v = user_info (mUsers l) v) \<and>
    (if GetPlayerTable (src_uuid req) (mUsers l) = LOBBY_UID
     then list_all2 (\<lambda>t t'. mId t' = mId t \<and> mEngine t' = mEngine t \<and> mScore t' = mScore t) (mTables l) (mTables l')
     else \<forall>t \<in> set (mTables l). mId t \<noteq> GetPlayerTable (src_uuid req) (mUsers l) \<longrightarrow> t \<in> set (mTables l'))"
  using deliver_others [OF lobby_reachable_ok [OF assms(1)] assms(2)]
  unfolding others_same_def same_game_def [abs_def] .

lemma request_stays_with_its_sender_witness:
  "Lobby_Deliver example_env (message 10 LOBBY_UID (table_message ''RequestQuitTable'')) joined_lobby \<noteq> None \<and>
   (case Lobby_Deliver example_env (message 10 LOBBY_UID (table_message ''RequestQuitTable'')) joined_lobby of
      Some (ret, out, l') \<Rightarrow> user_info (mUsers l') 11 = None | None \<Rightarrow> False)"
proof -
  have "Lobby_Deliver example_env (message 10 LOBBY_UID (table_message ''RequestQuitTable'')) joined_lobby \<noteq> None"
    unfolding Deliver_message [OF messages_ok(3)]
    using lobby_number_free [OF lobby_reachable_ok [OF joined_reachable]]
    by (simp add: handle_document_def message_def lobby_request_def table_message_def FindValue_cmd)
  then obtain ret out l' where d: "Lobby_Deliver example_env (message 10 LOBBY_UID (table_message ''RequestQuitTable'')) joined_lobby =
      Some (ret, out, l')" by auto
  have "user_info (mUsers joined_lobby) 11 = None" by (simp add: joined_run(2) user_info_def example_user_def)
  with request_stays_with_its_sender [OF joined_reachable d] d show ?thesis by (simp add: message_def)
qed

lemma lobby_request_at:
  assumes "lobby_ok l" "handle_document env req doc l = Some (ret, out, l')" "dest_uuid req = LOBBY_UID"
  shows "lobby_request (src_uuid req) doc l = Some (ret, out, l')"
  using assms(2,3) lobby_number_free [OF assms(1)] by (simp add: handle_document_def)

text \<open>A user who is recorded at table 0, and what keeps the record there.\<close>

definition off_tables :: "nat \<Rightarrow> lobby \<Rightarrow> bool" where
  "off_tables src l \<longleftrightarrow> (\<exists>nick p. user_info (mUsers l) src = Some (nick, 0, p))"

lemma off_tables_D: "off_tables src l \<Longrightarrow> GetPlayerTable src (mUsers l) = 0 \<and> IsHere src (mUsers l)"
  by (auto simp: off_tables_def user_info_def GetPlayerTable_def IsHere_find split: option.splits)

lemma off_tables_join: "off_tables src l \<Longrightarrow> do_join src doc l = Some ([], l)"
  using off_tables_D [of src l] by (simp add: do_join_def LOBBY_UID_def)

lemma quit_off_tables:
  assumes "users_ok (mUsers l)" "off_tables src l \<or> IsHere src (mUsers l) \<and> u32_field ''table_id'' doc = GetPlayerTable src (mUsers l)"
  shows "off_tables src (snd (do_quit src doc l))"
proof (cases "GetPlayerTable src (mUsers l) = u32_field ''table_id'' doc")
  case True
  then have "mUsers (snd (do_quit src doc l)) = SetPlayingTable src 0 NOWHERE (mUsers l)"
    using RemovePlayerFromTable_frame [of src "u32_field ''table_id'' doc" l] by (auto simp: do_quit_def)
  moreover have "user_info (mUsers l) src \<noteq> None"
    using assms(2) off_tables_D [of src l] by (auto simp: user_info_def IsHere_find)
  ultimately show ?thesis using users.move [OF assms(1), of src 0 NOWHERE] by (auto simp: off_tables_def)
next
  case False
  with assms(2) show ?thesis by (auto simp: do_quit_def)
qed

lemma login_off_tables:
  assumes "users_ok (mUsers l)" "off_tables src l"
  shows "off_tables src (snd (do_login src doc l))"
proof -
  let ?u = "\<lparr>uUuid = src, uTable = LOBBY_UID, uPlace = NOWHERE, uIdentity = Identity_FromJson (GetObj doc) Identity_new\<rparr>"
  have "user_info (snd (AddEntry ?u (mUsers l))) = user_info (mUsers l)"
    using users.add [OF assms(1), of ?u "fst (AddEntry ?u (mUsers l))" "snd (AddEntry ?u (mUsers l))"] assms(2)
    by (auto simp: off_tables_def)
  with do_login_frame [of src doc l] assms(2) show ?thesis by (auto simp: off_tables_def)
qed

lemma nickname_off_tables:
  assumes "users_ok (mUsers l)" "off_tables src l"
  shows "off_tables src (snd (do_nickname src doc l))"
proof -
  let ?nick = "GetString (FindValue ''nickname'' doc)"
  obtain b us where ren: "ChangeNickName src ?nick (mUsers l) = (b, us)" by (cases "ChangeNickName src ?nick (mUsers l)")
  have "\<exists>nick p. user_info us src = Some (nick, 0, p)"
    using users.rename [OF assms(1) ren] assms(2) by (auto simp: off_tables_def)
  moreover have "mUsers (snd (do_nickname src doc l)) = us \<or> mUsers (snd (do_nickname src doc l)) = mUsers l"
    using SendPlayerEvent_frame [of src "''Nick''" "l\<lparr>mUsers := us\<rparr>"] by (auto simp: do_nickname_def ren)
  ultimately show ?thesis using assms(2) by (auto simp: off_tables_def)
qed

lemma deliver_off_tables:
  assumes "lobby_ok l" "off_tables src l" "Lobby_Deliver env req l = Some (ret, out, l')"
  shows "off_tables src l'"
proof (cases "src_uuid req = src")
  case False
  then show ?thesis
    using deliver_others [OF assms(1,3)] assms(2) by (auto simp: others_same_def off_tables_def)
next
  case True
  have ok: "users_ok (mUsers l)" using assms(1) by (simp add: lobby_ok_def books_ok_def)
  show ?thesis
    using assms(3)
  proof (cases rule: Lobby_Deliver_cases)
    case 1
    with assms(2) show ?thesis by simp
  next
    case (2 doc o1)
    have "mUsers l' = mUsers l \<or> lobby_request src doc l = Some (ret, o1, l')"
      using 2 True by (auto simp: handle_document_def Let_def split: if_splits)
    then show ?thesis
    proof
      assume "mUsers l' = mUsers l"
      with assms(2) show ?thesis by (simp add: off_tables_def)
    next
      assume "lobby_request src doc l = Some (ret, o1, l')"
      then show ?thesis
        using assms(2) login_off_tables [OF ok assms(2), of doc] nickname_off_tables [OF ok assms(2), of doc]
          quit_off_tables [OF ok disjI1, of src doc] off_tables_join [OF assms(2), of doc]
        by (auto simp: lobby_request_def Let_def split: if_splits)
    qed
  qed
qed

lemma create_users: "mUsers (snd (Lobby_CreateTable name g p l)) = mUsers l"
  by (simp add: Lobby_CreateTable_def Let_def split_beta)

lemma init_users: "mUsers (Lobby_Initialize name tables l) = mUsers l"
proof -
  have "mUsers (fold (\<lambda>(n, p) l. snd (Lobby_CreateTable n Game_default p l)) tables l) = mUsers l" for l
    by (induction tables arbitrary: l) (auto simp: create_users)
  then show ?thesis by (simp add: Lobby_Initialize_def)
qed

lemma remove_off_tables:
  assumes "lobby_ok l" "off_tables src l" "IsHere src (mUsers (RemoveUser u l))"
  shows "off_tables src (RemoveUser u l)"
proof -
  let ?k = "GetPlayerTable u (mUsers l)"
  let ?us = "if ?k \<noteq> LOBBY_UID then SetPlayingTable u 0 NOWHERE (mUsers l) else mUsers l"
  have ok: "users_ok (mUsers l)" using assms(1) by (simp add: lobby_ok_def books_ok_def)
  have us: "mUsers (RemoveUser u l) = Users_Remove u ?us"
    using RemovePlayerFromTable_frame [of u ?k l] by (auto simp: RemoveUser_def Let_def)
  have "users_ok ?us" using users.move [OF ok, of u 0 NOWHERE] ok by simp
  from users.remove [OF this, of u] have gone: "user_info (mUsers (RemoveUser u l)) = (user_info ?us)(u := None)"
    by (simp add: us)
  have "user_info (mUsers (RemoveUser u l)) src \<noteq> None" using assms(3) by (simp add: user_info_def IsHere_find)
  then have "u \<noteq> src" by (auto simp: gone)
  with gone users.move [OF ok, of u 0 NOWHERE] assms(2) show ?thesis by (auto simp: off_tables_def)
qed

lemma step_off_tables:
  "lobby_step l l' \<Longrightarrow> lobby_ok l \<Longrightarrow> off_tables src l \<Longrightarrow> IsHere src (mUsers l') \<Longrightarrow> off_tables src l'"
proof (induction rule: lobby_step.induct)
  case (disconnects l uuid)
  then show ?case by (rule remove_off_tables)
next
  case (requests env req l ret out l')
  show ?case by (rule deliver_off_tables [OF requests(3,4,2)])
qed (auto simp: off_tables_def create_users init_users AddAllowedClient_def AddUser_def split_beta)

text \<open>
  What may happen to a lobby while a user stays in its list: any steps, with any requests of this and
  other users.
\<close>

inductive stays_listed :: "nat \<Rightarrow> lobby \<Rightarrow> lobby \<Rightarrow> bool" for src where
  nothing: "stays_listed src l l"
| more: "stays_listed src l l' \<Longrightarrow> lobby_step l' l'' \<Longrightarrow> IsHere src (mUsers l'') \<Longrightarrow> stays_listed src l l''"

lemma listed_off_tables:
  "stays_listed src l l' \<Longrightarrow> lobby_ok l \<Longrightarrow> off_tables src l \<Longrightarrow> lobby_ok l' \<and> off_tables src l'"
  by (induction rule: stays_listed.induct) (auto intro: lobby_step_ok step_off_tables)

text \<open>
  C27. A user who has left a table does not sit down again while the list of users has the user: leaving
  records table 0, which is not the lobby's number, and whatever happens to the lobby from then on
  (requests of any users with any content, this user's own among them, connections, departures of
  others, new tables), as long as the user is not removed from the list, the record stays at table 0
  and every request of this user to join a table has no reply and no effect. Only a removal, at a
  disconnection or after a refused frame, ends this.
\<close>

theorem leaving_locks_out:
  assumes "lobby_reachable l" "IsHere src (mUsers l)" "u32_field ''table_id'' doc = GetPlayerTable src (mUsers l)"
    and "stays_listed src (snd (do_quit src doc l)) l'"
  shows "GetPlayerTable src (mUsers l') = 0 \<and> do_join src doc' l' = Some ([], l')"
proof -
  have ok: "lobby_ok l" using assms(1) by (rule lobby_reachable_ok)
  have "users_ok (mUsers l)" using ok by (simp add: lobby_ok_def books_ok_def)
  with assms(2,3) have "off_tables src (snd (do_quit src doc l))" by (intro quit_off_tables) simp_all
  from listed_off_tables [OF assms(4) lobby_ok_quit [OF ok] this] have "off_tables src l'" by blast
  then show ?thesis by (simp add: off_tables_D off_tables_join)
qed

lemma leaving_locks_out_witness:
  "let left = snd (do_quit 10 (JObj (table_message ''RequestQuitTable'')) joined_lobby);
       later = snd (AddUser 7 left)
   in GetPlayerTable 10 (mUsers later) = 0 \<and> do_join 10 (JObj (table_message ''RequestJoinTable'')) later = Some ([], later)"
proof -
  let ?left = "snd (do_quit 10 (JObj (table_message ''RequestQuitTable'')) joined_lobby)"
  have here: "IsHere 10 (mUsers joined_lobby)"
    "u32_field ''table_id'' (JObj (table_message ''RequestQuitTable'')) = GetPlayerTable 10 (mUsers joined_lobby)"
    by (simp_all add: joined_run(2) IsHere_def example_user_def GetPlayerTable_def FindValue_table)
  have "mUsers ?left = SetPlayingTable 10 0 NOWHERE (mUsers joined_lobby)"
    using RemovePlayerFromTable_frame [of 10 "GetPlayerTable 10 (mUsers joined_lobby)" joined_lobby] here(2)
    by (auto simp: do_quit_def)
  then have "IsHere 10 (mUsers (snd (AddUser 7 ?left)))"
    using here(1) by (simp add: AddUser_def split_beta IsHere_find SetPlayingTable_def find_update_user)
  then have "stays_listed 10 ?left (snd (AddUser 7 ?left))"
    by (rule stays_listed.more [OF stays_listed.nothing lobby_step.connects])
  from leaving_locks_out [OF joined_reachable here this] show ?thesis unfolding Let_def by blast
qed

text \<open>
  A name that another user has is refused, at the login and at a change of name: the only reply is
  the error "Nickname already used" to the sender, and the lobby does not change.
\<close>

theorem used_name_is_refused:
  assumes "u \<in> set (mUsers l)" "uUuid u \<noteq> src"
  shows "(GetString (Object_GetValue ''nickname'' (GetObj doc)) = username (uIdentity u) \<and> IsTaken src (mUserIds l) \<longrightarrow>
      do_login src doc l = (Lobby_Error cErrorNickNameUsed src, l)) \<and>
    (GetString (FindValue ''nickname'' doc) = username (uIdentity u) \<longrightarrow>
      do_nickname src doc l = (Lobby_Error cErrorNickNameUsed src, l))"
proof -
  have "CheckNickName src (username (uIdentity u)) (mUsers l)"
    using assms by (auto simp: CheckNickName_def list_ex_iff)
  then show ?thesis
    by (simp add: do_login_def AddEntry_def Identity_FromJson_def do_nickname_def ChangeNickName_def Let_def)
qed

lemma used_name_is_refused_witness:
  "do_login 11 (JObj (login_message ''Ann'')) (opened_lobby\<lparr>mUsers := [example_user LOBBY_UID NOWHERE]\<rparr>) =
     (Lobby_Error cErrorNickNameUsed 11, opened_lobby\<lparr>mUsers := [example_user LOBBY_UID NOWHERE]\<rparr>)"
proof -
  let ?l = "opened_lobby\<lparr>mUsers := [example_user LOBBY_UID NOWHERE]\<rparr>"
  have "example_user LOBBY_UID NOWHERE \<in> set (mUsers ?l)" "uUuid (example_user LOBBY_UID NOWHERE) \<noteq> 11"
    by (simp_all add: example_user_def)
  from used_name_is_refused [OF this, of "JObj (login_message ''Ann'')"] show ?thesis
    by (simp add: login_message_def Object_GetValue_def example_user_def opened_parts IsTaken_def)
qed

text \<open>A client who has not logged in is taken to be in the lobby and can sit at every table.\<close>

lemma stranger_takes_seats:
  assumes "\<not> IsHere src (mUsers l)" "seat_player src (u32_field ''table_id'' doc) (mTables l) = Some (p, t, ts)" "Place_IsValid p"
    and "Engine_GetDeck p (mEngine t) \<noteq> None"
  shows "\<exists>out. do_join src doc l = Some (out, l\<lparr>mTables := ts\<rparr>)"
proof -
  have none: "find_user src (mUsers l) = None" using assms(1) by (simp add: IsHere_find)
  then have "GetPlayerTable src (mUsers l) = LOBBY_UID" by (simp add: GetPlayerTable_def)
  moreover obtain deck where "Engine_GetDeck p (mEngine t) = Some deck" using assms(4) by blast
  moreover have "SetPlayingTable src k p (mUsers l) = mUsers l" for k using SetPlayingTable_absent [OF assms(1)] .
  ultimately show ?thesis
    using assms(2,3) none by (simp add: do_join_def Let_def SendPlayerEvent_def Users_GetEntry_def)
qed

end
