(* ===== verification/Session_Properties.thy ===== *)
theory Session_Properties
  imports Sessions Protocol_Properties Lobby_Properties
begin

text \<open>
  What the sessions guarantee: the server drives its lobby through the steps of the lobby, the buffers
  keep their size, nothing reaches the lobby before the pass phrase was shown, and where the checks fail.
\<close>
section \<open>Reachable servers\<close>

inductive server_reachable :: "(bytes \<Rightarrow> bytes \<Rightarrow> bytes) \<Rightarrow> server \<Rightarrow> bool" for aes where
  started: "server_reachable aes (Server_new randomPlace)"
| allowed: "server_reachable aes st \<Longrightarrow> server_reachable aes (AddClient web key pass st)"
| event: "server_reachable aes st \<Longrightarrow> sound_environment 4 env \<Longrightarrow> event_ok ev st \<Longrightarrow>
    server_event env aes mem ev st = Some (out, st') \<Longrightarrow> server_reachable aes st'"

subsection \<open>What leaves the lobby alone\<close>

lemma with_session_parts [simp]:
  "sLobby (with_session i f st) = sLobby st" "length (sPeers (with_session i f st)) = length (sPeers st)"
  "i < length (sPeers st) \<Longrightarrow> sPeers (with_session i f st) ! i = f (sPeers st ! i)"
  "j \<noteq> i \<Longrightarrow> sPeers (with_session i f st) ! j = sPeers st ! j"
  by (simp_all add: with_session_def)

lemma remove_user_parts [simp]:
  "sLobby (remove_user u st) = RemoveUser u (sLobby st)" "sPeers (remove_user u st) = sPeers st"
  by (simp_all add: remove_user_def)

text \<open>A session that only its protocol's counter told apart.\<close>

definition same_session :: "session \<Rightarrow> session \<Rightarrow> bool" where
  "same_session s s' \<longleftrightarrow> (\<exists>n. s' = s\<lparr>sProto := (sProto s)\<lparr>mTxFrameCounter := n\<rparr>\<rparr>)"

lemma same_session_refl [simp]: "same_session s s"
  unfolding same_session_def by (rule exI [of _ "mTxFrameCounter (sProto s)"]) simp

lemma same_session_trans: "same_session a b \<Longrightarrow> same_session b c \<Longrightarrow> same_session a c"
  by (auto simp: same_session_def)

lemma same_session_fields:
  "same_session s s' \<Longrightarrow> sUuid s' = sUuid s \<and> mIsPending s' = mIsPending s \<and> sSec s' = sSec s \<and> sHeader s' = sHeader s \<and>
     sAwait s' = sAwait s \<and> mData (sProto s') = mData (sProto s) \<and> mKey (sProto s') = mKey (sProto s)"
  by (auto simp: same_session_def)

lemma Build_counter: "Protocol_Build aes mem src dst msg pfx p = Some (frame, p') \<Longrightarrow> \<exists>n. p' = p\<lparr>mTxFrameCounter := n\<rparr>"
  by (auto simp: Protocol_Build_def Let_def)

lemma Deliver_frame [frame]:
  assumes "PeerSession_Deliver aes mem i data st = Some (out, st')"
  shows "sLobby st' = sLobby st \<and> list_all2 same_session (sPeers st) (sPeers st') \<and> map fst out = [i]"
proof -
  obtain frame p where b: "Protocol_Build aes mem LOBBY_UID (sUuid (sPeers st ! i)) data [] (sProto (sPeers st ! i)) = Some (frame, p)"
    and s: "out = [(i, frame)]" "st' = with_session i (\<lambda>s. s\<lparr>sProto := p\<rparr>) st"
    using assms by (auto simp: PeerSession_Deliver_def Let_def)
  from Build_counter [OF b] obtain n where "p = (sProto (sPeers st ! i))\<lparr>mTxFrameCounter := n\<rparr>" by blast
  then have "same_session (sPeers st ! i) ((sPeers st ! i)\<lparr>sProto := p\<rparr>)" by (auto simp: same_session_def)
  then have "list_all2 same_session (sPeers st) (sPeers st')"
    unfolding s with_session_def by (cases "i < length (sPeers st)") (auto simp: list_all2_conv_all_nth nth_list_update list_update_beyond)
  with s show ?thesis by simp
qed

lemma deliver_all_frame [frame]:
  "deliver_all aes mem msgs st = Some (out, st') \<Longrightarrow>
   sLobby st' = sLobby st \<and> list_all2 same_session (sPeers st) (sPeers st') \<and> map fst out = map fst msgs"
proof (induction msgs arbitrary: st out)
  case Nil
  then show ?case by (simp add: list.rel_refl)
next
  case (Cons m msgs)
  obtain i data where m: "m = (i, data)" by (cases m)
  from Cons.prems obtain fs st1 fs' where 1: "PeerSession_Deliver aes mem i data st = Some (fs, st1)"
    "deliver_all aes mem msgs st1 = Some (fs', st')" "out = fs @ fs'" by (auto simp: m bind_eq_Some_conv)
  from Deliver_frame [OF 1(1)] Cons.IH [OF 1(2)] show ?case
    by (auto simp: m 1(3) intro: list_all2_trans [of same_session same_session same_session] same_session_trans)
qed

subsection \<open>The cases of a body\<close>

text \<open>The session when its body is examined.\<close>

definition examined :: "nat \<Rightarrow> server \<Rightarrow> session" where
  "examined i st = (if mIsPending (sPeers st ! i) then load_security (sLobby st) (sPeers st ! i) else sPeers st ! i)"

lemma load_security_fields [simp]:
  "mIsPending (load_security l s) = mIsPending s" "sUuid (load_security l s) = sUuid s" "sAwait (load_security l s) = sAwait s"
  "mData (sProto (load_security l s)) = mData (sProto s)"
  by (simp_all add: load_security_def SetSecurity_def Let_def split: option.split)

lemma examined_fields [simp]:
  "mIsPending (examined i st) = mIsPending (sPeers st ! i)" "sUuid (examined i st) = sUuid (sPeers st ! i)"
  "sAwait (examined i st) = sAwait (sPeers st ! i)" "mData (sProto (examined i st)) = mData (sProto (sPeers st ! i))"
  by (simp_all add: examined_def)

lemma HandleBody_cases:
  assumes "HandleBody env aes mem i st = Some (out, st')"
  obtains
    (refused) ok msg where "DecryptPayload aes mem [] (sHeader (examined i st)) (sProto (examined i st)) = Some (ok, msg)"
      "\<not> ok \<or> mIsPending (sPeers st ! i) \<and> msg \<noteq> passPhrase (sSec (examined i st))"
      "out = []" "st' = remove_user (sUuid (sPeers st ! i)) (with_session i (\<lambda>_. examined i st) st)"
  | (accepted) "DecryptPayload aes mem [] (sHeader (examined i st)) (sProto (examined i st)) = Some (True, passPhrase (sSec (examined i st)))"
      "mIsPending (sPeers st ! i)"
      "PeerSession_Deliver aes mem i (login_request (sUuid (sPeers st ! i)))
        (with_session i (\<lambda>s. s\<lparr>mIsPending := False\<rparr>) (with_session i (\<lambda>_. examined i st) st)) = Some (out, st')"
  | (request) msg ret replies l where "DecryptPayload aes mem [] (sHeader (sPeers st ! i)) (sProto (sPeers st ! i)) = Some (True, msg)"
      "\<not> mIsPending (sPeers st ! i)"
      "Lobby_Deliver env \<lparr>src_uuid = src_uid (sHeader (sPeers st ! i)), dest_uuid = dst_uid (sHeader (sPeers st ! i)), arg = msg\<rparr> (sLobby st)
        = Some (ret, replies, l)"
      "deliver_all aes mem replies ((with_session i (\<lambda>_. sPeers st ! i) st)\<lparr>sLobby := l\<rparr>) = Some (out, st')"
proof -
  obtain ok msg where d: "DecryptPayload aes mem [] (sHeader (examined i st)) (sProto (examined i st)) = Some (ok, msg)"
    using assms by (auto simp: HandleBody_def Let_def bind_eq_Some_conv examined_def)
  note h = assms [unfolded HandleBody_def Let_def, folded examined_def]
  consider "\<not> ok \<or> mIsPending (sPeers st ! i) \<and> msg \<noteq> passPhrase (sSec (examined i st))"
    | "ok" "mIsPending (sPeers st ! i)" "msg = passPhrase (sSec (examined i st))" | "ok" "\<not> mIsPending (sPeers st ! i)" by blast
  then show thesis
  proof cases
    case 1
    then have "out = []" "st' = remove_user (sUuid (sPeers st ! i)) (with_session i (\<lambda>_. examined i st) st)"
      using h d by (auto split: if_splits)
    from refused [OF d 1 this] show thesis .
  next
    case 2
    with d have "DecryptPayload aes mem [] (sHeader (examined i st)) (sProto (examined i st)) = Some (True, passPhrase (sSec (examined i st)))"
      by simp
    from accepted [OF this 2(2)] h 2 d show thesis by simp
  next
    case 3
    then have e: "examined i st = sPeers st ! i" by (simp add: examined_def)
    from 3 h d obtain ret replies l where
      "Lobby_Deliver env \<lparr>src_uuid = src_uid (sHeader (sPeers st ! i)), dest_uuid = dst_uid (sHeader (sPeers st ! i)), arg = msg\<rparr> (sLobby st)
        = Some (ret, replies, l)"
      "deliver_all aes mem replies ((with_session i (\<lambda>_. sPeers st ! i) st)\<lparr>sLobby := l\<rparr>) = Some (out, st')"
      by (auto simp: e bind_eq_Some_conv)
    from request [OF _ 3(2) this] d 3 e show thesis by simp
  qed
qed

lemma HandleBody_lobby:
  assumes "HandleBody env aes mem i st = Some (out, st')"
  shows "sLobby st' = sLobby st \<or> sLobby st' = RemoveUser (sUuid (sPeers st ! i)) (sLobby st) \<or>
    \<not> mIsPending (sPeers st ! i) \<and> (\<exists>req ret replies. Lobby_Deliver env req (sLobby st) = Some (ret, replies, sLobby st'))"
  using assms
proof (cases rule: HandleBody_cases)
  case accepted
  from Deliver_frame [OF accepted(3)] show ?thesis by simp
next
  case (request msg ret replies l)
  from deliver_all_frame [OF request(4)] request(2,3) show ?thesis by auto
qed simp

lemma server_lobby: "server_reachable aes st \<Longrightarrow> lobby_reachable (sLobby st)"
proof (induction rule: server_reachable.induct)
  case (started randomPlace)
  show ?case unfolding Server_new_def server.simps
    by (rule lobby_reachable.step [OF lobby_reachable.started lobby_step.opens])
next
  case (allowed st web key pass)
  then show ?case unfolding AddClient_def server.simps by (simp add: lobby_reachable.step [OF _ lobby_step.allowed])
next
  case (event st env ev mem out st')
  have body: "lobby_reachable (sLobby s')" if "HandleBody env aes mem i s = Some (o', s')" "lobby_reachable (sLobby s)" for i s o' s'
    using HandleBody_lobby [OF that(1)] lobby_reachable.step [OF that(2)] that(2) event.hyps(2)
      lobby_step.disconnects lobby_step.requests by metis
  show ?case
  proof (cases ev)
    case (Peer_Connected buffer)
    with event show ?thesis
      by (auto simp: server_event_def PeerSession_Start_def split_beta Let_def intro: lobby_reachable.step [OF _ lobby_step.connects])
  next
    case (Header_Received i data)
    with event show ?thesis by (auto simp: server_event_def ReadHeader_def Let_def)
  next
    case (Body_Received i data)
    then have "HandleBody env aes mem i (with_session i (\<lambda>s. s\<lparr>sProto := receive_body data (sProto s), sAwait := Await_Header\<rparr>) st) = Some (out, st')"
      using event by (simp add: server_event_def ReadBody_def)
    from body [OF this] event show ?thesis by simp
  next
    case (Peer_Disconnected i)
    with event show ?thesis by (auto simp: server_event_def intro: lobby_reachable.step [OF _ lobby_step.disconnects])
  next
    case (Body_Error i)
    with event show ?thesis by (auto simp: server_event_def)
  qed
qed

section \<open>The invariant of the sessions\<close>

definition session_ok :: "session \<Rightarrow> bool" where
  "session_ok s \<longleftrightarrow> length (mData (sProto s)) = PROTO_HEADER_SIZE + PROTO_MAX_BODY_SIZE \<and>
     (sAwait s = Await_Body \<longrightarrow> BodyLength (sHeader s) < PROTO_MAX_BODY_SIZE)"

definition sessions_ok :: "server \<Rightarrow> bool" where
  "sessions_ok st \<longleftrightarrow> list_all session_ok (sPeers st)"

lemma sessions_ok_with [keeps]:
  assumes "sessions_ok st" "i < length (sPeers st) \<Longrightarrow> session_ok (sPeers st ! i) \<Longrightarrow> session_ok (f (sPeers st ! i))"
  shows "sessions_ok (with_session i f st)"
proof (cases "i < length (sPeers st)")
  case True
  then have "session_ok (f (sPeers st ! i))" using assms by (simp add: sessions_ok_def list_all_length)
  with assms(1) show ?thesis
    by (auto simp: sessions_ok_def with_session_def list_all_iff dest!: subsetD [OF set_update_subset_insert])
next
  case False
  with assms(1) show ?thesis by (simp add: sessions_ok_def with_session_def list_update_beyond)
qed

lemma sessions_ok_same:
  assumes "sessions_ok st" "list_all2 same_session (sPeers st) (sPeers st')"
  shows "sessions_ok st'"
proof -
  have "session_ok a \<longrightarrow> session_ok b" if "same_session a b" for a b
    using same_session_fields [OF that] by (simp add: session_ok_def)
  then have "list_all2 (\<lambda>a b. session_ok a \<longrightarrow> session_ok b) (sPeers st) (sPeers st')"
    using assms(2) by (rule list_all2_mono [rotated])
  with assms(1) show ?thesis
    unfolding sessions_ok_def by (auto simp: list_all_length list_all2_conv_all_nth)
qed

lemma sessions_ok_body [keeps]:
  assumes "sessions_ok st" "i < length (sPeers st)" "sAwait (sPeers st ! i) \<noteq> Await_Body"
    and "HandleBody env aes mem i st = Some (out, st')"
  shows "sessions_ok st'"
proof -
  have examined: "sessions_ok (with_session i (\<lambda>_. examined i st) st)"
    using assms(3) by (intro sessions_ok_with [OF assms(1)]) (simp add: session_ok_def)
  show ?thesis
    using assms(4)
  proof (cases rule: HandleBody_cases)
    case refused
    with examined show ?thesis by (simp add: sessions_ok_def)
  next
    case accepted
    have "sessions_ok (with_session i (\<lambda>s. s\<lparr>mIsPending := False\<rparr>) (with_session i (\<lambda>_. examined i st) st))"
      by (intro sessions_ok_with [OF examined]) (simp add: session_ok_def)
    from sessions_ok_same [OF this] Deliver_frame [OF accepted(3)] show ?thesis by blast
  next
    case (request msg ret replies l)
    have "sessions_ok ((with_session i (\<lambda>_. sPeers st ! i) st)\<lparr>sLobby := l\<rparr>)"
      using sessions_ok_with [OF assms(1), of i "\<lambda>s. s"] by (simp add: sessions_ok_def with_session_def)
    from sessions_ok_same [OF this] deliver_all_frame [OF request(4)] show ?thesis by blast
  qed
qed

lemma sessions_ok_event [keeps]:
  assumes "sessions_ok st" "event_ok ev st" "server_event env aes mem ev st = Some (out, st')"
  shows "sessions_ok st'"
proof (cases ev)
  case (Peer_Connected buffer)
  with assms show ?thesis
    by (auto simp: server_event_def PeerSession_Start_def split_beta Let_def sessions_ok_def session_ok_def PeerSession_new_def
      Protocol_new_def event_ok_def)
next
  case (Header_Received i data)
  let ?p = "receive_header data (sProto (sPeers st ! i))"
  from Header_Received assms obtain ok h where h: "ParseHeader (sHeader (sPeers st ! i)) ?p = Some (ok, h)"
    "st' = with_session i (\<lambda>s. s\<lparr>sProto := ?p, sHeader := h, sAwait := (if ok then Await_Body else Await_Header)\<rparr>) st"
    by (auto simp: server_event_def ReadHeader_def Let_def)
  have "length (mData (receive_header data p)) = PROTO_HEADER_SIZE + PROTO_MAX_BODY_SIZE"
    if "length (mData p) = PROTO_HEADER_SIZE + PROTO_MAX_BODY_SIZE" for p
    using that assms(2) Header_Received by (simp add: receive_header_def event_ok_def)
  moreover have "BodyLength h < PROTO_MAX_BODY_SIZE" if ok
    using ParseHeader_bound [of "sHeader (sPeers st ! i)" ?p h] h(1) that by simp
  ultimately show ?thesis
    unfolding h(2) by (intro sessions_ok_with [OF assms(1)]) (simp add: session_ok_def)
next
  case (Body_Received i data)
  let ?f = "\<lambda>s. s\<lparr>sProto := receive_body data (sProto s), sAwait := Await_Header\<rparr>"
  have i: "i < length (sPeers st)" "length data = BodyLength (sHeader (sPeers st ! i))" "sAwait (sPeers st ! i) = Await_Body"
    using assms(2) Body_Received by (simp_all add: event_ok_def)
  have "sessions_ok (with_session i ?f st)"
    using i by (intro sessions_ok_with [OF assms(1)]) (simp add: session_ok_def receive_body_length)
  moreover have "HandleBody env aes mem i (with_session i ?f st) = Some (out, st')"
    using assms(3) Body_Received by (simp add: server_event_def ReadBody_def)
  ultimately show ?thesis using i by (auto intro: sessions_ok_body)
next
  case (Peer_Disconnected i)
  have "sessions_ok (remove_user u st)" for u using assms(1) by (simp add: sessions_ok_def)
  with Peer_Disconnected assms show ?thesis
    by (auto simp: server_event_def session_ok_def intro!: sessions_ok_with)
next
  case (Body_Error i)
  with assms show ?thesis by (auto simp: server_event_def session_ok_def intro!: sessions_ok_with)
qed

lemma server_sessions: "server_reachable aes st \<Longrightarrow> sessions_ok st"
proof (induction rule: server_reachable.induct)
  case (started randomPlace)
  show ?case by (simp add: Server_new_def sessions_ok_def)
next
  case (allowed st web key pass)
  then show ?case by (simp add: AddClient_def sessions_ok_def)
qed (rule sessions_ok_event)

section \<open>Properties\<close>

text \<open>
  C28. The server drives its lobby: whatever clients connect, whatever bytes they send and however the
  calls of the decryption turn out, the lobby of a reachable server is a reachable lobby, so that
  what is proved of lobbies and of their tables holds of a running server.
\<close>

theorem server_drives_its_lobby:
  assumes "server_reachable aes st"
  shows "lobby_reachable (sLobby st)"
  by (rule server_lobby [OF assms])

lemma server_drives_its_lobby_witness: "lobby_reachable (sLobby (Server_new SOUTH))"
  by (rule server_drives_its_lobby [OF server_reachable.started [of example_aes]])

text \<open>
  C29. Every session of a reachable server is well formed: its buffer keeps its size, and the body
  it waits for fits behind the header.
\<close>

theorem sessions_are_well_formed:
  assumes "server_reachable aes st" "s \<in> set (sPeers st)"
  shows "length (mData (sProto s)) = PROTO_HEADER_SIZE + PROTO_MAX_BODY_SIZE \<and>
    (sAwait s = Await_Body \<longrightarrow> PROTO_HEADER_SIZE + BodyLength (sHeader s) < length (mData (sProto s)))"
  using server_sessions [OF assms(1)] assms(2) by (auto simp: sessions_ok_def session_ok_def list_all_iff)

text \<open>A server with one player it knows, and that player's connection.\<close>

definition example_server :: server where
  "example_server =
     PeerSession_Start (replicate 10268 (CHR '' '')) (AddClient ''ann'' ''0123456789abcdef'' ''open sesame'' (Server_new SOUTH))"

lemma example_server_reachable: "server_reachable example_aes example_server"
proof (rule server_reachable.event)
  show "server_reachable example_aes (AddClient ''ann'' ''0123456789abcdef'' ''open sesame'' (Server_new SOUTH))"
    by (intro server_reachable.allowed server_reachable.started)
  show "sound_environment 4 example_env" by (rule example_env_sound)
  show "event_ok (Peer_Connected (replicate 10268 (CHR '' ''))) (AddClient ''ann'' ''0123456789abcdef'' ''open sesame'' (Server_new SOUTH))"
    by (simp add: event_ok_def PROTO_HEADER_SIZE_def PROTO_MAX_BODY_SIZE_def)
  show "server_event example_env example_aes example_memory (Peer_Connected (replicate 10268 (CHR '' '')))
      (AddClient ''ann'' ''0123456789abcdef'' ''open sesame'' (Server_new SOUTH)) = Some ([], example_server)"
    by (simp add: server_event_def example_server_def)
qed

lemma example_server_parts:
  "sPeers example_server = [(PeerSession_new (replicate 10268 (CHR '' '')))\<lparr>sUuid := 10\<rparr>]"
  "GetSecurity ''ann'' (sLobby example_server) = Some \<lparr>webId = ''ann'', gek = ''0123456789abcdef'', passPhrase = ''open sesame''\<rparr>"
  "GetSecurity ''eve'' (sLobby example_server) = None" "GetSecurity [] (sLobby example_server) = None"
proof -
  have u: "TakeId (UniqueId_new USERS_UID MAXIMUM_USERS) = (10, \<lparr>mMin = 10, mMax = 200, mUsedIds = [10]\<rparr>)"
    by (subst TakeId_lowest [of _ 10]) (simp_all add: UniqueId_new_def USERS_UID_def MAXIMUM_USERS_def IsTaken_def)
  have l: "mUserIds (sLobby (Server_new SOUTH)) = UniqueId_new USERS_UID MAXIMUM_USERS" "mAllowedClients (sLobby (Server_new SOUTH)) = []"
    "sPeers (Server_new SOUTH) = []"
    by (simp_all add: Server_new_def Lobby_CreateTable_def Lobby_new_def Let_def split_beta)
  show "sPeers example_server = [(PeerSession_new (replicate 10268 (CHR '' '')))\<lparr>sUuid := 10\<rparr>]"
    "GetSecurity ''ann'' (sLobby example_server) = Some \<lparr>webId = ''ann'', gek = ''0123456789abcdef'', passPhrase = ''open sesame''\<rparr>"
    "GetSecurity ''eve'' (sLobby example_server) = None" "GetSecurity [] (sLobby example_server) = None"
    by (simp_all add: example_server_def PeerSession_Start_def AddClient_def AddAllowedClient_def AddUser_def l u GetSecurity_def Let_def)
qed

lemma sessions_are_well_formed_witness:
  "length (mData (sProto (hd (sPeers example_server)))) = PROTO_HEADER_SIZE + PROTO_MAX_BODY_SIZE"
proof -
  have "hd (sPeers example_server) \<in> set (sPeers example_server)" by (simp add: example_server_parts)
  from sessions_are_well_formed [OF example_server_reachable this] show ?thesis by blast
qed

lemma length_hex_string_le: "length (hex_string n) \<le> n + 1"
proof (induction n rule: less_induct)
  case (less n)
  show ?case
  proof (cases "n < 16")
    case True
    then show ?thesis by (subst hex_string_rec) simp
  next
    case False
    then have "n div 16 < n" by simp
    from less [OF this] False show ?thesis by (subst hex_string_rec) simp
  qed
qed

lemma length_hex_field: "length (hex_field w n) \<le> w + n + 2"
  using length_hex_string_le [of n] by (simp add: hex_field_def pad0_def)

text \<open>Any message of a 32-bit size is sent.\<close>

lemma Build_total:
  assumes "block_cipher (aes (cipher_key mem p))"
    and "src < 2 ^ 32" "dst < 2 ^ 32" "mTxFrameCounter p < 2 ^ 32" "length msg < 2 ^ 32" "length pfx < 2 ^ 32"
  shows "\<exists>frame p'. Protocol_Build aes mem src dst msg pfx p = Some (frame, p')"
proof -
  define sz where "sz = (cIVSize + length msg + cTagSize) * 2 mod 2 ^ 32"
  let ?hdr = "frame_header src dst sz (mTxFrameCounter p) pfx"
  have "sz < 2 ^ 32" by (simp add: sz_def)
  then have "length ?hdr < 2 ^ 61"
    using assms length_hex_field [of 2 cOptionCypheredData] length_hex_field [of 4 src] length_hex_field [of 4 dst]
      length_hex_field [of 4 sz] length_hex_field [of 4 "mTxFrameCounter p"] length_hex_field [of 4 "length pfx"]
    by (simp add: frame_header_def cOptionCypheredData_def)
  then have "\<exists>c. Encrypt aes mem ?hdr msg ''000000000000'' [] p = Some c"
    using Encrypt_spec(1) [where aes = aes and mem = mem and p = p and iv = "''000000000000''" and aad = ?hdr and s = msg and front = "[]"]
      assms by auto
  then show ?thesis by (auto simp: Protocol_Build_def Let_def sz_def)
qed

lemma length_dec_string: "length (dec_string n) \<le> n + 1"
proof (induction n rule: less_induct)
  case (less n)
  show ?case
  proof (cases "n < 10")
    case True
    then show ?thesis by (subst dec_string.simps) simp
  next
    case False
    then have "n div 10 < n" by simp
    from less [OF this] False show ?thesis by (subst dec_string.simps) simp
  qed
qed

lemma length_login_request: "length (login_request n) \<le> n + 100"
proof -
  have "login_request n = ''{'' @ [CHR 34] @ ''cmd'' @ [CHR 34] @ '':'' @ [CHR 34] @ ''RequestLogin'' @ [CHR 34] @ '','' @ [CHR 34] @ ''uuid'' @ [CHR 34] @ '':'' @ dec_string n @ ''}''"
    by (simp add: login_request_def Object_ToString_def make_object_def AddValue_def crlf_of_def indent_of_def next_level_def int_string_def
      escape_string_def CreateIndent_def)
  then show ?thesis using length_dec_string [of n] by simp
qed

lemma receive_keyed: "receive_frame frame (SetSecurity k q) = SetSecurity k (receive_frame frame q)"
  "receive_header s (SetSecurity k q) = SetSecurity k (receive_header s q)"
  by (simp_all add: receive_frame_def receive_header_def receive_body_def SetSecurity_def)

lemma ParseHeader_keyed: "ParseHeader h (SetSecurity k q) = ParseHeader h q" "ParsePrefix h (SetSecurity k q) = ParsePrefix h q"
  by (simp_all add: ParseHeader_def ParsePrefix_def SetSecurity_def)

lemma receive_twice: "receive_body s (receive_header d p) = receive_frame (d @ s) p" if "length d = PROTO_HEADER_SIZE"
  using that by (simp add: receive_frame_def)

section \<open>The handshake\<close>

text \<open>The session after the two parts of a frame.\<close>

lemma read_header:
  assumes "i < length (sPeers st)" "ParseHeader (sHeader (sPeers st ! i)) (receive_header data (sProto (sPeers st ! i))) = Some (True, h)"
  shows "ReadHeader i data st =
    Some (with_session i (\<lambda>s. s\<lparr>sProto := receive_header data (sProto (sPeers st ! i)), sHeader := h, sAwait := Await_Body\<rparr>) st)"
  using assms by (simp add: ReadHeader_def Let_def)

lemma examined_known:
  assumes "i < length (sPeers st)" "mIsPending (sPeers st ! i)"
    and "ParsePrefix (sHeader (sPeers st ! i)) (sProto (sPeers st ! i)) = h" "GetSecurity (h_prefix h) (sLobby st) = Some sec"
  shows "examined i st = (sPeers st ! i)\<lparr>sHeader := h, sSec := sec, sProto := SetSecurity (gek sec) (sProto (sPeers st ! i))\<rparr>"
  using assms by (simp add: examined_def load_security_def Let_def)

lemma HandleBody_pending:
  assumes "mIsPending (sPeers st ! i)" "i < length (sPeers st)"
    and "DecryptPayload aes mem [] (sHeader (examined i st)) (sProto (examined i st)) = Some (ok, msg)"
  shows "HandleBody env aes mem i st =
    (if ok \<and> msg = passPhrase (sSec (examined i st)) then
       PeerSession_Deliver aes mem i (login_request (sUuid (sPeers st ! i)))
         (with_session i (\<lambda>s. s\<lparr>mIsPending := False\<rparr>) (with_session i (\<lambda>_. examined i st) st))
     else Some ([], remove_user (sUuid (sPeers st ! i)) (with_session i (\<lambda>_. examined i st) st)))"
  using assms unfolding HandleBody_def Let_def by (simp add: examined_def)

lemma Deliver_session:
  "PeerSession_Deliver aes mem i data st = Some (out, st') \<Longrightarrow> j < length (sPeers st) \<Longrightarrow>
   same_session (sPeers st ! j) (sPeers st' ! j)"
  using Deliver_frame list_all2_nthD by blast

text \<open>
  C30. Before the pass phrase was shown a client cannot act on the lobby: a body from a pending session
  leaves the lobby as it is or removes the session's own number, and writes to no other peer. The
  pending state ends exactly when the identifier in the frame is that of an allowed player and the body,
  read with this player's key, is accepted and is this player's pass phrase, or when the identifier is
  unknown and the body, read with the key the session has, is accepted and is the pass phrase the
  session has, the empty text in a new session; the lobby then stays as it is and the client is asked
  to log in.
\<close>

theorem pending_session_cannot_act:
  assumes "i < length (sPeers st)" "mIsPending (sPeers st ! i)" "HandleBody env aes mem i st = Some (out, st')"
  defines "s \<equiv> sPeers st ! i"
  defines "h \<equiv> ParsePrefix (sHeader s) (sProto s)"
  shows "(sLobby st' = sLobby st \<or> sLobby st' = RemoveUser (sUuid s) (sLobby st)) \<and> set (map fst out) \<subseteq> {i} \<and>
    (if (case GetSecurity (h_prefix h) (sLobby st) of
           Some sec \<Rightarrow> DecryptPayload aes mem [] h (SetSecurity (gek sec) (sProto s)) = Some (True, passPhrase sec)
         | None \<Rightarrow> DecryptPayload aes mem [] h (sProto s) = Some (True, passPhrase (sSec s)))
     then \<not> mIsPending (sPeers st' ! i) \<and> sLobby st' = sLobby st \<and> map fst out = [i]
     else mIsPending (sPeers st' ! i))"
proof -
  let ?x = "examined i st"
  let ?shown = "case GetSecurity (h_prefix h) (sLobby st) of
           Some sec \<Rightarrow> DecryptPayload aes mem [] h (SetSecurity (gek sec) (sProto s)) = Some (True, passPhrase sec)
         | None \<Rightarrow> DecryptPayload aes mem [] h (sProto s) = Some (True, passPhrase (sSec s))"
  have shown: "?shown \<longleftrightarrow> DecryptPayload aes mem [] (sHeader ?x) (sProto ?x) = Some (True, passPhrase (sSec ?x))"
    using assms(2) by (simp add: examined_def load_security_def Let_def s_def h_def split: option.split)
  from assms(3) obtain ok msg where d: "DecryptPayload aes mem [] (sHeader ?x) (sProto ?x) = Some (ok, msg)"
    by (auto simp: HandleBody_def examined_def Let_def bind_eq_Some_conv)
  note body = HandleBody_pending [OF assms(2,1) d, of env]
  show ?thesis
  proof (cases ?shown)
    case True
    with shown d body assms(3) have
      deliver: "PeerSession_Deliver aes mem i (login_request (sUuid (sPeers st ! i)))
         (with_session i (\<lambda>s. s\<lparr>mIsPending := False\<rparr>) (with_session i (\<lambda>_. ?x) st)) = Some (out, st')"
      by simp
    from same_session_fields [OF Deliver_session [OF deliver, of i]] Deliver_frame [OF deliver] assms(1) True
    show ?thesis by simp
  next
    case False
    with shown d body assms(1-3) show ?thesis by (auto simp: s_def remove_user_def)
  qed
qed

text \<open>The request to log in goes out to a session with a key.\<close>

lemma login_is_sent:
  assumes "i < length (sPeers st)" "mTxFrameCounter (sProto (sPeers st ! i)) = 0" "sUuid (sPeers st ! i) < 65536"
    and "16 \<le> length (mKey (sProto (sPeers st ! i)))" "block_cipher (aes (take 16 (bytes_of (mKey (sProto (sPeers st ! i))))))"
  obtains reply st' where "PeerSession_Deliver aes mem i (login_request (sUuid (sPeers st ! i))) st = Some (reply, st')"
    "mIsPending (sPeers st' ! i) = mIsPending (sPeers st ! i)" "sLobby st' = sLobby st" "map fst reply = [i]"
proof -
  let ?u = "sUuid (sPeers st ! i)"
  have "\<exists>frame p'. Protocol_Build aes mem LOBBY_UID ?u (login_request ?u) [] (sProto (sPeers st ! i)) = Some (frame, p')"
    using assms length_login_request [of ?u] by (intro Build_total) (simp_all add: cipher_key_long LOBBY_UID_def)
  then obtain reply st' where deliver: "PeerSession_Deliver aes mem i (login_request ?u) st = Some (reply, st')"
    by (auto simp: PeerSession_Deliver_def Let_def)
  from same_session_fields [OF Deliver_session [OF deliver assms(1)]] Deliver_frame [OF deliver] deliver
  show ?thesis by (intro that [of reply st']) simp_all
qed

text \<open>
  C31. The handshake: the first frame of a client that has the key and the pass phrase of a player the
  lobby knows (the key of at least 16 bytes, the numbers below 65536, a body smaller than the buffer) is
  read to its end. It is accepted, with a request to log in, exactly when the memory that \<open>Decrypt\<close>
  compares with holds the frame's tag by the GCM standard; otherwise the client is removed, its session
  stays pending, and it gets no answer.
\<close>

theorem handshake:
  assumes frame: "BuildConnectionPacket aes mem web (passPhrase sec) p = Some (frame, p')"
    and client: "mKey p = gek sec" "16 \<le> length (gek sec)" "mTxFrameCounter p < 65536" "web \<noteq> []"
      "2 * (28 + length (passPhrase sec)) + length web + 1 < PROTO_MAX_BODY_SIZE"
    and aes: "block_cipher (aes (take 16 (bytes_of (gek sec))))"
    and server: "i < length (sPeers st)" "mIsPending (sPeers st ! i)" "sUuid (sPeers st ! i) < 65536"
      "length (mData (sProto (sPeers st ! i))) = PROTO_HEADER_SIZE + PROTO_MAX_BODY_SIZE"
    and known: "GetSecurity web (sLobby st) = Some sec"
  shows "\<exists>st1 reply st2. ReadHeader i (take PROTO_HEADER_SIZE frame) st = Some st1 \<and> sAwait (sPeers st1 ! i) = Await_Body \<and>
    length (drop PROTO_HEADER_SIZE frame) = BodyLength (sHeader (sPeers st1 ! i)) \<and>
    ReadBody env aes mem' i (drop PROTO_HEADER_SIZE frame) st1 = Some (reply, st2) \<and>
    (if tag_computed mem' = frame_tag aes (gek sec) (take (29 + length web) frame) (passPhrase sec)
     then \<not> mIsPending (sPeers st2 ! i) \<and> sLobby st2 = sLobby st \<and> map fst reply = [i]
     else mIsPending (sPeers st2 ! i) \<and> sLobby st2 = RemoveUser (sUuid (sPeers st ! i)) (sLobby st) \<and> reply = [])"
proof -
  let ?s = "sPeers st ! i" and ?front = "take PROTO_HEADER_SIZE frame" and ?rest = "drop PROTO_HEADER_SIZE frame"
  let ?q = "SetSecurity (gek sec) (sProto ?s)"
  define tag where "tag = frame_tag aes (gek sec) (take (29 + length web) frame) (passPhrase sec)"
  have q: "mKey ?q = mKey p" "length (mData ?q) = PROTO_HEADER_SIZE + PROTO_MAX_BODY_SIZE"
    using client server by (simp_all add: SetSecurity_def)
  have build: "Protocol_Build aes mem 0 LOBBY_UID (passPhrase sec) web p = Some (frame, p')"
    using frame by (simp add: BuildConnectionPacket_def)
  have pre: "block_cipher (aes (take 16 (bytes_of (mKey p))))" "16 \<le> length (mKey p)" "LOBBY_UID < 65536"
    using aes client by (simp_all add: LOBBY_UID_def)
  from frame_received [OF pre(1,2) q _ pre(3) client(3,5) build, of "sHeader ?s" mem'] client(4) obtain h where
    f: "ParseHeader (sHeader ?s) (receive_header ?front ?q) = Some (True, h)" "length frame = PROTO_HEADER_SIZE + BodyLength h"
      "ParsePrefix h (receive_frame frame ?q) = h\<lparr>h_prefix := web\<rparr>"
      "DecryptPayload aes mem' [] (h\<lparr>h_prefix := web\<rparr>) (receive_frame frame ?q) = Some (tag_computed mem' = tag, passPhrase sec)"
    by (auto simp: tag_def client(1))
  let ?st1 = "with_session i (\<lambda>s. s\<lparr>sProto := receive_header ?front (sProto ?s), sHeader := h, sAwait := Await_Body\<rparr>) st"
  let ?st2 = "with_session i (\<lambda>s. s\<lparr>sProto := receive_body ?rest (sProto s), sAwait := Await_Header\<rparr>) ?st1"
  let ?t = "sPeers ?st2 ! i"
  have head: "ReadHeader i ?front st = Some ?st1"
    using read_header [OF server(1)] f(1) by (simp add: receive_keyed ParseHeader_keyed)
  have front: "length ?front = PROTO_HEADER_SIZE" using f(2) by simp
  have t: "sProto ?t = receive_frame frame (sProto ?s)" "sHeader ?t = h" "mIsPending ?t" "sUuid ?t = sUuid ?s"
    using server receive_twice [OF front, of ?rest "sProto ?s"] by simp_all
  have "ParsePrefix h (sProto ?t) = h\<lparr>h_prefix := web\<rparr>" using f(3) by (simp add: t receive_keyed ParseHeader_keyed)
  then have x: "examined i ?st2 = ?t\<lparr>sHeader := h\<lparr>h_prefix := web\<rparr>, sSec := sec, sProto := SetSecurity (gek sec) (sProto ?t)\<rparr>"
    using server known t by (intro examined_known) simp_all
  have d: "DecryptPayload aes mem' [] (sHeader (examined i ?st2)) (sProto (examined i ?st2)) = Some (tag_computed mem' = tag, passPhrase sec)"
    using f(4) by (simp only: x session.simps t(1) receive_keyed) simp
  let ?st3 = "with_session i (\<lambda>_. examined i ?st2) ?st2"
  let ?st4 = "with_session i (\<lambda>s. s\<lparr>mIsPending := False\<rparr>) ?st3"
  have body: "ReadBody env aes mem' i ?rest ?st1 =
    (if tag_computed mem' = tag then PeerSession_Deliver aes mem' i (login_request (sUuid ?s)) ?st4
     else Some ([], remove_user (sUuid ?s) ?st3))"
    unfolding ReadBody_def using HandleBody_pending [OF _ _ d] server t by (simp add: x)
  obtain reply st5 where deliver: "PeerSession_Deliver aes mem' i (login_request (sUuid ?s)) ?st4 = Some (reply, st5)"
    and st5: "\<not> mIsPending (sPeers st5 ! i)" "sLobby st5 = sLobby st" "map fst reply = [i]"
    using login_is_sent [of i ?st4 aes mem'] aes client(2) server by (auto simp: x SetSecurity_def)
  have st3: "mIsPending (sPeers (remove_user u ?st3) ! i)" "sLobby (remove_user u ?st3) = RemoveUser u (sLobby st)" for u
    using server by simp_all
  show ?thesis
  proof (cases "tag_computed mem' = tag")
    case True
    with head body deliver st5 f(2) server show ?thesis
      unfolding tag_def [symmetric] by (intro exI [of _ ?st1] exI [of _ reply] exI [of _ st5]) simp
  next
    case False
    with head body st3 [of "sUuid ?s"] f(2) server show ?thesis
      unfolding tag_def [symmetric] by (intro exI [of _ ?st1] exI [of _ "[]"] exI [of _ "remove_user (sUuid ?s) ?st3"]) simp
  qed
qed

lemma handshake_witness:
  "\<exists>frame p' st1 reply st2. BuildConnectionPacket example_aes example_memory ''ann'' ''open sesame'' example_peer = Some (frame, p') \<and>
    ReadHeader 0 (take PROTO_HEADER_SIZE frame) example_server = Some st1 \<and> sAwait (sPeers st1 ! 0) = Await_Body \<and>
    length (drop PROTO_HEADER_SIZE frame) = BodyLength (sHeader (sPeers st1 ! 0)) \<and>
    ReadBody example_env example_aes example_memory 0 (drop PROTO_HEADER_SIZE frame) st1 = Some (reply, st2) \<and>
    (if tag_computed example_memory = frame_tag example_aes ''0123456789abcdef'' (take 32 frame) ''open sesame''
     then \<not> mIsPending (sPeers st2 ! 0) \<and> sLobby st2 = sLobby example_server \<and> map fst reply = [0]
     else mIsPending (sPeers st2 ! 0) \<and> sLobby st2 = RemoveUser (sUuid (sPeers example_server ! 0)) (sLobby example_server) \<and> reply = [])"
proof -
  obtain frame p' where "Protocol_Build example_aes example_memory 0 LOBBY_UID ''open sesame'' ''ann'' example_peer = Some (frame, p')"
    using Build_returns [of example_aes example_memory example_peer "''ann''" "''open sesame''" 0 LOBBY_UID] example_cipher
    by (auto simp: example_key LOBBY_UID_def)
  then have b: "BuildConnectionPacket example_aes example_memory ''ann'' (passPhrase \<lparr>webId = ''ann'', gek = ''0123456789abcdef'', passPhrase = ''open sesame''\<rparr>) example_peer = Some (frame, p')"
    by (simp add: BuildConnectionPacket_def)
  have "block_cipher (example_aes (take 16 (bytes_of ''0123456789abcdef'')))" by (rule example_aes_ok) simp
  from handshake [OF b, of 0 example_server example_env example_memory] this b show ?thesis
    by (simp add: example_key example_server_parts PeerSession_new_def Protocol_new_def PROTO_HEADER_SIZE_def PROTO_MAX_BODY_SIZE_def)
qed

section \<open>Where the checks fail\<close>

text \<open>
  A client whose identifier the lobby does not know gets in with an empty payload: no security is
  loaded, the pass phrase it has to show is the empty text of a new session, and it is asked to log in.
\<close>

theorem unknown_player_enters_with_nothing:
  assumes "i < length (sPeers st)" "mIsPending (sPeers st ! i)" "passPhrase (sSec (sPeers st ! i)) = []"
    and "GetSecurity (h_prefix (ParsePrefix (sHeader (sPeers st ! i)) (sProto (sPeers st ! i)))) (sLobby st) = None"
    and "DecryptPayload aes mem [] (ParsePrefix (sHeader (sPeers st ! i)) (sProto (sPeers st ! i))) (sProto (sPeers st ! i)) = Some (True, [])"
    and "HandleBody env aes mem i st = Some (out, st')"
  shows "\<not> mIsPending (sPeers st' ! i) \<and> sLobby st' = sLobby st \<and> map fst out = [i]"
proof -
  let ?s = "sPeers st ! i"
  have x: "examined i st = ?s\<lparr>sHeader := ParsePrefix (sHeader ?s) (sProto ?s)\<rparr>"
    using assms(2,4) by (simp add: examined_def load_security_def Let_def)
  let ?st = "with_session i (\<lambda>s. s\<lparr>mIsPending := False\<rparr>) (with_session i (\<lambda>_. examined i st) st)"
  have "PeerSession_Deliver aes mem i (login_request (sUuid ?s)) ?st = Some (out, st')"
    using assms(6) HandleBody_pending [OF assms(2,1), of aes mem True "[]"] assms(3,5) by (simp add: x)
  with same_session_fields [OF Deliver_session [OF this, of i]] Deliver_frame [OF this] assms(1) show ?thesis by simp
qed

text \<open>A frame with an empty message from a client without an identifier, in the session's buffer.\<close>

definition empty_header :: string where "empty_header = header_text 10 1 56 0 0"
definition empty_body :: string where "empty_body = '':'' @ ToHex (''000000000000'' @ text_of (zeros 16))"

lemma empty_frame:
  assumes "length (mData q) = 10268"
  shows "ParseHeader h (receive_header empty_header q) =
      Some (True, h\<lparr>h_option := 1, src_uid := 10, dst_uid := 1, payload_size := 56, frame_counter := 0, prefix_size := 0\<rparr>)"
    and "length empty_header = 28" "length empty_body = 57"
    and "mData (receive_body empty_body (receive_header empty_header q)) = empty_header @ empty_body @ drop 85 (mData q)"
proof -
  show l: "length empty_header = 28" "length empty_body = 57" by (simp_all add: empty_header_def empty_body_def length_header_text)
  have "mData (receive_header empty_header q) = header_text 10 1 56 0 0 @ drop 28 (mData q)"
    by (simp add: receive_header_def PROTO_HEADER_SIZE_def empty_header_def)
  from ParseHeader_text [OF _ _ _ _ _ this, of h]
  show "ParseHeader h (receive_header empty_header q) =
      Some (True, h\<lparr>h_option := 1, src_uid := 10, dst_uid := 1, payload_size := 56, frame_counter := 0, prefix_size := 0\<rparr>)"
    by (simp add: PROTO_MAX_BODY_SIZE_def)
  show "mData (receive_body empty_body (receive_header empty_header q)) = empty_header @ empty_body @ drop 85 (mData q)"
    using l receive_frame_data [of "empty_header @ empty_body" q] receive_twice [of empty_header empty_body q]
    by (simp add: PROTO_HEADER_SIZE_def)
qed

lemma empty_payload:
  assumes "block_cipher (aes (cipher_key mem q))" "mData q = empty_header @ empty_body @ s"
    and "prefix_size h = 0" "payload_size h = 56"
  shows "DecryptPayload aes mem [] h q = Some (tag_computed mem = text_of (zeros 16), [])"
proof -
  have nil: "text_of [] = []" by (simp add: text_of_def)
  have "DecryptPayload aes mem [] h q =
    Some (tag_computed mem = text_of (zeros 16),
      if zeros 16 = tag_of aes mem q ''000000000000'' (empty_header @ '':'') [] then text_of (stream_of aes mem q ''000000000000'' (text_of []))
      else replicate 0 (CHR 0x00))"
    using assms
    by (intro DecryptPayload_frame [where pfx = "[]" and rest = s])
      (simp_all add: empty_header_def empty_body_def length_header_text nil)
  moreover have "text_of (stream_of aes mem q ''000000000000'' (text_of [])) = []"
    by (simp add: gcm_stream_def text_of_def bytes_of_def)
  ultimately show ?thesis by simp
qed

definition stale_memory :: "string \<Rightarrow> memory" where
  "stale_memory stale = \<lparr>after_key = replicate 16 (CHR ''k''), tag_computed = stale\<rparr>"

definition empty_head :: header where
  "empty_head = Header_new\<lparr>h_option := 1, src_uid := 10, dst_uid := 1, payload_size := 56, frame_counter := 0, prefix_size := 0\<rparr>"

text \<open>The example server with the header of the empty frame, and with its body to be handled.\<close>

definition example_headed :: server where
  "example_headed = with_session 0 (\<lambda>s. s\<lparr>sProto := receive_header empty_header (sProto s), sHeader := empty_head, sAwait := Await_Body\<rparr>) example_server"

definition example_pending :: server where
  "example_pending = with_session 0 (\<lambda>s. s\<lparr>sProto := receive_body empty_body (sProto s), sAwait := Await_Header\<rparr>) example_headed"

lemma example_session:
  "length (sPeers example_pending) = 1" "sLobby example_pending = sLobby example_server" "sUuid (sPeers example_pending ! 0) = 10"
  "mIsPending (sPeers example_pending ! 0)" "sSec (sPeers example_pending ! 0) = \<lparr>webId = [], gek = [], passPhrase = []\<rparr>"
  "sHeader (sPeers example_pending ! 0) = empty_head" "sAwait (sPeers example_pending ! 0) = Await_Header"
  "mKey (sProto (sPeers example_pending ! 0)) = []"
  "mData (sProto (sPeers example_pending ! 0)) = empty_header @ empty_body @ drop 85 (replicate 10268 (CHR '' ''))"
  using empty_frame(4) [of "Protocol_new (replicate 10268 (CHR '' ''))"]
  by (simp_all add: example_pending_def example_headed_def example_server_parts PeerSession_new_def Protocol_new_def
      receive_body_def receive_header_def)

lemma example_prefix: "ParsePrefix empty_head q = empty_head" "h_prefix empty_head = []" "prefix_size empty_head = 0" "payload_size empty_head = 56"
  by (simp_all add: ParsePrefix_def empty_head_def Header_new_def)

lemma example_examined: "examined 0 example_pending = sPeers example_pending ! 0"
proof -
  have "(sPeers example_pending ! 0)\<lparr>sHeader := empty_head\<rparr> = sPeers example_pending ! 0"
    using example_session(6) by simp
  then show ?thesis
    by (simp add: examined_def load_security_def example_session example_prefix example_server_parts Let_def)
qed

lemma example_decrypt:
  "DecryptPayload example_aes (stale_memory stale) [] empty_head (sProto (sPeers example_pending ! 0)) = Some (stale = text_of (zeros 16), [])"
proof -
  have "block_cipher (example_aes (cipher_key (stale_memory stale) (sProto (sPeers example_pending ! 0))))"
    by (rule example_aes_ok) (simp add: cipher_key_def example_session stale_memory_def)
  from empty_payload [where aes = example_aes and mem = "stale_memory stale", OF this example_session(9) example_prefix(3,4)]
  show ?thesis by (simp add: stale_memory_def)
qed

lemma example_handled:
  "HandleBody env example_aes (stale_memory stale) 0 example_pending =
    (if stale = text_of (zeros 16)
     then PeerSession_Deliver example_aes (stale_memory stale) 0 (login_request 10) (with_session 0 (\<lambda>s. s\<lparr>mIsPending := False\<rparr>) example_pending)
     else Some ([], remove_user 10 example_pending))"
proof -
  have id: "with_session 0 (\<lambda>_. sPeers example_pending ! 0) example_pending = example_pending"
    by (simp add: with_session_def)
  have "DecryptPayload example_aes (stale_memory stale) [] (sHeader (examined 0 example_pending)) (sProto (examined 0 example_pending)) =
      Some (stale = text_of (zeros 16), [])"
    using example_decrypt by (simp add: example_examined example_session)
  from HandleBody_pending [OF _ _ this] show ?thesis
    by (simp add: example_session example_examined id)
qed

lemma pending_session_cannot_act_witness:
  "\<exists>st'. HandleBody example_env example_aes (stale_memory []) 0 example_pending = Some ([], st') \<and>
    mIsPending (sPeers st' ! 0) \<and>
    (sLobby st' = sLobby example_server \<or> sLobby st' = RemoveUser 10 (sLobby example_server))"
proof -
  have "text_of (zeros 16) \<noteq> []" by (simp add: text_of_def zeros_def)
  then have h: "HandleBody example_env example_aes (stale_memory []) 0 example_pending = Some ([], remove_user 10 example_pending)"
    using example_handled [of example_env "[]"] by simp
  from pending_session_cannot_act [OF _ _ h] h show ?thesis by (simp add: example_session)
qed

lemma unknown_player_enters_with_nothing_witness:
  "\<exists>out st'. HandleBody example_env example_aes (stale_memory (text_of (zeros 16))) 0 example_pending = Some (out, st') \<and>
    \<not> mIsPending (sPeers st' ! 0) \<and> sLobby st' = sLobby example_pending \<and> map fst out = [0]"
proof -
  let ?mem = "stale_memory (text_of (zeros 16))" and ?st = "with_session 0 (\<lambda>s. s\<lparr>mIsPending := False\<rparr>) example_pending"
  have f: "sUuid (sPeers ?st ! 0) = 10" "sProto (sPeers ?st ! 0) = sProto (sPeers example_pending ! 0)"
    by (simp_all add: example_session)
  have "block_cipher (example_aes (cipher_key ?mem (sProto (sPeers example_pending ! 0))))"
    by (rule example_aes_ok) (simp add: cipher_key_def example_session stale_memory_def)
  moreover have "mTxFrameCounter (sProto (sPeers example_pending ! 0)) = 0"
    by (simp add: example_pending_def example_headed_def example_server_parts PeerSession_new_def Protocol_new_def receive_body_def receive_header_def)
  ultimately have "\<exists>frame p'. Protocol_Build example_aes ?mem LOBBY_UID 10 (login_request 10) [] (sProto (sPeers example_pending ! 0)) = Some (frame, p')"
    using length_login_request [of 10] by (intro Build_total) (simp_all add: LOBBY_UID_def)
  then obtain out st' where h: "HandleBody example_env example_aes ?mem 0 example_pending = Some (out, st')"
    using example_handled [of example_env "text_of (zeros 16)"] f by (auto simp: PeerSession_Deliver_def Let_def)
  from unknown_player_enters_with_nothing [OF _ _ _ _ _ h] h show ?thesis
    using example_decrypt by (simp add: example_session example_prefix example_server_parts)
qed

lemma example_headed_reachable: "server_reachable example_aes example_headed"
proof (rule server_reachable.event [OF example_server_reachable example_env_sound])
  show "event_ok (Header_Received 0 empty_header) example_server"
    by (simp add: event_ok_def example_server_parts PeerSession_new_def empty_frame PROTO_HEADER_SIZE_def)
       (simp add: empty_header_def length_header_text)
  have "ParseHeader (sHeader (sPeers example_server ! 0)) (receive_header empty_header (sProto (sPeers example_server ! 0))) = Some (True, empty_head)"
    using empty_frame(1) [of "sProto (sPeers example_server ! 0)" Header_new]
    by (simp add: example_server_parts PeerSession_new_def Protocol_new_def empty_head_def)
  from read_header [OF _ this] show "server_event example_env example_aes (stale_memory []) (Header_Received 0 empty_header) example_server = Some ([], example_headed)"
    by (simp add: server_event_def example_server_parts example_headed_def) (simp add: with_session_def example_server_parts)
qed

lemma example_refused_reachable: "server_reachable example_aes (remove_user 10 example_pending)"
proof (rule server_reachable.event [OF example_headed_reachable example_env_sound])
  show "event_ok (Body_Received 0 empty_body) example_headed"
    by (simp add: event_ok_def example_headed_def example_server_parts BodyLength_def empty_head_def empty_body_def)
  have "text_of (zeros 16) \<noteq> []" by (simp add: text_of_def zeros_def)
  then show "server_event example_env example_aes (stale_memory []) (Body_Received 0 empty_body) example_headed = Some ([], remove_user 10 example_pending)"
    using example_handled [of example_env "[]"] by (simp add: server_event_def ReadBody_def example_pending_def [symmetric])
qed

lemma freed_number: "mUserIds (RemoveUser 10 (sLobby example_server)) = \<lparr>mMin = 10, mMax = 200, mUsedIds = []\<rparr>"
proof -
  have "TakeId (UniqueId_new USERS_UID MAXIMUM_USERS) = (10, \<lparr>mMin = 10, mMax = 200, mUsedIds = [10]\<rparr>)"
    by (subst TakeId_lowest [of _ 10]) (simp_all add: UniqueId_new_def USERS_UID_def MAXIMUM_USERS_def IsTaken_def)
  then have l: "mUserIds (sLobby example_server) = \<lparr>mMin = 10, mMax = 200, mUsedIds = [10]\<rparr>" "mUsers (sLobby example_server) = []"
    by (simp_all add: example_server_def PeerSession_Start_def AddClient_def AddAllowedClient_def AddUser_def Server_new_def
        Lobby_CreateTable_def Lobby_new_def Let_def split_beta)
  have "GetPlayerTable 10 [] = LOBBY_UID" by (simp add: GetPlayerTable_def)
  then show ?thesis by (simp add: RemoveUser_def l ReleaseId_def IsTaken_def Let_def)
qed

text \<open>
  Numbers of sessions are not unique: a client that is refused stays connected while its number is
  given to the next one, so that a reachable server has two open sessions with the same number, and
  the next refusal of the first removes the user of the second.
\<close>

theorem refused_session_shares_a_number:
  "\<exists>st. server_reachable example_aes st \<and> sUuid (sPeers st ! 0) = sUuid (sPeers st ! 1) \<and> length (sPeers st) = 2 \<and>
     sAwait (sPeers st ! 0) = Await_Header \<and> sAwait (sPeers st ! 1) = Await_Header"
proof -
  let ?b = "replicate 10268 (CHR '' '')" and ?st = "remove_user 10 example_pending"
  let ?st' = "PeerSession_Start ?b ?st"
  have "server_reachable example_aes ?st'"
  proof (rule server_reachable.event [OF example_refused_reachable example_env_sound])
    show "event_ok (Peer_Connected ?b) ?st" by (simp add: event_ok_def PROTO_HEADER_SIZE_def PROTO_MAX_BODY_SIZE_def)
    show "server_event example_env example_aes (stale_memory []) (Peer_Connected ?b) ?st = Some ([], ?st')"
      by (simp add: server_event_def)
  qed
  moreover have u: "TakeId \<lparr>mMin = 10, mMax = 200, mUsedIds = []\<rparr> = (10, \<lparr>mMin = 10, mMax = 200, mUsedIds = [10]\<rparr>)"
    by (subst TakeId_lowest [of _ 10]) (simp_all add: IsTaken_def)
  then have "sPeers ?st' = sPeers example_pending @ [(PeerSession_new ?b)\<lparr>sUuid := 10\<rparr>]"
    by (simp add: PeerSession_Start_def AddUser_def example_session freed_number Let_def)
  ultimately show ?thesis
    using example_session by (intro exI [of _ ?st']) (simp add: nth_append PeerSession_new_def)
qed

end
