(* ===== verification/Deck_Properties.thy ===== *)
theory Deck_Properties
  imports Deck_Facts
begin

text \<open>The rules of the game that decks enforce: playing, discarding, showing a handle.\<close>

section \<open>Automatic discard\<close>

definition may_discard :: "card \<Rightarrow> bool" where
  "may_discard c \<longleftrightarrow> mSuit c \<noteq> TRUMPS \<and> mValue c \<noteq> 14"

lemma auto_discard_take:
  "length (mDeck d) < n \<Longrightarrow> mDeck (auto_discard n cs d) = mDeck d @ take (n - length (mDeck d)) (filter may_discard cs)"
proof (induction cs arbitrary: d)
  case Nil
  then show ?case by simp
next
  case (Cons c cs)
  show ?case
  proof (cases "may_discard c \<and> length (mDeck d) + 1 \<noteq> n")
    case True
    with Cons.prems Cons.IH [of "Deck_AppendCard c d"] show ?thesis
      by (auto simp: may_discard_def Let_def Deck_AppendCard_def Deck_Size_def take_Cons' Suc_diff_Suc)
  next
    case False
    with Cons show ?thesis
      by (auto simp: may_discard_def Let_def Deck_AppendCard_def Deck_Size_def take_Cons')
  qed
qed

lemma AutoDiscard_cards:
  assumes "n \<in> {3, 4, 5}"
  shows "mDeck (fst (Deck_AutoDiscard dog n d)) = take (NumberOfDogCards n) (filter may_discard (mDeck d @ mDeck dog))"
proof -
  have "0 < NumberOfDogCards n" using assms by auto
  then show ?thesis
    using auto_discard_take [of Deck_empty "NumberOfDogCards n" "mDeck d @ mDeck dog"]
    by (simp add: Deck_AutoDiscard_def Deck_Append_def Deck_empty_def)
qed

lemma auto_discard_passes:
  assumes "distinct (mDeck hand @ mDeck dog)" "n \<in> {3, 4, 5}"
  shows "Deck_TestDiscard hand (fst (Deck_AutoDiscard dog n hand)) dog n \<longleftrightarrow>
    NumberOfDogCards n \<le> length (filter may_discard (mDeck hand @ mDeck dog))"
proof -
  define low where "low = filter may_discard (mDeck hand @ mDeck dog)"
  have "distinct low" "\<forall>c \<in> set low. (c \<in> set (mDeck hand) \<or> c \<in> set (mDeck dog)) \<and> mSuit c \<noteq> TRUMPS \<and> mValue c \<noteq> KING"
    using assms(1) distinct_filter [of "mDeck hand @ mDeck dog" may_discard] by (auto simp: low_def may_discard_def KING_def)
  then show "Deck_TestDiscard hand (fst (Deck_AutoDiscard dog n hand)) dog n \<longleftrightarrow> NumberOfDogCards n \<le> length (filter may_discard (mDeck hand @ mDeck dog))"
    unfolding TestDiscard_iff AutoDiscard_cards [OF assms(2)] low_def [symmetric] by (auto dest: in_set_takeD)
qed

lemma length_filter_all: "length (filter P xs) = length xs \<longleftrightarrow> list_all P xs"
proof (induction xs)
  case (Cons x xs)
  have "length (filter P xs) \<noteq> Suc (length xs)" using length_filter_le [of P xs] by linarith
  with Cons show ?case by simp
qed simp

section \<open>Properties\<close>

text \<open>
  C12. The check before a card is accepted is the rule of the game: for any hand, card and trick,
  \<open>CanPlayCard\<close> accepts exactly the cards of the hand that the rule allows (follow the requested
  suit, trump when void, overtrump when possible, the fool at any time), and it accepts some card of
  every hand that is not empty.
\<close>

theorem can_play_is_the_rule:
  "(Deck_CanPlayCard hand c trick \<longleftrightarrow> legal_play (mDeck hand) c trick) \<and>
   (list_ex (\<lambda>x. Deck_CanPlayCard hand x trick) (mDeck hand) \<longleftrightarrow> mDeck hand \<noteq> [])"
proof
  show "Deck_CanPlayCard hand c trick \<longleftrightarrow> legal_play (mDeck hand) c trick" by (rule CanPlayCard_legal)
  show "list_ex (\<lambda>x. Deck_CanPlayCard hand x trick) (mDeck hand) \<longleftrightarrow> mDeck hand \<noteq> []"
    using playable_exists [of hand trick] by (auto simp: list_ex_iff)
qed

text \<open>
  C18. The discard check and the automatic discard agree with the rule and with each other: a discard
  is accepted exactly when it has as many cards as the dog, no card twice, and only cards of the hand
  or the dog that are neither trumps nor kings; and the automatic discard of a player whose hand and
  dog have no card in common is accepted exactly when there are enough such cards.
\<close>

theorem discard_rule:
  assumes "distinct (mDeck hand @ mDeck dog)" "n \<in> {3, 4, 5}"
  shows "(Deck_TestDiscard hand discard dog n \<longleftrightarrow>
      Deck_Size discard = NumberOfDogCards n \<and> distinct (mDeck discard) \<and>
      set (mDeck discard) \<subseteq> {c \<in> set (mDeck hand) \<union> set (mDeck dog). mSuit c \<noteq> TRUMPS \<and> mValue c \<noteq> KING}) \<and>
    (Deck_TestDiscard hand (fst (Deck_AutoDiscard dog n hand)) dog n \<longleftrightarrow>
      NumberOfDogCards n \<le> length (filter may_discard (mDeck hand @ mDeck dog)))"
proof
  show "Deck_TestDiscard hand discard dog n \<longleftrightarrow>
      Deck_Size discard = NumberOfDogCards n \<and> distinct (mDeck discard) \<and>
      set (mDeck discard) \<subseteq> {c \<in> set (mDeck hand) \<union> set (mDeck dog). mSuit c \<noteq> TRUMPS \<and> mValue c \<noteq> KING}"
    by (auto simp: TestDiscard_iff Deck_Size_def)
  show "Deck_TestDiscard hand (fst (Deck_AutoDiscard dog n hand)) dog n \<longleftrightarrow>
      NumberOfDogCards n \<le> length (filter may_discard (mDeck hand @ mDeck dog))"
    by (rule auto_discard_passes [OF assms])
qed

definition trump_hand :: deck where
  "trump_hand = \<lparr>mOwner = NO_TEAM, mDeck = map (\<lambda>i. mk_card i TRUMPS) [0..<18]\<rparr>"

definition low_dog :: deck where
  "low_dog = \<lparr>mOwner = NO_TEAM, mDeck = map (\<lambda>i. mk_card i HEARTS) [9..<15]\<rparr>"

text \<open>A hand of trumps with a dog of hearts that has the king: one card short.\<close>

theorem discard_rule_witness:
  "\<not> Deck_TestDiscard trump_hand (fst (Deck_AutoDiscard low_dog 4 trump_hand)) low_dog 4"
proof -
  have "distinct (mDeck trump_hand @ mDeck low_dog)" "length (filter may_discard (mDeck trump_hand @ mDeck low_dog)) = 5"
    by code_simp+
  with discard_rule [of trump_hand low_dog 4 low_dog] show ?thesis by simp
qed

text \<open>
  A handle is accepted exactly when it has 10, 13 or 15 cards, all of them trumps of the
  player's hand, and shows the fool only when the hand has no more trumps than the handle has cards.
\<close>

theorem handle_rule:
  "Deck_TestHandle hand handle \<longleftrightarrow>
     GetHandleType (Deck_Size handle) \<noteq> NO_HANDLE \<and>
     list_all (\<lambda>c. c \<in> set (mDeck hand) \<and> mSuit c = TRUMPS) (mDeck handle) \<and>
     \<not> (Deck_HasFool handle \<and> Deck_Size handle < count_if (\<lambda>c. mSuit c = TRUMPS) (mDeck hand) mod 256)"
proof -
  let ?k = "count_if (\<lambda>c. mSuit c = TRUMPS) (mDeck handle)"
  have reset: "trumps Statistics_Reset = 0" by (simp add: Statistics_Reset_def)
  have count: "trumps (Deck_AnalyzeTrumps d Statistics_Reset) = count_if (\<lambda>c. mSuit c = TRUMPS) (mDeck d) mod 256" for d
    using AnalyzeTrumps_trumps [of Statistics_Reset d] reset by simp
  have all: "(Deck_Size handle = ?k mod 256) = list_all (\<lambda>c. mSuit c = TRUMPS) (mDeck handle)"
    if "GetHandleType (Deck_Size handle) \<noteq> NO_HANDLE"
  proof -
    have small: "Deck_Size handle < 256" using that by (auto simp: GetHandleType_def split: if_splits)
    have "?k \<le> Deck_Size handle" by (simp add: count_if_def Deck_Size_def)
    with small have "?k mod 256 = ?k" by simp
    then show ?thesis
      using length_filter_all [of "\<lambda>c. mSuit c = TRUMPS" "mDeck handle"] by (simp add: count_if_def Deck_Size_def eq_commute)
  qed
  have own: "list_ex (\<lambda>c. \<not> Deck_HasCard c hand) (mDeck handle) \<longleftrightarrow> \<not> list_all (\<lambda>c. c \<in> set (mDeck hand)) (mDeck handle)"
    by (simp add: list_ex_iff list_all_iff HasCard_iff)
  have both: "list_all (\<lambda>c. c \<in> set (mDeck hand) \<and> mSuit c = TRUMPS) (mDeck handle) \<longleftrightarrow>
     list_all (\<lambda>c. c \<in> set (mDeck hand)) (mDeck handle) \<and> list_all (\<lambda>c. mSuit c = TRUMPS) (mDeck handle)"
    by (auto simp: list_all_iff)
  show ?thesis
    unfolding Deck_TestHandle_def Let_def count own both
    using all by (cases "GetHandleType (Deck_Size handle) = NO_HANDLE") (metis, simp)
qed

text \<open>The cards of a handle are not checked for duplicates: ten times the same trump is a handle.\<close>

lemma repeated_trump_is_a_handle:
  "Deck_TestHandle trump_hand \<lparr>mOwner = NO_TEAM, mDeck = replicate 10 (mk_card 5 TRUMPS)\<rparr>"
  by code_simp

text \<open>
  C22. Decks survive their text form: the text written for a deck of valid cards is read back as the
  same cards in the same order, and so is the name of each of the 78 cards.
\<close>

theorem deck_text_roundtrip:
  assumes "list_all Card_IsValid (mDeck d)"
  shows "mDeck (Deck_FromString (Deck_ToString d)) = mDeck d \<and>
    mDeck (snd (Deck_SetCards (Deck_ToString d) d')) = mDeck d \<and>
    map (Card_FromName \<circ> Card_ToString) tarot_cards = tarot_cards"
proof -
  from assms have valid: "\<forall>c \<in> set (mDeck d). Card_IsValid c" by (simp add: list_all_iff)
  have "mDeck (snd (Deck_SetCards (Deck_ToString d) d')) = mDeck (Deck_FromString (Deck_ToString d))"
    by (simp add: Deck_FromString_def SetCards_cards)
  with FromString_ToString [OF valid] name_roundtrip_all show ?thesis
    by (simp add: list_all_iff map_idI)
qed

theorem deck_text_roundtrip_witness:
  "mDeck (Deck_FromString (Deck_ToString trump_hand)) = mDeck trump_hand"
proof -
  have "list_all Card_IsValid (mDeck trump_hand)" by code_simp
  from deck_text_roundtrip [OF this, of trump_hand] show ?thesis by simp
qed

end
