(* ===== verification/Deck_Sorting.thy ===== *)
theory Deck_Sorting
  imports Deck_Facts
begin

text \<open>
  Sorting a deck (Deck.h, \<open>Deck::Sorter\<close>; Deck.cpp, \<open>Deck::Sort\<close>): the weights of the suits, the
  comparison, and the order a hand ends in. The algorithm behind \<open>std::sort\<close> is an argument; so are
  the five weights before the constructor writes them, which are uninitialised memory. A result of
  \<open>None\<close> is an access outside the array of weights.
\<close>

section \<open>The sorter\<close>

definition cDefault :: string where "cDefault = ''TCSDH''"

definition Sorter_order :: "string \<Rightarrow> string" where
  "Sorter_order sorting = (if length sorting = 5 then sorting else cDefault)"

definition weight_step :: "string \<Rightarrow> nat \<Rightarrow> nat list option \<Rightarrow> nat list option" where
  "weight_step order i mw = Option.bind mw (\<lambda>w. arr_set w (Card_SuitFromName [order ! (4 - i)]) (100 * i))"

definition SetWeight :: "string \<Rightarrow> nat list \<Rightarrow> nat list option" where
  "SetWeight order w = fold (weight_step order) [0..<5] (Some w)"

definition GetWeight :: "nat list \<Rightarrow> card \<Rightarrow> nat" where
  "GetWeight w c = (w ! mSuit c + mValue c) mod 2 ^ 16"

definition Sorter_call :: "nat list \<Rightarrow> card \<Rightarrow> card \<Rightarrow> bool" where
  "Sorter_call w c1 c2 \<longleftrightarrow> GetWeight w c2 < GetWeight w c1"

text \<open>With two cards or more every card is compared, and an invalid one is looked up outside the weights.\<close>

type_synonym std_sort = "(card \<Rightarrow> card \<Rightarrow> bool) \<Rightarrow> card list \<Rightarrow> card list"

definition Deck_Sort :: "std_sort \<Rightarrow> nat list \<Rightarrow> string \<Rightarrow> deck \<Rightarrow> deck option" where
  "Deck_Sort std_sort garbage order d =
     (if Deck_Size d \<noteq> 0 then
        Option.bind (SetWeight (Sorter_order order) garbage)
          (\<lambda>w. if 1 < Deck_Size d \<and> \<not> list_all (\<lambda>c. mSuit c < length w) (mDeck d) then None
               else Some (d\<lparr>mDeck := std_sort (Sorter_call w) (mDeck d)\<rparr>))
      else Some d)"

section \<open>The order of a sorted hand\<close>

text \<open>
  What the standard promises of \<open>std::sort\<close> under a strict weak order, and the order its comment
  promises: the suits as the letters name them, the higher card of a suit first.
\<close>

definition strict_weak :: "('a \<Rightarrow> 'a \<Rightarrow> bool) \<Rightarrow> bool" where
  "strict_weak lt \<longleftrightarrow> (\<forall>a b. lt a b \<longrightarrow> \<not> lt b a) \<and> (\<forall>a b c. lt a b \<longrightarrow> lt a c \<or> lt c b)"

definition sorts :: "std_sort \<Rightarrow> bool" where
  "sorts f \<longleftrightarrow> (\<forall>lt xs. strict_weak lt \<longrightarrow> mset (f lt xs) = mset xs \<and> sorted_wrt (\<lambda>a b. \<not> lt b a) (f lt xs))"

definition suit_rank :: "string \<Rightarrow> card \<Rightarrow> nat" where
  "suit_rank order c = length (takeWhile (\<lambda>letter. [letter] \<noteq> Card_SuitName (mSuit c)) order)"

definition shown_before :: "string \<Rightarrow> card \<Rightarrow> card \<Rightarrow> bool" where
  "shown_before order c d \<longleftrightarrow>
     suit_rank order c < suit_rank order d \<or> suit_rank order c = suit_rank order d \<and> mValue d < mValue c"

lemma strict_weak_key: "strict_weak (\<lambda>a b. (f b :: nat) < f a)"
  by (auto simp: strict_weak_def)

lemma sorted_wrt_unique:
  assumes "\<And>a b. R a b \<Longrightarrow> \<not> R b a"
  shows "sorted_wrt R xs \<Longrightarrow> sorted_wrt R ys \<Longrightarrow> set xs = set ys \<Longrightarrow> xs = ys"
proof (induction xs arbitrary: ys)
  case Nil
  then show ?case by simp
next
  case (Cons x xs)
  then obtain y ys' where ys: "ys = y # ys'" by (cases ys) auto
  have irr: "\<not> R a a" for a using assms by blast
  have "x = y"
  proof (rule ccontr)
    assume "x \<noteq> y"
    with Cons.prems(3) ys have "x \<in> set ys'" "y \<in> set xs" by auto
    with Cons.prems(1,2) ys have "R y x" "R x y" by auto
    with assms show False by blast
  qed
  moreover have "x \<notin> set xs" "y \<notin> set ys'" using Cons.prems(1,2) ys irr by auto
  ultimately have "set xs = set ys'" using Cons.prems(3) ys by auto
  with Cons.IH Cons.prems(1,2) ys \<open>x = y\<close> show ?case by auto
qed

lemma suit_letters:
  "Card_SuitFromName ''S'' = 0" "Card_SuitFromName ''H'' = 1" "Card_SuitFromName ''D'' = 2"
  "Card_SuitFromName ''C'' = 3" "Card_SuitFromName ''T'' = 4"
  "Card_SuitName 0 = ''S''" "Card_SuitName (Suc 0) = ''H''" "Card_SuitName 2 = ''D''" "Card_SuitName 3 = ''C''"
  "Card_SuitName 4 = ''T''"
  by code_simp+

text \<open>An order that names every suit once gives the suits weights a hundred apart.\<close>

definition names_suits :: "string \<Rightarrow> bool" where
  "names_suits order \<longleftrightarrow> mset order = mset suits"

lemma names_suits_cases:
  assumes "names_suits order"
  obtains a b c d e where "order = [a, b, c, d, e]" "distinct [a, b, c, d, e]" "{a, b, c, d, e} = set ''SHDCT''"
proof -
  have ms: "mset order = mset ''SHDCT''" using assms by (simp add: names_suits_def suits_def)
  then have "length order = 5" using mset_eq_length [OF ms] by simp
  then obtain a b c d e where o: "order = [a, b, c, d, e]"
    by (auto simp: length_Suc_conv eval_nat_numeral)
  have "distinct order" using mset_eq_imp_distinct_iff [OF ms] by simp
  moreover have "set order = set ''SHDCT''" using mset_eq_setD [OF ms] .
  ultimately show ?thesis using that o by simp
qed

lemma SetWeight_ranks:
  assumes "names_suits order" "length w = 5"
  shows "\<exists>w'. SetWeight order w = Some w' \<and> length w' = 5 \<and>
    (\<forall>c. mSuit c < 5 \<longrightarrow> w' ! mSuit c = 100 * (4 - suit_rank order c) \<and> suit_rank order c < 5)"
proof -
  obtain a b c d e where o: "order = [a, b, c, d, e]" "distinct [a, b, c, d, e]" "{a, b, c, d, e} = set ''SHDCT''"
    using names_suits_cases [OF assms(1)] .
  let ?s = "\<lambda>l. Card_SuitFromName [l]"
  have letter: "?s l < 5 \<and> Card_SuitName (?s l) = [l]" if "l \<in> {a, b, c, d, e}" for l
    using that unfolding o(3) by (auto simp: suit_letters)
  then have lt: "?s a < 5" "?s b < 5" "?s c < 5" "?s d < 5" "?s e < 5"
    and nm: "Card_SuitName (?s a) = [a]" "Card_SuitName (?s b) = [b]" "Card_SuitName (?s c) = [c]"
      "Card_SuitName (?s d) = [d]" "Card_SuitName (?s e) = [e]" by auto
  have ne: "?s x \<noteq> ?s y" if "x \<in> {a, b, c, d, e}" "y \<in> {a, b, c, d, e}" "x \<noteq> y" for x y
    using letter [OF that(1)] letter [OF that(2)] that(3) by auto
  have five: "[0..<5] = [0, 1, 2, 3, 4 :: nat]" by code_simp
  let ?w = "w[?s e := 0, ?s d := 100, ?s c := 200, ?s b := 300, ?s a := 400]"
  have "SetWeight order w = Some ?w"
    using lt assms(2) by (simp add: SetWeight_def five weight_step_def o(1) numeral_eq_Suc)
  moreover have "?w ! mSuit k = 100 * (4 - suit_rank order k) \<and> suit_rank order k < 5" if k: "mSuit k < 5" for k
  proof -
    have "mSuit k \<in> set (map ?s ''SHDCT'')" using k by (auto simp: suit_letters)
    then have "mSuit k \<in> ?s ` {a, b, c, d, e}" unfolding o(3) by simp
    then consider "mSuit k = ?s a" | "mSuit k = ?s b" | "mSuit k = ?s c" | "mSuit k = ?s d" | "mSuit k = ?s e" by auto
    then show ?thesis
      using lt assms(2) o(2) ne [of a b] ne [of a c] ne [of a d] ne [of a e] ne [of b c] ne [of b d] ne [of b e]
        ne [of c d] ne [of c e] ne [of d e]
      by cases (simp_all add: nth_list_update suit_rank_def o(1) nm)
  qed
  ultimately show ?thesis using assms(2) by simp
qed

lemma GetWeight_before:
  assumes w: "\<forall>c. mSuit c < 5 \<longrightarrow> w ! mSuit c = 100 * (4 - suit_rank order c) \<and> suit_rank order c < 5"
    and "Card_IsValid c" "Card_IsValid d"
  shows "Sorter_call w c d \<longleftrightarrow> shown_before order c d"
proof -
  have v: "mSuit c < 5" "mSuit d < 5" "mValue c < 22" "mValue d < 22"
    using assms(2,3) by (auto simp: Card_IsValid_def TRUMPS_def split: if_splits)
  then have r: "suit_rank order c < 5" "suit_rank order d < 5" using w by auto
  have "GetWeight w k = 100 * (4 - suit_rank order k) + mValue k" if "mSuit k < 5" "mValue k < 22" for k
    using w that by (simp add: GetWeight_def)
  with v r show ?thesis unfolding Sorter_call_def shown_before_def by auto
qed

lemma suit_rank_inj:
  assumes "names_suits order" "mSuit c < 5" "mSuit d < 5" "suit_rank order c = suit_rank order d"
  shows "mSuit c = mSuit d"
proof -
  have at: "[order ! suit_rank order k] = Card_SuitName (mSuit k)" if "mSuit k < 5" for k
  proof -
    have "mSuit k \<in> {0, Suc 0, 2, 3, 4}" using that by auto
    then have "\<exists>l \<in> set ''SHDCT''. [l] = Card_SuitName (mSuit k)" by (auto simp: suit_letters)
    moreover have "set order = set ''SHDCT''"
      using assms(1) unfolding names_suits_def suits_def by (rule mset_eq_setD)
    ultimately have "takeWhile (\<lambda>l. [l] \<noteq> Card_SuitName (mSuit k)) order \<noteq> order"
      by (metis (mono_tags, lifting) takeWhile_eq_all_conv)
    then have "length (takeWhile (\<lambda>l. [l] \<noteq> Card_SuitName (mSuit k)) order) < length order"
      by (metis le_neq_implies_less length_takeWhile_le takeWhile_eq_take take_all)
    from nth_length_takeWhile [OF this] show ?thesis by (simp add: suit_rank_def)
  qed
  have "Card_SuitName (mSuit c) = Card_SuitName (mSuit d)" using at assms(2-4) by metis
  moreover have "mSuit c \<in> {0, Suc 0, 2, 3, 4}" "mSuit d \<in> {0, Suc 0, 2, 3, 4}" using assms(2,3) by auto
  ultimately show ?thesis by (auto simp: suit_letters)
qed

lemma sort_by_key_law: "sorts f \<Longrightarrow> mset (f (Sorter_call w) xs) = mset xs \<and> sorted_wrt (\<lambda>a b. \<not> Sorter_call w b a) (f (Sorter_call w) xs)"
  using strict_weak_key [of "GetWeight w"] unfolding sorts_def Sorter_call_def by blast

lemma Deck_Sort_shown:
  assumes "sorts f" "length garbage = 5" "names_suits order" "list_all Card_IsValid (mDeck d)" "distinct (mDeck d)"
  shows "\<exists>d'. Deck_Sort f garbage order d = Some d' \<and> mOwner d' = mOwner d \<and>
    mset (mDeck d') = mset (mDeck d) \<and> sorted_wrt (shown_before order) (mDeck d')"
proof (cases "Deck_Size d = 0")
  case True
  then show ?thesis by (simp add: Deck_Sort_def Deck_Size_def)
next
  case False
  have len: "length order = 5" by (rule names_suits_cases [OF assms(3)]) simp
  obtain w where w: "SetWeight order garbage = Some w" "length w = 5"
    "\<forall>c. mSuit c < 5 \<longrightarrow> w ! mSuit c = 100 * (4 - suit_rank order c) \<and> suit_rank order c < 5"
    using SetWeight_ranks [OF assms(3,2)] by blast
  have suit: "mSuit c < 5" if "Card_IsValid c" for c
    using that by (auto simp: Card_IsValid_def TRUMPS_def split: if_splits)
  let ?ys = "f (Sorter_call w) (mDeck d)"
  have ms: "mset ?ys = mset (mDeck d)" and so: "sorted_wrt (\<lambda>a b. \<not> Sorter_call w b a) ?ys"
    using sort_by_key_law [OF assms(1)] by blast+
  have "distinct ?ys" using assms(5) mset_eq_imp_distinct_iff [OF ms] by simp
  with so have "sorted_wrt (\<lambda>a b. \<not> Sorter_call w b a \<and> a \<noteq> b) ?ys"
    by (simp add: sorted_wrt_iff_nth_less nth_eq_iff_index_eq)
  moreover have val: "Card_IsValid c" if "c \<in> set ?ys" for c
    using that assms(4) mset_eq_setD [OF ms] by (auto simp: list_all_iff)
  have "shown_before order a b" if "a \<in> set ?ys" "b \<in> set ?ys" "\<not> Sorter_call w b a \<and> a \<noteq> b" for a b
  proof -
    have v: "Card_IsValid a" "Card_IsValid b" using that val by simp_all
    moreover have "\<not> shown_before order b a" using that(3) GetWeight_before [OF w(3) v(2,1)] by simp
    moreover have "suit_rank order a = suit_rank order b \<Longrightarrow> mValue a \<noteq> mValue b"
      using suit_rank_inj [OF assms(3) suit [OF v(1)] suit [OF v(2)]] that(3) card_eqI [of a b] by blast
    ultimately show ?thesis by (auto simp: shown_before_def)
  qed
  ultimately have "sorted_wrt (shown_before order) ?ys" by (rule sorted_wrt_mono_rel [rotated]) blast
  moreover have "list_all (\<lambda>c. mSuit c < length w) (mDeck d)" using assms(4) suit w(2) by (auto simp: list_all_iff)
  ultimately show ?thesis using False w(1) ms len by (simp add: Deck_Sort_def Sorter_order_def)
qed
section \<open>Sorting a hand\<close>

text \<open>
  C19. A hand is sorted the way the comment promises: for an order that names the five suits, the
  cards of a hand end in the order of its letters, the higher card of a suit first, none lost. The
  result depends neither on the algorithm of the library nor on the memory the weights lie in.
\<close>

theorem hand_is_sorted:
  assumes "sorts f" "sorts g" "length garbage = 5" "length garbage' = 5" "names_suits order"
    and "list_all Card_IsValid (mDeck d)" "distinct (mDeck d)"
  shows "(\<exists>d'. Deck_Sort f garbage order d = Some d' \<and> mOwner d' = mOwner d \<and>
      mset (mDeck d') = mset (mDeck d) \<and> sorted_wrt (shown_before order) (mDeck d')) \<and>
    Deck_Sort g garbage' order d = Deck_Sort f garbage order d"
proof -
  obtain d1 where 1: "Deck_Sort f garbage order d = Some d1" "mOwner d1 = mOwner d"
    "mset (mDeck d1) = mset (mDeck d)" "sorted_wrt (shown_before order) (mDeck d1)"
    using Deck_Sort_shown [OF assms(1,3,5-7)] by blast
  obtain d2 where 2: "Deck_Sort g garbage' order d = Some d2" "mOwner d2 = mOwner d"
    "mset (mDeck d2) = mset (mDeck d)" "sorted_wrt (shown_before order) (mDeck d2)"
    using Deck_Sort_shown [OF assms(2,4,5-7)] by blast
  have "mDeck d1 = mDeck d2"
    by (rule sorted_wrt_unique [where R = "shown_before order"])
      (use 1 2 in \<open>auto simp: shown_before_def dest: mset_eq_setD\<close>)
  with 1(2) 2(2) have "d1 = d2" by simp
  with 1 2(1) show ?thesis by (intro conjI exI [of _ d1]) simp_all
qed

text \<open>Insertion is a sort.\<close>

fun insert_by :: "('a \<Rightarrow> 'a \<Rightarrow> bool) \<Rightarrow> 'a \<Rightarrow> 'a list \<Rightarrow> 'a list" where
  "insert_by lt x [] = [x]"
| "insert_by lt x (y # ys) = (if lt y x then y # insert_by lt x ys else x # y # ys)"

definition insertion :: "('a \<Rightarrow> 'a \<Rightarrow> bool) \<Rightarrow> 'a list \<Rightarrow> 'a list" where
  "insertion lt xs = foldr (insert_by lt) xs []"

lemma mset_insert_by [simp]: "mset (insert_by lt x ys) = add_mset x (mset ys)"
  by (induction ys) auto

lemma set_insert_by: "set (insert_by lt x ys) = insert x (set ys)"
  by (induction ys) auto

lemma sorted_insert_by:
  assumes "strict_weak lt"
  shows "sorted_wrt (\<lambda>a b. \<not> lt b a) ys \<Longrightarrow> sorted_wrt (\<lambda>a b. \<not> lt b a) (insert_by lt x ys)"
proof (induction ys)
  case (Cons y ys)
  have "\<not> lt x y" if "lt y x" using assms that unfolding strict_weak_def by blast
  moreover have "\<not> lt z x" if "\<not> lt y x" "\<not> lt z y" for z using assms that unfolding strict_weak_def by blast
  ultimately show ?case using Cons by (auto simp: set_insert_by)
qed simp

lemma insertion_sorts: "sorts insertion"
proof -
  have "mset (insertion lt xs) = mset xs" for lt and xs :: "card list"
    unfolding insertion_def by (induction xs) simp_all
  moreover have "sorted_wrt (\<lambda>a b. \<not> lt b a) (insertion lt xs)" if "strict_weak lt" for lt and xs :: "card list"
    unfolding insertion_def using that by (induction xs) (simp_all add: sorted_insert_by)
  ultimately show ?thesis by (simp add: sorts_def)
qed

text \<open>A hand of five cards in the order of the comment: trumps, hearts, spades, diamonds, clubs.\<close>

definition mixed_hand :: deck where
  "mixed_hand = Deck_empty\<lparr>mDeck := [mk_card 3 DIAMONDS, mk_card 14 SPADES, mk_card 2 TRUMPS, mk_card 7 SPADES, mk_card 1 HEARTS]\<rparr>"

theorem hand_is_sorted_witness:
  "\<exists>d'. Deck_Sort insertion [7, 7, 7, 7, 7] ''THSDC'' mixed_hand = Some d' \<and>
     mset (mDeck d') = mset (mDeck mixed_hand) \<and> sorted_wrt (shown_before ''THSDC'') (mDeck d')"
proof -
  have "names_suits ''THSDC''" by (simp add: names_suits_def suits_def add_mset_commute)
  moreover have "list_all Card_IsValid (mDeck mixed_hand)" "distinct (mDeck mixed_hand)" by code_simp+
  ultimately show ?thesis
    using hand_is_sorted [OF insertion_sorts insertion_sorts, of "[7, 7, 7, 7, 7]" "[7, 7, 7, 7, 7]"] by fastforce
qed

text \<open>
  The order itself is not checked: with five letters of which one names no suit, the constructor
  writes outside the weights.
\<close>

lemma unknown_letter_writes_outside: "mDeck d \<noteq> [] \<Longrightarrow> Deck_Sort f [7, 7, 7, 7, 7] ''TCSDX'' d = None"
proof -
  have "SetWeight (Sorter_order ''TCSDX'') [7, 7, 7, 7, 7] = None" by code_simp
  then show "mDeck d \<noteq> [] \<Longrightarrow> ?thesis" by (simp add: Deck_Sort_def Deck_Size_def)
qed

end
