(* ===== verification/Configurations.thy ===== *)
theory Configurations
  imports Text_Util User_Lists Json_Files
begin

text \<open>
  The configuration files (ClientConfig.h, ClientConfig.cpp, ServerConfig.h, ServerConfig.cpp,
  TournamentConfig.h, TournamentConfig.cpp): the options of a client, of a server and of a tournament,
  their defaults, and how they are loaded and saved. The disk and its JSON files are those of
  Json_Files; a result of \<open>None\<close> is undefined behaviour of the JSON parser.
\<close>

section \<open>Versions\<close>

text \<open>A version number guards every file: the document is used only if it carries the right one.\<close>

definition right_version :: "string \<Rightarrow> json \<Rightarrow> bool" where
  "right_version version doc = (GetValue_string ''version'' doc = Some version)"

section \<open>The options of a client\<close>

record client_options =
  autoPlay :: bool
  deckFilePath :: string
  showAvatars :: bool
  language :: nat
  backgroundColor :: string
  coIdentity :: identity
  delayBeforeCleaning :: int
  clickToClean :: bool
  cardsOrder :: string
  timer :: nat
  loaded :: bool

definition CLIENT_CONFIG_VERSION :: string where "CLIENT_CONFIG_VERSION = ''5''"
definition DEFAULT_DELAY :: nat where "DEFAULT_DELAY = 500"
definition CLIENT_TIMER_DEF :: int where "CLIENT_TIMER_DEF = 1500"

text \<open>\<open>SetDefault\<close> keeps the token and the flag \<open>loaded\<close>.\<close>

definition SetDefault :: "client_options \<Rightarrow> client_options" where
  "SetDefault opt =
     opt\<lparr>autoPlay := False, timer := DEFAULT_DELAY, showAvatars := True, backgroundColor := ''#004f00'',
         language := 0, deckFilePath := ''default'', cardsOrder := ''TCHDS'',
         delayBeforeCleaning := CLIENT_TIMER_DEF, clickToClean := True,
         coIdentity := (coIdentity opt)\<lparr>username := ''Fry'', avatar := '':/avatars/A02.png'', gender := cGenderMale\<rparr>\<rparr>"

definition ClientOptions_new :: client_options where
  "ClientOptions_new =
     SetDefault \<lparr>autoPlay = False, deckFilePath = [], showAvatars = False, language = 0, backgroundColor = [],
       coIdentity = Identity_new, delayBeforeCleaning = 0, clickToClean = False, cardsOrder = [], timer = 0,
       loaded = False\<rparr>"

definition client_document :: "client_options \<Rightarrow> (string \<times> json) list" where
  "client_document opt =
     make_object
       [(''version'', JString CLIENT_CONFIG_VERSION), (''show_avatars'', JBool (showAvatars opt)),
        (''background_color'', JString (backgroundColor opt)), (''language'', JInt (int (language opt))),
        (''delay_between_players'', JInt (int (timer opt))),
        (''delay_before_cleaning'', JInt (delayBeforeCleaning opt)),
        (''click_to_clean'', JBool (clickToClean opt)), (''cards_order'', JString (cardsOrder opt)),
        (''identity'', JObj (make_object
           [(''name'', JString (username (coIdentity opt))), (''avatar'', JString (avatar (coIdentity opt))),
            (''gender'', JString (if gender (coIdentity opt) = cGenderMale then ''male'' else ''female''))]))]"

text \<open>Saving changes the avatar's path in the options themselves; \<open>None\<close> would be a loop that does not end.\<close>

definition Client_Save :: "client_options \<Rightarrow> string \<Rightarrow> disk \<Rightarrow> (bool \<times> client_options \<times> disk) option" where
  "Client_Save opt fileName d =
     map_option (\<lambda>path.
         let opt1 = opt\<lparr>coIdentity := (coIdentity opt)\<lparr>avatar := path\<rparr>\<rparr>;
             (ret, d1) = SaveToFile (client_document opt1) fileName d
         in (ret, opt1, d1))
       (ReplaceCharacter [CHR 92] ''/'' (avatar (coIdentity opt)))"

text \<open>The values of the document that are present and of the right type, with the ranges of the code.\<close>

definition client_values :: "json \<Rightarrow> client_options \<Rightarrow> client_options" where
  "client_values doc opt0 =
     (let opt1 = (case GetValue_bool ''show_avatars'' doc of Some b \<Rightarrow> opt0\<lparr>showAvatars := b\<rparr> | None \<Rightarrow> opt0);
          opt2 = (case GetValue_string ''background_color'' doc of Some s \<Rightarrow> opt1\<lparr>backgroundColor := s\<rparr> | None \<Rightarrow> opt1);
          opt3 = (case GetValue_int32 ''language'' doc of Some i \<Rightarrow> opt2\<lparr>language := to_u8 i\<rparr> | None \<Rightarrow> opt2);
          opt4 = (case GetValue_uint32 ''delay_between_players'' doc of
                    Some u \<Rightarrow> opt3\<lparr>timer := if 9000 < u then DEFAULT_DELAY else nat u\<rparr> | None \<Rightarrow> opt3);
          opt5 = (case GetValue_int32 ''delay_before_cleaning'' doc of
                    Some i \<Rightarrow> opt4\<lparr>delayBeforeCleaning := (if 5000 < i then 5000 else if i < 0 then 0 else i)\<rparr>
                  | None \<Rightarrow> opt4);
          opt6 = (case GetValue_bool ''click_to_clean'' doc of Some b \<Rightarrow> opt5\<lparr>clickToClean := b\<rparr> | None \<Rightarrow> opt5);
          opt7 = (case GetValue_string ''cards_order'' doc of Some s \<Rightarrow> opt6\<lparr>cardsOrder := s\<rparr> | None \<Rightarrow> opt6);
          opt8 = (case GetValue_string ''identity:name'' doc of
                    Some s \<Rightarrow> opt7\<lparr>coIdentity := (coIdentity opt7)\<lparr>username := s\<rparr>\<rparr> | None \<Rightarrow> opt7);
          opt9 = (case GetValue_string ''identity:avatar'' doc of
                    Some s \<Rightarrow> opt8\<lparr>coIdentity := (coIdentity opt8)\<lparr>avatar := s\<rparr>\<rparr> | None \<Rightarrow> opt8)
      in case GetValue_string ''identity:gender'' doc of
           Some s \<Rightarrow> opt9\<lparr>coIdentity := (coIdentity opt9)\<lparr>gender := (if s = ''female'' then cGenderFemale else cGenderMale)\<rparr>\<rparr>
         | None \<Rightarrow> opt9)"

definition Client_Load :: "client_options \<Rightarrow> string \<Rightarrow> disk \<Rightarrow> (bool \<times> client_options \<times> disk) option" where
  "Client_Load opt fileName d =
     map_option (\<lambda>(ret, opt', d'). (ret, opt'\<lparr>loaded := True\<rparr>, d'))
       (Option.bind (ParseFile fileName d) (\<lambda>r.
          case r of
            Some doc \<Rightarrow>
              if right_version CLIENT_CONFIG_VERSION doc then Some (True, client_values doc opt, d)
              else Client_Save (SetDefault opt) fileName d
          | None \<Rightarrow> Client_Save (SetDefault opt) fileName d))"
section \<open>The options of a server\<close>

record server_options =
  game_tcp_port :: nat
  console_tcp_port :: nat
  websocket_tcp_port :: nat
  lobby_max_conn :: int
  localHostOnly :: bool
  soName :: string
  soToken :: string
  tables :: "string list"

record server_config =
  scOptions :: server_options
  scLoaded :: bool

definition SERVER_CONFIG_VERSION :: string where "SERVER_CONFIG_VERSION = ''8''"

text \<open>The token of the defaults is drawn at random.\<close>

definition Server_GetDefault :: "(nat \<Rightarrow> nat) \<Rightarrow> server_options" where
  "Server_GetDefault draws =
     \<lparr>game_tcp_port = 4269, console_tcp_port = 8090, websocket_tcp_port = 4270, lobby_max_conn = 250,
      localHostOnly = False, soName = ''server1'', soToken = GenerateRandomString draws 20, tables = [''Table 1'']\<rparr>"

definition ServerConfig_new :: "(nat \<Rightarrow> nat) \<Rightarrow> server_config" where
  "ServerConfig_new draws = \<lparr>scOptions = Server_GetDefault draws, scLoaded = False\<rparr>"

definition Server_GetOptions :: "(nat \<Rightarrow> nat) \<Rightarrow> server_config \<Rightarrow> server_options \<times> server_config" where
  "Server_GetOptions draws c =
     (let c1 = (if \<not> scLoaded c then c\<lparr>scOptions := Server_GetDefault draws\<rparr> else c) in (scOptions c1, c1))"

definition Server_SetOptions :: "server_options \<Rightarrow> server_config \<Rightarrow> server_config" where
  "Server_SetOptions newOptions c = c\<lparr>scOptions := newOptions\<rparr>"

definition server_document :: "server_options \<Rightarrow> (string \<times> json) list" where
  "server_document opt =
     make_object
       [(''version'', JString SERVER_CONFIG_VERSION), (''game_tcp_port'', JInt (int (game_tcp_port opt))),
        (''websocket_tcp_port'', JInt (int (websocket_tcp_port opt))),
        (''console_tcp_port'', JInt (int (console_tcp_port opt))),
        (''lobby_max_conn'', JInt (lobby_max_conn opt)), (''local_host_only'', JBool (localHostOnly opt)),
        (''name'', JString (soName opt)), (''token'', JString (soToken opt)),
        (''tables'', JArr (map JString (tables opt)))]"

definition Server_Save :: "server_config \<Rightarrow> string \<Rightarrow> disk \<Rightarrow> bool \<times> disk" where
  "Server_Save c fileName d = SaveToFile (server_document (scOptions c)) fileName d"

definition to_u16 :: "int \<Rightarrow> nat" where
  "to_u16 x = nat (x mod 2 ^ 16)"

definition server_values :: "json \<Rightarrow> server_options \<Rightarrow> server_options" where
  "server_values doc opt0 =
     (let u32 = (\<lambda>k. GetValue_uint32 k doc);
          opt1 = (case u32 ''game_tcp_port'' of Some u \<Rightarrow> opt0\<lparr>game_tcp_port := to_u16 u\<rparr> | None \<Rightarrow> opt0);
          opt2 = (case u32 ''websocket_tcp_port'' of Some u \<Rightarrow> opt1\<lparr>websocket_tcp_port := to_u16 u\<rparr> | None \<Rightarrow> opt1);
          opt3 = (case u32 ''console_tcp_port'' of Some u \<Rightarrow> opt2\<lparr>console_tcp_port := to_u16 u\<rparr> | None \<Rightarrow> opt2);
          opt4 = (case u32 ''lobby_max_conn'' of Some u \<Rightarrow> opt3\<lparr>lobby_max_conn := to_i32 u\<rparr> | None \<Rightarrow> opt3);
          opt5 = (case GetValue_bool ''local_host_only'' doc of Some b \<Rightarrow> opt4\<lparr>localHostOnly := b\<rparr> | None \<Rightarrow> opt4);
          opt6 = (case GetValue_string ''name'' doc of Some s \<Rightarrow> opt5\<lparr>soName := s\<rparr> | None \<Rightarrow> opt5);
          opt7 = (case GetValue_string ''token'' doc of Some s \<Rightarrow> opt6\<lparr>soToken := s\<rparr> | None \<Rightarrow> opt6)
      in opt7\<lparr>tables := concat (map (\<lambda>v. case v of JString s \<Rightarrow> [s] | _ \<Rightarrow> []) (GetArray (FindValue ''tables'' doc)))\<rparr>)"

definition Server_Load :: "(nat \<Rightarrow> nat) \<Rightarrow> server_config \<Rightarrow> string \<Rightarrow> disk \<Rightarrow> (bool \<times> server_config \<times> disk) option" where
  "Server_Load draws c fileName d =
     (let restore = (let c1 = c\<lparr>scOptions := Server_GetDefault draws, scLoaded := True\<rparr>; (ret, d1) = Server_Save c1 fileName d
                     in (ret, c1, d1))
      in map_option (\<lambda>r.
           case r of
             Some doc \<Rightarrow>
               if right_version SERVER_CONFIG_VERSION doc
               then (True, c\<lparr>scOptions := server_values doc (scOptions c), scLoaded := True\<rparr>, d)
               else restore
           | None \<Rightarrow> restore)
         (ParseFile fileName d))"

section \<open>The options of a tournament\<close>

text \<open>One distribution for each deal.\<close>

record tournament_config =
  turns :: "distribution list"
  tcLoaded :: bool

definition TOURNAMENT_CONFIG_VERSION :: string where "TOURNAMENT_CONFIG_VERSION = ''1''"

definition Tournament_GetDefault :: "distribution list" where
  "Tournament_GetDefault = map (\<lambda>i. Distribution_Initialize) [0..<DEFAULT_NUMBER_OF_TURNS]"

definition TournamentConfig_new :: tournament_config where
  "TournamentConfig_new = \<lparr>turns = Tournament_GetDefault, tcLoaded = False\<rparr>"

definition Tournament_GetOptions :: "tournament_config \<Rightarrow> distribution list \<times> tournament_config" where
  "Tournament_GetOptions c =
     (let c1 = (if \<not> tcLoaded c then c\<lparr>turns := Tournament_GetDefault\<rparr> else c) in (turns c1, c1))"

definition Tournament_SetOptions :: "distribution list \<Rightarrow> tournament_config \<Rightarrow> tournament_config" where
  "Tournament_SetOptions newOptions c = c\<lparr>turns := newOptions\<rparr>"

definition turn_document :: "distribution \<Rightarrow> (string \<times> json) list" where
  "turn_document t =
     (let (type, file, number) =
            (if mType t = RANDOM_DEAL then (''random'', [], 0)
             else if mType t = CUSTOM_DEAL then (''custom'', mFile t, 0)
             else (''numbered'', [], mSeed t))
      in make_object [(''type'', JString type), (''file'', JString file), (''number'', JInt (int number))])"

definition tournament_document :: "distribution list \<Rightarrow> (string \<times> json) list" where
  "tournament_document ts =
     make_object [(''version'', JString TOURNAMENT_CONFIG_VERSION), (''tournament'', JArr (map (\<lambda>t. JObj (turn_document t)) ts))]"

definition Tournament_Save :: "tournament_config \<Rightarrow> string \<Rightarrow> disk \<Rightarrow> bool \<times> disk" where
  "Tournament_Save c fileName d = SaveToFile (tournament_document (turns c)) fileName d"

text \<open>
  The loop over the entries: those that are not objects are skipped, an entry without a type is a
  random deal, and after a bad entry none is kept.
\<close>

definition turn_type :: "(string \<times> json) list \<Rightarrow> bool \<Rightarrow> bool \<times> distribution" where
  "turn_type obj ret =
     (let shuffle = Distribution_Initialize
      in case Object_GetValue ''type'' obj of
           JString type \<Rightarrow>
             if type = ''custom'' then
               (case Object_GetValue ''file'' obj of
                  JString file \<Rightarrow> (ret, shuffle\<lparr>mType := CUSTOM_DEAL, mFile := file\<rparr>)
                | _ \<Rightarrow> (False, shuffle\<lparr>mType := CUSTOM_DEAL\<rparr>))
             else if type = ''random'' then (ret, shuffle\<lparr>mType := RANDOM_DEAL\<rparr>)
             else if type = ''numbered'' then
               (ret, shuffle\<lparr>mType := NUMBERED_DEAL,
                            mSeed := nat (to_u32 (GetInteger (Object_GetValue ''number'' obj)))\<rparr>)
             else (False, shuffle)
         | _ \<Rightarrow> (ret, shuffle))"

fun read_turns :: "json list \<Rightarrow> bool \<Rightarrow> distribution list \<Rightarrow> bool \<times> distribution list" where
  "read_turns [] ret ts = (ret, ts)"
| "read_turns (JObj obj # vs) ret ts =
     (let (ret1, shuffle) = turn_type obj ret in read_turns vs ret1 (if ret1 then ts @ [shuffle] else ts))"
| "read_turns (_ # vs) ret ts = read_turns vs ret ts"

definition Tournament_Load :: "tournament_config \<Rightarrow> string \<Rightarrow> disk \<Rightarrow> (bool \<times> tournament_config \<times> disk) option" where
  "Tournament_Load c fileName d =
     (let restore = (let c1 = c\<lparr>turns := Tournament_GetDefault, tcLoaded := True\<rparr>; (ret, d1) = Tournament_Save c1 fileName d
                     in (ret, c1, d1))
      in map_option (\<lambda>r.
           case r of
             Some doc \<Rightarrow>
               if right_version TOURNAMENT_CONFIG_VERSION doc then
                 (let vs = GetArray (FindValue ''tournament'' doc);
                      (ret, ts) = read_turns vs True []
                  in if vs \<noteq> [] \<and> ret then (True, c\<lparr>turns := ts, tcLoaded := True\<rparr>, d) else restore)
               else restore
           | None \<Rightarrow> restore)
         (ParseFile fileName d))"
section \<open>Reading back a document\<close>

lemma FindValue_member:
  assumes "CHR '':'' \<notin> set k" "CHR '':'' \<notin> set k'" "map_of (rev kvs) k = Some (JObj m)" "map_of m k' = Some v"
  shows "FindValue (k @ '':'' @ k') (JObj (make_object kvs)) = v"
  using assms by (simp add: FindValue_def split_on_append make_object_lookup)
section \<open>Options survive the disk\<close>

lemma plain_keys [simp]:
  "plain_key ''version''" "plain_key ''show_avatars''" "plain_key ''background_color''" "plain_key ''language''"
  "plain_key ''delay_between_players''" "plain_key ''delay_before_cleaning''" "plain_key ''click_to_clean''"
  "plain_key ''cards_order''" "plain_key ''identity''" "plain_key ''name''" "plain_key ''avatar''" "plain_key ''gender''"
  "plain_key ''game_tcp_port''" "plain_key ''websocket_tcp_port''" "plain_key ''console_tcp_port''"
  "plain_key ''lobby_max_conn''" "plain_key ''local_host_only''" "plain_key ''token''" "plain_key ''tables''"
  "plain_key ''tournament''" "plain_key ''type''" "plain_key ''file''" "plain_key ''number''"
  by code_simp+

lemma plain_words [simp]:
  "plain_text ''5''" "plain_text ''8''" "plain_text ''1''" "plain_text ''male''" "plain_text ''female''"
  "plain_text ''random''" "plain_text ''custom''" "plain_text ''numbered''" "plain_text []"
  by code_simp+

lemma to_u32_id: "0 \<le> i \<Longrightarrow> i < 2 ^ 32 \<Longrightarrow> to_u32 i = i"
  by (simp add: to_u32_def)

lemma to_u32_to_i32 [simp]: "to_u32 (to_i32 i) = to_u32 i"
  by (simp add: to_i32_def to_u32_def mod_simps)

definition client_ok :: "client_options \<Rightarrow> bool" where
  "client_ok opt =
     (plain_text (backgroundColor opt) \<and> plain_text (cardsOrder opt) \<and> plain_text (username (coIdentity opt)) \<and>
      plain_text (avatar (coIdentity opt)) \<and> CHR 92 \<notin> set (avatar (coIdentity opt)) \<and>
      gender (coIdentity opt) \<in> {cGenderMale, cGenderFemale} \<and> language opt < 256 \<and> timer opt \<le> 9000 \<and>
      0 \<le> delayBeforeCleaning opt \<and> delayBeforeCleaning opt \<le> 5000)"

lemma client_document_ok: "client_ok opt \<Longrightarrow> json_ok (JObj (client_document opt))"
  unfolding client_document_def
  by (intro json_ok_make_object) (auto simp: client_ok_def CLIENT_CONFIG_VERSION_def intro!: json_ok_make_object simp del: json_ok.simps(6))

lemma client_values_read:
  assumes "client_ok opt"
  shows "client_values (JObj (client_document opt)) opt0 =
     opt\<lparr>autoPlay := autoPlay opt0, deckFilePath := deckFilePath opt0, loaded := loaded opt0,
        coIdentity := (coIdentity opt)\<lparr>token := token (coIdentity opt0)\<rparr>\<rparr>"
proof -
  let ?doc = "JObj (client_document opt)"
  have member: "FindValue (''identity:'' @ k) ?doc = v"
    if "CHR '':'' \<notin> set k" "map_of (make_object
           [(''name'', JString (username (coIdentity opt))), (''avatar'', JString (avatar (coIdentity opt))),
            (''gender'', JString (if gender (coIdentity opt) = cGenderMale then ''male'' else ''female''))]) k = Some v" for k v
    using FindValue_member [of "''identity''" k _ _ v] that unfolding client_document_def by simp
  have "FindValue ''identity:name'' ?doc = JString (username (coIdentity opt))"
    "FindValue ''identity:avatar'' ?doc = JString (avatar (coIdentity opt))"
    "FindValue ''identity:gender'' ?doc = JString (if gender (coIdentity opt) = cGenderMale then ''male'' else ''female'')"
    using member [of "''name''"] member [of "''avatar''"] member [of "''gender''"] by (simp_all add: make_object_lookup)
  moreover have "FindValue ''show_avatars'' ?doc = JBool (showAvatars opt)"
    "FindValue ''background_color'' ?doc = JString (backgroundColor opt)"
    "FindValue ''language'' ?doc = JInt (int (language opt))"
    "FindValue ''delay_between_players'' ?doc = JInt (int (timer opt))"
    "FindValue ''delay_before_cleaning'' ?doc = JInt (delayBeforeCleaning opt)"
    "FindValue ''click_to_clean'' ?doc = JBool (clickToClean opt)"
    "FindValue ''cards_order'' ?doc = JString (cardsOrder opt)"
    unfolding client_document_def by (simp_all add: FindValue_make_object)
  ultimately show ?thesis
    using assms
    by (auto simp: client_values_def client_ok_def GetValue_bool_def GetValue_string_def GetValue_int32_def
        GetValue_uint32_def to_i32_id to_u32_id to_u8_def Let_def gender_defs)
qed
definition server_ok :: "server_options \<Rightarrow> bool" where
  "server_ok opt =
     (game_tcp_port opt < 2 ^ 16 \<and> websocket_tcp_port opt < 2 ^ 16 \<and> console_tcp_port opt < 2 ^ 16 \<and>
      - (2 ^ 31) \<le> lobby_max_conn opt \<and> lobby_max_conn opt < 2 ^ 31 \<and>
      plain_text (soName opt) \<and> plain_text (soToken opt) \<and> list_all plain_text (tables opt))"

lemma server_document_ok: "server_ok opt \<Longrightarrow> json_ok (JObj (server_document opt))"
  unfolding server_document_def
  by (intro json_ok_make_object) (auto simp: server_ok_def SERVER_CONFIG_VERSION_def list_all_iff)

lemma strings_of_array: "concat (map (\<lambda>v. case v of JString s \<Rightarrow> [s] | _ \<Rightarrow> []) (map JString ss)) = ss"
  by (induction ss) auto

lemma server_values_read:
  assumes "server_ok opt"
  shows "server_values (JObj (server_document opt)) opt0 = opt"
proof -
  let ?doc = "JObj (server_document opt)"
  have "FindValue ''game_tcp_port'' ?doc = JInt (int (game_tcp_port opt))"
    "FindValue ''websocket_tcp_port'' ?doc = JInt (int (websocket_tcp_port opt))"
    "FindValue ''console_tcp_port'' ?doc = JInt (int (console_tcp_port opt))"
    "FindValue ''lobby_max_conn'' ?doc = JInt (lobby_max_conn opt)"
    "FindValue ''local_host_only'' ?doc = JBool (localHostOnly opt)"
    "FindValue ''name'' ?doc = JString (soName opt)"
    "FindValue ''token'' ?doc = JString (soToken opt)"
    "FindValue ''tables'' ?doc = JArr (map JString (tables opt))"
    unfolding server_document_def by (simp_all add: FindValue_make_object)
  then show ?thesis
    using assms
    by (auto simp: server_values_def server_ok_def GetValue_bool_def GetValue_string_def GetValue_uint32_def
        to_i32_id to_u32_id to_u16_def Let_def strings_of_array simp del: map_map)
qed

text \<open>A saved turn keeps what its type uses: the file of a custom deal, the seed of a numbered one.\<close>

definition turn_ok :: "distribution \<Rightarrow> bool" where
  "turn_ok t =
     (mType t = RANDOM_DEAL \<and> mFile t = [] \<and> mSeed t = 0 \<or>
      mType t = CUSTOM_DEAL \<and> plain_text (mFile t) \<and> mSeed t = 0 \<or>
      mType t = NUMBERED_DEAL \<and> mFile t = [] \<and> mSeed t < 2 ^ 32)"

lemma turn_document_ok: "turn_ok t \<Longrightarrow> json_ok (JObj (turn_document t))"
  unfolding turn_document_def Let_def
  by (auto simp: turn_ok_def deal_defs intro!: json_ok_make_object simp del: json_ok.simps(6))

lemma tournament_document_ok: "list_all turn_ok ts \<Longrightarrow> json_ok (JObj (tournament_document ts))"
  unfolding tournament_document_def
  by (intro json_ok_make_object) (auto simp: TOURNAMENT_CONFIG_VERSION_def list_all_iff turn_document_ok simp del: json_ok.simps(6))

lemma turn_type_read: "turn_ok t \<Longrightarrow> turn_type (turn_document t) True = (True, t)"
  by (auto simp: turn_type_def turn_document_def Object_GetValue_def make_object_lookup turn_ok_def deal_defs
      Distribution_Initialize_def GetInteger_def to_u32_id)

lemma read_turns_read:
  "list_all turn_ok ts \<Longrightarrow> read_turns (map (\<lambda>t. JObj (turn_document t)) ts) True us = (True, us @ ts)"
  by (induction ts arbitrary: us) (auto simp: turn_type_read)

lemma versions_read:
  "right_version CLIENT_CONFIG_VERSION (JObj (client_document opt))"
  "right_version SERVER_CONFIG_VERSION (JObj (server_document sopt))"
  "right_version TOURNAMENT_CONFIG_VERSION (JObj (tournament_document ts))"
  by (simp_all add: right_version_def GetValue_string_def client_document_def server_document_def
      tournament_document_def FindValue_make_object)

lemma tournament_read: "FindValue ''tournament'' (JObj (tournament_document ts)) = JArr (map (\<lambda>t. JObj (turn_document t)) ts)"
  by (simp add: tournament_document_def FindValue_make_object)
lemma same_path: "CHR 92 \<notin> set s \<Longrightarrow> ReplaceCharacter [CHR 92] ''/'' s = Some s"
  by (subst ReplaceCharacter_char) simp

lemma Client_Save_ok:
  assumes "client_ok opt" "canWrite d fileName"
  shows "Client_Save opt fileName d = Some (True, opt, snd (SaveToFile (client_document opt) fileName d))"
proof -
  have "ReplaceCharacter [CHR 92] ''/'' (avatar (coIdentity opt)) = Some (avatar (coIdentity opt))"
    using assms(1) by (intro same_path) (simp add: client_ok_def)
  then show ?thesis
    using saved_file_is_read(1) [OF client_document_ok [OF assms(1)] assms(2)] by (simp add: Client_Save_def)
qed

lemma Client_Load_saved:
  assumes "client_ok opt" "canWrite d fileName"
  shows "Client_Load opt0 fileName (snd (SaveToFile (client_document opt) fileName d)) =
     Some (True, opt\<lparr>autoPlay := autoPlay opt0, deckFilePath := deckFilePath opt0, loaded := True,
                   coIdentity := (coIdentity opt)\<lparr>token := token (coIdentity opt0)\<rparr>\<rparr>,
           snd (SaveToFile (client_document opt) fileName d))"
  using saved_file_is_read(2) [OF client_document_ok [OF assms(1)] assms(2)]
  by (simp add: Client_Load_def versions_read client_values_read [OF assms(1)])

lemma defaults_ok: "client_ok (SetDefault opt)"
proof -
  have "plain_text ''#004f00''" "plain_text ''TCHDS''" "plain_text ''Fry''" "plain_text '':/avatars/A02.png''" by code_simp+
  then show ?thesis by (simp add: client_ok_def SetDefault_def DEFAULT_DELAY_def CLIENT_TIMER_DEF_def)
qed

text \<open>
  C40. What is saved is what is loaded: for options in range whose texts have no quote and no control
  character, saving to a file that can be written succeeds, and loading that file gives the options
  of the server, the turns of the tournament and the options of the client back, except that a client keeps its own
  automatic play, card images and token, which no file holds.
\<close>

theorem options_survive_the_disk:
  assumes "canWrite d fileName"
  shows "(client_ok opt \<longrightarrow> (\<exists>d'. Client_Save opt fileName d = Some (True, opt, d') \<and>
      Client_Load opt0 fileName d' =
        Some (True, opt\<lparr>autoPlay := autoPlay opt0, deckFilePath := deckFilePath opt0, loaded := True,
                      coIdentity := (coIdentity opt)\<lparr>token := token (coIdentity opt0)\<rparr>\<rparr>, d'))) \<and>
    (server_ok (scOptions sc) \<longrightarrow> (\<exists>d'. Server_Save sc fileName d = (True, d') \<and>
      Server_Load draws sc0 fileName d' = Some (True, \<lparr>scOptions = scOptions sc, scLoaded = True\<rparr>, d'))) \<and>
    (turns tc \<noteq> [] \<and> list_all turn_ok (turns tc) \<longrightarrow> (\<exists>d'. Tournament_Save tc fileName d = (True, d') \<and>
      Tournament_Load tc0 fileName d' = Some (True, \<lparr>turns = turns tc, tcLoaded = True\<rparr>, d')))"
proof (intro conjI impI; (elim conjE)?)
  show "\<exists>d'. Client_Save opt fileName d = Some (True, opt, d') \<and>
      Client_Load opt0 fileName d' =
        Some (True, opt\<lparr>autoPlay := autoPlay opt0, deckFilePath := deckFilePath opt0, loaded := True,
                      coIdentity := (coIdentity opt)\<lparr>token := token (coIdentity opt0)\<rparr>\<rparr>, d')" if "client_ok opt"
    using Client_Save_ok Client_Load_saved that assms by blast
  show "\<exists>d'. Server_Save sc fileName d = (True, d') \<and>
      Server_Load draws sc0 fileName d' = Some (True, \<lparr>scOptions = scOptions sc, scLoaded = True\<rparr>, d')"
    if "server_ok (scOptions sc)"
  proof -
    note saved = saved_file_is_read [OF server_document_ok [OF that] assms]
    have "Server_Load draws sc0 fileName (snd (Server_Save sc fileName d)) =
        Some (True, \<lparr>scOptions = scOptions sc, scLoaded = True\<rparr>, snd (Server_Save sc fileName d))"
      using saved(2) by (simp add: Server_Load_def Server_Save_def versions_read server_values_read [OF that])
    then show ?thesis using saved(1) by (auto simp: Server_Save_def)
  qed
  show "\<exists>d'. Tournament_Save tc fileName d = (True, d') \<and>
      Tournament_Load tc0 fileName d' = Some (True, \<lparr>turns = turns tc, tcLoaded = True\<rparr>, d')"
    if "turns tc \<noteq> []" "list_all turn_ok (turns tc)"
  proof -
    note saved = saved_file_is_read [OF tournament_document_ok [OF that(2)] assms]
    have "Tournament_Load tc0 fileName (snd (Tournament_Save tc fileName d)) =
        Some (True, \<lparr>turns = turns tc, tcLoaded = True\<rparr>, snd (Tournament_Save tc fileName d))"
      using saved(2) that
      by (simp add: Tournament_Load_def Tournament_Save_def versions_read tournament_read read_turns_read)
    then show ?thesis using saved(1) by (auto simp: Tournament_Save_def)
  qed
qed

definition example_disk :: disk where
  "example_disk = \<lparr>fileOf = (\<lambda>_. None), canWrite = (\<lambda>_. True)\<rparr>"

lemma options_survive_the_disk_witness:
  "(\<exists>d'. Client_Save ClientOptions_new ''a'' example_disk = Some (True, ClientOptions_new, d') \<and>
      Client_Load ClientOptions_new ''a'' d' = Some (True, ClientOptions_new\<lparr>loaded := True\<rparr>, d')) \<and>
   (\<exists>d'. Server_Save (ServerConfig_new (\<lambda>i. i)) ''a'' example_disk = (True, d') \<and>
      Server_Load (\<lambda>_. 0) (ServerConfig_new (\<lambda>_. 0)) ''a'' d' =
        Some (True, \<lparr>scOptions = Server_GetDefault (\<lambda>i. i), scLoaded = True\<rparr>, d')) \<and>
   (\<exists>d'. Tournament_Save TournamentConfig_new ''a'' example_disk = (True, d') \<and>
      Tournament_Load TournamentConfig_new ''a'' d' = Some (True, TournamentConfig_new\<lparr>tcLoaded := True\<rparr>, d'))"
proof -
  have disk: "canWrite example_disk ''a''" by (simp add: example_disk_def)
  have server: "server_ok (scOptions (ServerConfig_new (\<lambda>i. i)))" by code_simp
  have turns: "turns TournamentConfig_new \<noteq> []" "list_all turn_ok (turns TournamentConfig_new)" by code_simp+
  have client: "client_ok ClientOptions_new" by (simp add: ClientOptions_new_def defaults_ok)
  from options_survive_the_disk [OF disk, of ClientOptions_new ClientOptions_new "ServerConfig_new (\<lambda>i. i)"
      "\<lambda>_. 0" "ServerConfig_new (\<lambda>_. 0)" TournamentConfig_new TournamentConfig_new] client server turns
  show ?thesis by (simp add: ServerConfig_new_def TournamentConfig_new_def)
qed
text \<open>
  A configuration that cannot be used is replaced: when the file is missing, is not JSON or has
  another version, loading the options of a client takes the defaults (the token excepted) and writes them;
  if the file can be written the load reports success and the same defaults are read the next time,
  otherwise it reports failure and the disk is as before.
\<close>

theorem bad_file_restores_defaults:
  assumes "ParseFile fileName d = Some r" "\<forall>doc. r = Some doc \<longrightarrow> \<not> right_version CLIENT_CONFIG_VERSION doc"
  shows "if canWrite d fileName
     then \<exists>d'. Client_Load opt fileName d = Some (True, (SetDefault opt)\<lparr>loaded := True\<rparr>, d') \<and>
            Client_Load (SetDefault opt) fileName d' = Some (True, (SetDefault opt)\<lparr>loaded := True\<rparr>, d')
     else Client_Load opt fileName d = Some (False, (SetDefault opt)\<lparr>loaded := True\<rparr>, d)"
proof -
  have load: "Client_Load opt fileName d =
      map_option (\<lambda>(ret, opt', d'). (ret, opt'\<lparr>loaded := True\<rparr>, d')) (Client_Save (SetDefault opt) fileName d)"
    using assms by (auto simp: Client_Load_def split: option.split)
  have path: "CHR 92 \<notin> set (avatar (coIdentity (SetDefault opt)))" by (simp add: SetDefault_def)
  show ?thesis
  proof (cases "canWrite d fileName")
    case True
    from Client_Save_ok [OF defaults_ok True] Client_Load_saved [OF defaults_ok True] True
    show ?thesis by (auto simp: load intro!: client_options.equality)
  next
    case False
    then show ?thesis by (simp add: load Client_Save_def SaveToFile_def same_path [OF path])
  qed
qed

lemma bad_file_restores_defaults_witness:
  "(\<exists>d'. Client_Load ClientOptions_new ''a'' example_disk = Some (True, ClientOptions_new\<lparr>loaded := True\<rparr>, d') \<and>
      Client_Load ClientOptions_new ''a'' d' = Some (True, ClientOptions_new\<lparr>loaded := True\<rparr>, d'))"
proof -
  have "ParseFile ''a'' example_disk = Some None" by (simp add: ParseFile_def example_disk_def)
  moreover have "SetDefault ClientOptions_new = ClientOptions_new" by (simp add: ClientOptions_new_def SetDefault_def)
  ultimately show ?thesis
    using bad_file_restores_defaults [of "''a''" example_disk None ClientOptions_new] by (simp add: example_disk_def)
qed

section \<open>Two flaws\<close>

text \<open>Options that are set before a load are lost: reading them gives the defaults.\<close>

lemma set_options_are_lost:
  "fst (Server_GetOptions draws (Server_SetOptions opt (ServerConfig_new draws))) = Server_GetDefault draws"
  "fst (Tournament_GetOptions (Tournament_SetOptions ts TournamentConfig_new)) = Tournament_GetDefault"
  by (simp_all add: Server_GetOptions_def Server_SetOptions_def ServerConfig_new_def Tournament_GetOptions_def
      Tournament_SetOptions_def TournamentConfig_new_def)

text \<open>
  The random token of the defaults may contain the zero character that ends the table of letters (one
  draw in 84); the file then ends there for the parser, and the next load replaces it.
\<close>

lemma zero_token_is_not_read:
  "read_json (Object_ToString 0 (make_object [(''token'', JString (GenerateRandomString (\<lambda>i. 83) 20))]) @ [CHR 10]) = Some None"
  by code_simp

end
