(* ===== verification/Deal_Replay.thy ===== *)
theory Deal_Replay
  imports Deal_Log Configurations Engine_Facts
begin

text \<open>
  Loading a logged deal into the engine (Engine.cpp, \<open>LoadGameDeal\<close> and \<open>LoadGameDealLog\<close>), and that
  a deal that was saved replays: the same tricks, winners and score come back.
\<close>

section \<open>Operations\<close>

text \<open>\<open>None\<close> is undefined behaviour of the parser or of the replay.\<close>

definition load_document :: "json option \<Rightarrow> engine \<Rightarrow> (bool \<times> engine) option" where
  "load_document doc e =
     (case doc of
        Some json \<Rightarrow> map_option (\<lambda>(ret, ctx). (ret, e\<lparr>mCtx := ctx\<rparr>)) (LoadFromJson json (mCtx e))
      | None \<Rightarrow> Some (False, e))"

definition LoadGameDealLog :: "string \<Rightarrow> disk \<Rightarrow> engine \<Rightarrow> (bool \<times> engine) option" where
  "LoadGameDealLog fileName d e = Option.bind (ParseFile fileName d) (\<lambda>doc. load_document doc e)"

definition LoadGameDeal :: "string \<Rightarrow> engine \<Rightarrow> (bool \<times> engine) option" where
  "LoadGameDeal buffer e = Option.bind (read_json buffer) (\<lambda>doc. load_document doc e)"

section \<open>Reading the document\<close>

definition saved_info :: "tarot_context \<Rightarrow> (string \<times> json) list" where
  "saved_info y = make_object
     [(''number_of_players'', JInt (int (mNbPlayers y))),
      (''taker'', JString (Place_ToString (taker (mBid y)))),
      (''contract'', JString (Contract_ToString (contract (mBid y)))),
      (''slam'', JBool (slam (mBid y))),
      (''first_trick_lead'', JString (Place_ToString (mFirstPlayer y))),
      (''dog'', JString (Deck_ToString (mDog y))),
      (''attack_handle'', JString (Deck_ToString (mAttackHandle y))),
      (''defense_handle'', JString (Deck_ToString (mDefenseHandle y)))]"

abbreviation saved :: "tarot_context \<Rightarrow> json" where
  "saved y \<equiv> JObj (SaveToJson y [])"

lemma saved_info_at:
  assumes "CHR '':'' \<notin> set k" "map_of (saved_info y) k = Some v"
  shows "FindValue (''deal_info:'' @ k) (saved y) = v"
proof -
  have "map_of (SaveToJson y []) ''deal_info'' = Some (JObj (saved_info y))"
    by (simp add: SaveToJson_def saved_info_def Let_def AddValue_def)
  moreover have "split_on (CHR '':'') (''deal_info:'' @ k) = [''deal_info'', k]"
    using split_on_append [of "CHR '':''" "''deal_info''" k] assms(1) by (simp add: split_on_plain)
  ultimately show ?thesis using assms(2) by (simp add: FindValue_def)
qed

lemma saved_values:
  "FindValue ''deal_info:number_of_players'' (saved y) = JInt (int (mNbPlayers y))"
  "FindValue ''deal_info:taker'' (saved y) = JString (Place_ToString (taker (mBid y)))"
  "FindValue ''deal_info:contract'' (saved y) = JString (Contract_ToString (contract (mBid y)))"
  "FindValue ''deal_info:slam'' (saved y) = JBool (slam (mBid y))"
  "FindValue ''deal_info:first_trick_lead'' (saved y) = JString (Place_ToString (mFirstPlayer y))"
  "FindValue ''deal_info:dog'' (saved y) = JString (Deck_ToString (mDog y))"
  "FindValue ''deal_info:attack_handle'' (saved y) = JString (Deck_ToString (mAttackHandle y))"
  "FindValue ''deal_info:defense_handle'' (saved y) = JString (Deck_ToString (mDefenseHandle y))"
  using saved_info_at [of "''number_of_players''" y] saved_info_at [of "''taker''" y] saved_info_at [of "''contract''" y]
    saved_info_at [of "''slam''" y] saved_info_at [of "''first_trick_lead''" y] saved_info_at [of "''dog''" y]
    saved_info_at [of "''attack_handle''" y] saved_info_at [of "''defense_handle''" y]
  by (simp_all add: saved_info_def make_object_lookup)

lemma saved_tricks:
  "FindValue ''tricks'' (saved y) =
    JArr (map (\<lambda>i. JString (Deck_ToString (mTricks y ! i))) [0..<NumberOfCardsInHand (mNbPlayers y)])"
  by (simp add: FindValue_key SaveToJson_def Let_def AddValue_def)

section \<open>Playing the tricks again\<close>

text \<open>Two contexts that agree on everything the first \<open>k\<close> tricks settle.\<close>

definition same_play :: "nat \<Rightarrow> tarot_context \<Rightarrow> tarot_context \<Rightarrow> bool" where
  "same_play k x z \<longleftrightarrow> mBid x = mBid z \<and> mFirstPlayer x = mFirstPlayer z \<and> mTricksWon x = mTricksWon z \<and>
     mStatsAttack x = mStatsAttack z \<and> take k (mTricks x) = take k (mTricks z) \<and> take k (mWinner x) = take k (mWinner z)"

lemma same_cards_scans:
  assumes "mDeck t = mDeck t'"
  shows "trick_leader t = trick_leader t'" "Deck_HasFool t = Deck_HasFool t'" "Deck_GetCard s t = Deck_GetCard s t'"
    "Deck_AnalyzeTrumps t st = Deck_AnalyzeTrumps t' st" "Deck_SetOwner o' t = Deck_SetOwner o' t'" "Deck_Size t = Deck_Size t'"
  using assms
  by (simp_all add: trick_leader_def Deck_HighestTrump_def Deck_HighestSuit_def Deck_HasFool_def Deck_GetCard_def
      Deck_AnalyzeTrumps_def Deck_SetOwner_def Deck_Size_def Let_def)

lemma SetTrick_same:
  assumes "same_play (k - 1) x z" "wf_context x" "wf_context z" "mDeck t = mDeck t'" "1 \<le> k" "k \<le> 24"
    and x: "SetTrick t k x = Some (w, x1)"
  shows "\<exists>z1. SetTrick t' k z = Some (w, z1) \<and> same_play k x1 z1 \<and> wf_context x1 \<and> wf_context z1 \<and>
    mDiscard z1 = mDiscard z \<and> mDog z1 = mDog z \<and> mAttackHandle z1 = mAttackHandle z \<and>
    mDefenseHandle z1 = mDefenseHandle z \<and> mNbPlayers z1 = mNbPlayers z"
proof -
  have k: "k - 1 < 24" using assms(6) by simp
  have first: "trick_first k x = trick_first k z"
  proof (cases "k = 1")
    case False
    then have "k - 2 < k - 1" using assms(5) by simp
    then have "mWinner x ! (k - 2) = take (k - 1) (mWinner x) ! (k - 2)" "mWinner z ! (k - 2) = take (k - 1) (mWinner z) ! (k - 2)"
      by simp_all
    with assms(1) show ?thesis using False by (simp add: trick_first_def same_play_def)
  qed (use assms(1) in \<open>simp add: trick_first_def same_play_def\<close>)
  let ?x = "x\<lparr>mTricks := (mTricks x)[k - 1 := t]\<rparr>" and ?z = "z\<lparr>mTricks := (mTricks z)[k - 1 := t']\<rparr>"
  have "trick_winner t k (k - 1) p ?x = trick_winner t' k (k - 1) p ?z" for p
  proof -
    have "fool_rule k n q r ?x = fool_rule k n q r ?z" for n q r
      using assms(1) by (simp add: fool_rule_def same_play_def Let_def)
    then show ?thesis
      unfolding trick_winner_def Let_def same_cards_scans [OF assms(4)] GetOwner_current [OF assms(2) k]
        GetOwner_current [OF assms(3) k] assms(4) by (simp only:)
  qed
  moreover obtain s where s: "trick_winner t k (k - 1) (trick_first k x) ?x = Some (w, s)" "x1 = credit_trick t (k - 1) w s ?x"
    using x unfolding SetTrick_unfold [OF assms(2,5,6)] by (auto simp: Let_def bind_eq_Some_conv)
  ultimately have z: "SetTrick t' k z = Some (w, credit_trick t' (k - 1) w s ?z)"
    unfolding SetTrick_unfold [OF assms(3,5,6)] by (simp add: Let_def first)
  have snoc: "take k (xs[k - 1 := a]) = take (k - 1) xs @ [a]" if "length xs = 24" for xs :: "'b list" and a
    using that k assms(5) by (cases k) (simp_all add: take_Suc_conv_app_nth take_update_swap list_update_append)
  have "same_play k x1 (credit_trick t' (k - 1) w s ?z)"
    using assms(1-3) unfolding s(2) same_play_def frame
    by (simp add: snoc [unfolded One_nat_def] wf_context_def same_cards_scans(5) [OF assms(4)])
      (simp add: credit_trick_def Let_def same_cards_scans(4) [OF assms(4)])
  moreover have "wf_context ?x" "wf_context ?z" using assms(2,3) by (simp_all add: wf_context_def)
  then have "wf_context x1" "wf_context (credit_trick t' (k - 1) w s ?z)"
    unfolding s(2) by (simp_all only: credit_trick_wf)
  ultimately show ?thesis unfolding z
    by (intro exI conjI) (rule refl, assumption+, simp_all add: credit_trick_def Let_def)
qed

text \<open>Removing a trick from the pile of cards that are left.\<close>

lemma RemoveDuplicates_count:
  "distinct cs \<Longrightarrow> set cs \<subseteq> set (mDeck d) \<Longrightarrow> fst (fold RemoveDuplicates_step cs (m, d)) = m + length cs"
proof (induction cs arbitrary: m d)
  case (Cons c cs)
  then have "RemoveDuplicates_step c (m, d) = (m + 1, d\<lparr>mDeck := filter (\<lambda>x. x \<noteq> c) (mDeck d)\<rparr>)"
    by (auto simp: RemoveDuplicates_step_def Deck_Remove_def)
  moreover have "set cs \<subseteq> set (filter (\<lambda>x. x \<noteq> c) (mDeck d))" using Cons.prems by auto
  ultimately show ?case using Cons.IH [of "d\<lparr>mDeck := filter (\<lambda>x. x \<noteq> c) (mDeck d)\<rparr>" "Suc m"] Cons.prems(1) by simp
qed simp

lemma replay_plays:
  assumes "same_play (k - 1) x z" "wf_context x" "wf_context z" "1 \<le> k" "k + length ts \<le> 25" "0 < n"
    and "\<forall>t \<in> set ts. length (mDeck t) = n \<and> list_all Card_IsValid (mDeck t)"
    and "distinct (trick_cards ts)" "set (trick_cards ts) \<subseteq> set (mDeck (mDiscard z))"
    and "play_tricks ts k x = Some y"
  shows "\<exists>z'. replay n (map (\<lambda>t. JString (Deck_ToString t)) ts) k True z = Some (True, z') \<and>
    same_play (k + length ts - 1) y z' \<and> wf_context y \<and> wf_context z' \<and>
    mDeck (mDiscard z') = filter (\<lambda>c. c \<notin> set (trick_cards ts)) (mDeck (mDiscard z)) \<and>
    mDog z' = mDog z \<and> mAttackHandle z' = mAttackHandle z \<and> mDefenseHandle z' = mDefenseHandle z \<and>
    mNbPlayers z' = mNbPlayers z"
  using assms
proof (induction ts arbitrary: k x z)
  case Nil
  then show ?case by simp
next
  case (Cons t ts)
  let ?t = "Deck_FromString (Deck_ToString t)"
  have cards: "mDeck t = mDeck ?t" using FromString_ToString [of t] Cons.prems(7) by (simp add: list_all_iff)
  have size: "Deck_Size ?t = n" "length (mDeck ?t) = n" using Cons.prems(7) by (simp_all add: Deck_Size_def cards [symmetric])
  obtain w x1 where x1: "SetTrick t k x = Some (w, x1)" "play_tricks ts (k + 1) x1 = Some y"
    using Cons.prems(10) by (auto simp: bind_eq_Some_conv)
  have "k \<le> 24" using Cons.prems(5) by simp
  from SetTrick_same [OF Cons.prems(1-3) cards Cons.prems(4) this x1(1)] obtain z1 where
    z1: "SetTrick ?t k z = Some (w, z1)" "same_play k x1 z1" "wf_context x1" "wf_context z1" "mDiscard z1 = mDiscard z"
    "mDog z1 = mDog z" "mAttackHandle z1 = mAttackHandle z" "mDefenseHandle z1 = mDefenseHandle z" "mNbPlayers z1 = mNbPlayers z"
    by blast
  obtain removed d where d: "Deck_RemoveDuplicates ?t (mDiscard z) = (removed, d)" by fastforce
  have "removed = n"
    using RemoveDuplicates_count [of "mDeck ?t" "mDiscard z" 0] d Cons.prems(8,9) size(2)
    by (simp add: Deck_RemoveDuplicates_def cards)
  have left: "mDeck d = filter (\<lambda>c. c \<notin> set (mDeck t)) (mDeck (mDiscard z))"
    using RemoveDuplicates_cards [of ?t "mDiscard z"] d by (simp add: cards)
  let ?z2 = "z1\<lparr>mDiscard := d\<rparr>"
  have "same_play (k + 1 - 1) x1 ?z2" using z1(2) by (simp add: same_play_def)
  moreover have "wf_context ?z2" using z1(4) by (simp add: wf_context_def)
  moreover have "set (trick_cards ts) \<subseteq> set (mDeck (mDiscard ?z2))" using Cons.prems(8,9) by (auto simp: left)
  ultimately obtain z' where
    z': "replay n (map (\<lambda>t. JString (Deck_ToString t)) ts) (k + 1) True ?z2 = Some (True, z')"
    "same_play (k + 1 + length ts - 1) y z'" "wf_context y" "wf_context z'"
    "mDeck (mDiscard z') = filter (\<lambda>c. c \<notin> set (trick_cards ts)) (mDeck (mDiscard ?z2))"
    "mDog z' = mDog ?z2" "mAttackHandle z' = mAttackHandle ?z2" "mDefenseHandle z' = mDefenseHandle ?z2" "mNbPlayers z' = mNbPlayers ?z2"
    using Cons.IH [of "k + 1" x1 ?z2] z1(3) Cons.prems(5-8) x1(2) by auto
  have "inc8 k = k + 1" using \<open>k \<le> 24\<close> by (simp add: inc8_def)
  then have "replay n (map (\<lambda>t. JString (Deck_ToString t)) (t # ts)) k True z = Some (True, z')"
    using z1(1,5) d size Cons.prems(6) \<open>removed = n\<close> z'(1) by (simp add: Let_def)
  with z' z1(6-9) left show ?case by (auto simp: filter_filter conj_commute)
qed


text \<open>What the tricks leave in the record of the deal, and that the log holds their cards.\<close>

lemma play_tricks_frame:
  assumes "wf_context x" "1 \<le> k" "k + length ts \<le> 25" "play_tricks ts k x = Some y"
  shows "mBid y = mBid x \<and> mFirstPlayer y = mFirstPlayer x \<and> mNbPlayers y = mNbPlayers x \<and> mDiscard y = mDiscard x \<and>
    mDog y = mDog x \<and> mAttackHandle y = mAttackHandle x \<and> mDefenseHandle y = mDefenseHandle x \<and>
    map mDeck (take (k + length ts - 1) (mTricks y)) = map mDeck (take (k - 1) (mTricks x)) @ map mDeck ts"
  using assms
proof (induction ts arbitrary: k x)
  case (Cons t ts)
  then have k: "k \<le> 24" by simp
  let ?x = "x\<lparr>mTricks := (mTricks x)[k - 1 := t]\<rparr>"
  obtain w s where y: "play_tricks ts (k + 1) (credit_trick t (k - 1) w s ?x) = Some y"
    using Cons.prems(4) by (auto simp: SetTrick_unfold [OF Cons.prems(1,2) k] Let_def bind_eq_Some_conv)
  have wf: "wf_context (credit_trick t (k - 1) w s ?x)"
    using Cons.prems(1) by (intro credit_trick_wf) (simp add: wf_context_def)
  have "length (mTricks x) = 24" using Cons.prems(1) by (simp add: wf_context_def)
  moreover from this have "take k ((mTricks x)[k - 1 := d]) = take (k - 1) (mTricks x) @ [d]" for d
    using k Cons.prems(2) by (cases k) (simp_all add: take_Suc_conv_app_nth)
  moreover have "mAttackHandle (credit_trick t (k - 1) w s ?x) = mAttackHandle x"
    "mDefenseHandle (credit_trick t (k - 1) w s ?x) = mDefenseHandle x"
    by (simp_all add: credit_trick_def Let_def)
  ultimately show ?case
    using Cons.IH [OF wf _ _ y] Cons.prems(2,3) by (simp add: frame Deck_SetOwner_def)
qed simp

text \<open>The points of a deal depend on the record only through what the replay brings back.\<close>

lemma AnalyzeGame_same:
  assumes "oudlers (mStatsAttack y) < 256" "mStatsAttack z = mStatsAttack y" "mTricksWon z = mTricksWon y"
    and "mNbPlayers z = mNbPlayers y"
    and "take (NumberOfCardsInHand (mNbPlayers y)) (mTricks z) = take (NumberOfCardsInHand (mNbPlayers y)) (mTricks y)"
    and "mOwner (mDiscard z) = mOwner (mDiscard y)" "mset (mDeck (mDiscard z)) = mset (mDeck (mDiscard y))"
    and "mDeck (mAttackHandle z) = mDeck (mAttackHandle y)" "mDeck (mDefenseHandle z) = mDeck (mDefenseHandle y)"
  shows "fst (AnalyzeGame p z) = fst (AnalyzeGame p y)"
proof -
  have "mTricks z ! i = mTricks y ! i" if "i < NumberOfCardsInHand (mNbPlayers y)" for i
    using arg_cong [OF assms(5), of "\<lambda>xs. xs ! i"] that by simp
  moreover have "NumberOfCardsInHand (mNbPlayers y) - 1 < NumberOfCardsInHand (mNbPlayers y)"
    "NumberOfCardsInHand (mNbPlayers y) - 1 - 1 < NumberOfCardsInHand (mNbPlayers y)"
    by (simp_all add: NumberOfCardsInHand_def)
  ultimately have tricks: "mTricks z ! (NumberOfCardsInHand (mNbPlayers y) - 1) = mTricks y ! (NumberOfCardsInHand (mNbPlayers y) - 1)"
    "mTricks z ! (NumberOfCardsInHand (mNbPlayers y) - 1 - 1) = mTricks y ! (NumberOfCardsInHand (mNbPlayers y) - 1 - 1)"
    by blast+
  let ?st = "\<lambda>x. if mOwner (mDiscard x) = ATTACK then Deck_AnalyzeTrumps (mDiscard x) (mStatsAttack x) else mStatsAttack x"
  have st: "points (?st z) = points (?st y)" "oudlers (?st z) = oudlers (?st y)"
    using pts_mset [OF assms(7)] oudler_count_mset [OF assms(7)] assms(1,2,6)
    by (simp_all add: AnalyzeTrumps_points AnalyzeTrumps_oudlers pts_def oudler_count_def)
  have size: "Deck_Size (mAttackHandle z) = Deck_Size (mAttackHandle y)" "Deck_Size (mDefenseHandle z) = Deck_Size (mDefenseHandle y)"
    using assms(8,9) by (simp_all add: Deck_Size_def)
  have rounded: "points (if HasDecimal (points s) then (if r \<le> points s then s\<lparr>points := points s + 1 / 2\<rparr> else s\<lparr>points := points s - 1 / 2\<rparr>) else s)
      = (if HasDecimal (points s) then (if r \<le> points s then points s + 1 / 2 else points s - 1 / 2) else points s)" for s r
    by simp
  show ?thesis
    unfolding AnalyzeGame_def Let_def fst_conv rounded st assms(3,4) size
    by (simp only: if_distrib [of "\<lambda>i. mTricks z ! i"] if_distrib [of "\<lambda>i. mTricks y ! i"] tricks)
qed

text \<open>The information of a saved deal is read back as it was.\<close>

lemma load_saved_info:
  assumes "list_all Card_IsValid (mDeck (mDog y))" "list_all Card_IsValid (mDeck (mAttackHandle y))"
    "list_all Card_IsValid (mDeck (mDefenseHandle y))" "partner (mBid y) = NOWHERE"
  obtains d a h where "load_info (saved y) x = (True, mBid y, mFirstPlayer y, x\<lparr>mDog := d, mAttackHandle := a, mDefenseHandle := h\<rparr>)"
    "mDeck d = mDeck (mDog y)" "mDeck a = mDeck (mAttackHandle y)" "mDeck h = mDeck (mDefenseHandle y)"
proof -
  have cards: "mDeck (snd (Deck_SetCards (Deck_ToString d) d')) = mDeck d" if "list_all Card_IsValid (mDeck d)" for d d'
    using that by (intro SetCards_ToString) (simp add: list_all_iff)
  let ?d = "\<lambda>f. snd (Deck_SetCards (Deck_ToString (f y)) (f x))"
  have "load_info (saved y) x = (True, mBid y, mFirstPlayer y,
      x\<lparr>mDog := ?d mDog, mAttackHandle := ?d mAttackHandle, mDefenseHandle := ?d mDefenseHandle\<rparr>)"
    using assms(4)
    by (cases "mBid y") (simp add: load_info_def Let_def GetValue_string_def GetValue_bool_def saved_values
        Place_string_roundtrip Contract_string_roundtrip Bid_Initialize_def)
  from that [OF this cards [OF assms(1)] cards [OF assms(2)] cards [OF assms(3)]] show ?thesis .
qed

section \<open>Saving and loading\<close>

lemma cards_left:
  assumes "mset (ps @ ls) = mset cs" "distinct cs"
  shows "distinct ps" "set ps \<subseteq> set cs" "mset (filter (\<lambda>c. c \<notin> set ps) cs) = mset ls"
proof -
  have d: "distinct (ps @ ls)" using assms by (metis mset_eq_imp_distinct_iff)
  then show "distinct ps" by simp
  show "set ps \<subseteq> set cs" using arg_cong [OF assms(1), of set_mset] by auto
  have "mset (filter (\<lambda>c. c \<notin> set ps) cs) = filter_mset (\<lambda>c. c \<notin> set ps) (mset (ps @ ls))"
    by (simp only: mset_filter assms(1))
  also have "\<dots> = mset (filter (\<lambda>c. c \<notin> set ps) ls)" by (simp flip: mset_filter)
  also have "filter (\<lambda>c. c \<notin> set ps) ls = ls" using d by (intro filter_True) auto
  finally show "mset (filter (\<lambda>c. c \<notin> set ps) cs) = mset ls" .
qed

text \<open>The size of the discard, and the document of the tricks.\<close>

lemma discard_size:
  assumes "n = 3 \<or> n = 4 \<or> n = 5" "length ts = NumberOfCardsInHand n" "\<forall>t \<in> set ts. length (mDeck t) = n"
    and "mset (trick_cards ts @ cs) = mset tarot_cards"
  shows "length cs = NumberOfDogCards n"
proof -
  have "length (trick_cards ts) = sum_list (map (\<lambda>t. n) ts)"
    unfolding trick_cards_def length_concat map_map using assms(3) by (intro arg_cong [of _ _ sum_list]) simp
  then show ?thesis
    using mset_eq_length [OF assms(4)] assms(1,2) length_tarot_cards
    by (elim disjE; simp add: sum_list_triv del: trick_cards_simps)
qed

lemma logged_tricks:
  assumes "wf_context y" "length ts = N" "N \<le> 24" "map mDeck (take (length ts) (mTricks y)) = map mDeck ts"
  shows "map (\<lambda>i. JString (Deck_ToString (mTricks y ! i))) [0..<N] = map (\<lambda>t. JString (Deck_ToString t)) ts"
proof (rule nth_equalityI)
  fix i
  assume "i < length (map (\<lambda>i. JString (Deck_ToString (mTricks y ! i))) [0..<N])"
  then have i: "i < length ts" by (simp add: assms(2))
  moreover have "length (mTricks y) = 24" using assms(1) by (simp add: wf_context_def)
  ultimately have "mDeck (mTricks y ! i) = mDeck (ts ! i)"
    using arg_cong [OF assms(4), of "\<lambda>l. l ! i"] assms(2,3) by simp
  then show "map (\<lambda>i. JString (Deck_ToString (mTricks y ! i))) [0..<N] ! i = map (\<lambda>t. JString (Deck_ToString t)) ts ! i"
    using i assms(2) by (simp add: Deck_ToString_def)
qed (simp add: assms(2))

text \<open>
  C20. A saved deal replays. The tricks of a whole deal of three, four or five players without a called
  partner are played from a fresh record, whose tricks and discard are the 78 cards, and the deal is
  saved; loading the document into any record succeeds and brings back the bid, the first player, the
  tricks with their owners and winners, the number of tricks and the statistics of the attack, the
  discard as the cards that were not played, with its owner, and the cards of the dog and the handles.
  The number of players is not brought back: it stays the one of the record that loads. The points at
  the end of the deal, counted for the players of the deal, are the same.
\<close>

theorem saved_deal_replays:
  assumes n: "n = 3 \<or> n = 4 \<or> n = 5" "mNbPlayers x = n"
    and "wf_context x" "wf_context z" "mTricksWon x = 0" "mStatsAttack x = Statistics_Reset" "partner (mBid x) = NOWHERE"
    and ts: "length ts = NumberOfCardsInHand n" "\<forall>t \<in> set ts. length (mDeck t) = n"
    and all: "mset (trick_cards ts @ mDeck (mDiscard x)) = mset tarot_cards"
    and "mOwner (mDiscard x) = (if contract (mBid x) = GUARD_AGAINST then DEFENSE else ATTACK)"
    and "list_all Card_IsValid (mDeck (mDog x))" "list_all Card_IsValid (mDeck (mAttackHandle x))"
    and "list_all Card_IsValid (mDeck (mDefenseHandle x))"
    and y: "play_tricks ts 1 x = Some y"
  shows "\<exists>z'. LoadFromJson (saved y) z = Some (True, z') \<and> mBid z' = mBid y \<and> mFirstPlayer z' = mFirstPlayer y \<and>
    mTricksWon z' = mTricksWon y \<and> mStatsAttack z' = mStatsAttack y \<and>
    take (length ts) (mTricks z') = take (length ts) (mTricks y) \<and> take (length ts) (mWinner z') = take (length ts) (mWinner y) \<and>
    mset (mDeck (mDiscard z')) = mset (mDeck (mDiscard y)) \<and> mOwner (mDiscard z') = mOwner (mDiscard y) \<and>
    mDeck (mDog z') = mDeck (mDog y) \<and> mDeck (mAttackHandle z') = mDeck (mAttackHandle y) \<and>
    mDeck (mDefenseHandle z') = mDeck (mDefenseHandle y) \<and> mNbPlayers z' = mNbPlayers z \<and>
    fst (AnalyzeGame p (z'\<lparr>mNbPlayers := n\<rparr>)) = fst (AnalyzeGame p y)"
proof -
  have len: "1 + length ts \<le> 25" "0 < n" using n ts(1) by auto
  note F = play_tricks_frame [OF assms(3) _ len(1) y, simplified]
  from F have frame: "mBid y = mBid x" "mFirstPlayer y = mFirstPlayer x" "mNbPlayers y = n" "mDiscard y = mDiscard x"
    "mDog y = mDog x" "mAttackHandle y = mAttackHandle x" "mDefenseHandle y = mDefenseHandle x"
    "map mDeck (take (length ts) (mTricks y)) = map mDeck ts" using n(2) by simp_all
  have cards: "distinct (trick_cards ts)" "set (trick_cards ts) \<subseteq> set tarot_cards"
    "mset (filter (\<lambda>c. c \<notin> set (trick_cards ts)) tarot_cards) = mset (mDeck (mDiscard x))"
    using all distinct_tarot_cards by (rule cards_left)+
  have "list_all Card_IsValid (mDeck t)" if "t \<in> set ts" for t
    using cards(2) that by (auto simp: list_all_iff tarot_cards_iff [symmetric] trick_cards_def)
  with ts(2) have valid: "\<forall>t \<in> set ts. length (mDeck t) = n \<and> list_all Card_IsValid (mDeck t)" by blast
  let ?x0 = "Context_Initialize z"
  obtain d a h where info: "load_info (saved y) ?x0 = (True, mBid x, mFirstPlayer x, ?x0\<lparr>mDog := d, mAttackHandle := a, mDefenseHandle := h\<rparr>)"
    and decks: "mDeck d = mDeck (mDog x)" "mDeck a = mDeck (mAttackHandle x)" "mDeck h = mDeck (mDefenseHandle x)"
    using load_saved_info [of y ?x0] assms(7,12-14) unfolding frame by metis
  define z0 where "z0 = (?x0\<lparr>mDog := d, mAttackHandle := a, mDefenseHandle := h, mFirstPlayer := mFirstPlayer x, mBid := mBid x\<rparr>)
    \<lparr>mDiscard := Deck_CreateTarotDeck (mDiscard ?x0)\<rparr>"
  have z0: "wf_context z0" "same_play 0 x z0" "mDeck (mDiscard z0) = tarot_cards" "mNbPlayers z0 = mNbPlayers z"
    using assms(4-6) wf_context_Initialize [OF assms(4)]
    by (simp_all add: z0_def same_play_def wf_context_def Context_Initialize_def Deck_CreateTarotDeck_def)
  obtain z1 where z1: "replay n (map (\<lambda>t. JString (Deck_ToString t)) ts) 1 True z0 = Some (True, z1)"
    "same_play (length ts) y z1" "wf_context y"
    "mDeck (mDiscard z1) = filter (\<lambda>c. c \<notin> set (trick_cards ts)) tarot_cards"
    "mAttackHandle z1 = a" "mDefenseHandle z1 = h" "mNbPlayers z1 = mNbPlayers z" "mDog z1 = d"
    using replay_plays [of 1 x z0 ts n y] z0 assms(3) len valid cards y
    by (auto simp: z0_def)
  let ?own = "if contract (mBid x) = GUARD_AGAINST then DEFENSE else ATTACK"
  have "Deck_Size (mDiscard z1) = NumberOfDogCards n"
    using mset_eq_length [OF cards(3)] discard_size [OF n(1) ts all] by (simp add: Deck_Size_def z1(4))
  moreover have "NumberOfCardsInHand n \<le> 24" using len(1) ts(1) by simp
  note logged_tricks [OF z1(3) ts(1) this frame(8)]
  moreover have number: "to_u32 (GetInteger (JInt (int n))) = int n" "int n = 3 \<or> int n = 4 \<or> int n = 5"
    using n(1) by (auto simp: to_u32_def GetInteger_def to_i32_def)
  ultimately have load: "LoadFromJson (saved y) z = Some (True, z1\<lparr>mDiscard := Deck_SetOwner ?own (mDiscard z1)\<rparr>)"
    using number z1(1) [unfolded z0_def]
    by (simp add: LoadFromJson_def Let_def saved_values saved_tricks info frame(3) ts(1) del: replay.simps)
  let ?z = "z1\<lparr>mDiscard := Deck_SetOwner ?own (mDiscard z1)\<rparr>"
  have same: "mset (mDeck (mDiscard ?z)) = mset (mDeck (mDiscard y))" "mOwner (mDiscard ?z) = mOwner (mDiscard y)"
    "mStatsAttack ?z = mStatsAttack y" "mTricksWon ?z = mTricksWon y" "mBid ?z = mBid y" "mFirstPlayer ?z = mFirstPlayer y"
    "take (length ts) (mTricks ?z) = take (length ts) (mTricks y)" "take (length ts) (mWinner ?z) = take (length ts) (mWinner y)"
    using cards(3) z1(2,4) assms(11) frame(4) by (simp_all add: same_play_def Deck_SetOwner_def)
  moreover have "fst (AnalyzeGame p (?z\<lparr>mNbPlayers := n\<rparr>)) = fst (AnalyzeGame p y)"
    using same z1(3,5,6) decks frame(3,6,7) ts(1)
    by (intro AnalyzeGame_same) (simp_all add: wf_context_def)
  ultimately show ?thesis using load decks frame(5-7) z1(5-8)
    by (intro exI [of _ ?z]) simp
qed

theorem saved_deal_replays_witness:
  "\<exists>y z'. play_tricks example_tricks 1 example_deal = Some y \<and> LoadFromJson (saved y) Context_new = Some (True, z') \<and>
     mTricksWon z' = mTricksWon y \<and>
     fst (AnalyzeGame (example_points 0) (z'\<lparr>mNbPlayers := 4\<rparr>)) = fst (AnalyzeGame (example_points 0) y)"
proof -
  have "play_tricks example_tricks 1 example_deal \<noteq> None" by code_simp
  then obtain y where y: "play_tricks example_tricks 1 example_deal = Some y" by blast
  have all: "trick_cards example_tricks @ mDeck (mDiscard example_deal) = tarot_cards" by code_simp
  have side: "mNbPlayers example_deal = 4" "wf_context example_deal" "wf_context Context_new"
    "mTricksWon example_deal = 0" "partner (mBid example_deal) = NOWHERE" "length example_tricks = NumberOfCardsInHand 4"
    "list_all (\<lambda>t. length (mDeck t) = 4) example_tricks"
    "mOwner (mDiscard example_deal) = (if contract (mBid example_deal) = GUARD_AGAINST then DEFENSE else ATTACK)"
    "list_all Card_IsValid (mDeck (mDog example_deal))" "list_all Card_IsValid (mDeck (mAttackHandle example_deal))"
    "list_all Card_IsValid (mDeck (mDefenseHandle example_deal))"
    by code_simp+
  moreover have "mStatsAttack example_deal = Statistics_Reset"
    by (simp add: example_deal_def example_context_def Context_new_def)
  ultimately show ?thesis
    using saved_deal_replays [of 4 example_deal Context_new example_tricks y "example_points 0"] y arg_cong [OF all, of mset]
    by (auto simp: list_all_iff)
qed

text \<open>
  What a log does not bring back: the partner of the taker is not written, so two deals that differ in the
  called partner have the same log; and the number of players of the record is not restored.
\<close>

lemma partner_is_not_saved: "SaveToJson (x\<lparr>mBid := (mBid x)\<lparr>partner := p\<rparr>\<rparr>) doc = SaveToJson x doc"
  by (simp add: SaveToJson_def Let_def)

lemma replay_players: "replay n ts k ret x = Some (r, y) \<Longrightarrow> mNbPlayers y = mNbPlayers x"
proof (induction n ts k ret x rule: replay.induct)
  case (2 n t ts k ret x)
  have "SetTrick d k x = Some (w, x1) \<Longrightarrow> mNbPlayers x1 = mNbPlayers x" for d w x1
    by (auto simp: SetTrick_def Let_def bind_eq_Some_conv frame split: if_splits)
  with 2 show ?case by (fastforce simp: Let_def bind_eq_Some_conv split: if_splits prod.splits)
qed simp

lemma loading_keeps_the_number_of_players:
  assumes "LoadFromJson doc x = Some (r, y)"
  shows "mNbPlayers y = mNbPlayers x"
proof -
  obtain ret b f x1 where info: "load_info doc (Context_Initialize x) = (ret, b, f, x1)" by (rule prod_cases4)
  have "mNbPlayers (snd (snd (snd (load_info doc x')))) = mNbPlayers x'" for x'
    by (simp add: load_info_def Let_def split: option.split)
  from this [of "Context_Initialize x"] have x1: "mNbPlayers x1 = mNbPlayers x"
    unfolding info by (simp add: Context_Initialize_def)
  let ?x2 = "x1\<lparr>mFirstPlayer := f, mBid := b, mDiscard := Deck_CreateTarotDeck (mDiscard x1)\<rparr>"
  have replayed: "replay n ts 1 True ?x2 = Some (r', y') \<Longrightarrow> mNbPlayers y' = mNbPlayers x" for n ts r' y'
    using replay_players [of n ts 1 True ?x2] x1 by simp
  show ?thesis
    using assms x1 unfolding LoadFromJson_def Let_def info prod.case
    by (simp add: Context_Initialize_def split: if_splits) (auto dest: replayed [simplified] split: if_splits)
qed

end
