(* ===== verification/Player_Context.thy ===== *)
theory Player_Context
  imports Configurations Playing_Table
begin

text \<open>
  What a client knows of its game (PlayerContext.h, PlayerContext.cpp): its cards, the auction, the
  current trick, the lists of tables and users, how each message of the server changes it and how the
  messages to the server are built. The timers of the user interface are left out. A result of
  \<open>None\<close> is undefined behaviour.
\<close>

section \<open>State\<close>

record chat_message =
  msgSrc :: nat
  msgDst :: nat
  msgText :: string

record sit =
  sitMessage :: string
  sitContract :: contract
  sitSlam :: bool

definition Sit_new :: sit where
  "Sit_new = \<lparr>sitMessage = [], sitContract = NO_ANY, sitSlam = False\<rparr>"

datatype table_mode =
  TABLE_MODE_BLOCKED
| TABLE_MODE_BID
| TABLE_MODE_PLAY
| TABLE_MODE_WAIT_TIMER_END_OF_TRICK
| TABLE_MODE_WAIT_CLICK_END_OF_TRICK
| TABLE_MODE_SHOW_RESULTS

record player_context =
  pcDealResult :: "(string \<times> json) list"
  pcStats :: statistics
  pcGame :: game
  pcBid :: bid
  pcCurrentBid :: bid
  pcMyBid :: bid
  pcShuffle :: distribution
  pcPoints :: deal_points
  pcDog :: deck
  pcHandle :: deck
  pcDeck :: deck
  pcUuid :: nat
  pcTable :: nat
  pcPlace :: place
  pcTableToJoin :: nat
  pcSits :: "sit list"
  pcOptions :: client_options
  pcTrick :: deck
  pcCurrentPlayer :: place
  pcFirstPlayer :: place
  pcGameState :: tarot_context
  pcMode :: table_mode
  pcTables :: "(nat \<times> string) list"
  pcMessages :: "chat_message list"
  pcUsers :: "user list"

text \<open>
  The constructor initialises neither the number of the player nor the one of its table: they are
  what the memory holds.
\<close>

definition PlayerContext_new :: "nat \<Rightarrow> nat \<Rightarrow> player_context" where
  "PlayerContext_new uuid tableId =
     \<lparr>pcDealResult = [], pcStats = Statistics_Reset, pcGame = Game_default, pcBid = Bid_Initialize,
      pcCurrentBid = Bid_Initialize, pcMyBid = Bid_Initialize, pcShuffle = Distribution_Initialize,
      pcPoints = Points_new, pcDog = Deck_empty, pcHandle = Deck_empty, pcDeck = Deck_empty,
      pcUuid = uuid, pcTable = tableId, pcPlace = NOWHERE, pcTableToJoin = 0,
      pcSits = replicate 5 Sit_new, pcOptions = ClientOptions_new, pcTrick = Deck_empty,
      pcCurrentPlayer = NOWHERE, pcFirstPlayer = NOWHERE,
      pcGameState = Context_new,
      pcMode = TABLE_MODE_BLOCKED, pcTables = [], pcMessages = [], pcUsers = []\<rparr>"

definition PlayerContext_Clear :: "player_context \<Rightarrow> player_context" where
  "PlayerContext_Clear p =
     p\<lparr>pcTables := [], pcMessages := [], pcUsers := [], pcUuid := INVALID_UID, pcTable := INVALID_UID\<rparr>"

definition pcIsConnected :: "player_context \<Rightarrow> bool" where
  "pcIsConnected p = (USERS_UID \<le> pcUuid p)"

definition IsMyTurn :: "player_context \<Rightarrow> bool" where
  "IsMyTurn p = (pcCurrentPlayer p = pcPlace p)"

definition IsMyBidTurn :: "player_context \<Rightarrow> bool" where
  "IsMyBidTurn p = (pcCurrentPlayer p = pcPlace p \<and> \<not> Contract_IsValid (contract (pcMyBid p)))"

definition AddMessage :: "string \<Rightarrow> player_context \<Rightarrow> player_context" where
  "AddMessage text' p = p\<lparr>pcMessages := pcMessages p @ [\<lparr>msgSrc = 0, msgDst = 0, msgText = text'\<rparr>]\<rparr>"

section \<open>Decisions\<close>

definition pcTestDiscard :: "deck \<Rightarrow> player_context \<Rightarrow> bool" where
  "pcTestDiscard discard p = Deck_TestDiscard (pcDeck p) discard (pcDog p) (mNbPlayers (pcGameState p))"

definition UpdateStatistics :: "player_context \<Rightarrow> player_context option" where
  "UpdateStatistics p =
     map_option (\<lambda>st. p\<lparr>pcStats := st\<rparr>)
       (Deck_AnalyzeSuits (pcDeck p) (Deck_AnalyzeTrumps (pcDeck p) Statistics_Reset))"

definition little_trump_points :: "nat \<Rightarrow> int" where
  "little_trump_points n = (if n = 5 then 5 else if n = 6 \<or> n = 7 then 7 else if 7 < n then 8 else 0)"

definition hand_value :: "statistics \<Rightarrow> int" where
  "hand_value st =
     (if bigTrump st then 9 else 0) + (if fool st then 7 else 0) +
     (if littleTrump st then little_trump_points (trumps st) else 0) +
     int (trumps st) * 2 + int (majorTrumps st) * 2 + int (kings st) * 6 + int (queens st) * 3 +
     int (knights st) * 2 + int (jacks st) + int (weddings st) + int (longSuits st) * 5 +
     int (cuts st) * 5 + int (singletons st) * 3 + int (sequences st) * 4"

definition CalculateBid :: "player_context \<Rightarrow> (contract \<times> player_context) option" where
  "CalculateBid p =
     map_option (\<lambda>p1.
         let total = hand_value (pcStats p1)
         in (if total \<le> 35 then PASS else if 36 \<le> total \<and> total \<le> 50 then TAKE
             else if 51 \<le> total \<and> total \<le> 65 then GUARD else if 66 \<le> total \<and> total \<le> 75 then GUARD_WITHOUT
             else GUARD_AGAINST, p1))
       (UpdateStatistics p)"

definition pcIsValid :: "card \<Rightarrow> player_context \<Rightarrow> bool" where
  "pcIsValid c p = Deck_CanPlayCard (pcDeck p) c (pcTrick p)"

definition ChooseRandomCard :: "player_context \<Rightarrow> card" where
  "ChooseRandomCard p =
     (case find (\<lambda>c. pcIsValid c p) (mDeck (pcDeck p)) of Some c \<Rightarrow> c | None \<Rightarrow> Card_default)"

definition pcAutoDiscard :: "player_context \<Rightarrow> deck \<times> player_context" where
  "pcAutoDiscard p =
     (let (discard, d) = Deck_AutoDiscard (pcDog p) (mNbPlayers (pcGameState p)) (pcDeck p)
      in (discard, p\<lparr>pcDeck := snd (Deck_RemoveDuplicates discard d)\<rparr>))"

definition AttackPoints :: "player_context \<Rightarrow> int option" where
  "AttackPoints p = GetPoints ATTACK (pcBid p) (mNbPlayers (pcGameState p)) (pcPoints p)"

definition DefensePoints :: "player_context \<Rightarrow> int option" where
  "DefensePoints p = GetPoints DEFENSE (pcBid p) (mNbPlayers (pcGameState p)) (pcPoints p)"
section \<open>Messages to the server\<close>

definition reply_to :: "nat \<Rightarrow> (string \<times> json) list \<Rightarrow> reply" where
  "reply_to dest obj = \<lparr>rDest = [dest], rData = obj\<rparr>"

definition BuildReplyLogin :: "player_context \<Rightarrow> reply" where
  "BuildReplyLogin p =
     reply_to LOBBY_UID (Identity_ToJson (coIdentity (pcOptions p)) (make_object [(''cmd'', JString ''ReplyLogin'')]))"

definition BuildReplyBid :: "player_context \<Rightarrow> reply" where
  "BuildReplyBid p =
     reply_to (pcTable p)
       (make_object [(''cmd'', JString ''ReplyBid''), (''contract'', JString (Contract_ToString (contract (pcMyBid p)))),
                     (''slam'', JBool (slam (pcMyBid p)))])"

definition BuildChatMessage :: "string \<Rightarrow> player_context \<Rightarrow> reply" where
  "BuildChatMessage msg p =
     reply_to LOBBY_UID
       (make_object [(''cmd'', JString ''ChatMessage''), (''message'', JString msg), (''source'', JInt (int (pcUuid p))),
                     (''target'', JInt (int LOBBY_UID))])"

definition BuildHandle :: "deck \<Rightarrow> player_context \<Rightarrow> reply" where
  "BuildHandle handle p =
     reply_to (pcTable p) (make_object [(''cmd'', JString ''Handle''), (''handle'', JString (Deck_ToString handle))])"

definition pcBuildDiscard :: "deck \<Rightarrow> player_context \<Rightarrow> reply" where
  "pcBuildDiscard discard p =
     reply_to (pcTable p) (make_object [(''cmd'', JString ''Discard''), (''discard'', JString (Deck_ToString discard))])"

text \<open>The card leaves the hand as it is sent, and the user interface is blocked.\<close>

definition BuildSendCard :: "card \<Rightarrow> player_context \<Rightarrow> reply \<times> player_context" where
  "BuildSendCard c p =
     (reply_to (pcTable p) (make_object [(''cmd'', JString ''Card''), (''card'', JString (Card_ToString c))]),
      p\<lparr>pcDeck := snd (Deck_Remove c (pcDeck p)), pcMode := TABLE_MODE_BLOCKED\<rparr>)"

definition BuildQuitTable :: "nat \<Rightarrow> player_context \<Rightarrow> reply" where
  "BuildQuitTable tableId p =
     reply_to (pcTable p) (make_object [(''cmd'', JString ''RequestQuitTable''), (''table_id'', JInt (int tableId))])"

definition BuildChangeNickname :: "player_context \<Rightarrow> reply" where
  "BuildChangeNickname p =
     reply_to LOBBY_UID
       (make_object [(''cmd'', JString ''RequestChangeNickname''), (''nickname'', JString (username (coIdentity (pcOptions p))))])"

definition BuildJoinTable :: "nat \<Rightarrow> reply" where
  "BuildJoinTable tableId =
     reply_to LOBBY_UID (make_object [(''cmd'', JString ''RequestJoinTable''), (''table_id'', JInt (int tableId))])"

definition BuildNewGame :: "player_context \<Rightarrow> reply" where
  "BuildNewGame p =
     reply_to (pcTable p)
       (make_object [(''cmd'', JString ''RequestNewGame''), (''mode'', JString (Game_Get (pcGame p))),
                     (''deals'', JArr (map (\<lambda>d. JObj (Distribution_ToJson d [])) (deals (pcGame p))))])"

definition pcSync :: "seq \<Rightarrow> player_context \<Rightarrow> reply" where
  "pcSync sq p = reply_to (pcTable p) (make_object [(''cmd'', JString ''Ack''), (''step'', JString (Ack_ToString sq))])"

section \<open>Messages of the server\<close>

definition json_u32 :: "json \<Rightarrow> nat" where
  "json_u32 v = nat (to_u32 (GetInteger v))"

definition str_of :: "string \<Rightarrow> (string \<times> json) list \<Rightarrow> string" where
  "str_of k obj = GetString (FindValue k (JObj obj))"

definition User_new :: user where
  "User_new = \<lparr>uUuid = INVALID_UID, uTable = INVALID_UID, uPlace = NOWHERE, uIdentity = Identity_new\<rparr>"

definition UserFromJson :: "user \<Rightarrow> (string \<times> json) list \<Rightarrow> user" where
  "UserFromJson member player =
     member\<lparr>uIdentity := Identity_FromJson player (uIdentity member),
            uUuid := json_u32 (Object_GetValue ''uuid'' player),
            uTable := json_u32 (Object_GetValue ''table'' player),
            uPlace := Place_FromString (GetString (Object_GetValue ''place'' player))\<rparr>"

text \<open>\<open>Decode\<close>: the object of the message, nothing if it is not JSON.\<close>

definition Decode :: "string \<Rightarrow> (string \<times> json) list option option" where
  "Decode arg = map_option (\<lambda>r. case r of Some doc \<Rightarrow> Some (GetObj doc) | None \<Rightarrow> None) (read_json arg)"

definition DecodeRequestLogin :: "(string \<times> json) list \<Rightarrow> player_context \<Rightarrow> player_context" where
  "DecodeRequestLogin obj p = p\<lparr>pcUuid := json_u32 (FindValue ''uuid'' (JObj obj))\<rparr>"

definition DecodeAccessGranted :: "(string \<times> json) list \<Rightarrow> player_context \<Rightarrow> player_context" where
  "DecodeAccessGranted obj p =
     p\<lparr>pcTables := fold (\<lambda>v m. smap_put (json_u32 (Object_GetValue ''uuid'' (GetObj v)))
                                       (GetString (Object_GetValue ''name'' (GetObj v))) m)
                    (GetArray (FindValue ''tables'' (JObj obj))) [],
       pcUsers := fold (\<lambda>v us. snd (AddEntry (UserFromJson User_new (GetObj v)) us))
                    (GetArray (FindValue ''players'' (JObj obj))) []\<rparr>"

definition DecodeChatMessage :: "(string \<times> json) list \<Rightarrow> player_context \<Rightarrow> player_context" where
  "DecodeChatMessage obj p =
     p\<lparr>pcMessages := pcMessages p @ [\<lparr>msgSrc = json_u32 (FindValue ''source'' (JObj obj)),
                                     msgDst = json_u32 (FindValue ''target'' (JObj obj)),
                                     msgText = str_of ''message'' obj\<rparr>]\<rparr>"

definition DecodeLobbyEvent :: "(string \<times> json) list \<Rightarrow> player_context \<Rightarrow> player_context" where
  "DecodeLobbyEvent obj p =
     (let member = UserFromJson User_new (GetObj (FindValue ''player'' (JObj obj)))
      in if str_of ''type'' obj = ''JoinTable''
         then p\<lparr>pcUsers := snd (UpdateLocation (uUuid member) (uTable member) (uPlace member) (pcUsers p))\<rparr>
         else p)"

text \<open>The result of loading the state of the game is not looked at.\<close>

definition DecodeReplyJoinTable :: "(string \<times> json) list \<Rightarrow> player_context \<Rightarrow> player_context option" where
  "DecodeReplyJoinTable obj p =
     map_option (\<lambda>(_, state).
         p\<lparr>pcPlace := Place_FromString (str_of ''place'' obj),
           pcTable := json_u32 (FindValue ''table_id'' (JObj obj)),
           pcDeck := snd (Deck_SetCards (str_of ''deck'' obj) (pcDeck p)), pcGameState := state\<rparr>)
       (LoadFromJson (JObj (GetObj (FindValue ''context'' (JObj obj)))) (pcGameState p))"

definition DecodeNewGame :: "(string \<times> json) list \<Rightarrow> player_context \<Rightarrow> player_context" where
  "DecodeNewGame obj p = p\<lparr>pcGame := Game_Set (str_of ''mode'' obj) (pcGame p)\<rparr>"

definition DecodeNewDeal :: "(string \<times> json) list \<Rightarrow> player_context \<Rightarrow> player_context" where
  "DecodeNewDeal obj p =
     p\<lparr>pcDeck := snd (Deck_SetCards (str_of ''cards'' obj) (pcDeck p)), pcMode := TABLE_MODE_BID,
       pcMyBid := Bid_Initialize\<rparr>"

definition DecodeRequestBid :: "(string \<times> json) list \<Rightarrow> player_context \<Rightarrow> player_context" where
  "DecodeRequestBid obj p =
     p\<lparr>pcCurrentPlayer := Place_FromString (str_of ''place'' obj),
       pcCurrentBid := (pcCurrentBid p)\<lparr>contract := Contract_FromString (str_of ''contract'' obj)\<rparr>\<rparr>"

text \<open>The announcement is stored for the seat of the place, which must be one of the five.\<close>

definition DecodeShowBid :: "(string \<times> json) list \<Rightarrow> player_context \<Rightarrow> player_context option" where
  "DecodeShowBid obj p =
     (let v = Place_Value (Place_FromString (str_of ''place'' obj))
      in Option.bind (arr_get (pcSits p) v) (\<lambda>s.
         map_option (\<lambda>sits.
             p\<lparr>pcSits := sits,
               pcBid := (pcBid p)\<lparr>taker := Place_FromString (str_of ''taker_place'' obj),
                                  contract := Contract_FromString (str_of ''taker_contract'' obj),
                                  slam := GetBool (FindValue ''taker_slam'' (JObj obj))\<rparr>\<rparr>)
           (arr_set (pcSits p) v
              (s\<lparr>sitSlam := GetBool (FindValue ''slam'' (JObj obj)),
                sitContract := Contract_FromString (str_of ''contract'' obj)\<rparr>))))"
definition DecodeShowDog :: "(string \<times> json) list \<Rightarrow> player_context \<Rightarrow> player_context" where
  "DecodeShowDog obj p = p\<lparr>pcDog := snd (Deck_SetCards (str_of ''dog'' obj) (pcDog p))\<rparr>"

definition DecodeStartDeal :: "(string \<times> json) list \<Rightarrow> player_context \<Rightarrow> player_context option" where
  "DecodeStartDeal obj p =
     map_option (\<lambda>p1. p1\<lparr>pcTrick := Deck_Clear (pcTrick p1)\<rparr>)
       (UpdateStatistics
          (p\<lparr>pcBid := (pcBid p)\<lparr>taker := Place_FromString (str_of ''taker'' obj),
                              contract := Contract_FromString (str_of ''contract'' obj),
                              slam := GetBool (FindValue ''slam'' (JObj obj))\<rparr>,
             pcMode := TABLE_MODE_PLAY\<rparr>))"

definition DecodeShowHandle :: "(string \<times> json) list \<Rightarrow> player_context \<Rightarrow> player_context" where
  "DecodeShowHandle obj p =
     (let place' = Place_FromString (str_of ''place'' obj);
          handle = snd (Deck_SetCards (str_of ''handle'' obj) (pcHandle p))
      in p\<lparr>pcHandle := Deck_SetOwner (if place' = taker (pcBid p) then ATTACK else DEFENSE) handle\<rparr>)"

definition DecodeShowCard :: "(string \<times> json) list \<Rightarrow> player_context \<Rightarrow> player_context" where
  "DecodeShowCard obj p =
     p\<lparr>pcCurrentPlayer := Place_FromString (str_of ''place'' obj),
       pcTrick := Deck_AppendCard (Card_FromName (str_of ''card'' obj)) (pcTrick p)\<rparr>"

definition DecodePlayCard :: "(string \<times> json) list \<Rightarrow> player_context \<Rightarrow> player_context" where
  "DecodePlayCard obj p =
     (let p1 = p\<lparr>pcCurrentPlayer := Place_FromString (str_of ''place'' obj)\<rparr>
      in if Deck_Size (pcTrick p1) = 0
         then p1\<lparr>pcMode := (if autoPlay (pcOptions p1) then TABLE_MODE_BLOCKED else TABLE_MODE_PLAY),
                 pcFirstPlayer := pcCurrentPlayer p1\<rparr>
         else p1)"

definition DecodeEndOfTrick :: "(string \<times> json) list \<Rightarrow> player_context \<Rightarrow> player_context" where
  "DecodeEndOfTrick obj p = p\<lparr>pcCurrentPlayer := Place_FromString (str_of ''place'' obj)\<rparr>"

text \<open>A \<open>Team\<close> holds any number; one that is neither 0 nor 1 counts for no team.\<close>

definition Team_of :: "nat \<Rightarrow> team" where
  "Team_of n = (if n = 0 then ATTACK else if n = 1 then DEFENSE else NO_TEAM)"

definition DecodeEndOfDeal :: "(string \<times> json) list \<Rightarrow> player_context \<Rightarrow> player_context" where
  "DecodeEndOfDeal obj p =
     p\<lparr>pcPoints := (pcPoints p)\<lparr>pointsAttack := GetInteger (FindValue ''points'' (JObj obj)),
                              oudlersAttack := GetInteger (FindValue ''oudlers'' (JObj obj)),
                              littleEndianOwner := Team_of (to_u8 (GetInteger (FindValue ''little_bonus'' (JObj obj)))),
                              handlePoints := GetInteger (FindValue ''handle_bonus'' (JObj obj)),
                              slamDone := GetBool (FindValue ''slam_bonus'' (JObj obj))\<rparr>,
       pcDealResult := GetObj (FindValue ''deal'' (JObj obj))\<rparr>"

definition DecodeEndOfGame :: "(string \<times> json) list \<Rightarrow> player_context \<Rightarrow> player_context" where
  "DecodeEndOfGame obj p =
     p\<lparr>pcCurrentPlayer := Place_FromString (str_of ''winner'' obj), pcMode := TABLE_MODE_SHOW_RESULTS\<rparr>"

definition UpdateMember :: "user \<Rightarrow> string \<Rightarrow> player_context \<Rightarrow> player_context" where
  "UpdateMember member event p =
     (if event = ''Quit'' then p\<lparr>pcUsers := Users_Remove (uUuid member) (pcUsers p)\<rparr>
      else if \<not> IsHere (uUuid member) (pcUsers p) then
        (if event = ''New'' then p\<lparr>pcUsers := snd (AddEntry member (pcUsers p))\<rparr> else p)
      else if event = ''Nick'' then
        p\<lparr>pcUsers := snd (ChangeNickName (uUuid member) (username (uIdentity member)) (pcUsers p))\<rparr>
      else if event = ''Join'' \<or> event = ''Leave'' then
        p\<lparr>pcUsers := snd (UpdateLocation (uUuid member) (uTable member) (uPlace member) (pcUsers p))\<rparr>
      else p)"

end
