(* ===== verification/Script_Engine.thy ===== *)
theory Script_Engine
  imports Configurations
begin

text \<open>
  The value a script returns (Value.h, Value.cpp) and the wrapper of the JavaScript interpreter
  (JSEngine.cpp). The interpreter itself, a third-party library, is a record of functions: a new
  heap, the call of a global function, the evaluation of a text. What a script is given by the program is
  in \<open>Script_Functions\<close>; the search for modules is left out.
\<close>

section \<open>Values\<close>

datatype value_type = V_INVALID | V_INTEGER | V_DOUBLE | V_BOOLEAN | V_STRING | V_NULL

record variant =
  vType :: value_type
  vInteger :: int
  vDouble :: rat
  vString :: string
  vBool :: bool
  vJson :: bool

definition Value_invalid :: variant where
  "Value_invalid = \<lparr>vType = V_INVALID, vInteger = 0, vDouble = 0, vString = [], vBool = False, vJson = False\<rparr>"

definition Value_of_int :: "int \<Rightarrow> variant" where
  "Value_of_int i = \<lparr>vType = V_INTEGER, vInteger = i, vDouble = 0, vString = [], vBool = False, vJson = False\<rparr>"

text \<open>A double whose integral part does not fit 32 bits is an undefined conversion.\<close>

definition trunc0 :: "rat \<Rightarrow> int" where
  "trunc0 x = (if 0 \<le> x then \<lfloor>x\<rfloor> else \<lceil>x\<rceil>)"

definition Value_of_double :: "rat \<Rightarrow> variant option" where
  "Value_of_double x =
     (let i = trunc0 x
      in if - (2 ^ 31) \<le> i \<and> i < 2 ^ 31
         then Some \<lparr>vType = V_DOUBLE, vInteger = i, vDouble = x, vString = [], vBool = False, vJson = False\<rparr>
         else None)"

definition Value_of_string :: "string \<Rightarrow> variant" where
  "Value_of_string s = \<lparr>vType = V_STRING, vInteger = 0, vDouble = 0, vString = s, vBool = False, vJson = False\<rparr>"

definition Value_of_bool :: "bool \<Rightarrow> variant" where
  "Value_of_bool b = \<lparr>vType = V_BOOLEAN, vInteger = 0, vDouble = 0, vString = [], vBool = b, vJson = False\<rparr>"

definition Value_IsValid :: "variant \<Rightarrow> bool" where
  "Value_IsValid v = (vType v \<noteq> V_INVALID)"

definition Value_IsNull :: "variant \<Rightarrow> bool" where
  "Value_IsNull v = (vType v = V_NULL)"

definition Value_SetNull :: "variant \<Rightarrow> variant" where
  "Value_SetNull v = v\<lparr>vType := V_NULL\<rparr>"

definition Value_SetJsonString :: "bool \<Rightarrow> variant \<Rightarrow> variant" where
  "Value_SetJsonString enable v = v\<lparr>vJson := enable\<rparr>"

definition Value_GetInteger :: "variant \<Rightarrow> int" where
  "Value_GetInteger v = to_i32 (vInteger v)"

section \<open>The interpreter\<close>

datatype call_result =
  No_Function
| Call_Failed string
| Returned_String string
| Returned_Boolean bool
| Returned_Object string
| Returned_Undefined
| Returned_Other nat

record 'h interpreter =
  new_heap :: "'h option"
  call_global :: "string \<Rightarrow> string list \<Rightarrow> 'h \<Rightarrow> call_result \<times> 'h"
  eval_text :: "string \<Rightarrow> 'h \<Rightarrow> bool \<times> string \<times> 'h"

section \<open>The wrapper\<close>

text \<open>The context is valid exactly when there is a heap.\<close>

record 'h js_engine =
  jsHeap :: "'h option"
  mValidContext :: bool
  mHasError :: bool
  mLastError :: string

definition JSEngine_new :: "'h js_engine" where
  "JSEngine_new = \<lparr>jsHeap = None, mValidContext = False, mHasError = False, mLastError = []\<rparr>"

definition ClearError :: "'h js_engine \<Rightarrow> 'h js_engine" where
  "ClearError e = e\<lparr>mHasError := False, mLastError := []\<rparr>"

definition SetError :: "string \<Rightarrow> 'h js_engine \<Rightarrow> 'h js_engine" where
  "SetError err e = e\<lparr>mHasError := True, mLastError := err\<rparr>"

definition JSEngine_Close :: "'h js_engine \<Rightarrow> 'h js_engine" where
  "JSEngine_Close e = e\<lparr>jsHeap := None, mValidContext := False\<rparr>"

definition JSEngine_Initialize :: "'h interpreter \<Rightarrow> 'h js_engine \<Rightarrow> 'h js_engine" where
  "JSEngine_Initialize vm e =
     (let e1 = (JSEngine_Close e)\<lparr>mLastError := []\<rparr>
      in case new_heap vm of
           Some h \<Rightarrow> ClearError (e1\<lparr>jsHeap := Some h, mValidContext := True\<rparr>)
         | None \<Rightarrow> SetError ''Cannot initialize script context'' e1)"

text \<open>The result of a script text: success and its text form.\<close>

definition EvaluateString :: "'h interpreter \<Rightarrow> string \<Rightarrow> 'h js_engine \<Rightarrow> (bool \<times> string) \<times> 'h js_engine" where
  "EvaluateString vm contents e =
     (case (mValidContext e, jsHeap e) of
        (True, Some h) \<Rightarrow>
          (let (ok, result, h') = eval_text vm contents h;
               e1 = (ClearError e)\<lparr>jsHeap := Some h'\<rparr>
           in ((ok, result), if ok then e1 else SetError (''Compile failed: '' @ result) e1))
      | _ \<Rightarrow> ((False, []), e))"

definition EvaluateFile :: "'h interpreter \<Rightarrow> disk \<Rightarrow> string \<Rightarrow> 'h js_engine \<Rightarrow> bool \<times> 'h js_engine" where
  "EvaluateFile vm d fileName e =
     (if mValidContext e then
        (let e1 = ClearError e
         in case fileOf d fileName of
              Some contents \<Rightarrow> (let ((ret, _), e2) = EvaluateString vm contents e1 in (ret, e2))
            | None \<Rightarrow> (False, e1))
      else (False, e))"

definition JSEngine_Call :: "'h interpreter \<Rightarrow> string \<Rightarrow> string list \<Rightarrow> 'h js_engine \<Rightarrow> variant \<times> 'h js_engine" where
  "JSEngine_Call vm function args e =
     (case (mValidContext e, jsHeap e) of
        (True, Some h) \<Rightarrow>
          (let (r, h') = call_global vm function args h;
               e1 = (ClearError e)\<lparr>jsHeap := Some h'\<rparr>
           in case r of
                No_Function \<Rightarrow> (Value_invalid, e1)
              | Call_Failed msg \<Rightarrow> (Value_invalid, SetError (''Call to function '' @ function @ '' failed: '' @ msg) e1)
              | Returned_String s \<Rightarrow> (Value_of_string s, e1)
              | Returned_Boolean b \<Rightarrow> (Value_of_bool b, e1)
              | Returned_Object s \<Rightarrow> (Value_SetJsonString True (Value_of_string s), e1)
              | Returned_Undefined \<Rightarrow> (Value_invalid, e1)
              | Returned_Other ty \<Rightarrow>
                  (Value_invalid, SetError (''Unsupported value type returned: '' @ dec_string ty) e1))
      | _ \<Rightarrow> (Value_invalid, SetError ''Cannot call script function without a valid context.'' e))"

section \<open>Facts\<close>

definition js_ok :: "'h js_engine \<Rightarrow> bool" where
  "js_ok e = (mValidContext e \<longleftrightarrow> jsHeap e \<noteq> None)"

lemma js_ok_keeps [keeps]:
  "js_ok JSEngine_new" "js_ok (JSEngine_Initialize vm e)" "js_ok (JSEngine_Close e)"
  "js_ok e \<Longrightarrow> js_ok (snd (EvaluateString vm text' e))" "js_ok e \<Longrightarrow> js_ok (snd (EvaluateFile vm d name e))"
  "js_ok e \<Longrightarrow> js_ok (snd (JSEngine_Call vm f args e))"
  by (auto simp: js_ok_def JSEngine_new_def JSEngine_Initialize_def JSEngine_Close_def EvaluateString_def
      EvaluateFile_def JSEngine_Call_def ClearError_def SetError_def Let_def
      split: option.split call_result.split prod.split bool.split)

text \<open>A script answers only with a string or a boolean.\<close>

lemma Call_types:
  "fst (JSEngine_Call vm f args e) = v \<Longrightarrow> Value_IsValid v \<Longrightarrow> vType v = V_STRING \<or> vType v = V_BOOLEAN"
  by (auto simp: JSEngine_Call_def Value_invalid_def Value_of_string_def Value_of_bool_def Value_IsValid_def
      Value_SetJsonString_def Let_def split: option.splits call_result.splits prod.splits bool.splits)

lemma Call_without_context: "\<not> mValidContext e \<Longrightarrow> fst (JSEngine_Call vm f args e) = Value_invalid"
  by (simp add: JSEngine_Call_def split: bool.split)

end
