(* ===== verification/Bots.thy ===== *)
theory Bots
  imports Player_Context Script_Engine Unique_Ids
begin

text \<open>
  The computer players (Bot.h, Bot.cpp, BotManager.h, BotManager.cpp): the handler of the messages of
  the server, the calls of the script of a player with the program's own choice behind them, and the
  pool of players of a client. \<open>None\<close> is undefined behaviour. The pauses between cards are left out.
\<close>

section \<open>State\<close>

record 'h bot =
  bCtx :: player_context
  mTimeBeforeSend :: nat
  mBotEngine :: "'h js_engine"
  mScriptPath :: string

definition Bot_new :: "nat \<Rightarrow> nat \<Rightarrow> 'h bot" where
  "Bot_new uuid tableId =
     \<lparr>bCtx = PlayerContext_new uuid tableId, mTimeBeforeSend = 0, mBotEngine = JSEngine_new, mScriptPath = []\<rparr>"

definition SetTimeBeforeSend :: "nat \<Rightarrow> 'h bot \<Rightarrow> 'h bot" where
  "SetTimeBeforeSend t b = b\<lparr>mTimeBeforeSend := t\<rparr>"

definition ChangeNickname :: "string \<Rightarrow> 'h bot \<Rightarrow> reply list \<times> 'h bot" where
  "ChangeNickname nickname b =
     (let p = bCtx b; opt = pcOptions p;
          p1 = p\<lparr>pcOptions := opt\<lparr>coIdentity := (coIdentity opt)\<lparr>username := nickname\<rparr>\<rparr>\<rparr>
      in ([BuildChangeNickname p1], b\<lparr>bCtx := p1\<rparr>))"

definition SetAiScript :: "string \<Rightarrow> 'h bot \<Rightarrow> 'h bot" where
  "SetAiScript path b = b\<lparr>mScriptPath := path\<rparr>"

definition SetTableToJoin :: "nat \<Rightarrow> 'h bot \<Rightarrow> 'h bot" where
  "SetTableToJoin t b = b\<lparr>bCtx := (bCtx b)\<lparr>pcTableToJoin := t\<rparr>\<rparr>"

definition SetUuid :: "nat \<Rightarrow> 'h bot \<Rightarrow> 'h bot" where
  "SetUuid uuid b = b\<lparr>bCtx := (bCtx b)\<lparr>pcUuid := uuid\<rparr>\<rparr>"

text \<open>The identity goes through the assignment operator.\<close>

definition SetIdentity :: "identity \<Rightarrow> 'h bot \<Rightarrow> 'h bot" where
  "SetIdentity ident b =
     b\<lparr>bCtx := (bCtx b)\<lparr>pcOptions := (pcOptions (bCtx b))\<lparr>coIdentity := identity_assign ident\<rparr>\<rparr>\<rparr>"

definition call_script :: "'h interpreter \<Rightarrow> string \<Rightarrow> string list \<Rightarrow> 'h bot \<Rightarrow> variant \<times> 'h bot" where
  "call_script vm function args b =
     (let (v, e) = JSEngine_Call vm function args (mBotEngine b) in (v, b\<lparr>mBotEngine := e\<rparr>))"

section \<open>The choices of a bot\<close>

text \<open>
  The script's contract is taken if it is between a pass and a guard against, the program's own otherwise; what is
  not above the highest bid is a pass.
\<close>

definition Bot_RequestBid :: "'h interpreter \<Rightarrow> 'h bot \<Rightarrow> (reply \<times> 'h bot) option" where
  "Bot_RequestBid vm b =
     (let highestBid = contract (pcBid (bCtx b));
          (result, b1) = call_script vm ''AnnounceBid'' [Contract_ToString highestBid] b;
          p1 = (bCtx b1)\<lparr>pcMyBid := (pcMyBid (bCtx b1))\<lparr>contract := Contract_FromString (vString result)\<rparr>\<rparr>;
          b2 = b1\<lparr>bCtx := p1\<rparr>
      in map_option (\<lambda>b3.
           let p3 = bCtx b3;
               p4 = (if contract (pcMyBid p3) \<le> highestBid then p3\<lparr>pcMyBid := (pcMyBid p3)\<lparr>contract := PASS\<rparr>\<rparr> else p3)
           in (BuildReplyBid p4, b3\<lparr>bCtx := p4\<rparr>))
         (if PASS \<le> contract (pcMyBid p1) \<and> contract (pcMyBid p1) \<le> GUARD_AGAINST then
            (let (result2, b3) = call_script vm ''AnnounceSlam'' [] b2
             in Some (if Value_IsValid result2
                      then b3\<lparr>bCtx := (bCtx b3)\<lparr>pcMyBid := (pcMyBid (bCtx b3))\<lparr>slam := vBool result2\<rparr>\<rparr>\<rparr> else b3))
          else map_option (\<lambda>(c, p). b2\<lparr>bCtx := p\<lparr>pcMyBid := (pcMyBid p)\<lparr>contract := c\<rparr>\<rparr>\<rparr>) (CalculateBid p1)))"

definition Bot_StartDeal :: "'h interpreter \<Rightarrow> 'h bot \<Rightarrow> 'h bot" where
  "Bot_StartDeal vm b =
     snd (call_script vm ''StartDeal''
       [Place_ToString (taker (pcBid (bCtx b))), Contract_ToString (contract (pcBid (bCtx b)))] b)"

definition script_handle :: "variant \<Rightarrow> deck \<Rightarrow> bool \<times> deck" where
  "script_handle ret hand =
     (if Value_IsValid ret \<and> vType ret = V_STRING then
        (if 0 < length (vString ret) then
           (let (count, handle) = Deck_SetCards (vString ret) Deck_empty
            in (0 < count \<and> Deck_TestHandle hand handle, handle))
         else (True, Deck_empty))
      else (False, Deck_empty))"

definition AskForHandle :: "'h interpreter \<Rightarrow> 'h bot \<Rightarrow> reply \<times> 'h bot" where
  "AskForHandle vm b =
     (let (ret, b1) = call_script vm ''AskForHandle'' [] b;
          (valid, handle) = script_handle ret (pcDeck (bCtx b1))
      in (BuildHandle (if valid then handle else Deck_Clear handle) (bCtx b1), b1))"

definition Bot_ShowHandle :: "'h interpreter \<Rightarrow> 'h bot \<Rightarrow> 'h bot" where
  "Bot_ShowHandle vm b =
     snd (call_script vm ''ShowHandle''
       [Deck_ToString (pcHandle (bCtx b)), if mOwner (pcHandle (bCtx b)) = ATTACK then ''0'' else ''1''] b)"

definition script_discard :: "variant \<Rightarrow> player_context \<Rightarrow> bool \<times> deck" where
  "script_discard ret p =
     (if Value_IsValid ret \<and> vType ret = V_STRING then
        (let (count, discard) = Deck_SetCards (vString ret) Deck_empty
         in (count = NumberOfDogCards (mNbPlayers (pcGameState p)) \<and> pcTestDiscard discard p, discard))
      else (False, Deck_empty))"

definition Bot_BuildDiscard :: "'h interpreter \<Rightarrow> 'h bot \<Rightarrow> reply \<times> 'h bot" where
  "Bot_BuildDiscard vm b =
     (let (ret, b1) = call_script vm ''BuildDiscard'' [Deck_ToString (pcDog (bCtx b))] b;
          (valid, discard) = script_discard ret (bCtx b1);
          (discard1, p) =
            (if valid then
               (discard, (bCtx b1)\<lparr>pcDeck := snd (Deck_RemoveDuplicates discard (Deck_Append (pcDog (bCtx b1)) (pcDeck (bCtx b1))))\<rparr>)
             else pcAutoDiscard (bCtx b1))
      in (pcBuildDiscard discard1 p, b1\<lparr>bCtx := p\<rparr>))"

definition Bot_PlayCard :: "'h interpreter \<Rightarrow> 'h bot \<Rightarrow> reply \<times> 'h bot" where
  "Bot_PlayCard vm b =
     (let (ret, b1) = call_script vm ''PlayCard'' [] b;
          p = bCtx b1;
          c0 = Deck_GetCard (vString ret) (pcDeck p);
          c = (if Card_IsValid c0 \<and> pcIsValid c0 p then c0 else ChooseRandomCard p);
          (r, p1) = BuildSendCard c (p\<lparr>pcDeck := snd (Deck_Remove c (pcDeck p))\<rparr>)
      in (r, b1\<lparr>bCtx := p1\<rparr>))"

definition Bot_ShowCard :: "'h interpreter \<Rightarrow> 'h bot \<Rightarrow> 'h bot option" where
  "Bot_ShowCard vm b =
     (if mDeck (pcTrick (bCtx b)) = [] then None
      else Some (snd (call_script vm ''PlayedCard''
        [Card_ToString (last (mDeck (pcTrick (bCtx b)))), Place_ToString (pcCurrentPlayer (bCtx b))] b)))"

section \<open>The messages of the server\<close>

definition with_ctx :: "(player_context \<Rightarrow> player_context) \<Rightarrow> 'h bot \<Rightarrow> 'h bot" where
  "with_ctx f b = b\<lparr>bCtx := f (bCtx b)\<rparr>"

text \<open>A message that is only noted and acknowledged.\<close>

definition noted :: "seq \<Rightarrow> player_context \<Rightarrow> 'h bot \<Rightarrow> (reply list \<times> 'h bot) option" where
  "noted sq p b = Some ([pcSync sq p], b\<lparr>bCtx := p\<rparr>)"

definition on_new_deal :: "'h interpreter \<Rightarrow> (string \<times> json) list \<Rightarrow> 'h bot \<Rightarrow> (reply list \<times> 'h bot) option" where
  "on_new_deal vm obj b =
     (let b1 = with_ctx (DecodeNewDeal obj) b;
          b2 = snd (call_script vm ''ReceiveCards'' [Deck_ToString (pcDeck (bCtx b1))] b1)
      in noted WAIT_FOR_CARDS (bCtx b2) b2)"

definition on_request_bid :: "'h interpreter \<Rightarrow> (string \<times> json) list \<Rightarrow> 'h bot \<Rightarrow> (reply list \<times> 'h bot) option" where
  "on_request_bid vm obj b =
     (let p = DecodeRequestBid obj (bCtx b)
      in if pcCurrentPlayer p = pcPlace p then
           Option.bind (CalculateBid p) (\<lambda>(c, p1).
             let c1 = (if c \<le> contract (pcBid p1) then PASS else c);
                 p2 = p1\<lparr>pcMyBid := (pcMyBid p1)\<lparr>contract := c1\<rparr>\<rparr>
             in map_option (\<lambda>(r, b1). ([r], b1)) (Bot_RequestBid vm (b\<lparr>bCtx := p2\<rparr>)))
         else Some ([], b\<lparr>bCtx := p\<rparr>))"

definition on_play_card :: "(string \<times> json) list \<Rightarrow> 'h bot \<Rightarrow> (reply list \<times> 'h bot) option" where
  "on_play_card obj b =
     (let p = DecodePlayCard obj (bCtx b)
      in if IsMyTurn p then
           (let c = ChooseRandomCard p;
                (r, p1) = BuildSendCard c (p\<lparr>pcDeck := snd (Deck_Remove c (pcDeck p))\<rparr>)
            in Some ([r], b\<lparr>bCtx := p1\<rparr>))
         else Some ([], b\<lparr>bCtx := p\<rparr>))"

text \<open>The events of a bot that has its number, in the order of the code.\<close>

definition on_event :: "'h interpreter \<Rightarrow> string \<Rightarrow> (string \<times> json) list \<Rightarrow> 'h bot \<Rightarrow> (reply list \<times> 'h bot) option" where
  "on_event vm ev obj b =
     (let p = bCtx b in
      if ev = ''AccessGranted'' then Some ([BuildJoinTable TABLES_UID], b\<lparr>bCtx := DecodeAccessGranted obj p\<rparr>)
      else if ev = ''ReplyJoinTable'' then Option.bind (DecodeReplyJoinTable obj p) (\<lambda>p1. noted WAIT_FOR_PLAYERS p1 b)
      else if ev = ''NewDeal'' then on_new_deal vm obj b
      else if ev = ''RequestBid'' then on_request_bid vm obj b
      else if ev = ''RequestKingCall'' then noted WAIT_FOR_KING_CALL p b
      else if ev = ''ShowKingCall'' then noted WAIT_FOR_SHOW_KING_CALL p b
      else if ev = ''ShowBid'' then Option.bind (DecodeShowBid obj p) (\<lambda>p1. noted WAIT_FOR_SHOW_BID p1 b)
      else if ev = ''BuildDiscard'' then
        (let (r, b1) = Bot_BuildDiscard vm b in Some ([r, pcSync WAIT_FOR_DISCARD (bCtx b1)], b1))
      else if ev = ''ShowDog'' then noted WAIT_FOR_SHOW_DOG (DecodeShowDog obj p) b
      else if ev = ''StartDeal'' then Option.bind (DecodeStartDeal obj p) (\<lambda>p1. noted WAIT_FOR_START_DEAL p1 b)
      else if ev = ''ShowHandle'' then noted WAIT_FOR_SHOW_HANDLE (DecodeShowHandle obj p) b
      else if ev = ''NewGame'' then noted WAIT_FOR_READY (DecodeNewGame obj p) b
      else if ev = ''ShowCard'' then noted WAIT_FOR_SHOW_CARD (DecodeShowCard obj p) b
      else if ev = ''PlayCard'' then on_play_card obj b
      else if ev = ''AskForHandle'' then Some ([BuildHandle Deck_empty p], b)
      else if ev = ''EndOfTrick'' then
        (let p1 = DecodeEndOfTrick obj p in noted WAIT_FOR_END_OF_TRICK (p1\<lparr>pcTrick := Deck_Clear (pcTrick p1)\<rparr>) b)
      else if ev = ''EndOfGame'' then noted WAIT_FOR_READY (DecodeEndOfGame obj p) b
      else if ev = ''AllPassed'' then noted WAIT_FOR_ALL_PASSED p b
      else if ev = ''EndOfDeal'' then noted WAIT_FOR_END_OF_DEAL (DecodeEndOfDeal obj p) b
      else if ev = ''ChatMessage'' then Some ([], b\<lparr>bCtx := DecodeChatMessage obj p\<rparr>)
      else Some ([], b))"

text \<open>
  \<open>Bot::HandleRequest\<close>: what is sent and the new state. Without a number only the request to log in
  is answered.
\<close>

definition HandleRequest :: "'h interpreter \<Rightarrow> string \<Rightarrow> 'h bot \<Rightarrow> (reply list \<times> 'h bot) option" where
  "HandleRequest vm arg b =
     Option.bind (Decode arg) (\<lambda>r.
       let obj = (case r of Some m \<Rightarrow> m | None \<Rightarrow> []);
           ev = (case r of Some m \<Rightarrow> GetString (Object_GetValue ''cmd'' m) | None \<Rightarrow> [])
       in if \<not> pcIsConnected (bCtx b) then
            (if ev = ''RequestLogin'' then
               (let p = DecodeRequestLogin obj (bCtx b) in Some ([BuildReplyLogin p], b\<lparr>bCtx := p\<rparr>))
             else Some ([], b))
          else on_event vm ev obj b)"

section \<open>Loading the scripts\<close>

text \<open>
  Where scripts come from: files, folders and archives; an archive that opens maps names to contents. An archive is
  read from a file or from the bytes of the path itself.
\<close>

record script_source =
  srcDisk :: disk
  isFolder :: "string \<Rightarrow> bool"
  zipOpen :: "string \<Rightarrow> bool \<Rightarrow> (string \<Rightarrow> string option) option"

text \<open>The archive to read, or none for a folder; the flag is false when an archive does not open.\<close>

definition find_scripts :: "script_source \<Rightarrow> string \<Rightarrow> bool \<times> (string \<Rightarrow> string option) option" where
  "find_scripts src path =
     (if fileOf (srcDisk src) path \<noteq> None then
        (case zipOpen src path True of Some z \<Rightarrow> (True, Some z) | None \<Rightarrow> (False, None))
      else if isFolder src path then (True, None)
      else (case zipOpen src path False of Some z \<Rightarrow> (True, Some z) | None \<Rightarrow> (False, None)))"

fun load_files ::
  "'h interpreter \<Rightarrow> script_source \<Rightarrow> string \<Rightarrow> (string \<Rightarrow> string option) option \<Rightarrow> json list \<Rightarrow> bool \<Rightarrow> 'h js_engine
     \<Rightarrow> bool \<times> 'h js_engine" where
  "load_files vm src path z [] ret e = (ret, e)"
| "load_files vm src path z (v # vs) ret e =
     (case v of
        JString name \<Rightarrow>
          (case z of
             Some get \<Rightarrow>
               (case get name of
                  Some script \<Rightarrow> (let ((ok, _), e1) = EvaluateString vm script e in load_files vm src path z vs (ok \<and> ret) e1)
                | None \<Rightarrow> load_files vm src path z vs False e)
           | None \<Rightarrow> (let (ok, e1) = EvaluateFile vm (srcDisk src) (path @ name) e in load_files vm src path z vs (ok \<and> ret) e1))
      | _ \<Rightarrow> load_files vm src path z vs False e)"

definition InitializeScriptContext :: "'h interpreter \<Rightarrow> script_source \<Rightarrow> 'h bot \<Rightarrow> (bool \<times> 'h bot) option" where
  "InitializeScriptContext vm src b =
     (let path = mScriptPath b; (found, z) = find_scripts src path
      in if found then
           map_option (\<lambda>r.
               case r of
                 Some json \<Rightarrow>
                   (let (ret, e) = load_files vm src path z (GetArray (FindValue ''files'' json)) True
                                     (JSEngine_Initialize vm (mBotEngine b))
                    in (ret, b\<lparr>mBotEngine := e\<rparr>))
               | None \<Rightarrow> (False, b))
             (case z of
                Some get \<Rightarrow> (case get ''package.json'' of Some package \<Rightarrow> read_json package | None \<Rightarrow> Some None)
              | None \<Rightarrow> ParseFile (path @ ''/package.json'') (srcDisk src))
         else Some (False, b))"

definition Bot_NewGame :: "'h interpreter \<Rightarrow> script_source \<Rightarrow> 'h bot \<Rightarrow> 'h bot option" where
  "Bot_NewGame vm src b =
     map_option (\<lambda>(ok, b1).
         if ok then snd (call_script vm ''EnterGame''
                [Place_ToString (pcPlace (bCtx b1)),
                 if mode (pcGame (bCtx b1)) = cQuickDeal then ''one_deal'' else ''simple_tournament''] b1)
         else b1)
       (InitializeScriptContext vm src b)"

section \<open>The bots of a client\<close>

text \<open>A bot with its connection: the host it asked for, none before and after.\<close>

record 'h net_bot =
  nbBot :: "'h bot"
  nbHost :: "(string \<times> nat) option"
  nbSecurity :: "(string \<times> string \<times> string) option"

record 'h bot_manager =
  mBots :: "(nat \<times> 'h net_bot) list"
  mBotsIds :: unique_id

definition BotManager_new :: "'h bot_manager" where
  "BotManager_new = \<lparr>mBots = [], mBotsIds = UniqueId_new 0 10000\<rparr>"

definition BotManager_Initialize :: "nat \<Rightarrow> string \<Rightarrow> string \<Rightarrow> string \<Rightarrow> 'h bot_manager \<Rightarrow> bool \<times> 'h bot_manager" where
  "BotManager_Initialize botId web key pass m =
     (case map_of (mBots m) botId of
        Some nb \<Rightarrow> (True, m\<lparr>mBots := smap_put botId (nb\<lparr>nbSecurity := Some (web, key, pass)\<rparr>) (mBots m)\<rparr>)
      | None \<Rightarrow> (False, m))"

text \<open>The memory of a new bot gives the numbers its constructor does not set.\<close>

definition AddBot :: "nat \<times> nat \<Rightarrow> nat \<Rightarrow> identity \<Rightarrow> nat \<Rightarrow> string \<Rightarrow> 'h bot_manager \<Rightarrow> nat \<times> 'h bot_manager" where
  "AddBot garbage tableToJoin ident delay scriptFile m =
     (let (botid, ids) = TakeId (mBotsIds m);
          b = SetAiScript scriptFile (SetTableToJoin tableToJoin (SetTimeBeforeSend delay
                (SetIdentity ident (Bot_new (fst garbage) (snd garbage)))))
      in (botid, m\<lparr>mBotsIds := ids,
                  mBots := smap_put botid \<lparr>nbBot = b, nbHost = None, nbSecurity = None\<rparr> (mBots m)\<rparr>))"

definition ConnectBot :: "nat \<Rightarrow> string \<Rightarrow> nat \<Rightarrow> 'h bot_manager \<Rightarrow> bool \<times> 'h bot_manager" where
  "ConnectBot botId ip port m =
     (case map_of (mBots m) botId of
        Some nb \<Rightarrow> (True, m\<lparr>mBots := smap_put botId (nb\<lparr>nbHost := Some (ip, port)\<rparr>) (mBots m)\<rparr>)
      | None \<Rightarrow> (False, m))"

definition RemoveBot :: "nat \<Rightarrow> 'h bot_manager \<Rightarrow> bool \<times> 'h bot_manager" where
  "RemoveBot botId m =
     (map_of (mBots m) botId \<noteq> None,
      m\<lparr>mBots := filter (\<lambda>(k, _). k \<noteq> botId) (mBots m), mBotsIds := snd (ReleaseId botId (mBotsIds m))\<rparr>)"

definition BotManager_Close :: "'h bot_manager \<Rightarrow> 'h bot_manager" where
  "BotManager_Close m = m\<lparr>mBots := map (\<lambda>(k, nb). (k, nb\<lparr>nbHost := None\<rparr>)) (mBots m)\<rparr>"

text \<open>The numbers of the bots are not released.\<close>

definition KillBots :: "'h bot_manager \<Rightarrow> 'h bot_manager" where
  "KillBots m = m\<lparr>mBots := []\<rparr>"

end
