(* ===== verification/Bot_Facts.thy ===== *)
theory Bot_Facts
  imports Bots Table_Properties Deck_Properties
begin

text \<open>
  Facts on the computer players: the messages a table sends reach the handler of their event with
  the values that were sent, and the answers of a bot are messages a table reads back.
\<close>

section \<open>Messages as text\<close>

lemma text_of_contract [simp]: "plain_text (Contract_ToString c)"
  by (cases c) (simp_all add: Contract_ToString_def Contract_strings_def plain_text_def iscntrl_def)

definition message_text :: "(string \<times> json) list \<Rightarrow> string" where
  "message_text obj = Object_ToString (- 1) obj"

lemma Decode_message: "json_ok (JObj obj) \<Longrightarrow> Decode (message_text obj) = Some (Some obj)"
  using parse_written [of "JObj obj" "- 1"] by (simp add: Decode_def read_json_def message_text_def Object_ToString_def)

lemma HandleRequest_event:
  assumes "json_ok (JObj obj)" "pcIsConnected (bCtx b)" "GetString (Object_GetValue ''cmd'' obj) = ev"
  shows "HandleRequest vm (message_text obj) b = on_event vm ev obj b"
  using assms by (simp add: HandleRequest_def Decode_message)

text \<open>The values of a message are read as they were written.\<close>

lemma message_value [simp]:
  "CHR '':'' \<notin> set k \<Longrightarrow>
     Object_GetValue k (make_object kvs) = (case map_of (rev kvs) k of Some v \<Rightarrow> v | None \<Rightarrow> JInvalid)"
  by (simp add: Object_GetValue_def make_object_lookup split: option.split)

lemma message_str [simp]:
  "CHR '':'' \<notin> set k \<Longrightarrow>
     str_of k (make_object kvs) = GetString (case map_of (rev kvs) k of Some v \<Rightarrow> v | None \<Rightarrow> JInvalid)"
  by (simp add: str_of_def FindValue_make_object)

lemma message_keys [simp]:
  "plain_key ''cmd''" "plain_key ''place''" "plain_key ''contract''" "plain_key ''card''" "plain_key ''cards''"
  "plain_key ''dog''" "plain_key ''step''" "plain_key ''discard''" "plain_key ''handle''" "plain_key ''slam''"
  "plain_key ''taker''" "plain_key ''first_player''" "plain_key ''seed''" "plain_key ''file''" "plain_key ''uuid''"
  "plain_key ''taker_place''" "plain_key ''taker_contract''" "plain_key ''taker_slam''"
  by code_simp+

lemma message_words [simp]:
  "plain_text ''PlayCard''" "plain_text ''ShowCard''" "plain_text ''Card''" "plain_text ''RequestBid''"
  "plain_text ''NewDeal''" "plain_text ''BuildDiscard''" "plain_text ''RequestKingCall''" "plain_text ''EndOfTrick''"
  "plain_text ''StartDeal''" "plain_text ''ShowDog''" "plain_text ''RequestLogin''" "plain_text ''AccessGranted''"
  "plain_text ''ShowBid''"
  by code_simp+

section \<open>What a bot knows\<close>

text \<open>
  A bot keeps step with a seat of a table: it is the user on that seat, and its cards and its trick
  are those of the engine.
\<close>

definition keeps_step :: "nat \<Rightarrow> playing_table \<Rightarrow> 'h bot \<Rightarrow> bool" where
  "keeps_step p t b \<longleftrightarrow>
     pcIsConnected (bCtx b) \<and> chUuid (tPlayers t ! p) = pcUuid (bCtx b) \<and> pcPlace (bCtx b) = Place_of p \<and>
     mDeck (pcDeck (bCtx b)) = mDeck (mPlayers (mEngine t) ! p) \<and>
     mDeck (pcTrick (bCtx b)) = mDeck (currentTrick (mEngine t))"

lemma same_cards_same_rule:
  assumes "mDeck d = mDeck d'" "mDeck trick = mDeck trick'"
  shows "Deck_CanPlayCard d c trick = Deck_CanPlayCard d' c trick'"
proof -
  have o: "overtrumps x trick = overtrumps x trick'" for x using assms(2) by (simp add: overtrumps_def)
  have "may_trump hand x trick = may_trump hand x trick'" for hand x by (simp add: may_trump_def o)
  then show ?thesis by (simp add: CanPlayCard_legal legal_play_def assms cong: if_cong option.case_cong)
qed

lemma ChooseRandomCard_legal:
  assumes "mDeck (pcDeck p) \<noteq> []"
  shows "ChooseRandomCard p \<in> set (mDeck (pcDeck p))" "Deck_CanPlayCard (pcDeck p) (ChooseRandomCard p) (pcTrick p)"
proof -
  obtain c where "c \<in> set (mDeck (pcDeck p))" "Deck_CanPlayCard (pcDeck p) c (pcTrick p)"
    using playable_exists [OF assms] by blast
  then have "find (\<lambda>c. pcIsValid c p) (mDeck (pcDeck p)) \<noteq> None"
    by (auto simp: find_None_iff pcIsValid_def)
  then obtain c' where f: "find (\<lambda>c. pcIsValid c p) (mDeck (pcDeck p)) = Some c'" by blast
  then have "ChooseRandomCard p = c'" by (simp add: ChooseRandomCard_def)
  then show "ChooseRandomCard p \<in> set (mDeck (pcDeck p))" "Deck_CanPlayCard (pcDeck p) (ChooseRandomCard p) (pcTrick p)"
    using f by (auto simp: find_Some_iff pcIsValid_def)
qed
section \<open>Events\<close>

text \<open>The messages of a table that concern a bot's own moves.\<close>

definition play_message :: "place \<Rightarrow> (string \<times> json) list" where
  "play_message p = make_object [(''cmd'', JString ''PlayCard''), (''place'', JString (Place_ToString p))]"

definition card_shown :: "place \<Rightarrow> card \<Rightarrow> (string \<times> json) list" where
  "card_shown p c =
     make_object [(''cmd'', JString ''ShowCard''), (''place'', JString (Place_ToString p)), (''card'', JString (Card_ToString c))]"

definition deal_message :: "deck \<Rightarrow> (string \<times> json) list" where
  "deal_message d = make_object [(''cmd'', JString ''NewDeal''), (''cards'', JString (Deck_ToString d))]"

definition bid_message :: "place \<Rightarrow> contract \<Rightarrow> (string \<times> json) list" where
  "bid_message p c =
     make_object [(''cmd'', JString ''RequestBid''), (''place'', JString (Place_ToString p)),
                  (''contract'', JString (Contract_ToString c))]"

lemma bot_messages_ok [simp]:
  "json_ok (JObj (play_message p))" "Card_IsValid c \<Longrightarrow> json_ok (JObj (card_shown p c))"
  "list_all Card_IsValid (mDeck d) \<Longrightarrow> json_ok (JObj (deal_message d))" "json_ok (JObj (bid_message p k))"
  unfolding play_message_def card_shown_def deal_message_def bid_message_def
  by (intro json_ok_make_object; simp)+

lemma card_message_ok: "Card_IsValid c \<Longrightarrow> json_ok (JObj (rData (fst (BuildSendCard c p))))"
  unfolding BuildSendCard_def reply_to_def by (simp del: json_ok.simps) (intro json_ok_make_object; simp)

lemma play_message_event:
  assumes "pcIsConnected (bCtx b)"
  shows "HandleRequest vm (message_text (play_message q)) b =
    (let p = DecodePlayCard (play_message q) (bCtx b)
     in if q = pcPlace (bCtx b)
        then (let (r, p1) = BuildSendCard (ChooseRandomCard p) (p\<lparr>pcDeck := snd (Deck_Remove (ChooseRandomCard p) (pcDeck p))\<rparr>)
              in Some ([r], b\<lparr>bCtx := p1\<rparr>))
        else Some ([], b\<lparr>bCtx := p\<rparr>))"
proof -
  let ?o = "play_message q" and ?p = "bCtx b"
  have ev: "GetString (Object_GetValue ''cmd'' ?o) = ''PlayCard''" by (simp add: play_message_def)
  have place: "pcCurrentPlayer (DecodePlayCard ?o ?p) = q" "pcPlace (DecodePlayCard ?o ?p) = pcPlace ?p"
    by (simp_all add: DecodePlayCard_def play_message_def Place_string_roundtrip Let_def)
  have "HandleRequest vm (message_text ?o) b = on_play_card ?o b"
    unfolding HandleRequest_event [OF bot_messages_ok(1) assms ev] by (simp add: on_event_def)
  then show ?thesis by (simp add: on_play_card_def IsMyTurn_def place Let_def)
qed

lemma DecodePlayCard_frame [simp, frame]:
  "pcDeck (DecodePlayCard obj p) = pcDeck p" "pcTrick (DecodePlayCard obj p) = pcTrick p"
  "pcUuid (DecodePlayCard obj p) = pcUuid p" "pcTable (DecodePlayCard obj p) = pcTable p"
  "pcPlace (DecodePlayCard obj p) = pcPlace p"
  by (simp_all add: DecodePlayCard_def Let_def)

lemma show_card_event:
  assumes "pcIsConnected (bCtx b)" "Card_IsValid c"
  shows "HandleRequest vm (message_text (card_shown q c)) b =
    Some ([pcSync WAIT_FOR_SHOW_CARD (bCtx b)],
      b\<lparr>bCtx := (bCtx b)\<lparr>pcCurrentPlayer := q, pcTrick := Deck_AppendCard c (pcTrick (bCtx b))\<rparr>\<rparr>)"
proof -
  let ?o = "card_shown q c"
  have ev: "GetString (Object_GetValue ''cmd'' ?o) = ''ShowCard''" by (simp add: card_shown_def)
  have "DecodeShowCard ?o (bCtx b) =
      (bCtx b)\<lparr>pcCurrentPlayer := q, pcTrick := Deck_AppendCard c (pcTrick (bCtx b))\<rparr>"
    using assms(2) by (simp add: DecodeShowCard_def card_shown_def Place_string_roundtrip)
  then show ?thesis
    unfolding HandleRequest_event [OF bot_messages_ok(2) [OF assms(2)] assms(1) ev]
    by (simp add: on_event_def noted_def pcSync_def Let_def)
qed
section \<open>A card at the table\<close>

definition card_played :: "card \<Rightarrow> place \<Rightarrow> engine \<Rightarrow> engine" where
  "card_played c p e =
     e\<lparr>currentTrick := Deck_AppendCard c (currentTrick e),
       mPlayers := (mPlayers e)[Place_Value p := snd (Deck_Remove c (mPlayers e ! Place_Value p))],
       mPosition := inc8 (mPosition e), mCurrentPlayer := Place_Next (nbPlayers e) (mCurrentPlayer e),
       mSequence := WAIT_FOR_SHOW_CARD\<rparr>"

lemma waiting_for_card:
  assumes "reachable n t" "n \<in> {3, 4, 5}" "mSequence (mEngine t) = WAIT_FOR_PLAYED_CARD"
  shows "playing n (mEngine t)" "mPosition (mEngine t) < n" "Place_Value (mCurrentPlayer (mEngine t)) < n"
    "length (mPlayers (mEngine t)) = 5" "length (tPlayers t) = 5" "tbPlayers t = n"
proof -
  note D = table_inv_D [OF reachable_inv [OF assms(1,2)]]
  show play: "playing n (mEngine t)" "mPosition (mEngine t) < n"
    using engine_ok_D(2) [of n "mEngine t"] D(1) assms(3) by (auto simp: table_ok_def)
  then show p: "Place_Value (mCurrentPlayer (mEngine t)) < n" by (simp add: playing_D(7) [unfolded seated_def])
  show "length (tPlayers t) = 5" "tbPlayers t = n" using D(3,6) by simp_all
  show "length (mPlayers (mEngine t)) = 5" using playing_base [OF play(1)] by (simp add: engine_base_def)
qed

lemma user_of_seat:
  assumes "reachable n t" "n \<in> {3, 4, 5}" "p < n" "chUuid (tPlayers t ! p) \<noteq> INVALID_UID"
  shows "GetPlayerPlace (chUuid (tPlayers t ! p)) t = Place_of p"
proof -
  note D = table_inv_D [OF reachable_inv [OF assms(1,2)]]
  have "chUuid (tPlayers t ! p) = uuids t ! p" using assms(3) D(5,6) by (simp add: uuids_def)
  then show ?thesis using GetPlayerPlace_seat [OF reachable_distinct [OF assms(1,2)] D(3,5,6) assms(3)] assms(4) by simp
qed

lemma card_accepted:
  assumes "reachable n t" "n \<in> {3, 4, 5}" "mSequence (mEngine t) = WAIT_FOR_PLAYED_CARD"
    and "p = mCurrentPlayer (mEngine t)" "chUuid (tPlayers t ! Place_Value p) \<noteq> INVALID_UID"
    and "c \<in> set (mDeck (mPlayers (mEngine t) ! Place_Value p))"
    and "Deck_CanPlayCard (mPlayers (mEngine t) ! Place_Value p) c (currentTrick (mEngine t))"
    and "doc = JObj (make_object [(''cmd'', JString ''Card''), (''card'', JString (Card_ToString c))])"
    and "t1 = t\<lparr>mEngine := card_played c p (mEngine t)\<rparr>"
  shows "Card_IsValid c"
    and "ExecuteRequest env (chUuid (tPlayers t ! Place_Value p)) doc t = Some (False, SendToAllPlayers (card_shown p c) t1, t1)"
proof -
  note W = waiting_for_card [OF assms(1-3), folded assms(4)]
  show valid: "Card_IsValid c" using playing_hand(3) [OF W(1,3)] assms(6) by blast
  have seat: "GetPlayerPlace (chUuid (tPlayers t ! Place_Value p)) t = p"
    using user_of_seat [OF assms(1,2) W(3) assms(5)] by (simp add: Place_of_Value)
  have "SetCard c p (mEngine t) = Some (True, card_played c p (mEngine t))"
    using assms(7) W(3,4) assms(2) by (auto simp: SetCard_def arr_get_def card_played_def)
  moreover have "FindValue ''cmd'' doc = JString ''Card''" "FindValue ''card'' doc = JString (Card_ToString c)"
    by (simp_all add: assms(8) FindValue_make_object)
  ultimately show "ExecuteRequest env (chUuid (tPlayers t ! Place_Value p)) doc t = Some (False, SendToAllPlayers (card_shown p c) t1, t1)"
    by (simp add: ExecuteRequest_def do_card_def valid seat [unfolded assms(4)] assms(3,4,9) card_shown_def Let_def)
qed

text \<open>The hand of the player and the trick after the card; every other hand is as it was.\<close>

lemma card_played_decks:
  assumes "Place_Value p < length (mPlayers e)"
  shows "mDeck (currentTrick (card_played c p e)) = mDeck (currentTrick e) @ [c]"
    and "mDeck (mPlayers (card_played c p e) ! Place_Value p) = removeAll c (mDeck (mPlayers e ! Place_Value p))"
    and "q \<noteq> Place_Value p \<Longrightarrow> mPlayers (card_played c p e) ! q = mPlayers e ! q"
  using assms by (simp_all add: card_played_def Deck_AppendCard_def)
lemma ack_read [simp]: "Ack_FromString (GetString (FindValue ''step'' (JObj (rData (pcSync sq p))))) = Ack_FromString (Ack_ToString sq)"
  by (simp add: pcSync_def reply_to_def FindValue_make_object)

lemma ack_names: "sq \<in> snd ` set gAckList \<Longrightarrow> Ack_FromString (Ack_ToString sq) = sq"
  by (auto simp: gAckList_def Ack_FromString_def Ack_ToString_def)

lemma bot_plays:
  assumes "pcIsConnected (bCtx b)" "mDeck (pcDeck (bCtx b)) \<noteq> []"
  shows "\<exists>c b1. HandleRequest vm (message_text (play_message (pcPlace (bCtx b)))) b =
      Some ([reply_to (pcTable (bCtx b)) (make_object [(''cmd'', JString ''Card''), (''card'', JString (Card_ToString c))])], b1) \<and>
    c \<in> set (mDeck (pcDeck (bCtx b))) \<and> Deck_CanPlayCard (pcDeck (bCtx b)) c (pcTrick (bCtx b)) \<and>
    mDeck (pcDeck (bCtx b1)) = removeAll c (mDeck (pcDeck (bCtx b))) \<and> pcTrick (bCtx b1) = pcTrick (bCtx b) \<and>
    pcIsConnected (bCtx b1) \<and> pcUuid (bCtx b1) = pcUuid (bCtx b) \<and> pcPlace (bCtx b1) = pcPlace (bCtx b) \<and>
    pcTable (bCtx b1) = pcTable (bCtx b)"
proof -
  let ?p = "DecodePlayCard (play_message (pcPlace (bCtx b))) (bCtx b)"
  from ChooseRandomCard_legal [of ?p] assms(2)
  have "ChooseRandomCard ?p \<in> set (mDeck (pcDeck (bCtx b)))"
    "Deck_CanPlayCard (pcDeck (bCtx b)) (ChooseRandomCard ?p) (pcTrick (bCtx b))" by simp_all
  then show ?thesis
    unfolding play_message_event [OF assms(1)]
    by (intro exI [of _ "ChooseRandomCard ?p"])
      (use assms(1) in \<open>simp add: BuildSendCard_def pcIsConnected_def Let_def\<close>)
qed

end
