(* ===== verification/Bot_Properties.thy ===== *)
theory Bot_Properties
  imports Bot_Facts
begin

text \<open>
  The properties of the computer players, each followed by the example that shows that its hypotheses can hold.
\<close>

section \<open>Playing\<close>

text \<open>
  C5. A bot and its table keep step: at a reachable table that waits for a card, a bot that sits on
  the current seat and has the cards and the trick of that seat answers the call with a card the rules
  allow, the table accepts the answer and shows the card to all, and every bot that kept step (the one
  that played included) acknowledges the showing with the step the table waits for and has the new cards
  and the new trick of its seat again.
\<close>

theorem bots_keep_step_through_a_card:
  assumes "reachable n t" "n \<in> {3, 4, 5}" "mSequence (mEngine t) = WAIT_FOR_PLAYED_CARD"
    and "p = mCurrentPlayer (mEngine t)" "keeps_step (Place_Value p) t b"
  shows "\<exists>c r b1 t1. HandleRequest vm (message_text (play_message p)) b = Some ([r], b1) \<and>
    legal_play (mDeck (mPlayers (mEngine t) ! Place_Value p)) c (currentTrick (mEngine t)) \<and>
    ExecuteRequest env (pcUuid (bCtx b)) (JObj (rData r)) t = Some (False, SendToAllPlayers (card_shown p c) t1, t1) \<and>
    mSequence (mEngine t1) = WAIT_FOR_SHOW_CARD \<and>
    (\<forall>q b'. (if q = Place_Value p then b' = b1 else keeps_step q t b') \<longrightarrow>
       (\<exists>r' b2. HandleRequest vm (message_text (card_shown p c)) b' = Some ([r'], b2) \<and> keeps_step q t1 b2 \<and>
          Ack_FromString (GetString (FindValue ''step'' (JObj (rData r')))) = mSequence (mEngine t1)))"
proof -
  note W = waiting_for_card [OF assms(1-3), folded assms(4)]
  let ?v = "Place_Value p" and ?e = "mEngine t"
  from assms(5) have k: "pcIsConnected (bCtx b)" "chUuid (tPlayers t ! ?v) = pcUuid (bCtx b)" "pcPlace (bCtx b) = p"
    "mDeck (pcDeck (bCtx b)) = mDeck (mPlayers ?e ! ?v)" "mDeck (pcTrick (bCtx b)) = mDeck (currentTrick ?e)"
    by (simp_all add: keeps_step_def Place_of_Value)
  then have user: "chUuid (tPlayers t ! ?v) \<noteq> INVALID_UID" by (simp add: pcIsConnected_def INVALID_UID_def USERS_UID_def)
  have "mDeck (pcDeck (bCtx b)) \<noteq> []" using playing_hand_nonempty [OF W(1,2)] k(4) assms(4) by simp
  from bot_plays [OF k(1) this, of vm] obtain c b1 where bot:
    "HandleRequest vm (message_text (play_message p)) b =
       Some ([reply_to (pcTable (bCtx b)) (make_object [(''cmd'', JString ''Card''), (''card'', JString (Card_ToString c))])], b1)"
    "c \<in> set (mDeck (mPlayers ?e ! ?v))" "Deck_CanPlayCard (pcDeck (bCtx b)) c (pcTrick (bCtx b))"
    "mDeck (pcDeck (bCtx b1)) = removeAll c (mDeck (mPlayers ?e ! ?v))" "pcTrick (bCtx b1) = pcTrick (bCtx b)"
    "pcIsConnected (bCtx b1)" "pcUuid (bCtx b1) = pcUuid (bCtx b)" "pcPlace (bCtx b1) = p"
    unfolding k(3,4) by blast
  define t1 where "t1 = t\<lparr>mEngine := card_played c p ?e\<rparr>"
  have can: "Deck_CanPlayCard (mPlayers ?e ! ?v) c (currentTrick ?e)"
    using bot(3) same_cards_same_rule [OF k(4,5)] by simp
  note table = card_accepted [OF assms(1-4) user bot(2) can refl t1_def]
  have "Place_Value p < length (mPlayers ?e)" using W(3,4) assms(2) by auto
  note decks = card_played_decks [OF this]
  have shown: "\<exists>r' b2. HandleRequest vm (message_text (card_shown p c)) b' = Some ([r'], b2) \<and> keeps_step q t1 b2 \<and>
      Ack_FromString (GetString (FindValue ''step'' (JObj (rData r')))) = mSequence (mEngine t1)"
    if "if q = ?v then b' = b1 else keeps_step q t b'" for q and b' :: "'a bot"
  proof -
    have c: "pcIsConnected (bCtx b')" using that bot(6) by (auto simp: keeps_step_def split: if_splits)
    have "mSequence (mEngine t1) = WAIT_FOR_SHOW_CARD" by (simp add: t1_def card_played_def)
    moreover have "keeps_step q t1 (b'\<lparr>bCtx := (bCtx b')\<lparr>pcCurrentPlayer := p, pcTrick := Deck_AppendCard c (pcTrick (bCtx b'))\<rparr>\<rparr>)"
      using that bot(4-8) k(2,5) c
      by (auto simp: keeps_step_def t1_def decks pcIsConnected_def Deck_AppendCard_def Place_of_Value split: if_splits)
    ultimately show ?thesis
      unfolding show_card_event [OF c table(1)] by (simp add: ack_names gAckList_def)
  qed
  show ?thesis
  proof (intro exI conjI)
    show "HandleRequest vm (message_text (play_message p)) b = Some ([reply_to (pcTable (bCtx b))
        (make_object [(''cmd'', JString ''Card''), (''card'', JString (Card_ToString c))])], b1)" by (rule bot(1))
    show "legal_play (mDeck (mPlayers ?e ! ?v)) c (currentTrick ?e)" using can by (simp only: CanPlayCard_legal)
    show "ExecuteRequest env (pcUuid (bCtx b)) (JObj (rData (reply_to (pcTable (bCtx b))
        (make_object [(''cmd'', JString ''Card''), (''card'', JString (Card_ToString c))])))) t =
        Some (False, SendToAllPlayers (card_shown p c) t1, t1)"
      using table(2) [of env] by (simp add: reply_to_def k(2))
    show "mSequence (mEngine t1) = WAIT_FOR_SHOW_CARD" by (simp add: t1_def card_played_def)
  qed (use shown in blast)
qed
definition example_vm :: "unit interpreter" where
  "example_vm = \<lparr>new_heap = None, call_global = \<lambda>_ _ h. (No_Function, h), eval_text = \<lambda>_ h. (False, [], h)\<rparr>"

definition seated_bot :: "unit bot" where
  "seated_bot = with_ctx (\<lambda>p. p\<lparr>pcPlace := NORTH, pcDeck := example_hand 2\<rparr>) (Bot_new 12 1000)"

lemma seated_bot_keeps_step: "keeps_step 2 played_example seated_bot"
  using played_example_simps
  by (simp add: keeps_step_def seated_bot_def with_ctx_def Bot_new_def PlayerContext_new_def pcIsConnected_def
      USERS_UID_def Place_of_def Deck_empty_def)

theorem bots_keep_step_through_a_card_witness:
  "\<exists>c r b1 t1. HandleRequest example_vm (message_text (play_message NORTH)) seated_bot = Some ([r], b1) \<and>
    legal_play (mDeck (example_hand 2)) c (currentTrick (mEngine played_example)) \<and>
    ExecuteRequest example_env 12 (JObj (rData r)) played_example =
      Some (False, SendToAllPlayers (card_shown NORTH c) t1, t1)"
proof -
  have "pcUuid (bCtx seated_bot) = 12"
    by (simp add: seated_bot_def with_ctx_def Bot_new_def PlayerContext_new_def)
  moreover have "mCurrentPlayer (mEngine played_example) = NORTH" "mPlayers (mEngine played_example) ! 2 = example_hand 2"
    by (simp_all add: played_example_simps)
  ultimately show ?thesis
    using bots_keep_step_through_a_card [OF reachable_played _ played_example_phase refl, of seated_bot example_vm example_env]
      seated_bot_keeps_step by auto
qed
section \<open>Discarding\<close>

definition discard_message :: "(string \<times> json) list" where
  "discard_message = make_object [(''cmd'', JString ''BuildDiscard'')]"

lemma call_script_ctx [simp]: "bCtx (snd (call_script vm f args b)) = bCtx b"
  by (simp add: call_script_def split: prod.split)

lemma discard_event:
  assumes "pcIsConnected (bCtx b)"
  shows "HandleRequest vm (message_text discard_message) b =
    (let (r, b1) = Bot_BuildDiscard vm b in Some ([r, pcSync WAIT_FOR_DISCARD (bCtx b1)], b1))"
proof -
  have ok: "json_ok (JObj discard_message)" unfolding discard_message_def by (intro json_ok_make_object) simp
  have ev: "GetString (Object_GetValue ''cmd'' discard_message) = ''BuildDiscard''" by (simp add: discard_message_def)
  show ?thesis unfolding HandleRequest_event [OF ok assms ev] by (simp add: on_event_def Let_def)
qed

lemma bot_discards:
  assumes "distinct (mDeck (pcDeck p) @ mDeck (pcDog p))" "n \<in> {3, 4, 5}" "mNbPlayers (pcGameState p) = n"
    and "NumberOfDogCards n \<le> length (filter may_discard (mDeck (pcDeck p) @ mDeck (pcDog p)))" "p = bCtx b"
  shows "\<exists>d p1. Bot_BuildDiscard vm b = (pcBuildDiscard d p1, (snd (call_script vm ''BuildDiscard'' [Deck_ToString (pcDog p)] b))\<lparr>bCtx := p1\<rparr>) \<and>
    Deck_TestDiscard (pcDeck p) d (pcDog p) n \<and>
    mDeck (pcDeck p1) = filter (\<lambda>c. c \<notin> set (mDeck d)) (mDeck (pcDeck p) @ mDeck (pcDog p))"
proof -
  obtain ret b1 where call: "call_script vm ''BuildDiscard'' [Deck_ToString (pcDog p)] b = (ret, b1)" by fastforce
  then have b1: "bCtx b1 = p" using call_script_ctx [of vm "''BuildDiscard''" "[Deck_ToString (pcDog p)]" b] assms(5) by simp
  obtain valid d where script: "script_discard ret p = (valid, d)" by fastforce
  show ?thesis
  proof (cases valid)
    case True
    then have "Deck_TestDiscard (pcDeck p) d (pcDog p) n"
      using script assms(3) by (auto simp: script_discard_def pcTestDiscard_def split: if_splits prod.splits)
    with True script call b1 show ?thesis
      by (intro exI [of _ d] exI [of _ "p\<lparr>pcDeck := snd (Deck_RemoveDuplicates d (Deck_Append (pcDog p) (pcDeck p)))\<rparr>"])
        (simp add: Bot_BuildDiscard_def assms(5) [symmetric])
  next
    case False
    let ?d = "fst (Deck_AutoDiscard (pcDog p) n (pcDeck p))"
    have "Deck_TestDiscard (pcDeck p) ?d (pcDog p) n"
      using auto_discard_passes [OF assms(1,2)] assms(4) by simp
    with False script call b1 show ?thesis
      by (intro exI [of _ ?d] exI [of _ "snd (pcAutoDiscard p)"])
        (simp add: Bot_BuildDiscard_def assms(5) [symmetric] pcAutoDiscard_def assms(3) split_beta Deck_AutoDiscard_def Let_def)
  qed
qed

text \<open>
  C6. The discard of a bot is accepted whatever its script answers: if hand and dog hold enough low
  cards for the number of players, the bot answers the request with a discard that passes the check, and the engine
  with the same hand and dog takes the text that is sent, goes on to the play, and the hand it is left with is the hand of the bot;
  discard and hand are together the old hand and the dog.
\<close>

theorem bot_discard_is_accepted:
  assumes "pcIsConnected (bCtx b)" "mNbPlayers (pcGameState (bCtx b)) = n" "n \<in> {3, 4, 5}"
    and "hand = mDeck (pcDeck (bCtx b))" "dog = mDeck (pcDog (bCtx b))" "distinct (hand @ dog)" "list_all Card_IsValid (hand @ dog)"
    and "NumberOfDogCards n \<le> length (filter may_discard (hand @ dog))"
    and "nbPlayers e = n" "p = Place_Value (taker (mBid (mCtx e)))" "p < length (mPlayers e)"
    and "mDeck (mPlayers e ! p) = hand" "mDeck (mDog (mCtx e)) = dog"
  shows "\<exists>r ack b1 e1. HandleRequest vm (message_text discard_message) b = Some ([r, ack], b1) \<and>
    SetDiscard (Deck_FromString (str_of ''discard'' (rData r))) e = Some (True, e1) \<and>
    mSequence e1 = WAIT_FOR_START_DEAL \<and> mDeck (mPlayers e1 ! p) = mDeck (pcDeck (bCtx b1)) \<and>
    mset (mDeck (mDiscard (mCtx e1))) + mset (mDeck (mPlayers e1 ! p)) = mset (hand @ dog)"
proof -
  obtain d p1 b1 where bot: "Bot_BuildDiscard vm b = (pcBuildDiscard d p1, b1)" "bCtx b1 = p1"
    "Deck_TestDiscard (pcDeck (bCtx b)) d (pcDog (bCtx b)) n"
    "mDeck (pcDeck p1) = filter (\<lambda>c. c \<notin> set (mDeck d)) (hand @ dog)"
    using bot_discards [of "bCtx b" n b vm] assms(2-6,8) by fastforce
  have sub: "distinct (mDeck d)" "set (mDeck d) \<subseteq> set (hand @ dog)"
    using bot(3) by (auto simp: TestDiscard_iff assms(4,5))
  then have "list_all Card_IsValid (mDeck d)" using assms(7) by (auto simp: list_all_iff)
  then have read: "mDeck (Deck_FromString (str_of ''discard'' (rData (pcBuildDiscard d p1)))) = mDeck d"
    by (simp add: pcBuildDiscard_def reply_to_def Deck_FromString_def)
  let ?d = "Deck_FromString (str_of ''discard'' (rData (pcBuildDiscard d p1)))"
  have "Deck_TestDiscard (mPlayers e ! p) ?d (mDog (mCtx e)) (nbPlayers e)"
    using bot(3) by (simp add: TestDiscard_iff read assms(4,5,9,12,13))
  then obtain e1 where e1: "SetDiscard ?d e = Some (True, e1)" "mSequence e1 = WAIT_FOR_START_DEAL"
    "mDeck (mDiscard (mCtx e1)) = mDeck d" "mDeck (mPlayers e1 ! p) = filter (\<lambda>c. c \<notin> set (mDeck d)) (hand @ dog)"
    using assms(10-13) read by (simp add: SetDiscard_def Let_def Deck_SetOwner_def)
  have "mset (filter (\<lambda>c. c \<in> set (mDeck d)) (hand @ dog)) = mset (mDeck d)"
    using sub assms(6) by (intro set_eq_iff_mset_eq_distinct [THEN iffD1]) (auto simp: distinct_filter)
  then have "mset (mDeck d) + mset (filter (\<lambda>c. c \<notin> set (mDeck d)) (hand @ dog)) = mset (hand @ dog)"
    by (metis mset_filter multiset_partition)
  with e1 bot show ?thesis
    unfolding discard_event [OF assms(1)] by (intro exI [of _ "pcBuildDiscard d p1"] exI) auto
qed
definition low_hand :: deck where
  "low_hand = Deck_empty\<lparr>mDeck := take 18 tarot_cards\<rparr>"

definition next_dog :: deck where
  "next_dog = Deck_empty\<lparr>mDeck := take 6 (drop 18 tarot_cards)\<rparr>"

definition taking_bot :: "unit bot" where
  "taking_bot = with_ctx (\<lambda>p. p\<lparr>pcPlace := SOUTH, pcDeck := low_hand, pcDog := next_dog\<rparr>) (Bot_new 10 1000)"

definition taking_engine :: engine where
  "taking_engine = Engine_new\<lparr>mPlayers := (replicate 5 Deck_empty)[0 := low_hand],
     mCtx := Context_new\<lparr>mDog := next_dog, mBid := Bid_Initialize\<lparr>taker := SOUTH, contract := TAKE\<rparr>\<rparr>\<rparr>"

theorem bot_discard_is_accepted_witness:
  "\<exists>r ack b1 e1. HandleRequest example_vm (message_text discard_message) taking_bot = Some ([r, ack], b1) \<and>
     SetDiscard (Deck_FromString (str_of ''discard'' (rData r))) taking_engine = Some (True, e1) \<and>
     mDeck (mPlayers e1 ! 0) = mDeck (pcDeck (bCtx b1))"
proof -
  have cards: "distinct (mDeck low_hand @ mDeck next_dog)" "list_all Card_IsValid (mDeck low_hand @ mDeck next_dog)"
    "NumberOfDogCards 4 \<le> length (filter may_discard (mDeck low_hand @ mDeck next_dog))"
    by code_simp+
  have bot: "pcIsConnected (bCtx taking_bot)" "mNbPlayers (pcGameState (bCtx taking_bot)) = 4"
    "pcDeck (bCtx taking_bot) = low_hand" "pcDog (bCtx taking_bot) = next_dog"
    by (simp_all add: taking_bot_def with_ctx_def Bot_new_def PlayerContext_new_def pcIsConnected_def USERS_UID_def Context_new_def)
  have engine: "nbPlayers taking_engine = 4" "Place_Value (taker (mBid (mCtx taking_engine))) = 0" "mPlayers taking_engine ! 0 = low_hand"
    "mDog (mCtx taking_engine) = next_dog" "length (mPlayers taking_engine) = 5"
    by (simp_all add: taking_engine_def Context_new_def)
  show ?thesis
    using bot_discard_is_accepted [OF bot(1,2) _ refl refl, of taking_engine 0 example_vm] cards bot engine by auto
qed

section \<open>Bidding\<close>

text \<open>Every card of a hand of valid cards is counted, so the value of the hand is computed.\<close>

lemma suit_step_valid:
  assumes "Card_IsValid c" "suit < 4" "length distr = 14"
  shows "\<exists>k' distr' st'. suit_card_step suit c (Some (k, distr, st)) = Some (k', distr', st') \<and> length distr' = 14"
proof (cases "mSuit c = suit")
  case True
  then have "0 < mValue c" "mValue c \<le> 14" using assms by (auto simp: Card_IsValid_def TRUMPS_def split: if_splits)
  with True assms(3) show ?thesis by (auto simp: suit_card_step_def Let_def arr_set_def)
next
  case False
  with assms(3) show ?thesis by (simp add: suit_card_step_def)
qed

lemma AnalyzeSuit_valid:
  assumes "list_all Card_IsValid (mDeck d)" "suit < 4"
  shows "\<exists>st'. AnalyzeSuit d suit st = Some st'"
proof -
  have "\<exists>k' distr' st'. fold (suit_card_step suit) cs (Some (k, distr, st)) = Some (k', distr', st') \<and> length distr' = 14"
    if "list_all Card_IsValid cs" "length distr = 14" for cs k distr st
    using that
  proof (induction cs arbitrary: k distr st)
    case (Cons c cs)
    then show ?case using suit_step_valid [of c suit distr k st] assms(2) by fastforce
  qed simp
  from this [OF assms(1), of "replicate 14 False" 0 st] show ?thesis by (auto simp: AnalyzeSuit_def Let_def)
qed

lemma CalculateBid_returns:
  assumes "list_all Card_IsValid (mDeck (pcDeck p))"
  shows "\<exists>c st. CalculateBid p = Some (c, p\<lparr>pcStats := st\<rparr>)"
proof -
  have "\<exists>st'. fold (\<lambda>suit r. Option.bind r (AnalyzeSuit (pcDeck p) suit)) ss (Some st) = Some st'" if "\<forall>s \<in> set ss. s < 4" for ss st
    using that
  proof (induction ss arbitrary: st)
    case (Cons s ss)
    then show ?case using AnalyzeSuit_valid [OF assms, of s st] by auto
  qed simp
  from this [of "[0..<4]" "Deck_AnalyzeTrumps (pcDeck p) Statistics_Reset"] show ?thesis
    by (auto simp: CalculateBid_def UpdateStatistics_def Deck_AnalyzeSuits_def Let_def)
qed
lemma bid_event:
  assumes "pcIsConnected (bCtx b)"
  shows "HandleRequest vm (message_text (bid_message q k)) b = on_request_bid vm (bid_message q k) b"
proof -
  have ev: "GetString (Object_GetValue ''cmd'' (bid_message q k)) = ''RequestBid''" by (simp add: bid_message_def)
  show ?thesis unfolding HandleRequest_event [OF bot_messages_ok(4) assms ev] by (simp add: on_event_def)
qed

text \<open>The last step of the choice: what is not above the highest contract known is a pass.\<close>

lemma RequestBid_over_or_pass:
  assumes "list_all Card_IsValid (mDeck (pcDeck (bCtx b)))"
  shows "\<exists>b1. Bot_RequestBid vm b = Some (BuildReplyBid (bCtx b1), b1) \<and>
    (contract (pcMyBid (bCtx b1)) = PASS \<or> contract (pcBid (bCtx b)) < contract (pcMyBid (bCtx b1))) \<and>
    PASS \<le> contract (pcMyBid (bCtx b1)) \<and> pcBid (bCtx b1) = pcBid (bCtx b) \<and> pcTable (bCtx b1) = pcTable (bCtx b) \<and>
    pcDeck (bCtx b1) = pcDeck (bCtx b)"
proof -
  let ?high = "contract (pcBid (bCtx b))"
  obtain result b0 where call: "call_script vm ''AnnounceBid'' [Contract_ToString ?high] b = (result, b0)" by fastforce
  then have b0: "bCtx b0 = bCtx b" using call_script_ctx [of vm "''AnnounceBid''" "[Contract_ToString ?high]" b] by simp
  define p1 where "p1 = (bCtx b)\<lparr>pcMyBid := (pcMyBid (bCtx b))\<lparr>contract := Contract_FromString (vString result)\<rparr>\<rparr>"
  define b2 where "b2 = b0\<lparr>bCtx := p1\<rparr>"
  have over: "Option.bind (Some b3) (\<lambda>b3. let p3 = bCtx b3;
             p4 = (if contract (pcMyBid p3) \<le> ?high then p3\<lparr>pcMyBid := (pcMyBid p3)\<lparr>contract := PASS\<rparr>\<rparr> else p3)
         in Some (BuildReplyBid p4, b3\<lparr>bCtx := p4\<rparr>)) = Some (BuildReplyBid (bCtx b1), b1) \<and>
      (contract (pcMyBid (bCtx b1)) = PASS \<or> ?high < contract (pcMyBid (bCtx b1))) \<and> PASS \<le> contract (pcMyBid (bCtx b1)) \<and>
      pcBid (bCtx b1) = pcBid (bCtx b3) \<and> pcTable (bCtx b1) = pcTable (bCtx b3) \<and> pcDeck (bCtx b1) = pcDeck (bCtx b3)"
    if "b1 = b3\<lparr>bCtx := (if contract (pcMyBid (bCtx b3)) \<le> ?high
        then (bCtx b3)\<lparr>pcMyBid := (pcMyBid (bCtx b3))\<lparr>contract := PASS\<rparr>\<rparr> else bCtx b3)\<rparr>"
      and "PASS \<le> contract (pcMyBid (bCtx b3))" for b1 b3 :: "'a bot"
    using that by (auto simp: Let_def)
  show ?thesis
  proof (cases "PASS \<le> contract (pcMyBid p1) \<and> contract (pcMyBid p1) \<le> GUARD_AGAINST")
    case True
    obtain result2 b3 where call2: "call_script vm ''AnnounceSlam'' [] b2 = (result2, b3)" by fastforce
    then have b3: "bCtx b3 = p1" using call_script_ctx [of vm "''AnnounceSlam''" "[]" b2] by (simp add: b2_def)
    let ?b3 = "if Value_IsValid result2 then b3\<lparr>bCtx := (bCtx b3)\<lparr>pcMyBid := (pcMyBid (bCtx b3))\<lparr>slam := vBool result2\<rparr>\<rparr>\<rparr> else b3"
    have "PASS \<le> contract (pcMyBid (bCtx ?b3))" "pcBid (bCtx ?b3) = pcBid (bCtx b)" "pcTable (bCtx ?b3) = pcTable (bCtx b)"
      "pcDeck (bCtx ?b3) = pcDeck (bCtx b)" using True b3 by (simp_all add: p1_def)
    with over [OF refl, of ?b3] True call call2 b0 show ?thesis
      by (auto simp: Bot_RequestBid_def p1_def b2_def Let_def)
  next
    case False
    obtain c st where c: "CalculateBid p1 = Some (c, p1\<lparr>pcStats := st\<rparr>)"
      using CalculateBid_returns [of p1] assms by (auto simp: p1_def)
    then have "PASS \<le> c" by (auto simp: CalculateBid_def less_eq_contract_def Let_def split: if_splits)
    let ?b3 = "b2\<lparr>bCtx := (p1\<lparr>pcStats := st\<rparr>)\<lparr>pcMyBid := (pcMyBid p1)\<lparr>contract := c\<rparr>\<rparr>\<rparr>"
    from over [OF refl, of ?b3] False call c b0 \<open>PASS \<le> c\<close> show ?thesis
      by (auto simp: Bot_RequestBid_def p1_def b2_def Let_def)
  qed
qed
text \<open>
  C7. Whatever the script of a bot answers, its bid is one the auction takes as it is: called on its
  turn with valid cards it answers once, with a pass or a contract above the highest one it knows of; if that is the contract of
  the engine's auction, the engine records the very contract the bot sent, for the bot's seat unless it is below the highest.
  Called for another seat it does not answer.
\<close>

theorem bot_bids_over_or_passes:
  assumes "pcIsConnected (bCtx b)" "list_all Card_IsValid (mDeck (pcDeck (bCtx b)))"
  shows "(\<forall>q. q \<noteq> pcPlace (bCtx b) \<longrightarrow>
       (\<exists>b1. HandleRequest vm (message_text (bid_message q k)) b = Some ([], b1) \<and> pcBid (bCtx b1) = pcBid (bCtx b))) \<and>
    (\<exists>r b1 c. HandleRequest vm (message_text (bid_message (pcPlace (bCtx b)) k)) b = Some ([r], b1) \<and>
       c = Contract_FromString (str_of ''contract'' (rData r)) \<and>
       (c = PASS \<or> contract (pcBid (bCtx b)) < c) \<and>
       (\<forall>e sl. contract (mBid (mCtx e)) = contract (pcBid (bCtx b)) \<longrightarrow>
          fst (Engine_SetBid c sl pl e) = c \<and>
          contract (mBid (mCtx (snd (Engine_SetBid c sl pl e)))) = max c (contract (pcBid (bCtx b)))))"
proof (rule conjI; (intro allI impI)?)
  fix q assume "q \<noteq> pcPlace (bCtx b)"
  then show "\<exists>b1. HandleRequest vm (message_text (bid_message q k)) b = Some ([], b1) \<and> pcBid (bCtx b1) = pcBid (bCtx b)"
    unfolding bid_event [OF assms(1)]
    by (simp add: on_request_bid_def DecodeRequestBid_def bid_message_def Place_string_roundtrip Let_def)
next
  let ?q = "pcPlace (bCtx b)" and ?high = "contract (pcBid (bCtx b))"
  define p where "p = DecodeRequestBid (bid_message ?q k) (bCtx b)"
  have p: "pcCurrentPlayer p = pcPlace p" "pcDeck p = pcDeck (bCtx b)" "pcBid p = pcBid (bCtx b)"
    by (simp_all add: p_def DecodeRequestBid_def bid_message_def Place_string_roundtrip)
  obtain c st where c: "CalculateBid p = Some (c, p\<lparr>pcStats := st\<rparr>)"
    using CalculateBid_returns [of p] assms(2) p(2) by auto
  let ?b = "b\<lparr>bCtx := (p\<lparr>pcStats := st\<rparr>)\<lparr>pcMyBid := (pcMyBid p)\<lparr>contract := if c \<le> contract (pcBid p) then PASS else c\<rparr>\<rparr>\<rparr>"
  obtain b1 where b1: "Bot_RequestBid vm ?b = Some (BuildReplyBid (bCtx b1), b1)"
    "contract (pcMyBid (bCtx b1)) = PASS \<or> ?high < contract (pcMyBid (bCtx b1))" "PASS \<le> contract (pcMyBid (bCtx b1))"
    using RequestBid_over_or_pass [of ?b vm] assms(2) p by auto
  let ?c = "contract (pcMyBid (bCtx b1))"
  have run: "HandleRequest vm (message_text (bid_message ?q k)) b = Some ([BuildReplyBid (bCtx b1)], b1)"
    unfolding bid_event [OF assms(1)] using b1(1) c p by (simp add: on_request_bid_def p_def [symmetric] Let_def)
  have sent: "Contract_FromString (str_of ''contract'' (rData (BuildReplyBid (bCtx b1)))) = ?c"
    by (simp add: BuildReplyBid_def reply_to_def Contract_string_roundtrip)
  have "fst (Engine_SetBid ?c sl pl e) = ?c \<and> contract (mBid (mCtx (snd (Engine_SetBid ?c sl pl e)))) = max ?c ?high"
    if "contract (mBid (mCtx e)) = ?high" for e sl
    using b1(2) that by (auto simp: Engine_SetBid_def Context_SetBid_def max_def)
  note engine = this
  show "\<exists>r b1 c. HandleRequest vm (message_text (bid_message ?q k)) b = Some ([r], b1) \<and>
       c = Contract_FromString (str_of ''contract'' (rData r)) \<and> (c = PASS \<or> ?high < c) \<and>
       (\<forall>e sl. contract (mBid (mCtx e)) = ?high \<longrightarrow>
          fst (Engine_SetBid c sl pl e) = c \<and> contract (mBid (mCtx (snd (Engine_SetBid c sl pl e)))) = max c ?high)"
  proof (intro exI conjI allI impI)
    show "HandleRequest vm (message_text (bid_message ?q k)) b = Some ([BuildReplyBid (bCtx b1)], b1)" by (rule run)
    show "?c = Contract_FromString (str_of ''contract'' (rData (BuildReplyBid (bCtx b1))))" by (rule sent [symmetric])
    show "?c = PASS \<or> ?high < ?c" by (rule b1(2))
  qed (use engine in blast)+
qed

theorem bot_bids_over_or_passes_witness:
  "\<exists>r b1. HandleRequest example_vm (message_text (bid_message NORTH NO_ANY)) seated_bot = Some ([r], b1)"
proof -
  have bot: "pcIsConnected (bCtx seated_bot)" "pcPlace (bCtx seated_bot) = NORTH" "pcDeck (bCtx seated_bot) = example_hand 2"
    by (simp_all add: seated_bot_def with_ctx_def Bot_new_def PlayerContext_new_def pcIsConnected_def USERS_UID_def)
  have "list_all Card_IsValid (mDeck (example_hand 2))" by code_simp
  then have valid: "list_all Card_IsValid (mDeck (pcDeck (bCtx seated_bot)))" by (simp only: bot(3))
  from bot_bids_over_or_passes [OF bot(1) valid, THEN conjunct2, of example_vm NO_ANY SOUTH, unfolded bot(2)]
  show ?thesis by blast
qed

lemma new_deal_event:
  assumes "pcIsConnected (bCtx b)" "list_all Card_IsValid (mDeck d)"
  shows "\<exists>b1. HandleRequest vm (message_text (deal_message d)) b = Some ([pcSync WAIT_FOR_CARDS (bCtx b)], b1) \<and>
    mDeck (pcDeck (bCtx b1)) = mDeck d \<and> pcBid (bCtx b1) = pcBid (bCtx b) \<and> pcIsConnected (bCtx b1) \<and>
    pcPlace (bCtx b1) = pcPlace (bCtx b)"
proof -
  have ev: "GetString (Object_GetValue ''cmd'' (deal_message d)) = ''NewDeal''" by (simp add: deal_message_def)
  have cards: "str_of ''cards'' (deal_message d) = Deck_ToString d" by (simp add: deal_message_def)
  let ?b1 = "snd (call_script vm ''ReceiveCards'' [Deck_ToString (pcDeck (bCtx (with_ctx (DecodeNewDeal (deal_message d)) b)))]
      (with_ctx (DecodeNewDeal (deal_message d)) b))"
  show ?thesis
    unfolding HandleRequest_event [OF bot_messages_ok(3) [OF assms(2)] assms(1) ev]
    using assms
    by (intro exI [of _ "?b1\<lparr>bCtx := bCtx ?b1\<rparr>"])
      (simp add: on_event_def on_new_deal_def noted_def with_ctx_def pcSync_def DecodeNewDeal_def cards pcIsConnected_def Let_def del: message_str)
qed

text \<open>
  The highest contract a bot knows of is not forgotten with the deal: after a deal that was played
  under a guard against, the first bot to bid in the next deal passes, whatever its cards are and whatever its script says.
\<close>

theorem first_bidder_remembers_last_deal:
  assumes "pcIsConnected (bCtx b)" "contract (pcBid (bCtx b)) = GUARD_AGAINST" "list_all Card_IsValid (mDeck d)"
  shows "\<exists>b1 r b2. HandleRequest vm (message_text (deal_message d)) b = Some ([pcSync WAIT_FOR_CARDS (bCtx b)], b1) \<and>
    mDeck (pcDeck (bCtx b1)) = mDeck d \<and>
    HandleRequest vm (message_text (bid_message (pcPlace (bCtx b)) NO_ANY)) b1 = Some ([r], b2) \<and>
    Contract_FromString (str_of ''contract'' (rData r)) = PASS"
proof -
  from new_deal_event [OF assms(1,3), of vm] obtain b1 where b1:
    "HandleRequest vm (message_text (deal_message d)) b = Some ([pcSync WAIT_FOR_CARDS (bCtx b)], b1)"
    "mDeck (pcDeck (bCtx b1)) = mDeck d" "pcBid (bCtx b1) = pcBid (bCtx b)" "pcIsConnected (bCtx b1)"
    "pcPlace (bCtx b1) = pcPlace (bCtx b)" by blast
  let ?p = "DecodeRequestBid (bid_message (pcPlace (bCtx b)) NO_ANY) (bCtx b1)"
  have p: "pcCurrentPlayer ?p = pcPlace ?p" "pcDeck ?p = pcDeck (bCtx b1)" "pcBid ?p = pcBid (bCtx b)"
    by (simp_all add: DecodeRequestBid_def bid_message_def Place_string_roundtrip b1)
  obtain c st where c: "CalculateBid ?p = Some (c, ?p\<lparr>pcStats := st\<rparr>)"
    using CalculateBid_returns [of ?p] assms(3) p(2) b1(2) by auto
  let ?b = "b1\<lparr>bCtx := (?p\<lparr>pcStats := st\<rparr>)\<lparr>pcMyBid := (pcMyBid ?p)\<lparr>contract := if c \<le> contract (pcBid ?p) then PASS else c\<rparr>\<rparr>\<rparr>"
  obtain b2 where b2: "Bot_RequestBid vm ?b = Some (BuildReplyBid (bCtx b2), b2)"
    "contract (pcMyBid (bCtx b2)) = PASS \<or> contract (pcBid (bCtx ?b)) < contract (pcMyBid (bCtx b2))"
    using RequestBid_over_or_pass [of ?b vm] assms(3) p b1(2) by auto
  have "\<not> GUARD_AGAINST < k" for k by (cases k) (simp_all add: less_contract_def)
  then have "contract (pcMyBid (bCtx b2)) = PASS" using b2(2) p(3) assms(2) by simp
  moreover have "HandleRequest vm (message_text (bid_message (pcPlace (bCtx b)) NO_ANY)) b1 = Some ([BuildReplyBid (bCtx b2)], b2)"
    unfolding bid_event [OF b1(4)] using b2(1) c p by (simp add: on_request_bid_def Let_def)
  ultimately show ?thesis
    using b1(1,2) by (intro exI [of _ b1] exI [of _ "BuildReplyBid (bCtx b2)"] exI [of _ b2])
      (simp add: BuildReplyBid_def reply_to_def Contract_string_roundtrip)
qed
section \<open>Scripts\<close>

fun run_bot :: "'h interpreter \<Rightarrow> string list \<Rightarrow> 'h bot \<Rightarrow> (reply list \<times> 'h bot) option" where
  "run_bot vm [] b = Some ([], b)"
| "run_bot vm (arg # args) b =
     Option.bind (HandleRequest vm arg b) (\<lambda>(out, b1). map_option (\<lambda>(out', b2). (out @ out', b2)) (run_bot vm args b1))"

definition no_script :: "'h bot \<Rightarrow> bool" where
  "no_script b \<longleftrightarrow> \<not> mValidContext (mBotEngine b)"

lemma call_no_script:
  "no_script b \<Longrightarrow> call_script vm f args b =
     (Value_invalid, b\<lparr>mBotEngine := SetError ''Cannot call script function without a valid context.'' (mBotEngine b)\<rparr>)"
  by (simp add: call_script_def no_script_def JSEngine_Call_def split: bool.split)

lemma no_script_frame [simp]:
  "no_script (b\<lparr>bCtx := p\<rparr>) = no_script b" "no_script (with_ctx f b) = no_script b"
  "no_script (b\<lparr>mBotEngine := SetError err (mBotEngine b)\<rparr>) = no_script b"
  by (simp_all add: no_script_def with_ctx_def SetError_def)

lemma RequestBid_no_script:
  assumes "no_script b"
  shows "Bot_RequestBid vm b = Bot_RequestBid vm' b \<and> (\<forall>r b1. Bot_RequestBid vm b = Some (r, b1) \<longrightarrow> no_script b1)"
proof -
  have "\<not> PASS \<le> Contract_FromString (vString Value_invalid)" by code_simp
  then show ?thesis
    using assms by (auto simp: Bot_RequestBid_def call_no_script Let_def)
qed

lemma BuildDiscard_no_script:
  "no_script b \<Longrightarrow> Bot_BuildDiscard vm b = Bot_BuildDiscard vm' b \<and> no_script (snd (Bot_BuildDiscard vm b))"
  by (simp add: Bot_BuildDiscard_def call_no_script script_discard_def Value_invalid_def Value_IsValid_def split: prod.split)

lemma on_event_no_script:
  assumes "no_script b"
  shows "on_event vm ev obj b = on_event vm' ev obj b \<and> (\<forall>out b1. on_event vm ev obj b = Some (out, b1) \<longrightarrow> no_script b1)"
proof -
  have deal: "on_new_deal vm obj b = on_new_deal vm' obj b" "\<And>out b1. on_new_deal vm obj b = Some (out, b1) \<Longrightarrow> no_script b1"
    using assms by (auto simp: on_new_deal_def noted_def call_no_script Let_def)
  have bid: "on_request_bid vm obj b = on_request_bid vm' obj b"
    "\<And>out b1. on_request_bid vm obj b = Some (out, b1) \<Longrightarrow> no_script b1"
  proof -
    let ?p = "DecodeRequestBid obj (bCtx b)"
    have "(on_request_bid vm obj b = on_request_bid vm' obj b) \<and> (\<forall>out b1. on_request_bid vm obj b = Some (out, b1) \<longrightarrow> no_script b1)"
    proof (cases "CalculateBid ?p")
      case None
      then show ?thesis using assms by (auto simp: on_request_bid_def Let_def)
    next
      case (Some cp)
      obtain c p1 where "cp = (c, p1)" by (cases cp)
      moreover have "no_script (b\<lparr>bCtx := p1\<lparr>pcMyBid := (pcMyBid p1)\<lparr>contract := k\<rparr>\<rparr>\<rparr>)" for k using assms by simp
      note RequestBid_no_script [OF this, of vm _ vm']
      ultimately show ?thesis using Some assms by (auto simp: on_request_bid_def Let_def)
    qed
    then show "on_request_bid vm obj b = on_request_bid vm' obj b"
      "\<And>out b1. on_request_bid vm obj b = Some (out, b1) \<Longrightarrow> no_script b1" by blast+
  qed
  have card: "\<And>out b1. on_play_card obj b = Some (out, b1) \<Longrightarrow> no_script b1"
    using assms by (auto simp: on_play_card_def Let_def split: if_splits prod.splits)
  obtain r0 b0 where "Bot_BuildDiscard vm b = (r0, b0)" "Bot_BuildDiscard vm' b = (r0, b0)" "no_script b0"
    using BuildDiscard_no_script [OF assms, of vm vm'] by (metis eq_snd_iff)
  then show ?thesis
    using deal bid card assms
    by (simp add: on_event_def noted_def Let_def split: prod.split Option.bind_split)
qed

text \<open>
  C8. No script is ever run: the only call that loads scripts is in a function the bot never uses, so
  from its creation on, through any messages, a bot answers the same with any interpreter, and what it
  answers is what the program decides alone.
\<close>

theorem scripts_never_run:
  "run_bot vm args (Bot_new uuid tableId) = run_bot vm' args (Bot_new uuid tableId) \<and>
   (\<forall>out b. run_bot vm args (Bot_new uuid tableId) = Some (out, b) \<longrightarrow> \<not> mValidContext (mBotEngine b))"
proof -
  have step: "HandleRequest vm arg b = HandleRequest vm' arg b \<and> (\<forall>out b1. HandleRequest vm arg b = Some (out, b1) \<longrightarrow> no_script b1)"
    if "no_script b" for arg and b :: "'a bot"
    using on_event_no_script [OF that, of vm _ _ vm'] that
    by (auto simp: HandleRequest_def Let_def split: if_splits Option.bind_split intro!: Option.bind_cong [OF refl])
  have "run_bot vm args b = run_bot vm' args b \<and> (\<forall>out b1. run_bot vm args b = Some (out, b1) \<longrightarrow> no_script b1)"
    if "no_script b" for b :: "'a bot"
    using that
  proof (induction args arbitrary: b)
    case (Cons arg args)
    show ?case
    proof (cases "HandleRequest vm arg b")
      case None
      then show ?thesis using step [OF Cons.prems, of arg] by auto
    next
      case (Some r)
      obtain out0 b0 where r: "r = (out0, b0)" by (cases r)
      with step [OF Cons.prems, of arg] Some have h: "HandleRequest vm arg b = Some (out0, b0)" "HandleRequest vm' arg b = Some (out0, b0)"
        "no_script b0" by auto
      from Cons.IH [OF h(3)] h(1,2) show ?thesis by (auto split: prod.splits)
    qed
  qed simp
  from this [of "Bot_new uuid tableId"] show ?thesis by (simp add: no_script_def Bot_new_def JSEngine_new_def)
qed

section \<open>What a bot does not answer\<close>

definition king_message :: "(string \<times> json) list" where
  "king_message = make_object [(''cmd'', JString ''RequestKingCall'')]"

text \<open>
  A bot never calls a king: asked to, it answers with an acknowledgment that no table
  understands, so the table, which waits for a king and has asked once, stays as it was.
\<close>

theorem bot_never_calls_a_king:
  assumes "pcIsConnected (bCtx b)"
  shows "\<exists>r. HandleRequest vm (message_text king_message) b = Some ([r], b) \<and>
    ExecuteRequest env src (JObj (rData r)) t = Some (False, [], t)"
proof -
  have ok: "json_ok (JObj king_message)" unfolding king_message_def by (intro json_ok_make_object) simp
  have ev: "GetString (Object_GetValue ''cmd'' king_message) = ''RequestKingCall''" by (simp add: king_message_def)
  have "Ack_ToString WAIT_FOR_KING_CALL = ''BadSeq''" "Ack_FromString ''BadSeq'' = BAD_STEP" by code_simp+
  then have "do_ack env src (JObj (rData (pcSync WAIT_FOR_KING_CALL (bCtx b)))) t = Some (False, [], t)"
    by (simp add: do_ack_def Let_def)
  moreover have "GetString (FindValue ''cmd'' (JObj (rData (pcSync WAIT_FOR_KING_CALL (bCtx b))))) = ''Ack''"
    by (simp add: pcSync_def reply_to_def FindValue_make_object)
  ultimately have "ExecuteRequest env src (JObj (rData (pcSync WAIT_FOR_KING_CALL (bCtx b)))) t = Some (False, [], t)"
    by (simp add: ExecuteRequest_def Let_def)
  moreover have "HandleRequest vm (message_text king_message) b = Some ([pcSync WAIT_FOR_KING_CALL (bCtx b)], b)"
    unfolding HandleRequest_event [OF ok assms ev] by (simp add: on_event_def noted_def Let_def)
  ultimately show ?thesis by blast
qed

theorem bot_never_calls_a_king_witness:
  "\<exists>r. HandleRequest example_vm (message_text king_message) seated_bot = Some ([r], seated_bot) \<and>
     ExecuteRequest example_env 12 (JObj (rData r)) played_example = Some (False, [], played_example)"
  by (rule bot_never_calls_a_king)
    (simp add: seated_bot_def with_ctx_def Bot_new_def PlayerContext_new_def pcIsConnected_def USERS_UID_def)

definition login_call :: "nat \<Rightarrow> (string \<times> json) list" where
  "login_call number = make_object [(''cmd'', JString ''RequestLogin''), (''uuid'', JInt (int number))]"

text \<open>
  What a new bot answers to the server's first message depends on memory its constructor does
  not write: it takes the number and logs in only if the garbage in the place of its own number is
  below the numbers of users.
\<close>

lemma login_depends_on_garbage:
  assumes "number < 2 ^ 31"
  shows "HandleRequest vm (message_text (login_call number)) (Bot_new garbage tableId) =
    (if garbage < USERS_UID then Some ([BuildReplyLogin (PlayerContext_new number tableId)], Bot_new number tableId)
     else Some ([], Bot_new garbage tableId))"
proof -
  have ok: "json_ok (JObj (login_call number))"
    using assms unfolding login_call_def by (intro json_ok_make_object) simp
  have ev: "GetString (Object_GetValue ''cmd'' (login_call number)) = ''RequestLogin''" by (simp add: login_call_def)
  have uuid: "json_u32 (FindValue ''uuid'' (JObj (login_call number))) = number"
    using assms by (simp add: login_call_def json_u32_def FindValue_make_object GetInteger_def to_u32_id)
  show ?thesis
  proof (cases "garbage < USERS_UID")
    case True
    then show ?thesis
      by (simp add: HandleRequest_def Decode_message [OF ok] ev pcIsConnected_def DecodeRequestLogin_def uuid Bot_new_def
          PlayerContext_new_def BuildReplyLogin_def Let_def)
  next
    case False
    then have "pcIsConnected (bCtx (Bot_new garbage tableId :: 'a bot))"
      by (simp add: pcIsConnected_def Bot_new_def PlayerContext_new_def)
    from HandleRequest_event [OF ok this ev] show ?thesis using False by (simp add: on_event_def Let_def)
  qed
qed

text \<open>A bot that logs in as number 12 and is asked for a king answers twice, and no interpreter took part.\<close>

theorem scripts_never_run_witness:
  "\<exists>out b. run_bot example_vm [message_text (login_call 12), message_text king_message] (Bot_new 0 0) = Some (out, b) \<and>
     length out = 2 \<and> \<not> mValidContext (mBotEngine b)"
proof -
  have "HandleRequest example_vm (message_text (login_call 12)) (Bot_new 0 0) =
      Some ([BuildReplyLogin (PlayerContext_new 12 0)], Bot_new 12 0)"
    by (subst login_depends_on_garbage) (simp_all add: USERS_UID_def)
  moreover have "pcIsConnected (bCtx (Bot_new 12 0 :: unit bot))"
    by (simp add: Bot_new_def PlayerContext_new_def pcIsConnected_def USERS_UID_def)
  then obtain r where "HandleRequest example_vm (message_text king_message) (Bot_new 12 0) = Some ([r], Bot_new 12 0)"
    using bot_never_calls_a_king by blast
  ultimately have "run_bot example_vm [message_text (login_call 12), message_text king_message] (Bot_new 0 0) =
      Some ([BuildReplyLogin (PlayerContext_new 12 0), r], Bot_new 12 0)" by simp
  moreover from this have "\<not> mValidContext (mBotEngine (Bot_new 12 0 :: unit bot))"
    using scripts_never_run [of example_vm _ 0 0 example_vm, THEN conjunct2] by blast
  ultimately show ?thesis by simp
qed

text \<open>The table a bot was told to join is not the one it asks for: it always asks for the first one.\<close>

lemma bot_joins_first_table:
  assumes "json_ok (JObj obj)" "GetString (Object_GetValue ''cmd'' obj) = ''AccessGranted''" "pcIsConnected (bCtx b)"
  shows "\<exists>b1. HandleRequest vm (message_text obj) (SetTableToJoin tableId b) = Some ([BuildJoinTable 1000], b1)"
proof -
  have "pcIsConnected (bCtx (SetTableToJoin tableId b))" using assms(3) by (simp add: SetTableToJoin_def pcIsConnected_def)
  from HandleRequest_event [OF assms(1) this assms(2)] show ?thesis by (simp add: on_event_def TABLES_UID_def Let_def)
qed

section \<open>The bots of a client\<close>

text \<open>Every bot has a number its pool records as used; number 0 is the answer of a full pool.\<close>

definition bots_ok :: "'h bot_manager \<Rightarrow> bool" where
  "bots_ok m \<longleftrightarrow> pool_ok (mBotsIds m) \<and> (\<forall>k. map_of (mBots m) k \<noteq> None \<longrightarrow> IsTaken k (mBotsIds m) \<or> k = 0)"

lemma map_of_without: "map_of (filter (\<lambda>(k, _). k \<noteq> x) m) k = (if k = x then None else map_of m k)"
  by (induction m) auto

lemma bots_ok_keeps [keeps]:
  "bots_ok BotManager_new"
  "bots_ok m \<Longrightarrow> bots_ok (snd (AddBot garbage t ident delay script m))"
  "bots_ok m \<Longrightarrow> bots_ok (snd (RemoveBot k m))"
  "bots_ok m \<Longrightarrow> bots_ok (snd (ConnectBot k ip port m))"
  "bots_ok m \<Longrightarrow> bots_ok (snd (BotManager_Initialize k web key pass m))"
  "bots_ok m \<Longrightarrow> bots_ok (BotManager_Close m)"
  "bots_ok m \<Longrightarrow> bots_ok (KillBots m)"
proof -
  show "bots_ok BotManager_new" by (simp add: bots_ok_def BotManager_new_def pool_ok_new)
  show "bots_ok (snd (AddBot garbage t ident delay script m))" if "bots_ok m"
  proof -
    obtain i u where take: "TakeId (mBotsIds m) = (i, u)" by fastforce
    have p: "pool_ok (mBotsIds m)" using that by (simp add: bots_ok_def)
    from ids.take_fresh [of "mBotsIds m" i u] ids.take_full [of "mBotsIds m" u] take p that show ?thesis
      by (cases "i = 0") (auto simp: bots_ok_def AddBot_def Let_def)
  qed
  show "bots_ok (snd (RemoveBot k m))" if "bots_ok m"
  proof -
    obtain b u where "ReleaseId k (mBotsIds m) = (b, u)" by fastforce
    with ids.release_frees [of "mBotsIds m" k b u] that show ?thesis
      by (auto simp: bots_ok_def RemoveBot_def map_of_without)
  qed
  show "bots_ok m \<Longrightarrow> bots_ok (snd (ConnectBot k ip port m))"
    by (auto simp: bots_ok_def ConnectBot_def split: option.split)
  show "bots_ok m \<Longrightarrow> bots_ok (snd (BotManager_Initialize k web key pass m))"
    by (auto simp: bots_ok_def BotManager_Initialize_def split: option.split)
  show "bots_ok m \<Longrightarrow> bots_ok (BotManager_Close m)"
    by (auto simp: bots_ok_def BotManager_Close_def map_of_eq_None_iff)
  show "bots_ok m \<Longrightarrow> bots_ok (KillBots m)" by (simp add: bots_ok_def KillBots_def)
qed

text \<open>A new bot takes the place of no other as long as the pool is not full.\<close>

lemma AddBot_fresh:
  assumes "bots_ok m" "AddBot garbage t ident delay script m = (i, m')" "i \<noteq> 0"
  shows "map_of (mBots m) i = None" "\<And>k. k \<noteq> i \<Longrightarrow> map_of (mBots m') k = map_of (mBots m) k"
proof -
  obtain u where take: "TakeId (mBotsIds m) = (i, u)" using assms(2) by (cases "TakeId (mBotsIds m)") (simp add: AddBot_def Let_def)
  from TakeId_found(3) [OF take assms(3)] assms(1,3) show "map_of (mBots m) i = None" by (auto simp: bots_ok_def)
  show "map_of (mBots m') k = map_of (mBots m) k" if "k \<noteq> i" for k
    using assms(2) take that by (auto simp: AddBot_def Let_def)
qed

end
