(* ===== verification/Script_Functions.thy ===== *)
theory Script_Functions
  imports Script_Engine
begin

text \<open>
  What the program gives to a script (JSEngine.cpp): functions that are registered under a global name
  and called back, printers that receive what the script prints, and global strings. The lists of functions and printers, and
  the counters of their numbers, are static: all engines of the process share them.

  A function is an element of a type of its own; \<open>exec\<close> runs it on the state of the host. What the
  interpreter does with the values it is given is not part of this theory. \<open>None\<close> is undefined behaviour.
\<close>

section \<open>State\<close>

text \<open>
  \<open>hfGlobal\<close> and \<open>hfStrings\<close> are the global variables of each heap, by the number of the engine that owns the
  heap; a native function carries its magic number, a signed number of 16 bits in the interpreter.
\<close>

record ('f, 'p) host =
  gIdCounter :: nat
  gPrintList :: "nat \<rightharpoonup> 'p"
  gMagicIdCounter :: nat
  gFunctionList :: "int \<rightharpoonup> 'f"
  hfGlobal :: "nat \<Rightarrow> string \<rightharpoonup> int"
  hfStrings :: "nat \<Rightarrow> string \<rightharpoonup> string"

definition host_new :: "('f, 'p) host" where
  "host_new = \<lparr>gIdCounter = 1, gPrintList = Map.empty, gMagicIdCounter = 1, gFunctionList = Map.empty,
     hfGlobal = (\<lambda>_. Map.empty), hfStrings = (\<lambda>_. Map.empty)\<rparr>"

definition to_i16 :: "int \<Rightarrow> int" where
  "to_i16 i = (i + 2 ^ 15) mod 2 ^ 16 - 2 ^ 15"

section \<open>Registration\<close>

text \<open>The static part of \<open>Initialize\<close>: the number of the new heap; the lists are cleared for all engines.\<close>

definition host_initialize :: "('f, 'p) host \<Rightarrow> nat \<times> ('f, 'p) host" where
  "host_initialize g =
     (let i = gIdCounter g
      in (i, g\<lparr>gFunctionList := Map.empty, gPrintList := Map.empty, gIdCounter := (i + 1) mod 2 ^ 32,
               hfGlobal := (hfGlobal g)(i := Map.empty), hfStrings := (hfStrings g)(i := Map.empty)\<rparr>))"

definition RegisterPrinter :: "nat \<Rightarrow> 'p option \<Rightarrow> ('f, 'p) host \<Rightarrow> ('f, 'p) host" where
  "RegisterPrinter i printer g =
     (case printer of Some p \<Rightarrow> g\<lparr>gPrintList := (gPrintList g)(i \<mapsto> p)\<rparr> | None \<Rightarrow> g)"

definition RegisterFunction :: "nat \<Rightarrow> string \<Rightarrow> 'f option \<Rightarrow> ('f, 'p) host \<Rightarrow> ('f, 'p) host" where
  "RegisterFunction i name function g =
     (case function of
        Some f \<Rightarrow>
          g\<lparr>hfGlobal := (hfGlobal g)(i := (hfGlobal g i)(name \<mapsto> to_i16 (to_i32 (int (gMagicIdCounter g))))),
            gFunctionList := (gFunctionList g)(to_i32 (int (gMagicIdCounter g)) \<mapsto> f),
            gMagicIdCounter := (gMagicIdCounter g + 1) mod 2 ^ 32\<rparr>
      | None \<Rightarrow> g)"

text \<open>Name and value go through C strings, which end at the first NUL.\<close>

definition c_string :: "string \<Rightarrow> string" where
  "c_string s = takeWhile (\<lambda>c. c \<noteq> CHR 0x00) s"

definition RegisterString :: "nat \<Rightarrow> string \<Rightarrow> string \<Rightarrow> ('f, 'p) host \<Rightarrow> ('f, 'p) host" where
  "RegisterString i name val g =
     g\<lparr>hfStrings := (hfStrings g)(i := (hfStrings g i)(c_string name \<mapsto> c_string val))\<rparr>"

section \<open>Callbacks\<close>

text \<open>
  The arguments of a call by their kind, in the order of the tests of the code: an array is an object, so it
  is passed as its JSON text by the test for objects. What is none of these kinds is left out.
\<close>

datatype js_arg = Arg_String string | Arg_Number rat | Arg_Object string | Arg_Boolean bool | Arg_Other

fun callback_args :: "js_arg list \<Rightarrow> variant list option" where
  "callback_args [] = Some []"
| "callback_args (Arg_String s # as) = map_option ((#) (Value_of_string s)) (callback_args as)"
| "callback_args (Arg_Number r # as) =
     Option.bind (Value_of_double r) (\<lambda>v. map_option ((#) v) (callback_args as))"
| "callback_args (Arg_Object s # as) =
     map_option ((#) (Value_SetJsonString True (Value_of_string s))) (callback_args as)"
| "callback_args (Arg_Boolean b # as) = map_option ((#) (Value_of_bool b)) (callback_args as)"
| "callback_args (Arg_Other # as) = callback_args as"

datatype js_return =
  Ret_Undefined
| Ret_Boolean bool
| Ret_Number rat
| Ret_Integer int
| Ret_String string
| Ret_Decoded string
| Ret_Null
| Ret_Error

definition return_value :: "variant \<Rightarrow> js_return" where
  "return_value v =
     (case vType v of
        V_INVALID \<Rightarrow> Ret_Undefined
      | V_BOOLEAN \<Rightarrow> Ret_Boolean (vBool v)
      | V_DOUBLE \<Rightarrow> Ret_Number (vDouble v)
      | V_INTEGER \<Rightarrow> Ret_Integer (Value_GetInteger v)
      | V_STRING \<Rightarrow> (if vJson v then Ret_Decoded (vString v) else Ret_String (vString v))
      | V_NULL \<Rightarrow> Ret_Null)"

definition GenericCallback ::
  "('f \<Rightarrow> variant list \<Rightarrow> 'w \<Rightarrow> (bool \<times> variant) \<times> 'w) \<Rightarrow> int \<Rightarrow> js_arg list \<Rightarrow> ('f, 'p) host \<Rightarrow> 'w \<Rightarrow>
   (js_return \<times> 'w) option" where
  "GenericCallback exec magic args g w =
     map_option (\<lambda>vs.
         case gFunctionList g magic of
           Some f \<Rightarrow>
             (let ((isOk, ret), w') = exec f vs w in (if isOk then return_value ret else Ret_Error, w'))
         | None \<Rightarrow> (Ret_Error, w))
       (callback_args args)"

text \<open>A script of engine \<open>i\<close> calls a global function; \<open>Some None\<close> is an undefined name.\<close>

definition script_calls where
  "script_calls exec i name args g w =
     (case hfGlobal g i name of
        Some magic \<Rightarrow> map_option Some (GenericCallback exec magic args g w)
      | None \<Rightarrow> Some None)"

text \<open>
  What a script prints: a single buffer as it is, other arguments as texts one after the other (the code puts
  a separator on the stack, but \<open>duk_concat\<close> does not use it); with the printer it goes to, which is found by the global \<open>ctx_id\<close> of the heap.
\<close>

datatype print_args = Print_Buffer string | Print_Texts "string list"

definition print_text :: "print_args \<Rightarrow> string" where
  "print_text a =
     (case a of Print_Buffer b \<Rightarrow> b | Print_Texts ts \<Rightarrow> c_string (concat ts)) @ [CHR 0x0D, CHR 0x0A]"

definition SystemPrint :: "nat option \<Rightarrow> print_args \<Rightarrow> ('f, 'p) host \<Rightarrow> ('p \<times> string) option" where
  "SystemPrint ctx_id a g =
     (case ctx_id of
        Some i \<Rightarrow> (case gPrintList g i of Some p \<Rightarrow> Some (p, print_text a) | None \<Rightarrow> None)
      | None \<Rightarrow> None)"

text \<open>A script writes a file; a failure is not reported.\<close>

definition WriteToFile :: "js_arg list \<Rightarrow> disk \<Rightarrow> disk" where
  "WriteToFile args d =
     (case args of
        [Arg_String fileName, Arg_String fileData] \<Rightarrow>
          (if canWrite d fileName then d\<lparr>fileOf := (fileOf d)(fileName \<mapsto> fileData @ [CHR 0x0A])\<rparr> else d)
      | _ \<Rightarrow> d)"

section \<open>Facts\<close>

lemma to_i16_small: "- (2 ^ 15) \<le> i \<Longrightarrow> i < 2 ^ 15 \<Longrightarrow> to_i16 i = i"
  by (simp add: to_i16_def)

text \<open>
  While fewer than \<open>2 ^ 15\<close> functions were registered in the process, every number in use is its own
  magic number and below the counter.
\<close>

definition numbered :: "('f, 'p) host \<Rightarrow> bool" where
  "numbered g \<longleftrightarrow> gMagicIdCounter g \<le> 2 ^ 15 \<and> (\<forall>i name m. hfGlobal g i name = Some m \<longrightarrow> 0 < m \<and> m < int (gMagicIdCounter g))
     \<and> 0 < gMagicIdCounter g"

lemma numbered_keeps [keeps]:
  "numbered host_new" "numbered g \<Longrightarrow> numbered (snd (host_initialize g))" "numbered g \<Longrightarrow> numbered (RegisterPrinter i p g)"
  "numbered g \<Longrightarrow> numbered (RegisterString i name val g)"
  by (auto simp: numbered_def host_new_def host_initialize_def RegisterPrinter_def RegisterString_def Let_def split: option.split)

lemma numbered_RegisterFunction [keeps]:
  assumes "numbered g" "gMagicIdCounter g < 2 ^ 15"
  shows "numbered (RegisterFunction i name f g)"
proof -
  have "to_i16 (to_i32 (int (gMagicIdCounter g))) = int (gMagicIdCounter g)"
    using assms(2) by (simp add: to_i32_id to_i16_small)
  then show ?thesis
    using assms by (auto simp: numbered_def RegisterFunction_def split: option.split) force+
qed

text \<open>A function that was registered is the one that is called, and later registrations do not disturb it.\<close>

lemma registered_function_is_called:
  assumes "numbered g" "gMagicIdCounter g < 2 ^ 15"
  shows "script_calls exec i name args (RegisterFunction i name (Some f) g) w =
    map_option (\<lambda>vs. Some (let ((isOk, ret), w') = exec f vs w in (if isOk then return_value ret else Ret_Error, w')))
      (callback_args args)"
  using assms(2) by (simp add: script_calls_def RegisterFunction_def GenericCallback_def to_i32_id to_i16_small option.map_comp comp_def)

lemma later_registrations_keep_functions:
  assumes "numbered g" "gMagicIdCounter g < 2 ^ 15" "(j, name') \<noteq> (i, name)"
  shows "script_calls exec j name' args (RegisterFunction i name f g) w = script_calls exec j name' args g w"
proof -
  have "m \<noteq> int (gMagicIdCounter g)" if "hfGlobal g j name' = Some m" for m
    using assms(1) that unfolding numbered_def by fastforce
  then show ?thesis
    using assms(2,3) by (cases "i = j") (auto simp: script_calls_def RegisterFunction_def GenericCallback_def
        to_i32_id split: option.split)
qed

text \<open>
  Where the numbers and lists fail: a new engine makes the functions of the older ones fail; the
  65537th function of the process gets the magic number of the first; and an argument that is null or
  undefined moves the later ones forward.
\<close>

lemma new_engine_forgets_functions:
  assumes "hfGlobal g i name = Some m" "i \<noteq> gIdCounter g" "callback_args args = Some vs"
  shows "script_calls exec i name args (snd (host_initialize g)) w = Some (Some (Ret_Error, w))"
  using assms by (simp add: script_calls_def host_initialize_def GenericCallback_def Let_def)

lemma magic_numbers_repeat:
  assumes "gMagicIdCounter g = 65537" "gFunctionList g 1 = Some old" "callback_args args = Some vs"
  shows "script_calls exec i name args (RegisterFunction i name (Some f) g) w =
    Some (Some (let ((isOk, ret), w') = exec old vs w in (if isOk then return_value ret else Ret_Error, w')))"
  using assms by (simp add: script_calls_def RegisterFunction_def GenericCallback_def to_i32_def to_i16_def)

lemma printed_texts_run_together: "print_text (Print_Texts [''one'', ''two'']) = ''onetwo'' @ [CHR 0x0D, CHR 0x0A]"
  by code_simp

lemma missing_arguments_shift: "callback_args [Arg_Other, Arg_Boolean b] = callback_args [Arg_Boolean b]"
  by simp

end
