(* ===== verification/Web_Socket.thy ===== *)
theory Web_Socket
  imports Text_Util Cards
begin

text \<open>
  The web socket client (websocket-client.h, websocket-client.cpp): a session starts asynchronous operations of the library and
  reacts to their completions. The library is not part of the model: a session keeps the list of the operations that
  it has started and that are not completed, and a completion is an event with the operation's outcome. The
  handlers run one at a time. Failures of construction, which throw, are left out.
\<close>

section \<open>State\<close>

datatype ws_state =
  STATE_NO_ERROR | STATE_NO_SESSION | STATE_CONNECT | STATE_READ | STATE_RESOLVE | STATE_WRITE | STATE_SSL
| STATE_WS_HANDSHAKE | STATE_CLOSE | STATE_UNKNOWN

datatype ws_op = Op_Resolve | Op_Connect | Op_Ssl | Op_Handshake | Op_Write string | Op_Read | Op_Close

text \<open>\<open>wsDeadline\<close> is the timeout set on the stream, in seconds.\<close>

record ws_session =
  wsHost :: string
  wsPort :: string
  wsConnected :: bool
  wsState :: ws_state
  wsDeadline :: "nat option"
  wsPending :: "ws_op list"

definition session_new :: ws_session where
  "session_new = \<lparr>wsHost = [], wsPort = [], wsConnected = False, wsState = STATE_NO_ERROR, wsDeadline = None, wsPending = []\<rparr>"

definition start_op :: "ws_op \<Rightarrow> ws_session \<Rightarrow> ws_session" where
  "start_op op s = s\<lparr>wsPending := wsPending s @ [op]\<rparr>"

section \<open>Operations of a session\<close>

definition session_Run :: "string \<Rightarrow> string \<Rightarrow> ws_session \<Rightarrow> ws_session" where
  "session_Run host port s = start_op Op_Resolve (s\<lparr>wsHost := host, wsPort := port\<rparr>)"

definition session_Close :: "ws_session \<Rightarrow> ws_session" where
  "session_Close s = (start_op Op_Close s)\<lparr>wsConnected := True\<rparr>"

definition session_Send :: "string \<Rightarrow> ws_session \<Rightarrow> ws_session" where
  "session_Send message s = start_op (Op_Write message) s"

definition on_failure :: "ws_state \<Rightarrow> ws_session \<Rightarrow> ws_session" where
  "on_failure err s = s\<lparr>wsConnected := False, wsState := err\<rparr>"

definition still_connected :: "ws_session \<Rightarrow> ws_session" where
  "still_connected s = s\<lparr>wsState := STATE_NO_ERROR, wsConnected := True\<rparr>"

section \<open>Handlers of completions\<close>

definition on_resolve :: "bool \<Rightarrow> ws_session \<Rightarrow> ws_session" where
  "on_resolve ec s = (if ec then on_failure STATE_RESOLVE s else start_op Op_Connect (s\<lparr>wsDeadline := Some 5\<rparr>))"

text \<open>\<open>sni\<close> is whether the host name could be set on the stream, \<open>port\<close> that of the peer.\<close>

definition on_connect :: "bool \<Rightarrow> bool \<Rightarrow> nat \<Rightarrow> ws_session \<Rightarrow> ws_session" where
  "on_connect ec sni port s =
     (if ec then on_failure STATE_CONNECT s
      else (let s1 = s\<lparr>wsDeadline := Some 5\<rparr>
            in if \<not> sni then on_failure STATE_CONNECT s1
               else start_op Op_Ssl (s1\<lparr>wsHost := wsHost s1 @ CHR '':'' # dec_string port\<rparr>)))"

definition on_ssl_handshake :: "bool \<Rightarrow> ws_session \<Rightarrow> ws_session" where
  "on_ssl_handshake ec s =
     (if ec then on_failure STATE_SSL s
      else start_op Op_Handshake ((still_connected s)\<lparr>wsDeadline := None\<rparr>))"

definition on_handshake :: "bool \<Rightarrow> ws_session \<Rightarrow> ws_session" where
  "on_handshake ec s =
     (if ec then on_failure STATE_WS_HANDSHAKE s else start_op Op_Read (still_connected s))"

definition on_write :: "bool \<Rightarrow> ws_session \<Rightarrow> ws_session" where
  "on_write ec s = (if ec then on_failure STATE_WRITE s else still_connected s)"

text \<open>What was read goes to the reader, \<open>OnWsData\<close>.\<close>

definition on_read :: "bool \<Rightarrow> string \<Rightarrow> ws_session \<Rightarrow> string list \<times> ws_session" where
  "on_read ec data s =
     (if ec then ([], on_failure STATE_READ (s\<lparr>wsState := STATE_READ\<rparr>))
      else ([data], start_op Op_Read (still_connected s)))"

definition on_close :: "bool \<Rightarrow> ws_session \<Rightarrow> ws_session" where
  "on_close ec s = (if ec then on_failure STATE_CLOSE s else s)"

section \<open>The client\<close>

text \<open>\<open>wcRunning\<close> is whether the loop over the completions is running.\<close>

record ws_client =
  wcSession :: "ws_session option"
  wcRunning :: bool

definition Client_new :: ws_client where
  "Client_new = \<lparr>wcSession = None, wcRunning = False\<rparr>"

definition Client_Run :: "string \<Rightarrow> string \<Rightarrow> ws_client \<Rightarrow> ws_client" where
  "Client_Run host port c = c\<lparr>wcSession := Some (session_Run host port session_new), wcRunning := True\<rparr>"

definition Client_Send :: "string \<Rightarrow> ws_client \<Rightarrow> ws_client" where
  "Client_Send message c = c\<lparr>wcSession := map_option (session_Send message) (wcSession c)\<rparr>"

definition Client_Close :: "ws_client \<Rightarrow> ws_client" where
  "Client_Close c = c\<lparr>wcRunning := False, wcSession := map_option session_Close (wcSession c)\<rparr>"

definition Client_IsConnected :: "ws_client \<Rightarrow> bool" where
  "Client_IsConnected c = (case wcSession c of Some s \<Rightarrow> wsConnected s | None \<Rightarrow> False)"

definition Client_GetState :: "ws_client \<Rightarrow> ws_state" where
  "Client_GetState c = (case wcSession c of Some s \<Rightarrow> wsState s | None \<Rightarrow> STATE_NO_SESSION)"

text \<open>The completion of an operation: its error, and what the library reports with it.\<close>

record outcome =
  ocError :: bool
  ocSni :: bool
  ocPort :: nat
  ocData :: string

definition handle :: "ws_op \<Rightarrow> outcome \<Rightarrow> ws_session \<Rightarrow> string list \<times> ws_session" where
  "handle op r s =
     (case op of
        Op_Resolve \<Rightarrow> ([], on_resolve (ocError r) s)
      | Op_Connect \<Rightarrow> ([], on_connect (ocError r) (ocSni r) (ocPort r) s)
      | Op_Ssl \<Rightarrow> ([], on_ssl_handshake (ocError r) s)
      | Op_Handshake \<Rightarrow> ([], on_handshake (ocError r) s)
      | Op_Write _ \<Rightarrow> ([], on_write (ocError r) s)
      | Op_Read \<Rightarrow> on_read (ocError r) (ocData r) s
      | Op_Close \<Rightarrow> ([], on_close (ocError r) s))"

text \<open>
  The loop takes the completion of a pending operation and ends when none is left; once it has ended or was stopped it
  takes none. Operations that an earlier session has left behind are not part of the model.
\<close>

definition complete :: "ws_op \<Rightarrow> outcome \<Rightarrow> ws_client \<Rightarrow> string list \<times> ws_client" where
  "complete op r c =
     (case wcSession c of
        Some s \<Rightarrow>
          (if wcRunning c \<and> op \<in> set (wsPending s) then
             (let (out, s') = handle op r (s\<lparr>wsPending := remove1 op (wsPending s)\<rparr>)
              in (out, c\<lparr>wcSession := Some s', wcRunning := wsPending s' \<noteq> []\<rparr>))
           else ([], c))
      | None \<Rightarrow> ([], c))"

section \<open>Facts\<close>

datatype ws_event = Ev_Run string string | Ev_Send string | Ev_Close | Ev_Complete ws_op outcome

definition ws_step :: "ws_event \<Rightarrow> ws_client \<Rightarrow> string list \<times> ws_client" where
  "ws_step ev c =
     (case ev of
        Ev_Run host port \<Rightarrow> ([], Client_Run host port c)
      | Ev_Send m \<Rightarrow> ([], Client_Send m c)
      | Ev_Close \<Rightarrow> ([], Client_Close c)
      | Ev_Complete op r \<Rightarrow> complete op r c)"

fun ws_run :: "ws_event list \<Rightarrow> ws_client \<Rightarrow> string list \<times> ws_client" where
  "ws_run [] c = ([], c)"
| "ws_run (ev # evs) c = (let (out, c1) = ws_step ev c; (out', c2) = ws_run evs c1 in (out @ out', c2))"

lemma ws_run_snd: "snd (ws_run (ev # evs) c) = snd (ws_run evs (snd (ws_step ev c)))"
  by (simp add: Let_def split_beta)

text \<open>
  The operations of the connection follow one another: at most one of them is pending, and a
  session that is connecting has not read anything.
\<close>

definition in_chain :: "ws_op \<Rightarrow> bool" where
  "in_chain op \<longleftrightarrow> op \<in> {Op_Resolve, Op_Connect, Op_Ssl, Op_Handshake, Op_Read}"

definition chain :: "ws_session \<Rightarrow> ws_op list" where
  "chain s = filter in_chain (wsPending s)"

definition one_chain :: "ws_client \<Rightarrow> bool" where
  "one_chain c = (case wcSession c of Some s \<Rightarrow> length (chain s) \<le> 1 | None \<Rightarrow> True)"

lemma chain_start [simp]: "chain (start_op op s) = chain s @ (if in_chain op then [op] else [])"
  by (simp add: chain_def start_op_def)

lemma chain_frame [simp]:
  "chain (s\<lparr>wsHost := h\<rparr>) = chain s" "chain (s\<lparr>wsPort := h\<rparr>) = chain s" "chain (s\<lparr>wsConnected := b\<rparr>) = chain s"
  "chain (s\<lparr>wsState := e\<rparr>) = chain s" "chain (s\<lparr>wsDeadline := d\<rparr>) = chain s"
  "chain (on_failure e s) = chain s" "chain (still_connected s) = chain s"
  by (simp_all add: chain_def on_failure_def still_connected_def)

lemma in_chain_ops [simp]:
  "in_chain Op_Resolve" "in_chain Op_Connect" "in_chain Op_Ssl" "in_chain Op_Handshake" "in_chain Op_Read"
  "\<not> in_chain (Op_Write m)" "\<not> in_chain Op_Close"
  by (simp_all add: in_chain_def)

lemma handle_chain: "length (chain (snd (handle op r s))) \<le> length (chain s) + (if in_chain op then 1 else 0)"
  by (cases op) (simp_all add: handle_def on_resolve_def on_connect_def on_ssl_handshake_def on_handshake_def on_write_def
      on_read_def on_close_def Let_def)

lemma one_chain_complete: "one_chain c \<Longrightarrow> one_chain (snd (complete op r c))"
proof (cases "wcSession c")
  case (Some s)
  assume c: "one_chain c"
  let ?s = "s\<lparr>wsPending := remove1 op (wsPending s)\<rparr>"
  have "length (chain ?s) + (if in_chain op then 1 else 0) \<le> length (chain s)" if "op \<in> set (wsPending s)"
  proof -
    have "length (filter in_chain (remove1 op xs)) + (if in_chain op then 1 else 0) \<le> length (filter in_chain xs)"
      if "op \<in> set xs" for xs using that by (induction xs) auto
    from this [OF that] show ?thesis by (simp add: chain_def)
  qed
  with handle_chain [of op r ?s] c Some show ?thesis
    by (auto simp: complete_def one_chain_def Let_def split: prod.split)
qed (simp add: complete_def)

lemma one_chain_keeps [keeps]: "one_chain c \<Longrightarrow> one_chain (snd (ws_run evs c))"
proof (induction evs arbitrary: c)
  case (Cons ev evs)
  have "one_chain (snd (ws_step ev c))"
    using Cons.prems one_chain_complete
    by (auto simp: ws_step_def one_chain_def Client_Run_def Client_Send_def Client_Close_def session_Run_def session_Send_def
        session_Close_def session_new_def chain_def start_op_def split: ws_event.split option.splits)
  with Cons.IH show ?case by (simp only: ws_run_snd)
qed simp

text \<open>
  Where it goes wrong: a client that was closed says it is connected, whatever arrives afterwards, until it
  is run again; and a write that completes after a failed read says the same of a session that reads no more.
\<close>

lemma closed_client_says_connected:
  assumes "wcSession c = Some s" "\<And>host port. Ev_Run host port \<notin> set evs"
  shows "Client_IsConnected (snd (ws_run evs (Client_Close c)))"
proof -
  have "\<exists>s'. wcSession (snd (ws_run es d)) = Some s' \<and> wsConnected s'"
    if "wcSession d = Some s0" "wsConnected s0" "\<not> wcRunning d" "\<forall>ev \<in> set es. \<forall>host port. ev \<noteq> Ev_Run host port" for es d s0
    using that
  proof (induction es arbitrary: d s0)
    case (Cons ev es)
    obtain s1 where s1: "wcSession (snd (ws_step ev d)) = Some s1" "wsConnected s1" "\<not> wcRunning (snd (ws_step ev d))"
      using Cons.prems
      by (cases ev) (auto simp: ws_step_def Client_Send_def Client_Close_def session_Send_def session_Close_def start_op_def complete_def)
    from Cons.IH [OF this] Cons.prems(4) show ?case unfolding ws_run_snd by simp
  qed simp
  moreover have "wcSession (Client_Close c) = Some (session_Close s)" "wsConnected (session_Close s)" "\<not> wcRunning (Client_Close c)"
    using assms(1) by (simp_all add: Client_Close_def session_Close_def)
  ultimately obtain s' where "wcSession (snd (ws_run evs (Client_Close c))) = Some s'" "wsConnected s'"
    using assms(2) by metis
  then show ?thesis by (simp add: Client_IsConnected_def)
qed

lemma write_revives_failed_session:
  assumes "s = snd (on_read True data s0)"
  shows "wsState s = STATE_READ \<and> \<not> wsConnected s \<and> wsConnected (on_write False s) \<and> wsState (on_write False s) = STATE_NO_ERROR \<and>
    wsPending (on_write False s) = wsPending s0"
  using assms by (simp add: on_read_def on_write_def on_failure_def still_connected_def)

end
