(* ===== verification/Platform.thy ===== *)
theory Platform
  imports Configurations
begin

text \<open>
  What the program puts between itself and the machine: whole files and folders (Util.cpp, System.h, System.cpp), the dump
  of memory (Util.cpp), archives (zip/Zip.h, zip/Zip.cpp), the queue between threads (ThreadQueue.h) and the timer
  (DurationTimer.h). Folders of the machine, the functions of the archive library and the clock are arguments.
\<close>

section \<open>Files\<close>

text \<open>A file that cannot be opened reads as the empty text; what is written ends in a new line.\<close>

definition FileToString :: "string \<Rightarrow> disk \<Rightarrow> string" where
  "FileToString filePath d = (case fileOf d filePath of Some s \<Rightarrow> s | None \<Rightarrow> [])"

definition StringToFile :: "string \<Rightarrow> string \<Rightarrow> disk \<Rightarrow> bool \<times> disk" where
  "StringToFile filePath data d =
     (if canWrite d filePath then (True, d\<lparr>fileOf := (fileOf d)(filePath \<mapsto> data @ [CHR 0x0A])\<rparr>) else (False, d))"

section \<open>Folders\<close>

text \<open>The machine: whether a path is a folder, and the attempt to make one.\<close>

record 's machine =
  isFolder :: "'s \<Rightarrow> string \<Rightarrow> bool"
  makeFolder :: "string \<Rightarrow> 's \<Rightarrow> bool \<times> 's"

text \<open>\<open>std::getline\<close> with a separator: a text that ends in the separator has no empty last part.\<close>

definition levels :: "string \<Rightarrow> string list" where
  "levels path =
     (let parts = split_on (CHR ''/'') path in if last parts = [] then butlast parts else parts)"

fun make_levels :: "'s machine \<Rightarrow> string list \<Rightarrow> string \<Rightarrow> 's \<Rightarrow> bool \<times> 's" where
  "make_levels m [] current_level s = (True, s)"
| "make_levels m (level # ls) current_level s =
     (let here = current_level @ level
      in if \<not> isFolder m s here \<and> 2 < length here then
           (let (ok, s') = makeFolder m here s
            in if \<not> ok then (False, s') else make_levels m ls (here @ ''/'') s')
         else make_levels m ls (here @ ''/'') s)"

definition Mkdir :: "'s machine \<Rightarrow> string \<Rightarrow> 's \<Rightarrow> bool \<times> 's" where
  "Mkdir m fullPath s = make_levels m (levels fullPath) [] s"

record system =
  mHomePath :: string
  mDeckPath :: string
  mScriptPath :: string
  mLocalePath :: string

definition GamePath :: "system \<Rightarrow> string" where
  "GamePath y = mHomePath y @ ''games'' @ ''/''"

definition LogPath :: "system \<Rightarrow> string" where
  "LogPath y = mHomePath y @ ''logs'' @ ''/''"

definition AvatarPath :: "system \<Rightarrow> string" where
  "AvatarPath y = mHomePath y @ ''avatars'' @ ''/''"

definition ensure_folder :: "'s machine \<Rightarrow> string \<Rightarrow> 's \<Rightarrow> 's" where
  "ensure_folder m path s = (if \<not> isFolder m s path then snd (Mkdir m path s) else s)"

text \<open>\<open>exe\<close> is the folder of the program. The last character of an empty path is undefined.\<close>

definition System_Initialize :: "'s machine \<Rightarrow> string \<Rightarrow> string \<Rightarrow> 's \<Rightarrow> (system \<times> 's) option" where
  "System_Initialize m exe homePath s =
     (if homePath = [] then None
      else (let y = \<lparr>mHomePath = (if last homePath \<noteq> CHR ''/'' then homePath @ ''/'' else homePath),
                     mDeckPath = exe @ ''/default/'', mScriptPath = exe @ ''/ai/'', mLocalePath = exe @ ''/''\<rparr>
            in Some (y, fold (ensure_folder m) [mHomePath y, GamePath y, LogPath y, AvatarPath y] s)))"

section \<open>Dumps\<close>

fun low_hex :: "nat \<Rightarrow> string" where
  "low_hex n = (if n < 16 then [''0123456789abcdef'' ! n] else low_hex (n div 16) @ [''0123456789abcdef'' ! (n mod 16)])"

declare low_hex.simps [simp del]

definition hex_width :: "nat \<Rightarrow> nat \<Rightarrow> string" where
  "hex_width w n = replicate (w - length (low_hex n)) (CHR ''0'') @ low_hex n"

text \<open>One byte: the end of the line before it, the offset, the byte, and the text of the line so far.\<close>

definition dump_step :: "nat \<times> nat \<Rightarrow> string \<times> string \<Rightarrow> string \<times> string" where
  "dump_step = (\<lambda>(i, b) (ss, buff).
     (ss @ (if i mod 16 = 0
            then (if i \<noteq> 0 then ''  '' @ buff @ [CHR 0x0A] else []) @ '' '' @ hex_width 4 i else []) @
        '' '' @ hex_width 2 b @ '', '',
      take (i mod 16) buff @ [if b < 0x20 \<or> 0x7e < b then CHR ''.'' else char_of b]))"

text \<open>\<open>None\<close> reads past the end of the memory.\<close>

definition HexDump :: "string option \<Rightarrow> nat list \<Rightarrow> int \<Rightarrow> string option" where
  "HexDump desc memory len =
     (let head = (case desc of Some d \<Rightarrow> d @ '':'' @ [CHR 0x0A] | None \<Rightarrow> [])
      in if len = 0 then Some (head @ ''  ZERO LENGTH'' @ [CHR 0x0A])
         else if len < 0 then Some (head @ ''  NEGATIVE LENGTH: -'' @ dec_string (nat (- len)) @ [CHR 0x0A])
         else if nat len \<le> length memory then
           (let n = nat len;
                (ss, buff) = fold dump_step (zip [0..<n] (take n memory)) (head, [])
            in Some (ss @ concat (replicate ((16 - n mod 16) mod 16) ''   '') @ ''  '' @ buff @ [CHR 0x0A]))
         else None)"

section \<open>Archives\<close>

text \<open>The functions of the archive library: opening a file or a text in memory leaves an archive also when it fails.\<close>

record 'z archive_library =
  zeroed :: 'z
  init_file :: "string \<Rightarrow> 'z \<Rightarrow> bool \<times> 'z"
  init_mem :: "string \<Rightarrow> 'z \<Rightarrow> bool \<times> 'z"
  num_files :: "'z \<Rightarrow> nat"
  file_name :: "'z \<Rightarrow> nat \<Rightarrow> string option"
  extract_file :: "'z \<Rightarrow> string \<Rightarrow> string option"
  end_reader :: "'z \<Rightarrow> 'z"

record 'z zip_reader =
  mZipArchive :: 'z
  zIsValid :: bool
  mNumberOfFiles :: nat
  mFiles :: "string list"

definition Zip_new :: "'z archive_library \<Rightarrow> 'z zip_reader" where
  "Zip_new lib = \<lparr>mZipArchive = zeroed lib, zIsValid = False, mNumberOfFiles = 0, mFiles = []\<rparr>"

definition Zip_Open :: "'z archive_library \<Rightarrow> string \<Rightarrow> bool \<Rightarrow> 'z zip_reader \<Rightarrow> bool \<times> 'z zip_reader" where
  "Zip_Open lib src isFile z =
     (let (status, a) = (if isFile then init_file lib src (zeroed lib) else init_mem lib src (zeroed lib));
          names = map (file_name lib a) [0..<num_files lib a];
          found = map the (filter (\<lambda>n. n \<noteq> None) names);
          z1 = z\<lparr>mZipArchive := a, zIsValid := False, mNumberOfFiles := 0\<rparr>;
          z2 = (if status then z1\<lparr>mFiles := found, mNumberOfFiles := length found\<rparr> else z1);
          z3 = (if mNumberOfFiles z2 = num_files lib a then z2\<lparr>zIsValid := True\<rparr> else z2)
      in (zIsValid z3, z3))"

definition Zip_Close :: "'z archive_library \<Rightarrow> 'z zip_reader \<Rightarrow> 'z zip_reader" where
  "Zip_Close lib z = (if zIsValid z then z\<lparr>mZipArchive := end_reader lib (mZipArchive z)\<rparr> else z)"

definition Zip_GetFile :: "'z archive_library \<Rightarrow> string \<Rightarrow> 'z zip_reader \<Rightarrow> string option" where
  "Zip_GetFile lib fileName z = (if zIsValid z then extract_file lib (mZipArchive z) fileName else None)"

text \<open>An archive as the bots use it: nothing if it does not open, or the contents of its files by name.\<close>

definition open_archive :: "'z archive_library \<Rightarrow> string \<Rightarrow> bool \<Rightarrow> (string \<Rightarrow> string option) option" where
  "open_archive lib src isFile =
     (let (ok, z) = Zip_Open lib src isFile (Zip_new lib) in if ok then Some (\<lambda>name. Zip_GetFile lib name z) else None)"

section \<open>Queues between threads\<close>

text \<open>
  Every operation holds the lock while it runs, so an execution by many threads is a sequence of
  operations. \<open>None\<close> is a thread that waits.
\<close>

definition Push :: "'a \<Rightarrow> 'a list \<Rightarrow> 'a list" where
  "Push x q = q @ [x]"

definition Queue_Empty :: "'a list \<Rightarrow> bool" where
  "Queue_Empty q = (q = [])"

definition TryPop :: "'a list \<Rightarrow> 'a option \<times> 'a list" where
  "TryPop q = (case q of [] \<Rightarrow> (None, []) | x # q' \<Rightarrow> (Some x, q'))"

definition WaitAndPop :: "'a list \<Rightarrow> ('a \<times> 'a list) option" where
  "WaitAndPop q = (case q of [] \<Rightarrow> None | x # q' \<Rightarrow> Some (x, q'))"

text \<open>With a limit the thread that waits may be given up: no element and the queue as it is.\<close>

definition WaitAndPop_for :: "bool \<Rightarrow> 'a list \<Rightarrow> ('a option \<times> 'a list) option" where
  "WaitAndPop_for timeout q =
     (case q of [] \<Rightarrow> (if timeout then Some (None, []) else None) | x # q' \<Rightarrow> Some (Some x, q'))"

definition Queue_Size :: "'a list \<Rightarrow> nat" where
  "Queue_Size q = length q mod 2 ^ 32"

section \<open>Timers\<close>

text \<open>Times are nanoseconds of the clock; the unit of delays is \<open>std::ratio<1000>\<close>, a thousand seconds.\<close>

record timer =
  dtBegin :: nat
  mEnabled :: bool
  mRunning :: bool
  mDelay :: nat
  mElapsedFunc :: bool

text \<open>\<open>mRunning\<close> and \<open>mDelay\<close> are not set by the constructor.\<close>

definition Timer_new :: "bool \<Rightarrow> nat \<Rightarrow> nat \<Rightarrow> timer" where
  "Timer_new running delay now =
     \<lparr>dtBegin = now, mEnabled = False, mRunning = running, mDelay = delay, mElapsedFunc = False\<rparr>"

definition elapsed :: "nat \<Rightarrow> timer \<Rightarrow> nat" where
  "elapsed now t = ((now - dtBegin t) div 10 ^ 12) mod 2 ^ 32"

definition Timer_Start :: "nat \<Rightarrow> timer \<Rightarrow> timer" where
  "Timer_Start now t = t\<lparr>dtBegin := now, mRunning := True\<rparr>"

definition Timer_Stop :: "timer \<Rightarrow> timer" where
  "Timer_Stop t = t\<lparr>mRunning := False\<rparr>"

definition SetEnable :: "bool \<Rightarrow> timer \<Rightarrow> timer" where
  "SetEnable enable t = t\<lparr>mEnabled := enable\<rparr>"

definition SetDelay :: "nat \<Rightarrow> timer \<Rightarrow> timer" where
  "SetDelay delay t = t\<lparr>mDelay := delay\<rparr>"

definition Timer_Register :: "timer \<Rightarrow> timer" where
  "Timer_Register t = t\<lparr>mElapsedFunc := True\<rparr>"

definition IsElapsed :: "nat \<Rightarrow> timer \<Rightarrow> bool" where
  "IsElapsed now t = (mDelay t \<le> elapsed now t \<and> mRunning t)"

text \<open>Whether \<open>Update\<close> calls the registered function.\<close>

definition Timer_Update :: "nat \<Rightarrow> timer \<Rightarrow> bool" where
  "Timer_Update now t = (IsElapsed now t \<and> mElapsedFunc t \<and> mEnabled t)"

section \<open>Facts\<close>

subsection \<open>Files and folders\<close>

text \<open>A text that is written and read again has grown by a new line.\<close>

lemma file_text_grows:
  "StringToFile path data d = (True, d') \<Longrightarrow> FileToString path d' = data @ [CHR 0x0A]"
  by (auto simp: StringToFile_def FileToString_def split: if_splits)

text \<open>
  The paths that \<open>Mkdir\<close> looks at. If the machine keeps its folders and makes what it says it has made,
  all of them with more than two characters are folders when \<open>Mkdir\<close> succeeds.
\<close>

fun level_paths :: "string list \<Rightarrow> string \<Rightarrow> string list" where
  "level_paths [] current = []"
| "level_paths (l # ls) current = (current @ l) # level_paths ls (current @ l @ ''/'')"

definition lawful :: "'s machine \<Rightarrow> bool" where
  "lawful m \<longleftrightarrow> (\<forall>p s s' ok. makeFolder m p s = (ok, s') \<longrightarrow>
     (ok \<longrightarrow> isFolder m s' p) \<and> (\<forall>q. isFolder m s q \<longrightarrow> isFolder m s' q))"

lemma make_levels_folders:
  "lawful m \<Longrightarrow> make_levels m ls cur s = (ok, s') \<Longrightarrow>
   (\<forall>q. isFolder m s q \<longrightarrow> isFolder m s' q) \<and>
   (ok \<longrightarrow> (\<forall>p \<in> set (level_paths ls cur). 2 < length p \<longrightarrow> isFolder m s' p))"
proof (induction m ls cur s rule: make_levels.induct)
  case (2 m level ls cur s)
  let ?here = "cur @ level"
  show ?case
  proof (cases "\<not> isFolder m s ?here \<and> 2 < length ?here")
    case True
    obtain b s1 where s1: "makeFolder m ?here s = (b, s1)" by fastforce
    with 2(3) have keep: "b \<longrightarrow> isFolder m s1 ?here" "\<forall>q. isFolder m s q \<longrightarrow> isFolder m s1 q"
      unfolding lawful_def by blast+
    show ?thesis
    proof (cases b)
      case b: True
      with True s1 2(4) have "make_levels m ls (?here @ ''/'') s1 = (ok, s')" by (simp add: Let_def)
      moreover have "\<not> \<not> b" using b by simp
      ultimately show ?thesis using 2(1) [OF refl True s1 [symmetric] refl _ 2(3)] keep b by auto
    next
      case False
      with True s1 2(4) keep show ?thesis by (auto simp: Let_def)
    qed
  next
    case False
    with 2(4) have "make_levels m ls (?here @ ''/'') s = (ok, s')" by (auto simp: Let_def)
    with 2(2) [OF refl False 2(3)] False show ?thesis by auto
  qed
qed simp

lemma Mkdir_makes_folders:
  assumes "lawful m" "Mkdir m path s = (True, s')" "p \<in> set (level_paths (levels path) [])" "2 < length p"
  shows "isFolder m s' p"
  using make_levels_folders [OF assms(1) assms(2) [unfolded Mkdir_def]] assms(3,4) by blast

text \<open>A folder with a name of two characters is not made, and \<open>Mkdir\<close> says it was.\<close>

lemma short_folder_is_skipped: "Mkdir m ''ab'' s = (True, s)"
  by (simp add: Mkdir_def levels_def Let_def)

subsection \<open>Archives\<close>

text \<open>
  A file that is not an archive opens as a valid archive without files: opening fails, the library reports
  no files, as many as were found.
\<close>

lemma bad_archive_is_valid:
  assumes "init_file lib src (zeroed lib) = (False, a)" "num_files lib a = 0"
  shows "Zip_Open lib src True z = (True, z\<lparr>mZipArchive := a, zIsValid := True, mNumberOfFiles := 0\<rparr>)"
  using assms by (simp add: Zip_Open_def Let_def)

lemma Zip_Open_counts:
  assumes "Zip_Open lib src isFile z = (True, z')" "fst (if isFile then init_file lib src (zeroed lib) else init_mem lib src (zeroed lib))"
  shows "mNumberOfFiles z' = num_files lib (mZipArchive z') \<and>
    map Some (mFiles z') = map (file_name lib (mZipArchive z')) [0..<num_files lib (mZipArchive z')]"
proof -
  obtain a where a: "(if isFile then init_file lib src (zeroed lib) else init_mem lib src (zeroed lib)) = (True, a)"
    using assms(2) by (metis prod.collapse)
  let ?names = "map (file_name lib a) [0..<num_files lib a]"
  have all: "length (filter P xs) = length xs \<Longrightarrow> filter P xs = xs" for P and xs :: "string option list"
    by (metis length_filter_less filter_id_conv less_irrefl)
  from assms(1) have "length (filter (\<lambda>n. n \<noteq> None) ?names) = num_files lib a"
    and z': "z' = z\<lparr>mZipArchive := a, zIsValid := True, mFiles := map the (filter (\<lambda>n. n \<noteq> None) ?names),
      mNumberOfFiles := num_files lib a\<rparr>"
    by (auto simp: Zip_Open_def a Let_def split: if_splits)
  then have "filter (\<lambda>n. n \<noteq> None) ?names = ?names" by (intro all) simp
  moreover from this have "map Some (map the ?names) = ?names"
    unfolding filter_id_conv by (intro map_idI [THEN trans [OF map_map]]) auto
  ultimately show ?thesis by (simp add: z' del: map_map)
qed

subsection \<open>Queues\<close>

text \<open>Whatever the threads do in whatever order, the elements leave the queue in the order they came.\<close>

datatype 'a queue_op = Q_Push 'a | Q_TryPop | Q_Wait | Q_WaitFor bool

fun queue_run :: "'a queue_op list \<Rightarrow> 'a list \<Rightarrow> ('a list \<times> 'a list) option" where
  "queue_run [] q = Some ([], q)"
| "queue_run (Q_Push x # ops) q = queue_run ops (Push x q)"
| "queue_run (Q_TryPop # ops) q =
     (let (r, q') = TryPop q
      in map_option (\<lambda>(out, q''). ((case r of Some x \<Rightarrow> x # out | None \<Rightarrow> out), q'')) (queue_run ops q'))"
| "queue_run (Q_Wait # ops) q =
     Option.bind (WaitAndPop q) (\<lambda>(x, q'). map_option (\<lambda>(out, q''). (x # out, q'')) (queue_run ops q'))"
| "queue_run (Q_WaitFor timeout # ops) q =
     Option.bind (WaitAndPop_for timeout q) (\<lambda>(r, q').
       map_option (\<lambda>(out, q''). ((case r of Some x \<Rightarrow> x # out | None \<Rightarrow> out), q'')) (queue_run ops q'))"

fun pushed :: "'a queue_op list \<Rightarrow> 'a list" where
  "pushed [] = []"
| "pushed (Q_Push x # ops) = x # pushed ops"
| "pushed (_ # ops) = pushed ops"

lemma queue_is_fifo: "queue_run ops q = Some (out, q') \<Longrightarrow> out @ q' = q @ pushed ops"
  by (induction ops q arbitrary: out q' rule: queue_run.induct)
    (fastforce simp: Push_def TryPop_def WaitAndPop_def WaitAndPop_for_def bind_eq_Some_conv
      split: list.splits if_splits)+

subsection \<open>Timers\<close>

text \<open>A delay of one is over after a thousand seconds and not before, whatever the name of its unit.\<close>

lemma delays_are_kiloseconds:
  assumes "mRunning t" "mDelay t = 1" "dtBegin t \<le> now" "now - dtBegin t < 2 * 10 ^ 12"
  shows "IsElapsed now t = (10 ^ 12 \<le> now - dtBegin t)"
proof -
  have "(now - dtBegin t) div 10 ^ 12 < 2" using assms(4) by (simp add: div_less_iff_less_mult)
  then show ?thesis using assms by (simp add: IsElapsed_def elapsed_def Suc_le_eq div_greater_zero_iff)
qed

subsection \<open>Dumps\<close>

lemma HexDump_defined: "HexDump desc memory len \<noteq> None \<longleftrightarrow> len \<le> int (length memory)"
  by (auto simp: HexDump_def Let_def split: prod.split)

lemma HexDump_example:
  "HexDump None [65, 0, 255] 3 =
     Some ('' 0000 41,  00,  ff, '' @ replicate 39 (CHR '' '') @ ''  A..'' @ [CHR 0x0A])"
  by code_simp

end
