(* ===== verification/Spec2Isabelle.thy ===== *)
theory Spec2Isabelle
  imports Session_Properties Deck_Properties Deck_Sorting Deal_Replay Bot_Properties
    Script_Functions Web_Socket Platform
begin

text \<open>
  \<^bold>\<open>TarotClub core.\<close> A model of the game server, the computer players and the protocol of TarotClub, a
  network game of French Tarot in C++, with the two parts of mbed TLS (in C) that seal its frames. The
  sources are those of the directory \<open>src\<close>; every definition keeps the name of the function it translates
  where Isabelle allows it, with the class in front where two classes have the same name
  (\<open>Engine_NewDeal\<close> is \<open>Engine::NewDeal\<close>).

  \<^bold>\<open>The program.\<close> A client connects to the server (Server.cpp, Session.cpp), proves that it knows the
  pass phrase, and from then on sends JSON requests in encrypted frames (Protocol.cpp over gcm.c and aes.c
  of mbed TLS; JsonReader.cpp, JsonValue.cpp). The server hands them to its lobby (Lobby.cpp), which keeps
  the users (Users.cpp), hands out numbers (UniqueId.cpp), seats players at tables and passes the
  requests of the game on to the table of the sender (PlayingTable.cpp). A table collects the
  acknowledgments of its players and drives the engine of the deal (Engine.cpp), which deals the cards
  (DealGenerator.cpp), asks decks whether a card, a discard or a handle is legal (Deck.cpp, Card.cpp),
  records bids and tricks (TarotContext.cpp), and adds up the points (Score.cpp). At the other end a client
  keeps what it knows of the game (PlayerContext.cpp); a bot (Bot.cpp, BotManager.cpp) answers for a player, asking
  a script (JSEngine.cpp over duktape) and falling back on choices of its own. Options live in JSON files
  (ClientConfig.cpp, ServerConfig.cpp, TournamentConfig.cpp).

  \<^bold>\<open>Theories that model code\<close>, in the order of their dependencies.

  \<^item> \<open>Prelude\<close>: reading machine integers (\<open>to_u8\<close>, \<open>inc8\<close>, \<open>to_u32\<close>, \<open>to_i32\<close>), arrays with their bounds
    (\<open>arr_get\<close>), sorted maps, the collections of facts \<open>keeps\<close> and \<open>frame\<close>.
  \<^item> \<open>Cards\<close>, \<open>Tarot_Rules\<close>, \<open>Decks\<close>, \<open>Deck_Sorting\<close>: cards, the tables of the rules (Common.cpp), decks with
    \<open>Deck_CanPlayCard\<close>, \<open>Deck_TestDiscard\<close>, \<open>Deck_TestHandle\<close>, \<open>Deck_Sort\<close>.
  \<^item> \<open>Scores\<close>, \<open>Deal_Context\<close>, \<open>Deal_Log\<close>, \<open>Deal_Generator\<close>: the score of a deal and of a tournament, the
    record \<open>tarot_context\<close> of a deal, its JSON log, dealing and deal files.
  \<^item> \<open>Engine\<close>, \<open>Playing_Table\<close>: the state machines of a deal (\<open>seq\<close>, the code's \<open>Sequence\<close>) and of a table;
    \<open>ExecuteRequest\<close> is the handler of all messages of the game, its cases are \<open>do_ack\<close>, \<open>do_card\<close> and so on.
    \<open>Deal_Replay\<close> has \<open>LoadGameDeal\<close>.
  \<^item> \<open>Unique_Ids\<close>, \<open>User_Lists\<close>, \<open>Lobby\<close>: numbers, users, and the lobby, whose handler is \<open>Lobby_Deliver\<close>.
  \<^item> \<open>Text_Util\<close>, \<open>Json_Values\<close>, \<open>Json_Reader\<close>, \<open>Json_Files\<close>, \<open>Configurations\<close>: the helpers of Util.cpp, documents
    and their text, the parser, JSON files on a \<open>disk\<close> that is a map from names to contents (shared by
    deal files and options), the option files.
  \<^item> \<open>Gcm\<close>, \<open>Aes\<close>, \<open>Protocol\<close>, \<open>Sessions\<close>: the authenticated encryption, the block cipher, the frames, the
    sessions of the server as reactions (\<open>server_event\<close>) to what the network does.
  \<^item> \<open>Script_Engine\<close>, \<open>Script_Functions\<close>, \<open>Player_Context\<close>, \<open>Bots\<close>: the wrapper of the interpreter and what it offers to
    scripts, what a client knows, the bots, whose handler is \<open>HandleRequest\<close>.
  \<^item> \<open>Web_Socket\<close>, \<open>Platform\<close>: the web socket client as reactions to completed operations; folders, archives,
    dumps, queues between threads and timers.

  \<^bold>\<open>Conventions.\<close> A class is a record of its members, a method takes the object last and returns it
  updated after its result. \<open>uint8_t\<close> and \<open>uint32_t\<close> members are naturals, \<open>int32_t\<close> members integers, and every operation that can
  leave the range wraps as the code does; bytes of the cryptography are words of eight bits, words of the block
  cipher words of 32 bits. A \<open>float\<close> or \<open>double\<close> is a rational (the sums of half points the game
  adds are exact in both; the parser rounds to 53 bits after each operation). The signed arithmetic of the scores is checked: a sum
  or product outside 32 bits is \<open>None\<close> (\<open>i32\<close>). What C++ leaves undefined is \<open>None\<close> (a
  parser result of its own in \<open>Json_Reader\<close>), so a theorem that says \<open>Some\<close> also says that it does not happen. Memory that is read before
  it is written, the random source of the library, the algorithm of \<open>std::sort\<close>, the clock, the interpreter and archives are
  arguments of the definitions that use them; those of a table (the shuffle, the seeds of the clock, the disk with the deal files,
  the home folder) are the record \<open>environment\<close>.

  \<^bold>\<open>Interfaces.\<close> The lobby is proved against three locales: \<open>id_pool\<close> (\<open>Unique_Ids\<close>), \<open>registry\<close>
  (\<open>User_Lists\<close>) and \<open>game_table\<close> (\<open>Lobby_Facts\<close>), each interpreted on the model of the class that
  provides it. Reachable tables, lobbies and servers are inductive predicates (\<open>reachable\<close>, \<open>lobby_reachable\<close>,
  \<open>server_reachable\<close>) over the handlers, and each level is proved to take only steps of the level
  below, so the properties of a table hold of the tables of a server fed with arbitrary bytes.

  \<^bold>\<open>Premise on the environment.\<close> The steps of tables, lobbies and servers are taken in environments that
  satisfy \<open>sound_environment\<close> (\<open>Engine_Facts\<close>), which has two parts. \<open>shuffle_permutes\<close> is what the standard
  says of \<open>std::shuffle\<close>. \<open>proper_deal_files\<close> says that every deal file on the disk that passes
  \<open>DealGenerator::IsValid\<close> holds the 78 cards once and names a seated first player: \<open>IsValid\<close> only counts
  cards, so this is a premise on the files and not a fact of the code, and the lemma \<open>doubled_deal_is_dealt\<close> shows
  a file with cards named twice that is dealt. \<open>reachable\<close> is \<open>reachable_with\<close> for this premise; the theorems
  on the 78 cards and on the awaited player are stated over \<open>reachable_with P\<close> with the premise written out.

  \<^bold>\<open>What is shown.\<close>

  \<^item> \<^emph>\<open>The game\<close> (\<open>Deck_Facts\<close>, \<open>Deck_Properties\<close>, \<open>Engine_Facts\<close>, \<open>Table_Facts\<close>, \<open>Table_Properties\<close>): the code plays exactly the rules of
    the game for cards and discards; when deal files are proper, in every reachable table the 78 cards are all there, only the client on the
    current seat can play and only a legal card, there always is one, and a phase ends only when all seats
    acknowledged it. Tricks are won by their leading card, auctions by the first highest bid.
  \<^item> \<^emph>\<open>The points\<close>: a deal has 91 points and three oudlers, the score is the account of the rules, written down
    independently (\<open>rule_account\<close>), without rounding or overflow, a tournament is zero-sum in each deal and in total, and a saved deal replays to the same points.
  \<^item> \<^emph>\<open>The server\<close> (\<open>Lobby_Facts\<close>, \<open>Lobby_Properties\<close>, \<open>Session_Properties\<close>): users, numbers and seats stay consistent, requests
    affect their sender only, nothing but the pass phrase opens a session, buffers keep their size.
  \<^item> \<^emph>\<open>Texts and files\<close>: round trips of decks, deals, documents and options; where the parser leaves its
    text and where a helper never returns.
  \<^item> \<^emph>\<open>Cryptography\<close> (\<open>Gcm_Facts\<close>, \<open>Gcm_Properties\<close>, \<open>Aes_Facts\<close>, \<open>Aes_Schedule\<close>, \<open>Aes_Properties\<close>, \<open>Protocol_Facts\<close>, \<open>Protocol_Properties\<close>): the table-driven
    code computes the standards, written out in \<open>Aes_Standard\<close> (FIPS 197), \<open>Gcm_Facts\<close> and \<open>Gcm_Properties\<close> (SP 800-38D), with
    the algebra of the field of 256 elements in \<open>Aes_Field\<close>; data sealed by the one on top of the other opens with its tag only; and
    \<open>Protocol.cpp\<close>, by comparing the tag with memory it never wrote, makes nothing of it.
  \<^item> \<^emph>\<open>The bots\<close> (\<open>Bot_Facts\<close>, \<open>Bot_Properties\<close>): whatever the script answers, what a bot sends is accepted by the engine; its
    own record follows the table's; no script is ever loaded.

  Lemmas without a number at the end of a theory state concrete misbehaviour the modelling
  showed: an index out of bounds, a partner who is forgotten, a request that is never answered.
  \<open>Table_Example\<close> drives a table from its creation to the first card; its states are the witnesses of
  the properties of tables, servers and bots.

  \<^bold>\<open>Bounds.\<close> Nothing is cut off by fuel. Loops over containers are folds or structural recursions; the
  others are recursive functions with a termination proof (blocks of the encryption, the parser on the rest
  of its text), or, where the code may loop for ever (\<open>ReplaceCharacter\<close>, \<open>Split\<close> with an empty
  delimiter), partial functions whose \<open>None\<close> is the loop. Sizes that the theorems assume come from the code: 40 deals of a tournament
  (\<open>MAX_NUMBER_OF_TURNS\<close>), buffers of a session, the lengths of the fields of a header, keys of 16, 24 or 32 bytes. The
  properties of tables hold for three, four and five players; the server creates tables of four.

  \<^bold>\<open>Not modelled.\<close> Sockets, threads, locks and partial reads: what arrives is a sequence of events,
  each handled to its end, as the server's loop does; logging; the rest of Util.cpp (processes, network
  addresses, memory use, dates, regular expressions, wide strings); pauses; what the user interface does with its timers; the
  interfaces IServer.h and IService.h, which have no code. Of
  the bundled libraries, the interpreter duktape and the archives of miniz are parameters, and of mbed TLS only what the
  program's frames run through is modelled: no TLS, no other mode of the cipher, no hardware path, no self test.
\<close>

end
